(* ===== verification/Prelude.thy ===== *)
theory Prelude
  imports Complex_Main "HOL-Library.Word" "HOL-Library.Sublist" "HOL-Library.AList"
    "HOL-Library.List_Lexorder" "HOL-Library.Char_ord"
    "HOL-Library.Code_Target_Nat"
begin

text \<open>
  What every component shares: Rust's \<^verbatim>\<open>Result\<close> as a sum with its early return, Rust strings
  as their UTF-8 bytes with the standard-library operations the sources call, and the generic
  lemmas the component proofs rest on.

  A Rust \<^verbatim>\<open>String\<close> is a \<^typ>\<open>string\<close> holding its UTF-8 bytes, one \<^typ>\<open>char\<close> per byte, so
  \<open>length\<close> is \<^verbatim>\<open>str::len\<close> and the byte-wise tests of the sources are tests on characters;
  \<open>chars\<close> decodes the bytes where the sources look at Unicode scalar values.
\<close>

named_theorems result_simps \<open>when a chain of fallible steps succeeds\<close>
named_theorems class_defs \<open>byte classes of identifiers\<close>
named_theorems wire_defs \<open>validators of the wire contract\<close>
named_theorems host_defs \<open>operations of the plugin host\<close>

section \<open>Results and early returns\<close>

type_synonym 'a res = "string + 'a"

abbreviation Err :: "'e \<Rightarrow> 'e + 'a" where "Err \<equiv> Inl"
abbreviation Ok :: "'a \<Rightarrow> 'e + 'a" where "Ok \<equiv> Inr"

text \<open>\<^verbatim>\<open>let x = r?; f(x)\<close>\<close>

fun rbind :: "'e + 'a \<Rightarrow> ('a \<Rightarrow> 'e + 'b) \<Rightarrow> 'e + 'b" where
  "rbind (Inl e) f = Inl e"
| "rbind (Inr x) f = f x"

text \<open>\<^verbatim>\<open>if bad { return Err(e) }\<close>\<close>

definition reject :: "bool \<Rightarrow> 'e \<Rightarrow> 'e + unit" where
  "reject bad e = (if bad then Inl e else Inr ())"

text \<open>\<^verbatim>\<open>a?; b?; ...; Ok(())\<close>: the first error, or success.\<close>

fun checks :: "('e + unit) list \<Rightarrow> 'e + unit" where
  "checks [] = Inr ()"
| "checks (r # rs) = (case r of Inl e \<Rightarrow> Inl e | Inr _ \<Rightarrow> checks rs)"

text \<open>\<^verbatim>\<open>for x in xs { f(x)?; }\<close>\<close>

definition for_each :: "('a \<Rightarrow> 'e + unit) \<Rightarrow> 'a list \<Rightarrow> 'e + unit" where
  "for_each f xs = checks (map f xs)"

text \<open>\<^verbatim>\<open>if let Some(x) = o { f(x)?; }\<close>\<close>

definition if_some :: "('a \<Rightarrow> 'e + unit) \<Rightarrow> 'a option \<Rightarrow> 'e + unit" where
  "if_some f o' = (case o' of None \<Rightarrow> Inr () | Some x \<Rightarrow> f x)"

definition ok_or :: "'e \<Rightarrow> 'a option \<Rightarrow> 'e + 'a" where
  "ok_or e o' = (case o' of None \<Rightarrow> Inl e | Some x \<Rightarrow> Inr x)"

definition map_err :: "('e \<Rightarrow> 'f) \<Rightarrow> 'e + 'a \<Rightarrow> 'f + 'a" where
  "map_err f r = (case r of Inl e \<Rightarrow> Inl (f e) | Inr x \<Rightarrow> Inr x)"

definition is_ok :: "'e + 'a \<Rightarrow> bool" where
  "is_ok r = (case r of Inl _ \<Rightarrow> False | Inr _ \<Rightarrow> True)"

definition ok_option :: "'e + 'a \<Rightarrow> 'a option" where
  "ok_option r = (case r of Inl _ \<Rightarrow> None | Inr x \<Rightarrow> Some x)"

definition unwrap_or :: "'a \<Rightarrow> 'a option \<Rightarrow> 'a" where
  "unwrap_or d o' = (case o' of None \<Rightarrow> d | Some x \<Rightarrow> x)"

lemma unwrap_or_simps [simp]: "unwrap_or d None = d" "unwrap_or d (Some x) = x"
  by (simp_all add: unwrap_or_def)

lemma rbind_Ok [result_simps]: "rbind r f = Ok y \<longleftrightarrow> (\<exists>x. r = Ok x \<and> f x = Ok y)"
  by (cases r) auto

lemma rbind_cong [fundef_cong]:
  "r = r' \<Longrightarrow> (\<And>x. r' = Ok x \<Longrightarrow> f x = f' x) \<Longrightarrow> rbind r f = rbind r' f'"
  by (cases r') auto

lemma reject_Ok [result_simps]: "reject b e = Ok u \<longleftrightarrow> \<not> b"
  by (simp add: reject_def)

lemma reject_simps [simp]: "reject True e = Err e" "reject False e = Ok ()"
  by (simp_all add: reject_def)

lemma checks_Ok [result_simps]: "checks rs = Ok u \<longleftrightarrow> (\<forall>r \<in> set rs. r = Ok ())"
  by (induction rs) (auto split: sum.splits)

text \<open>
  Success of a chain is read through \<open>checks_Ok\<close>; the defining equation is used only to evaluate a
  chain on given input.
\<close>

declare checks.simps(2) [simp del]

lemma checks_Cons [simp]: "checks (r # rs) = Ok u \<longleftrightarrow> r = Ok () \<and> checks rs = Ok ()"
  by (simp add: checks_Ok)

lemma checks_append: "checks (xs @ ys) = rbind (checks xs) (\<lambda>_. checks ys)"
  by (induction xs) (auto simp: checks.simps(2) split: sum.splits)

lemma for_each_Ok [result_simps]: "for_each f xs = Ok u \<longleftrightarrow> (\<forall>x \<in> set xs. f x = Ok ())"
  by (auto simp: for_each_def checks_Ok)

lemma if_some_Ok [result_simps]: "if_some f o' = Ok u \<longleftrightarrow> (\<forall>x. o' = Some x \<longrightarrow> f x = Ok ())"
  by (cases o') (auto simp: if_some_def)

lemma ok_or_Ok [result_simps]: "ok_or e o' = Ok x \<longleftrightarrow> o' = Some x"
  by (cases o') (auto simp: ok_or_def)

lemma map_err_Ok [result_simps]: "map_err f r = Ok x \<longleftrightarrow> r = Ok x"
  by (cases r) (auto simp: map_err_def)

lemma is_ok_iff [result_simps]: "is_ok r \<longleftrightarrow> (\<exists>x. r = Ok x)"
  by (cases r) (auto simp: is_ok_def)

lemma ok_option_Some [result_simps]: "ok_option r = Some x \<longleftrightarrow> r = Ok x"
  by (cases r) (auto simp: ok_option_def)

section \<open>Bytes and Unicode scalar values\<close>

abbreviation byte :: "char \<Rightarrow> nat" where "byte c \<equiv> of_char c"

definition is_ascii_digit :: "char \<Rightarrow> bool" where
  "is_ascii_digit c \<longleftrightarrow> 48 \<le> byte c \<and> byte c \<le> 57"

definition is_ascii_lowercase :: "char \<Rightarrow> bool" where
  "is_ascii_lowercase c \<longleftrightarrow> 97 \<le> byte c \<and> byte c \<le> 122"

definition is_ascii_uppercase :: "char \<Rightarrow> bool" where
  "is_ascii_uppercase c \<longleftrightarrow> 65 \<le> byte c \<and> byte c \<le> 90"

definition is_ascii_alphanumeric :: "char \<Rightarrow> bool" where
  "is_ascii_alphanumeric c \<longleftrightarrow> is_ascii_digit c \<or> is_ascii_lowercase c \<or> is_ascii_uppercase c"

text \<open>\<^verbatim>\<open>u8::is_ascii_whitespace\<close>: space, tab, line feed, form feed, carriage return.\<close>

definition is_ascii_whitespace :: "char \<Rightarrow> bool" where
  "is_ascii_whitespace c \<longleftrightarrow> byte c \<in> {32, 9, 10, 12, 13}"

definition to_ascii_lower :: "char \<Rightarrow> char" where
  "to_ascii_lower c = (if is_ascii_uppercase c then char_of (byte c + 32) else c)"

definition to_ascii_upper :: "char \<Rightarrow> char" where
  "to_ascii_upper c = (if is_ascii_lowercase c then char_of (byte c - 32) else c)"

definition to_ascii_lowercase :: "string \<Rightarrow> string" where
  "to_ascii_lowercase s = map to_ascii_lower s"

definition to_ascii_uppercase :: "string \<Rightarrow> string" where
  "to_ascii_uppercase s = map to_ascii_upper s"

text \<open>
  The scalar values of a string: how many bytes a lead byte announces, the bits it carries, and
  six more bits from each continuation byte. Exact on well-formed UTF-8, the only content a Rust
  string can have.
\<close>

definition utf8_width :: "char \<Rightarrow> nat" where
  "utf8_width c = (if byte c < 192 then 1 else if byte c < 224 then 2 else if byte c < 240 then 3 else 4)"

definition lead_bits :: "char \<Rightarrow> nat" where
  "lead_bits c = (if byte c < 192 then byte c else if byte c < 224 then byte c - 192
     else if byte c < 240 then byte c - 224 else byte c - 240)"

fun chars :: "string \<Rightarrow> nat list" where
  "chars [] = []"
| "chars (c # cs) = foldl (\<lambda>a d. a * 64 + (byte d - 128)) (lead_bits c) (take (utf8_width c - 1) cs)
     # chars (drop (utf8_width c - 1) cs)"

definition utf8_char :: "nat \<Rightarrow> string" where
  "utf8_char n =
     (if n < 128 then [char_of n]
      else if n < 2048 then [char_of (192 + n div 64), char_of (128 + n mod 64)]
      else if n < 65536 then [char_of (224 + n div 4096), char_of (128 + n div 64 mod 64), char_of (128 + n mod 64)]
      else [char_of (240 + n div 262144), char_of (128 + n div 4096 mod 64),
            char_of (128 + n div 64 mod 64), char_of (128 + n mod 64)])"

text \<open>\<^verbatim>\<open>char::is_control\<close> (Unicode category Cc) and \<^verbatim>\<open>char::is_whitespace\<close> (White_Space).\<close>

definition is_control :: "nat \<Rightarrow> bool" where
  "is_control n \<longleftrightarrow> n < 32 \<or> (127 \<le> n \<and> n < 160)"

definition is_whitespace :: "nat \<Rightarrow> bool" where
  "is_whitespace n \<longleftrightarrow> (9 \<le> n \<and> n \<le> 13) \<or> (8192 \<le> n \<and> n \<le> 8202)
     \<or> n \<in> {32, 133, 160, 5760, 8232, 8233, 8239, 8287, 12288}"

definition strip :: "nat list \<Rightarrow> nat list" where
  "strip xs = rev (dropWhile is_whitespace (rev (dropWhile is_whitespace xs)))"

definition trim :: "string \<Rightarrow> string" where
  "trim s = concat (map utf8_char (strip (chars s)))"

definition has_control :: "string \<Rightarrow> bool" where
  "has_control s = list_ex is_control (chars s)"

text \<open>
  \<^verbatim>\<open>str::from_utf8(..).is_ok()\<close>: well-formed UTF-8, without overlong forms, surrogates or values above
  U+10FFFF.
\<close>

definition utf8_tail :: "char \<Rightarrow> nat option" where
  "utf8_tail c = (let b = byte c in
     if b < 128 then Some 0 else if 194 \<le> b \<and> b < 224 then Some 1
     else if 224 \<le> b \<and> b < 240 then Some 2 else if 240 \<le> b \<and> b < 245 then Some 3 else None)"

definition utf8_second :: "char \<Rightarrow> char \<Rightarrow> bool" where
  "utf8_second c d \<longleftrightarrow>
     (byte c = 224 \<longrightarrow> 160 \<le> byte d) \<and> (byte c = 237 \<longrightarrow> byte d < 160)
     \<and> (byte c = 240 \<longrightarrow> 144 \<le> byte d) \<and> (byte c = 244 \<longrightarrow> byte d < 144)"

fun from_utf8_ok :: "string \<Rightarrow> bool" where
  "from_utf8_ok [] = True"
| "from_utf8_ok (c # cs) = (case utf8_tail c of None \<Rightarrow> False
     | Some k \<Rightarrow> k \<le> length cs
         \<and> list_all (\<lambda>d. 128 \<le> byte d \<and> byte d < 192) (take k cs)
         \<and> (k = 0 \<or> utf8_second c (hd cs))
         \<and> from_utf8_ok (drop k cs))"

section \<open>Operations on strings\<close>

text \<open>\<^verbatim>\<open>str::split\<close> by a set of characters: the pieces between them, at least one.\<close>

fun split_on :: "(char \<Rightarrow> bool) \<Rightarrow> string \<Rightarrow> string list" where
  "split_on p [] = [[]]"
| "split_on p (c # cs) =
     (if p c then [] # split_on p cs
      else (case split_on p cs of [] \<Rightarrow> [[c]] | w # ws \<Rightarrow> (c # w) # ws))"

text \<open>\<^verbatim>\<open>str::split_once\<close>: what is before and after the first occurrence.\<close>

fun split_once :: "string \<Rightarrow> string \<Rightarrow> (string \<times> string) option" where
  "split_once p [] = (if p = [] then Some ([], []) else None)"
| "split_once p (c # cs) =
     (if prefix p (c # cs) then Some ([], drop (length p) (c # cs))
      else map_option (\<lambda>(a, b). (c # a, b)) (split_once p cs))"

definition contains_str :: "string \<Rightarrow> string \<Rightarrow> bool" where
  "contains_str p s \<longleftrightarrow> split_once p s \<noteq> None"

definition contains_char :: "char \<Rightarrow> string \<Rightarrow> bool" where
  "contains_char c s = list_ex (\<lambda>d. d = c) s"

definition strip_prefix :: "string \<Rightarrow> string \<Rightarrow> string option" where
  "strip_prefix p s = (if prefix p s then Some (drop (length p) s) else None)"

definition strip_suffix :: "string \<Rightarrow> string \<Rightarrow> string option" where
  "strip_suffix p s = (if suffix p s then Some (take (length s - length p) s) else None)"

definition trim_end_matches :: "char \<Rightarrow> string \<Rightarrow> string" where
  "trim_end_matches c s = rev (dropWhile (\<lambda>d. d = c) (rev s))"

definition ends_with_char :: "char \<Rightarrow> string \<Rightarrow> bool" where
  "ends_with_char c s \<longleftrightarrow> s \<noteq> [] \<and> last s = c"

definition starts_with_char :: "char \<Rightarrow> string \<Rightarrow> bool" where
  "starts_with_char c s \<longleftrightarrow> s \<noteq> [] \<and> hd s = c"

text \<open>Decimal rendering of an unsigned integer, as \<^verbatim>\<open>u64::to_string\<close>.\<close>

fun decimal :: "nat \<Rightarrow> string" where
  "decimal n = (if n < 10 then [char_of (48 + n)] else decimal (n div 10) @ [char_of (48 + n mod 10)])"

declare decimal.simps [simp del]

lemma split_on_not_Nil [simp]: "split_on p s \<noteq> []"
  by (induction s) (auto split: list.splits)

lemma split_on_pieces: "w \<in> set (split_on p s) \<Longrightarrow> c \<in> set w \<Longrightarrow> \<not> p c"
proof (induction s arbitrary: w)
  case (Cons d ds)
  then show ?case by (cases "split_on p ds") (fastforce split: if_splits)+
qed simp

lemma split_on_set: "w \<in> set (split_on p s) \<Longrightarrow> set w \<subseteq> set s"
proof (induction s arbitrary: w)
  case (Cons d ds)
  then show ?case by (cases "split_on p ds") (fastforce split: if_splits)+
qed simp

lemma split_on_covers: "c \<in> set s \<Longrightarrow> \<not> p c \<Longrightarrow> \<exists>w \<in> set (split_on p s). c \<in> set w"
proof (induction s)
  case (Cons d ds)
  then show ?case by (cases "split_on p ds") (auto split: list.splits)
qed simp

lemma split_once_Some: "split_once p s = Some (a, b) \<Longrightarrow> s = a @ p @ b"
proof (induction s arbitrary: a b)
  case (Cons c cs)
  then show ?case by (auto simp: prefix_def split: if_splits)
qed (simp split: if_splits)

lemma split_once_None: "split_once p s = None \<Longrightarrow> s \<noteq> a @ p @ b"
proof (induction s arbitrary: a)
  case Nil
  then show ?case by (simp split: if_splits)
next
  case (Cons c cs)
  then show ?case by (cases a) (auto simp: prefix_def split: if_splits)
qed

lemma contains_str_iff: "contains_str p s \<longleftrightarrow> sublist p s"
proof (cases "split_once p s")
  case None
  then show ?thesis using split_once_None [OF None] by (simp add: contains_str_def sublist_def)
next
  case (Some ab)
  then have "s = fst ab @ p @ snd ab" by (cases ab) (simp add: split_once_Some)
  with Some show ?thesis by (auto simp: contains_str_def)
qed

lemma contains_char_iff [simp]: "contains_char c s \<longleftrightarrow> c \<in> set s"
  by (auto simp: contains_char_def list_ex_iff)

lemma strip_prefix_Some [result_simps]: "strip_prefix p s = Some r \<longleftrightarrow> s = p @ r"
  by (auto simp: strip_prefix_def prefix_def)

lemma strip_suffix_Some [result_simps]: "strip_suffix p s = Some r \<longleftrightarrow> s = r @ p"
  by (auto simp: strip_suffix_def suffix_def)

section \<open>Maps built entry by entry\<close>

text \<open>\<^verbatim>\<open>for (k, v) in entries { map.insert(k, f(&k, v)?); }\<close>\<close>

fun insert_all :: "('k \<Rightarrow> 'v \<Rightarrow> 'e + 'w) \<Rightarrow> ('k \<times> 'v) list \<Rightarrow> ('k \<times> 'w) list \<Rightarrow> 'e + ('k \<times> 'w) list" where
  "insert_all f [] acc = Inr acc"
| "insert_all f ((k, v) # es) acc = rbind (f k v) (\<lambda>w. insert_all f es (AList.update k w acc))"

lemma insert_all_entries:
  "insert_all f es acc = Ok m \<Longrightarrow> map_of m k = Some w
     \<Longrightarrow> map_of acc k = Some w \<or> (\<exists>v. (k, v) \<in> set es \<and> f k v = Ok w)"
proof (induction es arbitrary: acc)
  case (Cons e es)
  obtain l v where e: "e = (l, v)" by (cases e)
  then obtain u where u: "f l v = Ok u" "insert_all f es (AList.update l u acc) = Ok m"
    using Cons.prems by (auto simp: rbind_Ok)
  then have "map_of (AList.update l u acc) k = Some w \<or> (\<exists>v. (k, v) \<in> set es \<and> f k v = Ok w)"
    using Cons by blast
  with e u show ?case by (auto simp: update_conv' split: if_splits)
qed simp

lemma insert_all_keys:
  "insert_all f es acc = Ok m \<Longrightarrow> fst ` set m = fst ` set acc \<union> fst ` set es"
proof (induction es arbitrary: acc)
  case (Cons e es)
  obtain l v where "e = (l, v)" by (cases e)
  then obtain w where "insert_all f es (AList.update l w acc) = Ok m" using Cons.prems by (auto simp: rbind_Ok)
  from Cons.IH [OF this] \<open>e = (l, v)\<close> show ?case by (auto simp: dom_update)
qed simp

lemma insert_all_ok: "insert_all f es acc = Ok m \<Longrightarrow> (k, v) \<in> set es \<Longrightarrow> \<exists>w. f k v = Ok w"
proof (induction es arbitrary: acc)
  case (Cons e es)
  obtain l u where "e = (l, u)" by (cases e)
  with Cons show ?case by (auto simp: rbind_Ok)
qed simp

section \<open>Identifiers over a byte class\<close>

text \<open>
  The identifiers of the sources all have one shape: a bounded non-empty string over a byte
  class. The contract is stated once; each validator interprets it.
\<close>

locale byte_class =
  fixes accepts :: "string \<Rightarrow> bool"
    and limit :: nat
    and ok_byte :: "char \<Rightarrow> bool"
  assumes accepts_nonempty: "accepts s \<Longrightarrow> s \<noteq> []"
    and accepts_bounded: "accepts s \<Longrightarrow> length s \<le> limit"
    and accepts_bytes: "accepts s \<Longrightarrow> list_all ok_byte s"
begin

lemma excludes: "accepts s \<Longrightarrow> \<not> ok_byte c \<Longrightarrow> c \<notin> set s"
  using accepts_bytes by (auto simp: list_all_iff)

lemma size_range: "accepts s \<Longrightarrow> 1 \<le> length s \<and> length s \<le> limit"
  using accepts_nonempty accepts_bounded by (cases s) fastforce+

end

text \<open>The class of wire tokens: \<^verbatim>\<open>is_ascii_alphanumeric() || b"_.:-".contains(&byte)\<close>.\<close>

definition token_byte :: "char \<Rightarrow> bool" where
  "token_byte c \<longleftrightarrow> is_ascii_alphanumeric c \<or> c \<in> set ''_.:-''"

lemmas ascii_defs = is_ascii_alphanumeric_def is_ascii_digit_def is_ascii_lowercase_def is_ascii_uppercase_def

declare token_byte_def [class_defs]

section \<open>Time\<close>

text \<open>Instants and durations are nanoseconds.\<close>

definition seconds :: "nat \<Rightarrow> nat" where "seconds n = n * 1000000000"
definition milliseconds :: "nat \<Rightarrow> nat" where "milliseconds n = n * 1000000"

end
