(* ===== verification/Json.thy ===== *)
theory Json
  imports Prelude
begin

text \<open>
  \<^verbatim>\<open>serde_json::Value\<close> as the sources see it: the constructors they match on and the accessors
  they call. An object is its list of members, in the map's order. A finite \<^verbatim>\<open>f64\<close> is the
  rational it denotes, so the two zeros are one value, as they are to \<^verbatim>\<open>==\<close>. Text to value and
  back is the serialiser's work and stays a parameter of the components that use it.

  The bounded traversals of the sources (the host's and the worker's) share one contract, the
  locale \<open>budgeted_visit\<close>: a counter threaded through a depth-first walk accepts exactly the values
  whose depth, node count and keys are within bounds.
\<close>

section \<open>Values\<close>

datatype f64 = Finite rat | Infinite bool | NaN

definition is_finite :: "f64 \<Rightarrow> bool" where
  "is_finite x = (case x of Finite _ \<Rightarrow> True | _ \<Rightarrow> False)"

datatype number = NInt int | NFloat f64

datatype json =
    JNull
  | JBool bool
  | JNumber number
  | JString string
  | JArray "json list"
  | JObject "(string \<times> json) list"

definition i64_min :: int where "i64_min = - (2 ^ 63)"
definition i64_max :: int where "i64_max = 2 ^ 63 - 1"
definition u64_max :: nat where "u64_max = 2 ^ 64 - 1"

fun as_object :: "json \<Rightarrow> (string \<times> json) list option" where
  "as_object (JObject fs) = Some fs" | "as_object _ = None"

fun as_array :: "json \<Rightarrow> json list option" where
  "as_array (JArray vs) = Some vs" | "as_array _ = None"

fun as_str :: "json \<Rightarrow> string option" where
  "as_str (JString s) = Some s" | "as_str _ = None"

fun as_bool :: "json \<Rightarrow> bool option" where
  "as_bool (JBool b) = Some b" | "as_bool _ = None"

fun as_i64 :: "json \<Rightarrow> int option" where
  "as_i64 (JNumber (NInt n)) = (if i64_min \<le> n \<and> n \<le> i64_max then Some n else None)"
| "as_i64 _ = None"

definition is_object :: "json \<Rightarrow> bool" where "is_object v \<longleftrightarrow> as_object v \<noteq> None"
definition is_null :: "json \<Rightarrow> bool" where "is_null v \<longleftrightarrow> v = JNull"

text \<open>\<^verbatim>\<open>Value::get(key)\<close>: the member of an object, nothing on any other value.\<close>

definition jget :: "string \<Rightarrow> json \<Rightarrow> json option" where
  "jget k v = (case as_object v of None \<Rightarrow> None | Some fs \<Rightarrow> map_of fs k)"

lemma is_object_iff: "is_object v \<longleftrightarrow> (\<exists>fs. v = JObject fs)"
  by (cases v) (auto simp: is_object_def)

lemma as_str_Some [result_simps]: "as_str v = Some s \<longleftrightarrow> v = JString s"
  by (cases v) auto

lemma as_bool_Some [result_simps]: "as_bool v = Some b \<longleftrightarrow> v = JBool b"
  by (cases v) auto

lemma as_object_Some [result_simps]: "as_object v = Some fs \<longleftrightarrow> v = JObject fs"
  by (cases v) auto

lemma as_i64_range: "as_i64 v = Some n \<Longrightarrow> i64_min \<le> n \<and> n \<le> i64_max"
  by (cases v rule: as_i64.cases) (auto split: if_splits)

section \<open>Shape of a value\<close>

text \<open>The members of a container, each with its key if it has one.\<close>

fun entries :: "json \<Rightarrow> (string option \<times> json) list" where
  "entries (JArray vs) = map (\<lambda>v. (None, v)) vs"
| "entries (JObject fs) = map (\<lambda>(k, v). (Some k, v)) fs"
| "entries _ = []"

lemma entries_smaller: "(k, x) \<in> set (entries v) \<Longrightarrow> size x < size v"
proof (cases v)
  case (JArray vs)
  moreover assume "(k, x) \<in> set (entries v)"
  ultimately have "x \<in> set vs" by auto
  then have "size x \<le> size_list size vs" by (simp add: size_list_estimation')
  then show ?thesis using JArray by simp
next
  case (JObject fs)
  moreover assume "(k, x) \<in> set (entries v)"
  ultimately obtain l where l: "(l, x) \<in> set fs" by auto
  then have "size x \<le> size_list (size_prod (\<lambda>_. 0) size) fs"
    by (intro size_list_estimation' [OF l]) simp
  then show ?thesis using JObject by simp
qed auto

lemma snd_entries_smaller: "e \<in> set (entries v) \<Longrightarrow> size (snd e) < size v"
  using entries_smaller [of "fst e" "snd e" v] by simp

function jnodes :: "json \<Rightarrow> nat" where
  "jnodes v = Suc (sum_list (map (\<lambda>e. jnodes (snd e)) (entries v)))"
  by pat_completeness auto
termination by (relation "measure size") (auto simp: snd_entries_smaller)

function jdepth :: "json \<Rightarrow> nat" where
  "jdepth v = foldr (\<lambda>e m. max (Suc (jdepth (snd e))) m) (entries v) 0"
  by pat_completeness auto
termination by (relation "measure size") (auto simp: snd_entries_smaller)

function keys_ok :: "(string \<Rightarrow> bool) \<Rightarrow> json \<Rightarrow> bool" where
  "keys_ok p v = list_all (\<lambda>e. pred_option p (fst e) \<and> keys_ok p (snd e)) (entries v)"
  by pat_completeness auto
termination by (relation "measure (size \<circ> snd)") (auto simp: snd_entries_smaller)

declare jnodes.simps [simp del] jdepth.simps [simp del] keys_ok.simps [simp del]

lemma keys_ok_cases:
  "keys_ok p (JObject fs) = list_all (\<lambda>(k, v). p k \<and> keys_ok p v) fs"
  "keys_ok p (JArray vs) = list_all (keys_ok p) vs"
  "entries v = [] \<Longrightarrow> keys_ok p v"
  by (simp_all add: keys_ok.simps [of p "JObject fs"] keys_ok.simps [of p "JArray vs"] keys_ok.simps [of p v]
      list_all_iff case_prod_beta)

lemma fold_max_le: "foldr (\<lambda>e m. max (f e) m) es 0 \<le> (b::nat) \<longleftrightarrow> (\<forall>e \<in> set es. f e \<le> b)"
  by (induction es) auto

lemma jdepth_le: "jdepth v \<le> b \<longleftrightarrow> (\<forall>e \<in> set (entries v). Suc (jdepth (snd e)) \<le> b)"
  by (subst jdepth.simps) (rule fold_max_le)

section \<open>Budgeted traversal\<close>

text \<open>
  The loop over the members of a container: check the key, visit the member, carry the counter.
\<close>

fun visit_entries :: "(string \<Rightarrow> bool) \<Rightarrow> (json \<Rightarrow> nat \<Rightarrow> nat option) \<Rightarrow>
    (string option \<times> json) list \<Rightarrow> nat \<Rightarrow> nat option" where
  "visit_entries p f [] n = Some n"
| "visit_entries p f ((k, v) # es) n =
     (if pred_option p k
      then (case f v n of None \<Rightarrow> None | Some m \<Rightarrow> visit_entries p f es m) else None)"

lemma visit_entries_Some:
  assumes "\<And>e m n. e \<in> set es \<Longrightarrow> f (snd e) n = Some m \<longleftrightarrow> ok e \<and> n + w e \<le> N \<and> m = n + w e"
    and "n \<le> N"
  shows "visit_entries p f es n = Some m \<longleftrightarrow>
    (\<forall>e \<in> set es. pred_option p (fst e) \<and> ok e) \<and> n + sum_list (map w es) \<le> N \<and> m = n + sum_list (map w es)"
  using assms
proof (induction es arbitrary: n)
  case (Cons e es)
  obtain k v where e: "e = (k, v)" by (cases e)
  have head: "f v n = Some m \<longleftrightarrow> ok e \<and> n + w e \<le> N \<and> m = n + w e" for m
    using Cons.prems(1) [of e n m] e by simp
  show ?case
  proof (cases "f v n")
    case None
    then have "\<not> (ok e \<and> n + w e \<le> N)" using head by auto
    then show ?thesis using None e by auto
  next
    case (Some m')
    then have "ok e" "n + w e \<le> N" "m' = n + w e" using head by auto
    moreover have "visit_entries p f es m' = Some m \<longleftrightarrow>
      (\<forall>e \<in> set es. pred_option p (fst e) \<and> ok e) \<and> m' + sum_list (map w es) \<le> N
        \<and> m = m' + sum_list (map w es)"
      using Cons.prems(1) \<open>n + w e \<le> N\<close> \<open>m' = n + w e\<close> by (intro Cons.IH) auto
    ultimately show ?thesis using Some e by (auto simp: add.assoc)
  qed
qed auto

locale budgeted_visit =
  fixes visit :: "json \<Rightarrow> nat \<Rightarrow> nat \<Rightarrow> nat option"
    and max_depth max_nodes :: nat
    and ok_key :: "string \<Rightarrow> bool"
  assumes visit_unfold: "visit v d n =
    (if max_depth < d \<or> max_nodes < Suc n then None
     else visit_entries ok_key (\<lambda>x m. visit x (Suc d) m) (entries v) (Suc n))"
begin

lemma visit_Some:
  "visit v d n = Some m \<longleftrightarrow>
     d + jdepth v \<le> max_depth \<and> keys_ok ok_key v \<and> n + jnodes v \<le> max_nodes \<and> m = n + jnodes v"
proof (induction v arbitrary: d n m rule: jnodes.induct)
  case (1 v)
  show ?case
  proof (cases "max_depth < d \<or> max_nodes < Suc n")
    case True
    then show ?thesis using visit_unfold [of v d n] by (auto simp: jnodes.simps [of v])
  next
    case False
    define ok where "ok e \<longleftrightarrow> Suc d + jdepth (snd e) \<le> max_depth \<and> keys_ok ok_key (snd e)"
      for e :: "string option \<times> json"
    have "visit_entries ok_key (\<lambda>x m. visit x (Suc d) m) (entries v) (Suc n) = Some m \<longleftrightarrow>
      (\<forall>e \<in> set (entries v). pred_option ok_key (fst e) \<and> ok e)
        \<and> Suc n + sum_list (map (\<lambda>e. jnodes (snd e)) (entries v)) \<le> max_nodes
        \<and> m = Suc n + sum_list (map (\<lambda>e. jnodes (snd e)) (entries v))"
      using False by (intro visit_entries_Some) (auto simp: 1 ok_def)
    moreover have "d + jdepth v \<le> max_depth \<longleftrightarrow> (\<forall>e \<in> set (entries v). Suc d + jdepth (snd e) \<le> max_depth)"
      using False jdepth_le [of v "max_depth - d"] by (auto simp: le_diff_conv2 Suc_le_eq less_diff_conv algebra_simps)
    ultimately show ?thesis
      using False visit_unfold [of v d n]
      by (auto simp: jnodes.simps [of v] keys_ok.simps [of ok_key v] list_all_iff ok_def)
  qed
qed

corollary visit_ok: "visit v 0 0 \<noteq> None \<longleftrightarrow>
   jdepth v \<le> max_depth \<and> jnodes v \<le> max_nodes \<and> keys_ok ok_key v"
  using visit_Some [of v 0 0] by (auto simp: not_None_eq)

end

end
