(* ===== verification/Wire.thy ===== *)
theory Wire
  imports Json
begin

text \<open>
  The data of the host's worker protocol, \<^verbatim>\<open>src-tauri/src/plugins/protocol.rs\<close>: messages in both
  directions, dashboard contributions, compact views (\<^verbatim>\<open>presentation.rs\<close>), settings choices
  (\<^verbatim>\<open>settings_choices.rs\<close>) and the package manifest. Variants and fields follow the source; a
  \<^verbatim>\<open>BTreeMap\<close> is its list of entries.

  \<open>ext\<close> gathers what the sources ask of third-party crates: serde's encoders and decoders for
  these types, URL parsing, semantic versions and header values. It is an argument of every
  operation that uses it; an error of such a call is the text it carries.
\<close>

section \<open>Limits\<close>

definition PROTOCOL_VERSION :: "32 word" where "PROTOCOL_VERSION = 1"
definition HOST_API_VERSION :: string where "HOST_API_VERSION = ''1.10.0''"
definition MANIFEST_SCHEMA_VERSION :: "32 word" where "MANIFEST_SCHEMA_VERSION = 1"
definition HOST_MAX_FRAME_BYTES :: nat where "HOST_MAX_FRAME_BYTES = 64 * 1024"
definition MAX_CONTRIBUTIONS :: nat where "MAX_CONTRIBUTIONS = 128"
definition MAX_ACTION_PARAMS_BYTES :: nat where "MAX_ACTION_PARAMS_BYTES = 4 * 1024"
definition MAX_ACTION_RESULT_BYTES :: nat where "MAX_ACTION_RESULT_BYTES = 16 * 1024"
definition MAX_ACTION_DEADLINE_MS :: nat where "MAX_ACTION_DEADLINE_MS = 60000"
definition MAX_SCALED_COEFFICIENT :: int where "MAX_SCALED_COEFFICIENT = 1000000000000000"
definition MAX_MANIFEST_BYTES :: nat where "MAX_MANIFEST_BYTES = 64 * 1024"
definition MAX_CONFIGURATION_BYTES :: nat where "MAX_CONFIGURATION_BYTES = 32 * 1024"
definition MAX_NOTIFICATION_TITLE_BYTES :: nat where "MAX_NOTIFICATION_TITLE_BYTES = 128"
definition MAX_NOTIFICATION_BODY_BYTES :: nat where "MAX_NOTIFICATION_BODY_BYTES = 1024"
definition MAX_JSON_DEPTH :: nat where "MAX_JSON_DEPTH = 8"
definition MAX_JSON_NODES :: nat where "MAX_JSON_NODES = 512"
definition MAX_INVENTORY_FILES :: nat where "MAX_INVENTORY_FILES = 128"
definition MAX_INVENTORY_BYTES :: nat where "MAX_INVENTORY_BYTES = 512 * 1024 * 1024"

definition DESKTOP_TARGETS :: "string list" where
  "DESKTOP_TARGETS =
    [''aarch64-apple-darwin'', ''x86_64-apple-darwin'', ''aarch64-unknown-linux-gnu'',
     ''x86_64-unknown-linux-gnu'', ''aarch64-pc-windows-msvc'', ''x86_64-pc-windows-msvc'']"

lemmas limit_defs =
  HOST_MAX_FRAME_BYTES_def MAX_CONTRIBUTIONS_def MAX_ACTION_PARAMS_BYTES_def
  MAX_ACTION_RESULT_BYTES_def MAX_ACTION_DEADLINE_MS_def MAX_SCALED_COEFFICIENT_def
  MAX_MANIFEST_BYTES_def MAX_CONFIGURATION_BYTES_def MAX_NOTIFICATION_TITLE_BYTES_def
  MAX_NOTIFICATION_BODY_BYTES_def MAX_JSON_DEPTH_def MAX_JSON_NODES_def
  MAX_INVENTORY_FILES_def MAX_INVENTORY_BYTES_def

section \<open>Messages\<close>

record worker_configuration =
  wc_revision :: string
  wc_values :: json
  wc_secrets :: "(string \<times> string) list"

datatype host_message =
    Hello "32 word" string string \<comment> \<open>protocol version, host API version, plugin id\<close>
  | Configuration worker_configuration
  | Action string string json "64 word" \<comment> \<open>request id, action id, params, deadline in ms\<close>
  | Cancel string
  | Shutdown

datatype status_tone = Neutral | Success | Warning | Error

text \<open>The numeric control's fields, in the source's order after id and title.\<close>

record number_input =
  ni_state_id :: "string option"
  ni_action_id :: string
  ni_label :: string
  ni_unit :: "string option"
  ni_input_revision :: string
  ni_value_scaled :: int
  ni_min_scaled :: int
  ni_max_scaled :: int
  ni_step_scaled :: int
  ni_decimal_places :: "8 word"

datatype dashboard_contribution =
    CText string string string \<comment> \<open>id, title, text\<close>
  | CMetric string string f64 "string option" \<comment> \<open>id, title, value, unit\<close>
  | CStatus string string string status_tone \<comment> \<open>id, title, value, tone\<close>
  | CAction string string "string option" string string json
      \<comment> \<open>id, title, state id, action id, label, params\<close>
  | CNumberInput string string number_input \<comment> \<open>id, title, the rest\<close>

record number_input_grant =
  g_id :: string
  g_action_id :: string
  g_unit :: "string option"
  g_input_revision :: string
  g_min_scaled :: int
  g_max_scaled :: int
  g_step_scaled :: int
  g_decimal_places :: "8 word"

datatype surface = Header | Home | Sidebar

datatype icon = IHome | IPlug | ILight | IWasher | IDryer | IDishwasher | IThermometer | IGauge
  | IBlinds | IPlay | ICloud | ILock

datatype control_state = On | Off | Unavailable

datatype lock_state = Locked | Unlocked | Locking | Unlocking | Jammed | LockUnknown | LockUnavailable

record action_reference =
  ar_id :: string
  ar_label :: string

record row =
  row_id :: string
  row_title :: string
  row_value :: string
  row_actions :: "action_reference list"
  row_input :: "string option"

record forecast =
  fc_datetime :: string
  fc_condition :: string
  fc_temperature :: string
  fc_templow :: "string option"

datatype presentation =
    PControl string surface "16 word" string icon control_state "lock_state option" "string option" "string option"
      \<comment> \<open>id, surface, order, title, icon, state, lock state, state id, action\<close>
  | PGroup string surface "16 word" string icon bool "row list"
      \<comment> \<open>id, surface, order, title, icon, collapsed, rows\<close>
  | PSummary string surface "16 word" string icon bool bool string "action_reference list"
      \<comment> \<open>id, surface, order, title, icon, visible, active, text, actions\<close>
  | PWeather string surface "16 word" string string string string "forecast list"
      \<comment> \<open>id, surface, order, title, condition, temperature, unit, forecast\<close>
  | PConnection string string bool \<comment> \<open>id, title, connected\<close>

datatype http_media_kind = Video | Jpeg | Png | Webp

definition is_video :: "http_media_kind \<Rightarrow> bool" where "is_video k \<longleftrightarrow> k = Video"

datatype worker_message =
    Ready "32 word" string string \<comment> \<open>protocol version, host API version, plugin id\<close>
  | ConfigurationReady string
  | Contributions "dashboard_contribution list" "presentation list"
  | HttpVideo string string string http_media_kind "string option" \<comment> \<open>id, url, title, kind, cooldown id\<close>
  | HttpLive string string string \<comment> \<open>id, url, title\<close>
  | MqttLive string string string string \<comment> \<open>id, title, camera id, url\<close>
  | LiveView string string string \<comment> \<open>id, title, live view id\<close>
  | Notification string string string "string option" \<comment> \<open>id, title, body, live view id\<close>
  | ActionResult string json
  | ActionError string string string \<comment> \<open>request id, code, message\<close>
  | Event string json

section \<open>The package manifest\<close>

datatype plugin_permission =
    DashboardContributions | PluginConfiguration | DesktopNotifications | PermHttpVideo | PermLiveView
  | NetworkHttp | NetworkMqtt

record live_preview_declaration =
  lp_query :: string
  lp_max_duration_seconds :: "16 word"

record http_video_declaration =
  hv_base_url_setting :: string
  hv_live_preview :: "live_preview_declaration option"
  hv_bearer_token_setting :: "string option"
  hv_cooldown_seconds :: "16 word option"
  hv_allow_query :: bool

record live_view_declaration =
  lv_urls_setting :: string
  lv_mqtt_urls_setting :: "string option"
  lv_preview_duration_seconds :: "16 word option"

record plugin_group =
  pg_id :: string
  pg_title :: string
  pg_icon :: string

record inventory_entry =
  inv_path :: string
  inv_size :: "64 word"
  inv_sha256 :: string

record signature_metadata =
  sig_algorithm :: string
  sig_key_id :: string
  sig_signature :: string

record plugin_manifest =
  m_schema_version :: "32 word"
  m_plugin_id :: string
  m_version :: string
  m_host_api :: string
  m_target :: string
  m_entrypoint :: string
  m_config_schema :: json
  m_permissions :: "plugin_permission list"
  m_http_video :: "http_video_declaration option"
  m_live_view :: "live_view_declaration option"
  m_group :: "plugin_group option"
  m_inventory :: "inventory_entry list"
  m_signature :: "signature_metadata option"

section \<open>Settings choices\<close>

record choice =
  ch_value :: string
  ch_label :: string

record choice_page =
  page_source :: string
  page_revision :: string
  page_offset :: nat
  page_complete :: bool
  page_options :: "choice list"

section \<open>Third-party operations\<close>

text \<open>A parsed URL, as the accessors of the URL crate show it.\<close>

record url =
  u_str :: string \<comment> \<open>\<^verbatim>\<open>as_str\<close>\<close>
  u_scheme :: string
  u_host :: "string option"
  u_username :: string
  u_password :: "string option"
  u_origin :: string \<comment> \<open>\<^verbatim>\<open>origin()\<close>, for the http and https URLs it is compared on\<close>
  u_path :: string
  u_query :: "string option"
  u_fragment :: "string option"

record ext =
  enc_json :: "json \<Rightarrow> string res"
  enc_config :: "worker_configuration \<Rightarrow> string res"
  enc_host :: "host_message \<Rightarrow> string res"
  enc_worker :: "worker_message \<Rightarrow> string res"
  enc_manifest :: "plugin_manifest \<Rightarrow> string res"
  dec_worker :: "string \<Rightarrow> worker_message res"
  dec_manifest :: "string \<Rightarrow> plugin_manifest res"
  dec_string_map :: "string \<Rightarrow> (string \<times> string) list option"
  dec_choice_page :: "json \<Rightarrow> choice_page option"
  url_parse :: "string \<Rightarrow> url option"
  url_clear_query :: "url \<Rightarrow> url" \<comment> \<open>\<^verbatim>\<open>set_query(None)\<close>\<close>
  url_clear_fragment :: "url \<Rightarrow> url" \<comment> \<open>\<^verbatim>\<open>set_fragment(None)\<close>\<close>
  header_value_ok :: "string \<Rightarrow> bool" \<comment> \<open>\<^verbatim>\<open>HeaderValue::from_str(..).is_ok()\<close>\<close>
  version_ok :: "string \<Rightarrow> bool" \<comment> \<open>\<^verbatim>\<open>Version::parse(..).is_ok()\<close>\<close>
  version_req :: "string \<Rightarrow> (string \<Rightarrow> bool) option" \<comment> \<open>\<^verbatim>\<open>VersionReq::parse\<close> and \<^verbatim>\<open>matches\<close>\<close>

end
