(* ===== verification/Checks.thy ===== *)
theory Checks
  imports Wire
begin

text \<open>
  The primitive validators of \<^verbatim>\<open>protocol.rs\<close>: identifiers, labels and texts, bounded JSON, scaled
  numbers, package paths and digests. Their acceptance conditions are collected in \<open>wire_defs\<close>;
  the identifier validators interpret \<open>byte_class\<close> and the JSON traversal \<open>budgeted_visit\<close>.
\<close>

section \<open>Identifiers and texts\<close>

definition token :: "string \<Rightarrow> string \<Rightarrow> unit res" where
  "token v name = reject
     (v = [] \<or> 128 < length v \<or> \<not> is_ascii_alphanumeric (v ! 0)
      \<or> \<not> list_all (\<lambda>b. is_ascii_alphanumeric b \<or> b \<in> set ''_.:-'') v)
     (''invalid '' @ name)"

definition plugin_id_part :: "string \<Rightarrow> unit res" where
  "plugin_id_part part = reject
     (part = [] \<or> \<not> is_ascii_lowercase (part ! 0) \<or> ends_with_char (CHR ''-'') part
      \<or> \<not> list_all (\<lambda>b. is_ascii_lowercase b \<or> is_ascii_digit b \<or> b = CHR ''-'') part)
     ''invalid plugin_id component''"

definition validate_plugin_id :: "string \<Rightarrow> unit res" where
  "validate_plugin_id v = checks
     [reject (128 < length v \<or> \<not> contains_char (CHR ''.'') v)
        ''plugin_id must be a namespaced lowercase identifier'',
      for_each plugin_id_part (split_on (\<lambda>c. c = CHR ''.'') v)]"

definition label :: "string \<Rightarrow> string \<Rightarrow> nat \<Rightarrow> unit res" where
  "label v name limit = reject (trim v = [] \<or> limit < length v \<or> has_control v) (''invalid '' @ name)"

definition text_check :: "string \<Rightarrow> string \<Rightarrow> nat \<Rightarrow> unit res" where
  "text_check v name limit = reject
     (limit < length v \<or> list_ex (\<lambda>c. is_control c \<and> c \<notin> {10, 13, 9}) (chars v)) (''invalid '' @ name)"

definition validate_live_id :: "string \<Rightarrow> unit res" where
  "validate_live_id v = reject
     (v = [] \<or> 128 < length v \<or> trim v \<noteq> v
      \<or> list_ex (\<lambda>c. is_control c \<or> c \<in> {47, 43, 35}) (chars v))
     ''Invalid live view identity''"

definition lowercase_hex :: "string \<Rightarrow> nat \<Rightarrow> bool" where
  "lowercase_hex v n \<longleftrightarrow> length v = n \<and> list_all (\<lambda>b. is_ascii_digit b \<or> (97 \<le> byte b \<and> byte b \<le> 102)) v"

section \<open>Bounded JSON\<close>

fun visit_json :: "json \<Rightarrow> nat \<Rightarrow> nat \<Rightarrow> nat \<Rightarrow> nat res"
  and visit_items :: "json list \<Rightarrow> nat \<Rightarrow> nat \<Rightarrow> nat \<Rightarrow> nat res"
  and visit_fields :: "(string \<times> json) list \<Rightarrow> nat \<Rightarrow> nat \<Rightarrow> nat \<Rightarrow> nat res" where
  "visit_json (JArray vs) d n maxd =
     (if maxd < d \<or> MAX_JSON_NODES < n + 1 then Err ''JSON value exceeds depth or node limit''
      else visit_items vs (d + 1) (n + 1) maxd)"
| "visit_json (JObject fs) d n maxd =
     (if maxd < d \<or> MAX_JSON_NODES < n + 1 then Err ''JSON value exceeds depth or node limit''
      else visit_fields fs (d + 1) (n + 1) maxd)"
| "visit_json v d n maxd =
     (if maxd < d \<or> MAX_JSON_NODES < n + 1 then Err ''JSON value exceeds depth or node limit''
      else Ok (n + 1))"
| "visit_items [] d n maxd = Ok n"
| "visit_items (v # vs) d n maxd = rbind (visit_json v d n maxd) (\<lambda>m. visit_items vs d m maxd)"
| "visit_fields [] d n maxd = Ok n"
| "visit_fields ((k, v) # fs) d n maxd =
     (if 128 < length k \<or> has_control k then Err ''invalid JSON object key''
      else rbind (visit_json v d n maxd) (\<lambda>m. visit_fields fs d m maxd))"

definition bounded_json_depth :: "ext \<Rightarrow> json \<Rightarrow> nat \<Rightarrow> nat \<Rightarrow> unit res" where
  "bounded_json_depth X v limit maxd =
     rbind (visit_json v 0 0 maxd) (\<lambda>_.
     rbind (enc_json X v) (\<lambda>bytes.
       reject (limit < length bytes) ''JSON value exceeds byte limit''))"

definition bounded_json :: "ext \<Rightarrow> json \<Rightarrow> nat \<Rightarrow> unit res" where
  "bounded_json X v limit = bounded_json_depth X v limit MAX_JSON_DEPTH"

definition validate_action_params :: "ext \<Rightarrow> json \<Rightarrow> unit res" where
  "validate_action_params X ps = checks
     [reject (\<not> is_object ps) ''action params must be an object'',
      bounded_json X ps MAX_ACTION_PARAMS_BYTES]"

definition json_key_ok :: "string \<Rightarrow> bool" where
  "json_key_ok k \<longleftrightarrow> \<not> (128 < length k \<or> has_control k)"

section \<open>Scaled numbers\<close>

definition checked_sub_i64 :: "int \<Rightarrow> int \<Rightarrow> int option" where
  "checked_sub_i64 a b = (if i64_min \<le> a - b \<and> a - b \<le> i64_max then Some (a - b) else None)"

definition scaled_coefficient :: "int \<Rightarrow> bool" where
  "scaled_coefficient v \<longleftrightarrow> - MAX_SCALED_COEFFICIENT \<le> v \<and> v \<le> MAX_SCALED_COEFFICIENT"

text \<open>Rust's \<^verbatim>\<open>%\<close> truncates towards zero; it is zero exactly when the divisor divides.\<close>

definition rust_rem :: "int \<Rightarrow> int \<Rightarrow> int" where
  "rust_rem a b = sgn a * (\<bar>a\<bar> mod \<bar>b\<bar>)"

definition scaled_value :: "int \<Rightarrow> int \<Rightarrow> int \<Rightarrow> int \<Rightarrow> bool" where
  "scaled_value v lo hi step \<longleftrightarrow>
     scaled_coefficient v \<and> 0 < step \<and> lo \<le> v \<and> v \<le> hi
     \<and> (case checked_sub_i64 v lo of None \<Rightarrow> False | Some delta \<Rightarrow> rust_rem delta step = 0)"

definition accepts :: "number_input_grant \<Rightarrow> json \<Rightarrow> bool" where
  "accepts g ps = (case as_object ps of None \<Rightarrow> False | Some fs \<Rightarrow>
     length fs = 2
     \<and> Option.bind (map_of fs ''input_revision'') as_str = Some (g_input_revision g)
     \<and> (case Option.bind (map_of fs ''value_scaled'') as_i64 of None \<Rightarrow> False
        | Some v \<Rightarrow> scaled_value v (g_min_scaled g) (g_max_scaled g) (g_step_scaled g)))"

section \<open>Versions, frames and paths\<close>

definition validate_versions :: "32 word \<Rightarrow> string \<Rightarrow> unit res" where
  "validate_versions v api = checks
     [reject (v \<noteq> PROTOCOL_VERSION) ''unsupported worker protocol version'',
      reject (api \<noteq> HOST_API_VERSION) ''worker did not acknowledge the negotiated host API version'']"

text \<open>\<^verbatim>\<open>bounded_serialized_frame\<close>, on what serde answers for the message.\<close>

definition bounded_serialized_frame :: "string res \<Rightarrow> string res" where
  "bounded_serialized_frame encoded = rbind encoded (\<lambda>bytes.
     if HOST_MAX_FRAME_BYTES \<le> length bytes then Err ''worker frame exceeds byte limit''
     else Ok (bytes @ [CHR 0x0A]))"

definition frame_payload :: "string \<Rightarrow> string res" where
  "frame_payload bytes =
     (if bytes = [] \<or> HOST_MAX_FRAME_BYTES < length bytes then Err ''empty or oversized worker frame''
      else
        (let p = (case strip_suffix [CHR 0x0A] bytes of None \<Rightarrow> bytes | Some s \<Rightarrow> s);
             p = (case strip_suffix [CHR 0x0D] p of None \<Rightarrow> p | Some s \<Rightarrow> s)
         in if p = [] \<or> HOST_MAX_FRAME_BYTES \<le> length p \<or> list_ex (\<lambda>b. b \<in> {CHR 0x0D, CHR 0x0A}) p
            then Err ''invalid newline-delimited worker frame'' else Ok p))"

definition path_component :: "string \<Rightarrow> unit res" where
  "path_component w = checks
     [reject
        (w = [] \<or> w = ''.'' \<or> w = ''..'' \<or> starts_with_char (CHR ''.'') w \<or> ends_with_char (CHR ''.'') w
         \<or> ends_with_char (CHR '' '') w
         \<or> list_ex (\<lambda>b. \<not> is_ascii_alphanumeric b \<and> b \<notin> set ''-_.'') w)
        ''invalid entrypoint or inventory path component'',
      (let upper = to_ascii_uppercase (hd (split_on (\<lambda>c. c = CHR ''.'') w))
       in reject
        (upper \<in> {''CON'', ''PRN'', ''AUX'', ''NUL''}
         \<or> ((prefix ''COM'' upper \<or> prefix ''LPT'' upper) \<and> length upper = 4
            \<and> 49 \<le> byte (upper ! 3) \<and> byte (upper ! 3) \<le> 57))
        ''reserved platform filename in plugin inventory'')]"

definition validate_package_path :: "string \<Rightarrow> unit res" where
  "validate_package_path path = checks
     [reject (path = [] \<or> 240 < length path \<or> contains_char (CHR 0x5C) path \<or> contains_char (CHR '':'') path)
        ''entrypoint and inventory paths must be portable relative paths'',
      for_each path_component (split_on (\<lambda>c. c = CHR ''/'') path)]"

fun reject_schema_references :: "json \<Rightarrow> unit res"
  and reject_field_references :: "(string \<times> json) list \<Rightarrow> unit res"
  and reject_item_references :: "json list \<Rightarrow> unit res" where
  "reject_schema_references (JObject fs) = reject_field_references fs"
| "reject_schema_references (JArray vs) = reject_item_references vs"
| "reject_schema_references _ = Ok ()"
| "reject_field_references [] = Ok ()"
| "reject_field_references ((k, v) # fs) =
     (if k \<in> {''$ref'', ''$dynamicRef'', ''$recursiveRef''}
      then Err ''configuration schema references are not supported''
      else rbind (reject_schema_references v) (\<lambda>_. reject_field_references fs))"
| "reject_item_references [] = Ok ()"
| "reject_item_references (v # vs) = rbind (reject_schema_references v) (\<lambda>_. reject_item_references vs)"

declare token_def [wire_defs] plugin_id_part_def [wire_defs] validate_plugin_id_def [wire_defs]
  label_def [wire_defs] text_check_def [wire_defs] validate_live_id_def [wire_defs]
  validate_action_params_def [wire_defs] validate_versions_def [wire_defs]
  path_component_def [wire_defs] validate_package_path_def [wire_defs]

section \<open>What the identifier checks exclude\<close>

lemma token_Ok: "token v name = Ok () \<longleftrightarrow> v \<noteq> [] \<and> length v \<le> 128 \<and> is_ascii_alphanumeric (v ! 0) \<and> list_all token_byte v"
  by (auto simp: token_def token_byte_def reject_Ok list_all_iff)

interpretation wire_token: byte_class "\<lambda>s. token s name = Ok ()" 128 token_byte for name
  by unfold_locales (auto simp: token_Ok)

definition plugin_id_byte :: "char \<Rightarrow> bool" where
  "plugin_id_byte c \<longleftrightarrow> is_ascii_lowercase c \<or> is_ascii_digit c \<or> c = CHR ''-'' \<or> c = CHR ''.''"

lemma plugin_id_part_Ok:
  "plugin_id_part w = Ok () \<longleftrightarrow> w \<noteq> [] \<and> is_ascii_lowercase (hd w) \<and> last w \<noteq> CHR ''-''
     \<and> (\<forall>b \<in> set w. is_ascii_lowercase b \<or> is_ascii_digit b \<or> b = CHR ''-'')"
  by (cases w) (auto simp: plugin_id_part_def reject_Ok ends_with_char_def list_all_iff)

lemma validate_plugin_id_Ok:
  "validate_plugin_id v = Ok () \<longleftrightarrow> length v \<le> 128 \<and> CHR ''.'' \<in> set v
     \<and> (\<forall>w \<in> set (split_on (\<lambda>c. c = CHR ''.'') v). plugin_id_part w = Ok ())"
  by (auto simp: validate_plugin_id_def result_simps)

lemma plugin_id_bytes: "validate_plugin_id v = Ok () \<Longrightarrow> list_all plugin_id_byte v"
  unfolding list_all_iff
proof
  fix c assume ok: "validate_plugin_id v = Ok ()" and c: "c \<in> set v"
  show "plugin_id_byte c"
  proof (cases "c = CHR ''.''")
    case False
    then obtain w where "w \<in> set (split_on (\<lambda>c. c = CHR ''.'') v)" "c \<in> set w"
      using split_on_covers [OF c, of "\<lambda>c. c = CHR ''.''"] by auto
    then show ?thesis using ok by (auto simp: validate_plugin_id_Ok plugin_id_part_Ok plugin_id_byte_def)
  qed (simp add: plugin_id_byte_def)
qed

interpretation plugin_ids: byte_class "\<lambda>s. validate_plugin_id s = Ok ()" 128 plugin_id_byte
  by unfold_locales (auto simp: plugin_id_bytes validate_plugin_id_Ok)

text \<open>Adjacent separators leave an empty piece; the first and last pieces end the string.\<close>

lemma split_on_double: "p c \<Longrightarrow> p d \<Longrightarrow> [] \<in> set (split_on p (a @ c # d # b))"
proof -
  assume pcd: "p c" "p d"
  have "[] \<in> set (tl (split_on p (a @ c # d # b)))"
  proof (induction a)
    case (Cons x a)
    then show ?case by (cases "split_on p (a @ c # d # b)") auto
  qed (use pcd in simp)
  then show ?thesis by (cases "split_on p (a @ c # d # b)") auto
qed

lemma split_on_hd: "hd (split_on p s) = takeWhile (\<lambda>c. \<not> p c) s"
proof (induction s)
  case (Cons c cs)
  then show ?case by (cases "split_on p cs") auto
qed simp

lemma split_on_last: "last (split_on p s) \<noteq> [] \<Longrightarrow> s \<noteq> [] \<and> last s = last (last (split_on p s))"
proof (induction s)
  case (Cons c cs)
  then show ?case by (cases "split_on p cs"; cases cs) (auto split: if_splits list.splits)
qed simp

section \<open>Bounded JSON, exactly\<close>

lemma visit_items_entries:
  "visit_entries json_key_ok (\<lambda>x m. ok_option (visit_json x d m maxd)) (map (\<lambda>v. (None, v)) vs) n =
     ok_option (visit_items vs d n maxd)"
proof (induction vs arbitrary: n)
  case (Cons v vs)
  then show ?case by (cases "visit_json v d n maxd") (simp_all add: ok_option_def)
qed (simp add: ok_option_def)

lemma visit_fields_entries:
  "visit_entries json_key_ok (\<lambda>x m. ok_option (visit_json x d m maxd)) (map (\<lambda>(k, v). (Some k, v)) fs) n =
     ok_option (visit_fields fs d n maxd)"
proof (induction fs arbitrary: n)
  case (Cons f fs)
  obtain k v where "f = (k, v)" by (cases f)
  with Cons show ?case by (cases "visit_json v d n maxd") (auto simp: ok_option_def json_key_ok_def)
qed (simp add: ok_option_def)

interpretation hv: budgeted_visit "\<lambda>v d n. ok_option (visit_json v d n maxd)" maxd MAX_JSON_NODES json_key_ok
  for maxd
proof
  fix v d n
  show "ok_option (visit_json v d n maxd) = (if maxd < d \<or> MAX_JSON_NODES < Suc n then None
     else visit_entries json_key_ok (\<lambda>x m. ok_option (visit_json x (Suc d) m maxd)) (entries v) (Suc n))"
  proof (cases v)
    case (JArray vs)
    then show ?thesis using visit_items_entries [of "Suc d" maxd vs] by (auto simp: ok_option_def)
  next
    case (JObject fs)
    then show ?thesis using visit_fields_entries [of "Suc d" maxd fs] by (auto simp: ok_option_def)
  qed (auto simp: ok_option_def)
qed

lemma visit_json_Ok: "visit_json v 0 0 maxd = Ok m \<Longrightarrow>
   jdepth v \<le> maxd \<and> jnodes v \<le> MAX_JSON_NODES \<and> keys_ok json_key_ok v"
  using hv.visit_Some [of v 0 0 maxd m] by (simp add: ok_option_Some)

lemma bounded_json_depth_Ok:
  "bounded_json_depth X v limit maxd = Ok () \<longleftrightarrow>
     jdepth v \<le> maxd \<and> jnodes v \<le> MAX_JSON_NODES \<and> keys_ok json_key_ok v
     \<and> (\<exists>bytes. enc_json X v = Ok bytes \<and> length bytes \<le> limit)"
proof -
  have "(\<exists>m. visit_json v 0 0 maxd = Ok m) \<longleftrightarrow>
    jdepth v \<le> maxd \<and> jnodes v \<le> MAX_JSON_NODES \<and> keys_ok json_key_ok v"
    using hv.visit_ok [of v maxd] by (auto simp: ok_option_def split: sum.splits)
  then show ?thesis by (auto simp: bounded_json_depth_def result_simps not_less)
qed

section \<open>Numeric grants\<close>

lemma rust_rem_zero: "rust_rem a b = 0 \<longleftrightarrow> b dvd a"
  by (auto simp: rust_rem_def sgn_if dvd_eq_mod_eq_0 [symmetric])

lemma coefficients_subtract:
  "scaled_coefficient v \<Longrightarrow> scaled_coefficient lo \<Longrightarrow> checked_sub_i64 v lo = Some (v - lo)"
  by (simp add: checked_sub_i64_def scaled_coefficient_def MAX_SCALED_COEFFICIENT_def i64_min_def i64_max_def)

lemma scaled_value_grid:
  "scaled_coefficient lo \<Longrightarrow> scaled_value v lo hi step \<longleftrightarrow>
     scaled_coefficient v \<and> 0 < step \<and> lo \<le> v \<and> v \<le> hi \<and> step dvd v - lo"
  by (auto simp: scaled_value_def coefficients_subtract rust_rem_zero)

lemma coefficient_as_i64: "scaled_coefficient v \<Longrightarrow> as_i64 (JNumber (NInt v)) = Some v"
  by (simp add: scaled_coefficient_def MAX_SCALED_COEFFICIENT_def i64_min_def i64_max_def)

lemma as_i64_int: "as_i64 w = Some v \<Longrightarrow> w = JNumber (NInt v)"
  by (cases w rule: as_i64.cases) (auto split: if_splits)

lemma accepts_iff:
  "accepts g (JObject fs) \<longleftrightarrow> length fs = 2
     \<and> map_of fs ''input_revision'' = Some (JString (g_input_revision g))
     \<and> (\<exists>v. map_of fs ''value_scaled'' = Some (JNumber (NInt v))
          \<and> scaled_value v (g_min_scaled g) (g_max_scaled g) (g_step_scaled g))"
proof -
  have "(case Option.bind m as_i64 of None \<Rightarrow> False | Some v \<Rightarrow> scaled_value v lo hi step) \<longleftrightarrow>
    (\<exists>v. m = Some (JNumber (NInt v)) \<and> scaled_value v lo hi step)" for m lo hi step
    by (cases m; auto split: option.splits dest: as_i64_int simp: scaled_value_def coefficient_as_i64 simp del: as_i64.simps)
  then show ?thesis by (auto simp: accepts_def bind_eq_Some_conv as_str_Some)
qed

text \<open>
  A numeric grant admits exactly the requests that carry its revision, nothing else, and a
  value on its grid: minimum plus a whole number of steps, at most the maximum. The checked
  subtraction can never overflow when the minimum is a legal coefficient.
\<close>

theorem number_grant_grid:
  assumes "scaled_coefficient (g_min_scaled g)"
  shows "accepts g (JObject fs) \<longleftrightarrow> length fs = 2
     \<and> map_of fs ''input_revision'' = Some (JString (g_input_revision g))
     \<and> (\<exists>k \<ge> 0. let v = g_min_scaled g + k * g_step_scaled g in
          map_of fs ''value_scaled'' = Some (JNumber (NInt v))
          \<and> 0 < g_step_scaled g \<and> v \<le> g_max_scaled g \<and> scaled_coefficient v)"
proof -
  have "scaled_value v (g_min_scaled g) (g_max_scaled g) (g_step_scaled g) \<longleftrightarrow>
    (\<exists>k \<ge> 0. v = g_min_scaled g + k * g_step_scaled g \<and> 0 < g_step_scaled g \<and> v \<le> g_max_scaled g
       \<and> scaled_coefficient v)" (is "?l \<longleftrightarrow> ?r") for v
  proof
    assume ?l
    then have *: "scaled_coefficient v" "0 < g_step_scaled g" "g_min_scaled g \<le> v" "v \<le> g_max_scaled g"
      "g_step_scaled g dvd v - g_min_scaled g" using scaled_value_grid [OF assms] by auto
    then obtain k where k: "v - g_min_scaled g = g_step_scaled g * k" by (auto elim: dvdE)
    with * have "0 \<le> k" by (smt (verit) zero_le_mult_iff)
    with k * show ?r by (auto intro!: exI [of _ k] simp: algebra_simps)
  next
    assume ?r
    then show ?l using scaled_value_grid [OF assms] by auto
  qed
  then show ?thesis by (auto simp: accepts_iff Let_def)
qed

definition sample_grant :: number_input_grant where
  "sample_grant = \<lparr>g_id = ''n'', g_action_id = ''set'', g_unit = None, g_input_revision = ''r1'',
     g_min_scaled = -20, g_max_scaled = 100, g_step_scaled = 5, g_decimal_places = 1\<rparr>"

theorem number_grant_grid_witness:
  "accepts sample_grant (JObject [(''input_revision'', JString ''r1''), (''value_scaled'', JNumber (NInt 15))])"
proof -
  have "scaled_coefficient (g_min_scaled sample_grant)" by (simp add: sample_grant_def scaled_coefficient_def limit_defs)
  from number_grant_grid [OF this] show ?thesis
    by (auto simp: sample_grant_def scaled_coefficient_def limit_defs intro!: exI [of _ 7])
qed

section \<open>Package paths\<close>

lemma path_component_Ok: "path_component w = Ok () \<Longrightarrow> w \<noteq> [] \<and> w \<noteq> ''.'' \<and> w \<noteq> ''..''
   \<and> (\<forall>b \<in> set w. is_ascii_alphanumeric b \<or> b \<in> set ''-_.'')"
  by (auto simp: path_component_def result_simps list_ex_iff)

lemma validate_package_path_components:
  "validate_package_path p = Ok () \<Longrightarrow> w \<in> set (split_on (\<lambda>c. c = CHR ''/'') p) \<Longrightarrow> path_component w = Ok ()"
  by (auto simp: validate_package_path_def result_simps)

text \<open>Where a slash-separated path leads from a directory, as a file system resolves it.\<close>

fun resolve_path :: "string list \<Rightarrow> string list \<Rightarrow> string list" where
  "resolve_path dir [] = dir"
| "resolve_path dir (w # ws) =
     (if w = [] \<or> w = ''.'' then resolve_path dir ws
      else if w = ''..'' then resolve_path (butlast dir) ws
      else resolve_path (dir @ [w]) ws)"

lemma resolve_plain: "\<forall>w \<in> set ws. w \<noteq> [] \<and> w \<noteq> ''.'' \<and> w \<noteq> ''..'' \<Longrightarrow> resolve_path dir ws = dir @ ws"
  by (induction ws arbitrary: dir) auto

text \<open>
  A path that passes the package check stays inside the directory it is resolved against: it
  names exactly its own components below it, and uses no backslash, colon or other byte that a
  target could read as a separator or a drive.
\<close>

theorem package_path_contained:
  assumes "validate_package_path p = Ok ()"
  shows "resolve_path base (split_on (\<lambda>c. c = CHR ''/'') p) = base @ split_on (\<lambda>c. c = CHR ''/'') p
    \<and> list_all (\<lambda>b. is_ascii_alphanumeric b \<or> b \<in> set ''-_./'') p"
proof -
  have ok: "path_component w = Ok ()" if "w \<in> set (split_on (\<lambda>c. c = CHR ''/'') p)" for w
    using validate_package_path_components [OF assms that] .
  have "is_ascii_alphanumeric b \<or> b \<in> set ''-_./''" if "b \<in> set p" for b
    using split_on_covers [OF that, of "\<lambda>c. c = CHR ''/''"] ok path_component_Ok by fastforce
  with ok show ?thesis using path_component_Ok by (auto simp: resolve_plain list_all_iff)
qed

theorem package_path_contained_witness:
  "resolve_path [''opt''] (split_on (\<lambda>c. c = CHR ''/'') ''bin/worker'') = [''opt'', ''bin'', ''worker'']"
proof -
  have "validate_package_path ''bin/worker'' = Ok ()" by code_simp
  from package_path_contained [OF this, of "[''opt'']"] show ?thesis by simp
qed

end
