(* ===== verification/Samples.thy ===== *)
theory Samples
  imports Wire
begin

text \<open>
  Concrete stand-ins for the third-party operations of \<^typ>\<open>ext\<close>, on which the witnesses evaluate
  the model: a URL splitter for plain \<^verbatim>\<open>scheme://host/path?query#fragment\<close> texts and constant encoders.
  No property depends on them.
\<close>

definition sample_url :: "string \<Rightarrow> url option" where
  "sample_url s = (case split_once ''://'' s of None \<Rightarrow> None
     | Some (scheme, tail) \<Rightarrow>
         let host = takeWhile (\<lambda>c. c \<notin> set ''/?#'') tail;
             rest = dropWhile (\<lambda>c. c \<notin> set ''/?#'') tail;
             path = takeWhile (\<lambda>c. c \<notin> set ''?#'') rest;
             more = dropWhile (\<lambda>c. c \<noteq> CHR ''?'') (takeWhile (\<lambda>c. c \<noteq> CHR ''#'') rest);
             frag = dropWhile (\<lambda>c. c \<noteq> CHR ''#'') rest
         in Some \<lparr>u_str = s, u_scheme = scheme, u_host = (if host = [] then None else Some host),
              u_username = [], u_password = None, u_origin = scheme @ ''://'' @ host, u_path = path,
              u_query = (if more = [] then None else Some (tl more)),
              u_fragment = (if frag = [] then None else Some (tl frag))\<rparr>)"

definition sample_ext :: ext where
  "sample_ext = \<lparr>
     enc_json = (\<lambda>_. Ok ''{}''), enc_config = (\<lambda>_. Ok ''{}''), enc_host = (\<lambda>_. Ok ''{}''),
     enc_worker = (\<lambda>_. Ok ''{}''), enc_manifest = (\<lambda>_. Ok ''{}''),
     dec_worker = (\<lambda>_. Ok (Ready 1 HOST_API_VERSION ''com.example'')),
     dec_manifest = (\<lambda>_. Err ''not a manifest''),
     dec_string_map = (\<lambda>s. Some [(''front'', s)]),
     dec_choice_page = (\<lambda>_. None),
     url_parse = sample_url,
     url_clear_query = (\<lambda>u. u\<lparr>u_query := None\<rparr>),
     url_clear_fragment = (\<lambda>u. u\<lparr>u_fragment := None\<rparr>),
     header_value_ok = (\<lambda>_. True),
     version_ok = (\<lambda>_. True),
     version_req = (\<lambda>r. Some (\<lambda>v. r = v))\<rparr>"

end
