(* ===== verification/Manifest.thy ===== *)
theory Manifest
  imports Checks Samples
begin

text \<open>
  \<^verbatim>\<open>PluginManifest\<close> and its validation in \<^verbatim>\<open>protocol.rs\<close>: versions and target, the configuration schema,
  permissions against their scoped declarations, and the inventory with its checked sum.

  The lemmas turn the inventory loop and the schema walk into what they accept, and show that the
  setting a plugin fetches media from and the settings it reads credentials from are never one.
\<close>

section \<open>Scoped settings\<close>

definition schema_field :: "plugin_manifest \<Rightarrow> string \<Rightarrow> json option" where
  "schema_field m key = Option.bind (jget ''properties'' (m_config_schema m)) (jget key)"

definition validate_public_string_setting :: "plugin_manifest \<Rightarrow> string \<Rightarrow> unit res" where
  "validate_public_string_setting m key = checks
     [token key ''scoped public setting'',
      (let field = schema_field m key in reject
        (PluginConfiguration \<notin> set (m_permissions m)
         \<or> Option.bind (Option.bind field (jget ''type'')) as_str \<noteq> Some ''string''
         \<or> (case Option.bind field (jget ''writeOnly'') of None \<Rightarrow> False | Some v \<Rightarrow> as_bool v \<noteq> Some False))
        ''Scoped endpoints must name a nonsecret string setting'')]"

definition validate_secret_setting :: "plugin_manifest \<Rightarrow> string \<Rightarrow> unit res" where
  "validate_secret_setting m key = checks
     [token key ''scoped secret setting'',
      (let field = schema_field m key in reject
        (PluginConfiguration \<notin> set (m_permissions m)
         \<or> Option.bind (Option.bind field (jget ''type'')) as_str \<noteq> Some ''string''
         \<or> Option.bind (Option.bind field (jget ''writeOnly'')) as_bool \<noteq> Some True)
        ''Scoped credentials must name a secret string setting'')]"

definition validate_live_declaration :: "plugin_manifest \<Rightarrow> live_view_declaration \<Rightarrow> unit res" where
  "validate_live_declaration m d = checks
     [validate_secret_setting m (lv_urls_setting d),
      if_some (\<lambda>key. checks
        [validate_public_string_setting m key,
         reject (case lv_preview_duration_seconds d of None \<Rightarrow> True
                 | Some s \<Rightarrow> \<not> (1 \<le> s \<and> s \<le> 15)) ''Invalid MQTT live preview duration''])
        (lv_mqtt_urls_setting d),
      reject (case lv_preview_duration_seconds d of None \<Rightarrow> False
              | Some s \<Rightarrow> \<not> (1 \<le> s \<and> s \<le> 30)) ''Invalid mapped live preview duration'']"

definition validate_group_declaration :: "plugin_group \<Rightarrow> unit res" where
  "validate_group_declaration g = checks
     [token (pg_id g) ''plugin group'', label (pg_title g) ''plugin group title'' 64,
      reject (pg_icon g \<notin> {''camera'', ''home'', ''plug''}) ''Invalid plugin group icon'']"

definition validate_preview_policy :: "ext \<Rightarrow> http_video_declaration \<Rightarrow> live_preview_declaration \<Rightarrow> unit res" where
  "validate_preview_policy X d policy =
     rbind (ok_or ''Invalid live preview query''
             (url_parse X (''https://preview.invalid/?'' @ lp_query policy))) (\<lambda>parsed.
       reject (lp_query policy = [] \<or> 128 < length (lp_query policy)
               \<or> u_query parsed \<noteq> Some (lp_query policy) \<or> u_fragment parsed \<noteq> None
               \<or> \<not> (1 \<le> lp_max_duration_seconds policy \<and> lp_max_duration_seconds policy \<le> 30)
               \<or> hv_bearer_token_setting d \<noteq> None)
         ''Invalid live preview policy'')"

definition validate_video_declaration :: "ext \<Rightarrow> plugin_manifest \<Rightarrow> http_video_declaration \<Rightarrow> unit res" where
  "validate_video_declaration X m d = checks
     [if_some (validate_preview_policy X d) (hv_live_preview d),
      reject (case hv_cooldown_seconds d of None \<Rightarrow> False | Some v \<Rightarrow> \<not> (20 \<le> v \<and> v \<le> 300))
        ''Invalid media cooldown'',
      if_some (validate_secret_setting m) (hv_bearer_token_setting d),
      token (hv_base_url_setting d) ''HTTP video setting'',
      (let field = schema_field m (hv_base_url_setting d) in reject
        (PluginConfiguration \<notin> set (m_permissions m)
         \<or> Option.bind (Option.bind field (jget ''type'')) as_str \<noteq> Some ''string''
         \<or> (case Option.bind field (jget ''writeOnly'') of None \<Rightarrow> False | Some v \<Rightarrow> as_bool v \<noteq> Some False))
        ''HTTP video base must name a nonsecret string configuration setting'')]"

definition validate_http_video :: "ext \<Rightarrow> plugin_manifest \<Rightarrow> unit res" where
  "validate_http_video X m = checks
     [reject ((PermLiveView \<in> set (m_permissions m)) \<noteq> (m_live_view m \<noteq> None))
        ''Live view permission requires its scoped declaration'',
      if_some (validate_live_declaration m) (m_live_view m),
      if_some validate_group_declaration (m_group m),
      reject ((PermHttpVideo \<in> set (m_permissions m)) \<noteq> (m_http_video m \<noteq> None))
        ''HTTP video permission requires its scoped declaration'',
      if_some (validate_video_declaration X m) (m_http_video m)]"

section \<open>Inventory\<close>

definition checked_add_u64 :: "64 word \<Rightarrow> 64 word \<Rightarrow> 64 word option" where
  "checked_add_u64 a b = (if u64_max < unat a + unat b then None else Some (a + b))"

fun inventory_loop :: "string \<Rightarrow> inventory_entry list \<Rightarrow> string list \<Rightarrow> 64 word \<Rightarrow> bool \<Rightarrow> bool res" where
  "inventory_loop entry [] paths total_size found = Ok found"
| "inventory_loop entry (i # rest) paths total_size found =
     rbind (validate_package_path (inv_path i)) (\<lambda>_.
     if to_ascii_lowercase (inv_path i) \<in> set paths then Err ''duplicate plugin inventory path''
     else if \<not> lowercase_hex (inv_sha256 i) 64 then Err ''invalid inventory sha256 encoding''
     else rbind (ok_or ''plugin inventory size overflow'' (checked_add_u64 total_size (inv_size i))) (\<lambda>total_size.
       if MAX_INVENTORY_BYTES < unat total_size then Err ''plugin inventory exceeds size limit''
       else inventory_loop entry rest (to_ascii_lowercase (inv_path i) # paths) total_size
              (found \<or> (inv_path i = entry \<and> 0 < inv_size i))))"

definition validate_inventory :: "plugin_manifest \<Rightarrow> unit res" where
  "validate_inventory m = checks
     [reject (m_inventory m = [] \<or> MAX_INVENTORY_FILES < length (m_inventory m))
        ''invalid plugin inventory file count'',
      rbind (inventory_loop (m_entrypoint m) (m_inventory m) [] 0 False) (\<lambda>found.
        reject (\<not> found) ''entrypoint must name a nonempty file in the inventory'')]"

section \<open>The whole manifest\<close>

definition validate_host_api :: "ext \<Rightarrow> string \<Rightarrow> unit res" where
  "validate_host_api X r =
     rbind (ok_or ''invalid host API semantic version requirement'' (version_req X r)) (\<lambda>matches.
     if \<not> version_ok X HOST_API_VERSION then Err ''version''
     else reject (\<not> matches HOST_API_VERSION) ''plugin does not support this host API version'')"

definition validate_signature_encoding :: "signature_metadata \<Rightarrow> unit res" where
  "validate_signature_encoding s = checks
     [reject (sig_algorithm s \<noteq> ''ed25519'' \<or> \<not> lowercase_hex (sig_signature s) 128)
        ''invalid signature metadata encoding'',
      token (sig_key_id s) ''signature key_id'']"

definition validate_manifest :: "ext \<Rightarrow> plugin_manifest \<Rightarrow> unit res" where
  "validate_manifest X m = checks
     [reject (m_schema_version m \<noteq> MANIFEST_SCHEMA_VERSION) ''unsupported plugin manifest schema'',
      validate_plugin_id (m_plugin_id m),
      label (m_version m) ''plugin version'' 128,
      reject (\<not> version_ok X (m_version m)) ''invalid plugin semantic version'',
      label (m_host_api m) ''host API requirement'' 128,
      validate_host_api X (m_host_api m),
      reject (m_target m \<notin> set DESKTOP_TARGETS) ''plugin target must be a supported desktop target'',
      validate_package_path (m_entrypoint m),
      bounded_json_depth X (m_config_schema m) MAX_ACTION_RESULT_BYTES 16,
      reject (\<not> is_object (m_config_schema m)
              \<or> Option.bind (jget ''type'' (m_config_schema m)) as_str \<noteq> Some ''object'')
        ''config_schema must describe a JSON object'',
      reject_schema_references (m_config_schema m),
      reject (\<not> distinct (m_permissions m)) ''duplicate plugin permission'',
      validate_http_video X m,
      validate_inventory m,
      if_some validate_signature_encoding (m_signature m),
      rbind (enc_manifest X m) (\<lambda>bytes.
        reject (MAX_MANIFEST_BYTES < length bytes) ''plugin manifest exceeds byte limit'')]"

definition validate_for_target :: "ext \<Rightarrow> plugin_manifest \<Rightarrow> string \<Rightarrow> unit res" where
  "validate_for_target X m t = checks
     [validate_manifest X m, reject (m_target m \<noteq> t) ''plugin package target does not match this host'']"

definition parse_manifest :: "ext \<Rightarrow> string \<Rightarrow> plugin_manifest res" where
  "parse_manifest X bytes =
     (if bytes = [] \<or> MAX_MANIFEST_BYTES < length bytes then Err ''empty or oversized plugin manifest''
      else rbind (map_err (\<lambda>e. ''invalid plugin manifest: '' @ e) (dec_manifest X bytes)) (\<lambda>m.
        rbind (validate_manifest X m) (\<lambda>_. Ok m)))"

declare schema_field_def [wire_defs] validate_public_string_setting_def [wire_defs]
  validate_secret_setting_def [wire_defs] validate_video_declaration_def [wire_defs]
  validate_live_declaration_def [wire_defs] validate_http_video_def [wire_defs]

section \<open>What the checks accept\<close>

text \<open>A schema has no reference at any depth exactly when no key in it is a reference keyword.\<close>

definition plain_key :: "string \<Rightarrow> bool" where
  "plain_key k \<longleftrightarrow> k \<notin> {''$ref'', ''$dynamicRef'', ''$recursiveRef''}"

lemma reject_references_entries:
  "reject_schema_references v = Ok () \<longleftrightarrow> keys_ok plain_key v"
  "reject_field_references fs = Ok () \<longleftrightarrow> list_all (\<lambda>(k, v). plain_key k \<and> keys_ok plain_key v) fs"
  "reject_item_references vs = Ok () \<longleftrightarrow> list_all (keys_ok plain_key) vs"
  by (induction v and fs and vs rule: reject_schema_references_reject_field_references_reject_item_references.induct)
    (auto simp: keys_ok_cases plain_key_def rbind_Ok)

lemma public_setting:
  "validate_public_string_setting m key = Ok () \<Longrightarrow>
     Option.bind (Option.bind (schema_field m key) (jget ''writeOnly'')) as_bool \<noteq> Some True"
  by (auto simp: validate_public_string_setting_def result_simps Let_def simp del: Option.bind_assoc split: option.splits)

lemma secret_setting:
  "validate_secret_setting m key = Ok () \<Longrightarrow>
     Option.bind (Option.bind (schema_field m key) (jget ''writeOnly'')) as_bool = Some True"
  by (auto simp: validate_secret_setting_def result_simps Let_def)

lemma video_base_public:
  "validate_video_declaration X m d = Ok () \<Longrightarrow>
     Option.bind (Option.bind (schema_field m (hv_base_url_setting d)) (jget ''writeOnly'')) as_bool \<noteq> Some True"
  by (auto simp: validate_video_declaration_def result_simps Let_def simp del: Option.bind_assoc split: option.splits)

definition public_settings :: "plugin_manifest \<Rightarrow> string set" where
  "public_settings m = {hv_base_url_setting d | d. m_http_video m = Some d}
     \<union> {key. \<exists>d. m_live_view m = Some d \<and> lv_mqtt_urls_setting d = Some key}"

definition secret_settings :: "plugin_manifest \<Rightarrow> string set" where
  "secret_settings m = {lv_urls_setting d | d. m_live_view m = Some d}
     \<union> {key. \<exists>d. m_http_video m = Some d \<and> hv_bearer_token_setting d = Some key}"

lemma scoped_settings:
  assumes "validate_http_video X m = Ok ()"
  shows "key \<in> public_settings m \<Longrightarrow>
      Option.bind (Option.bind (schema_field m key) (jget ''writeOnly'')) as_bool \<noteq> Some True"
    and "key \<in> secret_settings m \<Longrightarrow>
      Option.bind (Option.bind (schema_field m key) (jget ''writeOnly'')) as_bool = Some True"
proof -
  have v: "validate_video_declaration X m d = Ok ()" if "m_http_video m = Some d" for d
    using assms that by (auto simp: validate_http_video_def result_simps)
  have l: "validate_live_declaration m d = Ok ()" if "m_live_view m = Some d" for d
    using assms that by (auto simp: validate_http_video_def result_simps)
  show "Option.bind (Option.bind (schema_field m key) (jget ''writeOnly'')) as_bool \<noteq> Some True"
    if "key \<in> public_settings m"
    using that video_base_public v l public_setting
    by (auto simp: public_settings_def validate_live_declaration_def result_simps)
  show "Option.bind (Option.bind (schema_field m key) (jget ''writeOnly'')) as_bool = Some True"
    if "key \<in> secret_settings m"
    using that secret_setting v l
    by (auto simp: secret_settings_def validate_live_declaration_def validate_video_declaration_def result_simps)
qed

text \<open>
  The validated permissions of a manifest and its scoped declarations coincide, every setting
  it fetches media from is declared public, and every setting it reads a credential from is
  declared secret; so no setting is both.
\<close>

theorem manifest_scopes:
  assumes "validate_manifest X m = Ok ()"
  shows "(PermLiveView \<in> set (m_permissions m) \<longleftrightarrow> m_live_view m \<noteq> None)
     \<and> (PermHttpVideo \<in> set (m_permissions m) \<longleftrightarrow> m_http_video m \<noteq> None)
     \<and> distinct (m_permissions m) \<and> keys_ok plain_key (m_config_schema m)
     \<and> public_settings m \<inter> secret_settings m = {}"
proof -
  have hv: "validate_http_video X m = Ok ()" and d: "distinct (m_permissions m)"
    and r: "reject_schema_references (m_config_schema m) = Ok ()"
    using assms by (auto simp: validate_manifest_def result_simps)
  have "public_settings m \<inter> secret_settings m = {}" using scoped_settings [OF hv] by blast
  with hv d r show ?thesis
    by (auto simp: validate_http_video_def result_simps reject_references_entries)
qed

definition sample_manifest :: plugin_manifest where
  "sample_manifest = \<lparr>m_schema_version = 1, m_plugin_id = ''com.example'', m_version = ''1.0.0'',
     m_host_api = HOST_API_VERSION, m_target = ''x86_64-unknown-linux-gnu'', m_entrypoint = ''bin/worker'',
     m_config_schema = JObject [(''type'', JString ''object''), (''properties'', JObject [
       (''base'', JObject [(''type'', JString ''string'')]),
       (''live'', JObject [(''type'', JString ''string''), (''writeOnly'', JBool True)])])],
     m_permissions = [PluginConfiguration, PermHttpVideo, PermLiveView],
     m_http_video = Some \<lparr>hv_base_url_setting = ''base'', hv_live_preview = None, hv_bearer_token_setting = None,
       hv_cooldown_seconds = Some 30, hv_allow_query = False\<rparr>,
     m_live_view = Some \<lparr>lv_urls_setting = ''live'', lv_mqtt_urls_setting = Some ''base'',
       lv_preview_duration_seconds = Some 10\<rparr>,
     m_group = None,
     m_inventory = [\<lparr>inv_path = ''bin/worker'', inv_size = 7, inv_sha256 = replicate 64 (CHR ''0'')\<rparr>],
     m_signature = None\<rparr>"

lemma sample_manifest_valid: "validate_manifest sample_ext sample_manifest = Ok ()"
  by code_simp

theorem manifest_scopes_witness:
  "public_settings sample_manifest \<inter> secret_settings sample_manifest = {} \<and> PermLiveView \<in> set (m_permissions sample_manifest)"
  using manifest_scopes [OF sample_manifest_valid] by (simp add: sample_manifest_def)

section \<open>Inventory, exactly\<close>

definition entry_ok :: "inventory_entry \<Rightarrow> bool" where
  "entry_ok i \<longleftrightarrow> validate_package_path (inv_path i) = Ok () \<and> lowercase_hex (inv_sha256 i) 64"

definition sizes :: "inventory_entry list \<Rightarrow> nat" where
  "sizes es = sum_list (map (\<lambda>i. unat (inv_size i)) es)"

lemma checked_add_u64_Some:
  "checked_add_u64 a b = Some c \<longleftrightarrow> unat a + unat b \<le> u64_max \<and> c = a + b"
  by (auto simp: checked_add_u64_def)

lemma checked_add_u64_unat: "unat a + unat b \<le> u64_max \<Longrightarrow> unat (a + b :: 64 word) = unat a + unat b"
  by (subst unat_add_lem [THEN iffD1]) (auto simp: u64_max_def)

lemma inventory_loop_Ok:
  "unat total_size \<le> MAX_INVENTORY_BYTES \<Longrightarrow> inventory_loop entry es paths total_size found = Ok f \<longleftrightarrow>
     list_all entry_ok es \<and> distinct (map (to_ascii_lowercase \<circ> inv_path) es)
     \<and> set (map (to_ascii_lowercase \<circ> inv_path) es) \<inter> set paths = {}
     \<and> unat total_size + sizes es \<le> MAX_INVENTORY_BYTES
     \<and> f = (found \<or> (\<exists>i \<in> set es. inv_path i = entry \<and> 0 < inv_size i))"
proof (induction es arbitrary: paths total_size found)
  case Nil
  then show ?case by (auto simp: sizes_def)
next
  case (Cons i es)
  let ?p = "to_ascii_lowercase (inv_path i)"
  let ?t = "total_size + inv_size i"
  show ?case
  proof (cases "unat total_size + unat (inv_size i) \<le> MAX_INVENTORY_BYTES")
    case True
    then have fits: "unat total_size + unat (inv_size i) \<le> u64_max"
      by (simp add: MAX_INVENTORY_BYTES_def u64_max_def)
    then have t: "unat ?t = unat total_size + unat (inv_size i)" by (rule checked_add_u64_unat)
    with True have t_le: "unat ?t \<le> MAX_INVENTORY_BYTES" by simp
    have s: "sizes (i # es) = unat (inv_size i) + sizes es" by (simp add: sizes_def)
    show ?thesis
      using Cons.IH [OF t_le, of "?p # paths" "found \<or> (inv_path i = entry \<and> 0 < inv_size i)"] t_le fits
      by (auto simp: rbind_Ok ok_or_Ok checked_add_u64_Some t s entry_ok_def)
  next
    case False
    have s: "unat (inv_size i) \<le> sizes (i # es)" by (simp add: sizes_def)
    have "unat (total_size + inv_size i) > MAX_INVENTORY_BYTES"
      if "unat total_size + unat (inv_size i) \<le> u64_max"
      using checked_add_u64_unat [OF that] False by simp
    with False s show ?thesis by (auto simp: rbind_Ok ok_or_Ok checked_add_u64_Some)
  qed
qed

text \<open>
  An inventory is accepted exactly when it lists 1 to 128 portable paths, no two equal up to
  ASCII case, each with a 64-digit lowercase digest; the true sum of the sizes, not a wrapped one,
  is at most 512 MiB; and the entry point is one of the files and not empty.
\<close>

theorem inventory_exact:
  "validate_inventory m = Ok () \<longleftrightarrow>
     1 \<le> length (m_inventory m) \<and> length (m_inventory m) \<le> 128
     \<and> list_all entry_ok (m_inventory m)
     \<and> distinct (map (to_ascii_lowercase \<circ> inv_path) (m_inventory m))
     \<and> sizes (m_inventory m) \<le> 512 * 1024 * 1024
     \<and> (\<exists>i \<in> set (m_inventory m). inv_path i = m_entrypoint m \<and> 0 < inv_size i)"
  using inventory_loop_Ok [of 0 "m_entrypoint m" "m_inventory m" "[]" False True]
  by (auto simp: validate_inventory_def result_simps MAX_INVENTORY_FILES_def MAX_INVENTORY_BYTES_def Suc_le_eq)

end
