(* ===== verification/Archive.thy ===== *)
theory Archive
  imports Checks
begin

text \<open>
  The archive scanner of \<^verbatim>\<open>package.rs\<close>: little-endian fields, the local entries, the path tree, and the
  central directory of the small ZIP subset that packages use. \<^verbatim>\<open>usize\<close> is 64 bits wide and written
  as a natural number with its checked additions; the fields keep their width as words.

  The lemmas show that an accepted archive is a seamless sequence of entries and that no two of its
  paths can meet on a file system, case-sensitive or not.
\<close>

definition MAX_ARCHIVE_BYTES :: nat where "MAX_ARCHIVE_BYTES = 64 * 1024 * 1024"
definition MAX_ARCHIVE_FILES :: nat where "MAX_ARCHIVE_FILES = 129"
definition MANIFEST_PATH :: string where "MANIFEST_PATH = ''manifest.json''"

record archive_entry =
  ae_path :: string
  ae_header :: "nat \<times> nat" \<comment> \<open>first byte, and the byte after the last\<close>
  ae_data :: "nat \<times> nat"

section \<open>Fields\<close>

text \<open>\<^verbatim>\<open>bytes.get(a..b)\<close>\<close>

definition slice :: "string \<Rightarrow> nat \<Rightarrow> nat \<Rightarrow> string option" where
  "slice bytes a b = (if a \<le> b \<and> b \<le> length bytes then Some (take (b - a) (drop a bytes)) else None)"

text \<open>For evaluation on concrete bytes: skip eight at a time, and never measure the whole archive.\<close>

fun skip :: "nat \<Rightarrow> 'a list \<Rightarrow> 'a list" where
  "skip n (a # b # c # d # e # f # g # h # xs) =
     (if 8 \<le> n then skip (n - 8) xs else drop n (a # b # c # d # e # f # g # h # xs))"
| "skip n xs = drop n xs"

lemma skip_drop: "skip n xs = drop n xs"
proof (induction n xs rule: skip.induct)
  case (1 n a b c d e f g h xs)
  show ?case
  proof (cases "8 \<le> n")
    case True
    then obtain m where "n = Suc (Suc (Suc (Suc (Suc (Suc (Suc (Suc m)))))))" by (auto simp: le_iff_add numeral_eq_Suc)
    with 1 True show ?thesis by simp
  qed simp
qed simp_all

lemma slice_code [code]:
  "slice bytes a b =
     (if a < b then (let t = take (b - a) (skip a bytes) in if length t = b - a then Some t else None)
      else if a = b \<and> a \<le> length bytes then Some [] else None)"
  by (auto simp: slice_def skip_drop Let_def min_def)

fun le_bytes :: "string \<Rightarrow> nat" where
  "le_bytes [] = 0"
| "le_bytes (b # bs) = byte b + 256 * le_bytes bs"

definition u16_at :: "string \<Rightarrow> nat \<Rightarrow> 16 word res" where
  "u16_at bytes offset =
     rbind (ok_or ''truncated plugin ZIP metadata'' (slice bytes offset (offset + 2))) (\<lambda>field.
       Ok (word_of_nat (le_bytes field)))"

definition u32_at :: "string \<Rightarrow> nat \<Rightarrow> 32 word res" where
  "u32_at bytes offset =
     rbind (ok_or ''truncated plugin ZIP metadata'' (slice bytes offset (offset + 4))) (\<lambda>field.
       Ok (word_of_nat (le_bytes field)))"

definition checked_add_usize :: "nat \<Rightarrow> nat \<Rightarrow> nat option" where
  "checked_add_usize a b = (if a + b \<le> u64_max then Some (a + b) else None)"

definition checked_sub_usize :: "nat \<Rightarrow> nat \<Rightarrow> nat option" where
  "checked_sub_usize a b = (if b \<le> a then Some (a - b) else None)"

text \<open>\<^verbatim>\<open>a? || b? || ..\<close>: operands are evaluated until one fails or is true.\<close>

fun any_of :: "bool res list \<Rightarrow> bool res" where
  "any_of [] = Ok False"
| "any_of (r # rs) = (case r of Inl e \<Rightarrow> Inl e | Inr b \<Rightarrow> if b then Ok True else any_of rs)"

definition test :: "'a res \<Rightarrow> ('a \<Rightarrow> bool) \<Rightarrow> bool res" where
  "test r p = rbind r (\<lambda>x. Ok (p x))"

lemma any_of_False [simp]: "any_of rs = Ok False \<longleftrightarrow> (\<forall>r \<in> set rs. r = Ok False)"
  by (induction rs) (auto split: sum.splits)

lemma test_Ok [result_simps]: "test r p = Ok b \<longleftrightarrow> (\<exists>x. r = Ok x \<and> p x = b)"
  by (auto simp: test_def rbind_Ok)

section \<open>Local entries\<close>

text \<open>The end record: where it starts, how many entries there are and where the directory starts.\<close>

definition scan_end :: "string \<Rightarrow> (nat \<times> nat \<times> nat) res" where
  "scan_end bytes =
     rbind (ok_or ''truncated plugin ZIP'' (checked_sub_usize (length bytes) 22)) (\<lambda>e.
       rbind (any_of
         [test (u32_at bytes e) (\<lambda>v. v \<noteq> 0x06054b50),
          test (u16_at bytes (e + 4)) (\<lambda>v. v \<noteq> 0),
          test (u16_at bytes (e + 6)) (\<lambda>v. v \<noteq> 0),
          test (u16_at bytes (e + 20)) (\<lambda>v. v \<noteq> 0)]) (\<lambda>bad.
       if bad then Err ''plugin ZIP must have one disk and no comment or trailing bytes''
       else rbind (rbind (u16_at bytes (e + 10)) (\<lambda>c. Ok (unat c))) (\<lambda>count.
         rbind (any_of
           [Ok (\<not> (2 \<le> count \<and> count \<le> MAX_ARCHIVE_FILES)),
            test (u16_at bytes (e + 8)) (\<lambda>v. unat v \<noteq> count)]) (\<lambda>bad.
         if bad then Err ''invalid plugin ZIP entry count''
         else rbind (u32_at bytes (e + 12)) (\<lambda>size.
           rbind (u32_at bytes (e + 16)) (\<lambda>start.
           if checked_add_usize (unat start) (unat size) \<noteq> Some e
           then Err ''invalid plugin ZIP central-directory bounds''
           else Ok (e, count, unat start)))))))"

definition local_entry :: "string \<Rightarrow> nat \<Rightarrow> nat \<Rightarrow> nat \<Rightarrow> archive_entry res" where
  "local_entry bytes central_start index offset =
     rbind (any_of
       [test (u32_at bytes offset) (\<lambda>v. v \<noteq> 0x04034b50),
        test (u16_at bytes (offset + 4)) (\<lambda>v. v \<noteq> 10 \<and> v \<noteq> 20),
        test (u16_at bytes (offset + 6)) (\<lambda>v. and v (not 0x0800) \<noteq> 0),
        test (u16_at bytes (offset + 8)) (\<lambda>v. v \<noteq> 0),
        test (u16_at bytes (offset + 28)) (\<lambda>v. v \<noteq> 0)]) (\<lambda>bad.
     if bad then Err ''plugin ZIP requires stored entries without optional ZIP features''
     else rbind (u32_at bytes (offset + 18)) (\<lambda>size.
       rbind (u32_at bytes (offset + 22)) (\<lambda>size2.
       if unat size \<noteq> unat size2 then Err ''stored plugin ZIP sizes disagree''
       else rbind (u16_at bytes (offset + 26)) (\<lambda>n.
         let name_len = unat n in
         if name_len = 0 \<or> 240 < name_len then Err ''invalid plugin ZIP path length''
         else
         rbind (ok_or ''plugin ZIP size overflow'' (checked_add_usize offset (30 + name_len))) (\<lambda>data_start.
         rbind (ok_or ''plugin ZIP size overflow'' (checked_add_usize data_start (unat size))) (\<lambda>data_end.
         if central_start < data_end then Err ''overlapping or truncated plugin ZIP data''
         else
         rbind (ok_or ''truncated plugin ZIP filename'' (slice bytes (offset + 30) data_start)) (\<lambda>path.
         if \<not> from_utf8_ok path then Err ''plugin ZIP filename must be UTF-8''
         else if index = 0 \<and> (path \<noteq> MANIFEST_PATH \<or> MAX_MANIFEST_BYTES < unat size)
         then Err ''bounded manifest.json must be the first plugin ZIP entry''
         else Ok \<lparr>ae_path = path, ae_header = (offset, data_start), ae_data = (data_start, data_end)\<rparr>)))))))"

text \<open>\<^verbatim>\<open>for index in 0..count\<close>: \<open>n\<close> entries remain; also returns where the last one ends.\<close>

fun local_loop :: "string \<Rightarrow> nat \<Rightarrow> nat \<Rightarrow> nat \<Rightarrow> nat \<Rightarrow> (archive_entry list \<times> nat) res" where
  "local_loop bytes central_start 0 index offset = Ok ([], offset)"
| "local_loop bytes central_start (Suc n) index offset =
     rbind (local_entry bytes central_start index offset) (\<lambda>entry.
     rbind (local_loop bytes central_start n (index + 1) (snd (ae_data entry))) (\<lambda>(rest, last).
       Ok (entry # rest, last)))"

section \<open>The path tree\<close>

type_synonym path_tree = "(string \<times> string \<times> bool) list"

text \<open>The ends at which a path is cut: before each slash, and at its own end.\<close>

definition path_ends :: "string \<Rightarrow> nat list" where
  "path_ends path = filter (\<lambda>i. path ! i = CHR ''/'') [0..<length path] @ [length path]"

fun tree_parts :: "string \<Rightarrow> nat list \<Rightarrow> path_tree \<Rightarrow> path_tree res" where
  "tree_parts path [] tree = Ok tree"
| "tree_parts path (e # es) tree =
     (let part = take e path;
          is_file = (e = length path);
          key = to_ascii_lowercase part
      in case map_of tree key of
          Some (existing, existing_is_file) \<Rightarrow>
            if existing \<noteq> part \<or> existing_is_file \<or> is_file
            then Err ''duplicate, case-colliding, or conflicting plugin ZIP path''
            else tree_parts path es tree
        | None \<Rightarrow> tree_parts path es ((key, part, is_file) # tree))"

fun tree_loop :: "archive_entry list \<Rightarrow> path_tree \<Rightarrow> unit res" where
  "tree_loop [] tree = Ok ()"
| "tree_loop (entry # rest) tree =
     rbind (validate_package_path (ae_path entry)) (\<lambda>_.
     rbind (tree_parts (ae_path entry) (path_ends (ae_path entry)) tree) (\<lambda>tree. tree_loop rest tree))"

definition check_path_tree :: "archive_entry list \<Rightarrow> unit res" where
  "check_path_tree rest = tree_loop rest []"

section \<open>The central directory\<close>

definition regular_mode :: "32 word \<Rightarrow> bool" where
  "regular_mode mode \<longleftrightarrow> and mode 0xF000 = 0x8000 \<and> and mode 0x0E00 = 0"

definition regular_entry :: "16 word \<Rightarrow> 32 word \<Rightarrow> bool" where
  "regular_entry creator external =
     (let mode = drop_bit 16 external in
      if creator = 3 then regular_mode mode
      else if creator = 0 then mode = 0 \<or> regular_mode mode
      else False)"

definition central_entry :: "string \<Rightarrow> nat \<Rightarrow> archive_entry \<Rightarrow> nat \<Rightarrow> nat res" where
  "central_entry bytes e entry offset =
     rbind (u16_at bytes (offset + 4)) (\<lambda>made.
     let creator = drop_bit 8 made in
     rbind (u32_at bytes (offset + 38)) (\<lambda>external.
     rbind (any_of
       [test (u32_at bytes offset) (\<lambda>v. v \<noteq> 0x02014b50),
        Ok (\<not> regular_entry creator external),
        Ok (and external 0x10 \<noteq> 0),
        test (u16_at bytes (offset + 30)) (\<lambda>v. v \<noteq> 0),
        test (u16_at bytes (offset + 32)) (\<lambda>v. v \<noteq> 0),
        test (u16_at bytes (offset + 34)) (\<lambda>v. v \<noteq> 0),
        test (u16_at bytes (offset + 36)) (\<lambda>v. v \<noteq> 0),
        test (u32_at bytes (offset + 42)) (\<lambda>v. unat v \<noteq> fst (ae_header entry))]) (\<lambda>bad.
     if bad then Err ''plugin ZIP central entry is not a plain regular file''
     else rbind (u16_at bytes (offset + 28)) (\<lambda>n.
       rbind (ok_or ''plugin ZIP central-directory size overflow'' (checked_add_usize offset (46 + unat n))) (\<lambda>next.
       if e < next
          \<or> slice bytes (offset + 46) next \<noteq> Some (ae_path entry)
          \<or> slice bytes (offset + 6) (offset + 28)
              \<noteq> slice bytes (fst (ae_header entry) + 4) (fst (ae_header entry) + 26)
       then Err ''plugin ZIP local and central metadata disagree''
       else Ok next)))))"

fun central_loop :: "string \<Rightarrow> nat \<Rightarrow> archive_entry list \<Rightarrow> nat \<Rightarrow> nat res" where
  "central_loop bytes e [] offset = Ok offset"
| "central_loop bytes e (entry # rest) offset =
     rbind (central_entry bytes e entry offset) (central_loop bytes e rest)"

definition sorted_payload :: "archive_entry list \<Rightarrow> bool" where
  "sorted_payload files = list_all (\<lambda>(a, b). ae_path a < ae_path b) (zip files (tl files))"

definition scan_archive :: "string \<Rightarrow> archive_entry list res" where
  "scan_archive bytes =
     rbind (scan_end bytes) (\<lambda>(e, count, central_start).
     rbind (local_loop bytes central_start count 0 0) (\<lambda>(files, offset).
     if offset \<noteq> central_start then Err ''unlisted data before plugin ZIP central directory''
     else rbind (check_path_tree files) (\<lambda>_.
       if \<not> sorted_payload (tl files) then Err ''plugin ZIP payload files must be sorted by portable path''
       else rbind (central_loop bytes e files offset) (\<lambda>offset.
         if offset \<noteq> e then Err ''unlisted plugin ZIP central-directory data'' else Ok files))))"

section \<open>A seamless archive\<close>

text \<open>Entries from byte \<open>a\<close> to byte \<open>b\<close>, each directly after the one before.\<close>

fun seamless :: "nat \<Rightarrow> archive_entry list \<Rightarrow> nat \<Rightarrow> bool" where
  "seamless a [] b \<longleftrightarrow> a = b"
| "seamless a (x # xs) b \<longleftrightarrow> fst (ae_header x) = a \<and> a < snd (ae_header x)
     \<and> fst (ae_data x) = snd (ae_header x) \<and> fst (ae_data x) \<le> snd (ae_data x)
     \<and> seamless (snd (ae_data x)) xs b"

definition in_entry :: "nat \<Rightarrow> archive_entry \<Rightarrow> bool" where
  "in_entry x en \<longleftrightarrow> fst (ae_header en) \<le> x \<and> x < snd (ae_data en)"

lemma local_entry_Ok:
  "local_entry bytes central index offset = Ok en \<Longrightarrow>
     fst (ae_header en) = offset \<and> offset < snd (ae_header en) \<and> fst (ae_data en) = snd (ae_header en)
     \<and> fst (ae_data en) \<le> snd (ae_data en) \<and> snd (ae_data en) \<le> central \<and> ae_path en \<noteq> []
     \<and> slice bytes (offset + 30) (fst (ae_data en)) = Some (ae_path en)
     \<and> (index = 0 \<longrightarrow> ae_path en = MANIFEST_PATH \<and> snd (ae_data en) - fst (ae_data en) \<le> MAX_MANIFEST_BYTES)"
  by (auto simp: local_entry_def Let_def result_simps checked_add_usize_def slice_def split: if_splits)

lemma local_loop_Ok:
  "local_loop bytes central n index offset = Ok (xs, stop) \<Longrightarrow> seamless offset xs stop \<and> length xs = n
     \<and> (\<forall>x \<in> set xs. snd (ae_data x) \<le> central \<and> ae_path x \<noteq> [])
     \<and> (index = 0 \<and> 0 < n \<longrightarrow> ae_path (hd xs) = MANIFEST_PATH)"
proof (induction n arbitrary: index offset xs)
  case (Suc n)
  then obtain en ys where en: "local_entry bytes central index offset = Ok en" "xs = en # ys"
    "local_loop bytes central n (index + 1) (snd (ae_data en)) = Ok (ys, stop)"
    by (auto simp: result_simps)
  with Suc.IH [OF en(3)] local_entry_Ok [OF en(1)] show ?case by auto
qed simp

lemma seamless_bounds: "seamless a xs b \<Longrightarrow> a \<le> b"
  by (induction a xs b rule: seamless.induct) auto

lemma seamless_at: "seamless a xs b \<Longrightarrow> i < length xs \<Longrightarrow> a \<le> fst (ae_header (xs ! i)) \<and> snd (ae_data (xs ! i)) \<le> b"
proof (induction a xs b arbitrary: i rule: seamless.induct)
  case (2 a x xs b)
  then show ?case using seamless_bounds [of "snd (ae_data x)" xs b] by (cases i) fastforce+
qed simp

lemma seamless_cover:
  "seamless a xs b \<Longrightarrow> a \<le> x \<Longrightarrow> x < b \<Longrightarrow> \<exists>!i. i < length xs \<and> in_entry x (xs ! i)"
proof (induction a xs b rule: seamless.induct)
  case (2 a en xs b)
  show ?case
  proof (cases "x < snd (ae_data en)")
    case True
    have "\<not> in_entry x (xs ! i)" if "i < length xs" for i
      using seamless_at [of "snd (ae_data en)" xs b i] 2 True that by (auto simp: in_entry_def)
    then have "i = 0" if "i < length (en # xs)" "in_entry x ((en # xs) ! i)" for i using that by (cases i) auto
    moreover have "in_entry x ((en # xs) ! 0)" using 2(2,3) True by (simp add: in_entry_def)
    ultimately show ?thesis by (intro ex1I [of _ 0]) simp_all
  next
    case False
    then have "\<exists>!i. i < length xs \<and> in_entry x (xs ! i)" using 2(1) 2(2,4) by simp
    then obtain i where i: "i < length xs \<and> in_entry x (xs ! i)"
      and only: "\<And>j. j < length xs \<and> in_entry x (xs ! j) \<Longrightarrow> j = i" by blast
    have "j = Suc i" if "j < length (en # xs) \<and> in_entry x ((en # xs) ! j)" for j
    proof (cases j)
      case 0
      then show ?thesis using that False by (simp add: in_entry_def)
    next
      case (Suc k)
      then show ?thesis using that only [of k] by simp
    qed
    then show ?thesis using i by (intro ex1I [of _ "Suc i"]) simp_all
  qed
qed simp

lemma scan_end_Ok:
  "scan_end bytes = Ok (e, count, central) \<Longrightarrow>
     e + 22 = length bytes \<and> central \<le> e \<and> 2 \<le> count \<and> count \<le> 129"
  by (auto simp: scan_end_def result_simps checked_add_usize_def checked_sub_usize_def MAX_ARCHIVE_FILES_def split: if_splits)

lemma scan_archive_parts:
  assumes "scan_archive bytes = Ok es"
  obtains e count central where "scan_end bytes = Ok (e, count, central)"
    "local_loop bytes central count 0 0 = Ok (es, central)" "check_path_tree es = Ok ()"
    "sorted_payload (tl es)" "central_loop bytes e es central = Ok e"
  using assms by (auto simp: scan_archive_def result_simps split: if_splits prod.splits)

text \<open>
  In an accepted archive every byte before the central directory belongs to exactly one entry: the 2
  to 129 entries, the manifest first, lie end to end from byte 0, the directory follows and is
  read exactly up to the end record, which is the last 22 bytes.
\<close>

theorem archive_seamless:
  assumes "scan_archive bytes = Ok es"
  shows "2 \<le> length es \<and> length es \<le> 129 \<and> ae_path (hd es) = ''manifest.json''
     \<and> (\<exists>central. seamless 0 es central \<and> central + 22 \<le> length bytes
          \<and> central_loop bytes (length bytes - 22) es central = Ok (length bytes - 22)
          \<and> (\<forall>x < central. \<exists>!i. i < length es \<and> in_entry x (es ! i)))"
proof -
  obtain e count central where p: "scan_end bytes = Ok (e, count, central)"
    "local_loop bytes central count 0 0 = Ok (es, central)" "central_loop bytes e es central = Ok e"
    using scan_archive_parts [OF assms] by metis
  from scan_end_Ok [OF p(1)] have e: "e = length bytes - 22" "central + 22 \<le> length bytes" "2 \<le> count" "count \<le> 129"
    by auto
  from local_loop_Ok [OF p(2)] have l: "seamless 0 es central" "length es = count" "ae_path (hd es) = MANIFEST_PATH"
    using e by auto
  then show ?thesis using e p(3) seamless_cover [OF l(1)] by (auto simp: MANIFEST_PATH_def)
qed

text \<open>An archive of stored files, as the packager lays one out, for evaluation.\<close>

fun le :: "nat \<Rightarrow> nat \<Rightarrow> string" where
  "le 0 v = []"
| "le (Suc n) v = char_of (v mod 256) # le n (v div 256)"

definition sample_fields :: "string \<Rightarrow> string \<Rightarrow> string" where
  "sample_fields path data = le 2 20 @ le 2 0 @ le 2 0 @ le 4 0 @ le 4 0 @ le 4 (length data) @ le 4 (length data)
     @ le 2 (length path) @ le 2 0"

definition sample_local :: "string \<times> string \<Rightarrow> string" where
  "sample_local f = le 4 0x04034b50 @ sample_fields (fst f) (snd f) @ fst f @ snd f"

definition sample_central :: "nat \<Rightarrow> string \<times> string \<Rightarrow> string" where
  "sample_central offset f = le 4 0x02014b50 @ le 2 0x0314 @ sample_fields (fst f) (snd f) @ le 6 0
     @ le 4 (0x81A4 * 65536) @ le 4 offset @ fst f"

fun sample_directory :: "nat \<Rightarrow> (string \<times> string) list \<Rightarrow> string" where
  "sample_directory offset [] = []"
| "sample_directory offset (f # fs) = sample_central offset f @ sample_directory (offset + length (sample_local f)) fs"

definition sample_zip :: "(string \<times> string) list \<Rightarrow> string" where
  "sample_zip fs = (let body = concat (map sample_local fs); dir = sample_directory 0 fs in
     body @ dir @ le 4 0x06054b50 @ le 4 0 @ le 2 (length fs) @ le 2 (length fs)
     @ le 4 (length dir) @ le 4 (length body) @ le 2 0)"

definition sample_archive :: string where
  "sample_archive = sample_zip [(''manifest.json'', ''{}''), (''bin/worker'', ''payload'')]"

definition sample_files :: "archive_entry list" where
  "sample_files = [\<lparr>ae_path = ''manifest.json'', ae_header = (0, 43), ae_data = (43, 45)\<rparr>,
     \<lparr>ae_path = ''bin/worker'', ae_header = (45, 85), ae_data = (85, 92)\<rparr>]"

lemma sample_archive_scans: "scan_archive sample_archive = Ok sample_files"
  by code_simp

theorem archive_seamless_witness:
  "\<exists>central. seamless 0 sample_files central \<and> central_loop sample_archive (length sample_archive - 22) sample_files central
     = Ok (length sample_archive - 22)"
  using archive_seamless [OF sample_archive_scans] by blast

section \<open>Paths that cannot meet\<close>

text \<open>The places a path occupies: its directories and its file.\<close>

definition places :: "string \<Rightarrow> (string \<times> bool) set" where
  "places path = (\<lambda>e. (take e path, e = length path)) ` set (path_ends path)"

definition apart :: "(string \<times> bool) set \<Rightarrow> (string \<times> bool) set \<Rightarrow> bool" where
  "apart A B \<longleftrightarrow> (\<forall>(p, f) \<in> A. \<forall>(q, g) \<in> B.
     to_ascii_lowercase p = to_ascii_lowercase q \<longrightarrow> p = q \<and> \<not> f \<and> \<not> g)"

definition tree_holds :: "path_tree \<Rightarrow> (string \<times> bool) set \<Rightarrow> bool" where
  "tree_holds tree A \<longleftrightarrow> (\<forall>(p, f) \<in> A. map_of tree (to_ascii_lowercase p) = Some (p, f))"

lemma tree_parts_Ok:
  "tree_parts path es tree = Ok tree' \<Longrightarrow> tree_holds tree A \<Longrightarrow>
     let B = (\<lambda>e. (take e path, e = length path)) ` set es in apart A B \<and> tree_holds tree' (A \<union> B)"
proof (induction es arbitrary: tree A)
  case (Cons e es)
  let ?part = "take e path" and ?file = "e = length path"
  let ?B = "(\<lambda>e. (take e path, e = length path)) ` set es"
  show ?case
  proof (cases "map_of tree (to_ascii_lowercase ?part)")
    case None
    let ?tree = "(to_ascii_lowercase ?part, ?part, ?file) # tree"
    have new: "to_ascii_lowercase p \<noteq> to_ascii_lowercase ?part" if "(p, f) \<in> A" for p f
      using Cons.prems(2) None that by (auto simp: tree_holds_def)
    then have "tree_holds ?tree (insert (?part, ?file) A)" using Cons.prems(2) by (auto simp: tree_holds_def)
    moreover have "tree_parts path es ?tree = Ok tree'" using Cons.prems(1) None by (simp add: Let_def)
    ultimately have "apart (insert (?part, ?file) A) ?B \<and> tree_holds tree' (insert (?part, ?file) A \<union> ?B)"
      using Cons.IH [of ?tree "insert (?part, ?file) A"] by (simp only: Let_def)
    with new show ?thesis by (fastforce simp: apart_def Let_def)
  next
    case (Some x)
    then have x: "x = (?part, False)" "\<not> ?file" "tree_parts path es tree = Ok tree'"
      using Cons.prems(1) by (cases x; auto simp: Let_def split: if_splits)+
    then have "tree_holds tree (insert (?part, ?file) A)" using Cons.prems(2) Some by (auto simp: tree_holds_def)
    then have "apart (insert (?part, ?file) A) ?B \<and> tree_holds tree' (insert (?part, ?file) A \<union> ?B)"
      using Cons.IH [OF x(3), of "insert (?part, ?file) A"] by (simp only: Let_def)
    moreover have "p = ?part \<and> \<not> f" if "(p, f) \<in> A" "to_ascii_lowercase p = to_ascii_lowercase ?part" for p f
      using Cons.prems(2) that Some x(1) by (auto simp: tree_holds_def)
    ultimately show ?thesis using x(2) by (fastforce simp: apart_def Let_def)
  qed
qed (simp add: apart_def)

lemma tree_loop_Ok:
  "tree_loop es tree = Ok () \<Longrightarrow> tree_holds tree A \<Longrightarrow>
     (\<forall>x \<in> set es. apart A (places (ae_path x)))
     \<and> (\<forall>i j. i < j \<longrightarrow> j < length es \<longrightarrow> apart (places (ae_path (es ! i))) (places (ae_path (es ! j))))"
proof (induction es arbitrary: tree A)
  case (Cons x es)
  then obtain tree' where t: "tree_parts (ae_path x) (path_ends (ae_path x)) tree = Ok tree'" "tree_loop es tree' = Ok ()"
    by (auto simp: rbind_Ok)
  have h: "apart A (places (ae_path x))" "tree_holds tree' (A \<union> places (ae_path x))"
    using tree_parts_Ok [OF t(1) Cons.prems(2)] by (simp_all add: places_def Let_def)
  from Cons.IH [OF t(2) h(2)]
  have rest: "\<forall>y \<in> set es. apart (A \<union> places (ae_path x)) (places (ae_path y))"
    "\<forall>i j. i < j \<longrightarrow> j < length es \<longrightarrow> apart (places (ae_path (es ! i))) (places (ae_path (es ! j)))" by auto
  have "apart (places (ae_path ((x # es) ! i))) (places (ae_path ((x # es) ! j)))"
    if "i < j" "j < length (x # es)" for i j
    using that rest by (cases i; cases j) (auto simp: apart_def)
  with h(1) rest(1) show ?case by (auto simp: apart_def)
qed simp

lemma apart_sym: "apart A B \<Longrightarrow> apart B A"
  unfolding apart_def by (fastforce dest: sym)

lemma whole_place: "(path, True) \<in> places path"
  by (force simp: places_def path_ends_def image_iff)

lemma directory_place:
  assumes "path = d @ CHR ''/'' # r"
  shows "(d, False) \<in> places path"
proof -
  have "length d \<in> set (path_ends path)" using assms by (auto simp: path_ends_def)
  moreover have "(take (length d) path, length d = length path) = (d, False)" using assms by simp
  ultimately show ?thesis unfolding places_def by (metis (no_types, lifting) image_eqI)
qed

lemma lower_slash: "to_ascii_lower c = CHR ''/'' \<longleftrightarrow> c = CHR ''/''"
proof -
  have "to_ascii_lower c \<noteq> CHR ''/''" if "is_ascii_uppercase c"
  proof
    assume "to_ascii_lower c = CHR ''/''"
    then have "byte (char_of (byte c + 32) :: char) = byte (CHR ''/'')" using that by (simp add: to_ascii_lower_def)
    moreover have "(byte c + 32) mod 256 = byte c + 32" using that by (simp add: is_ascii_uppercase_def)
    moreover have "65 \<le> byte c" using that by (simp add: is_ascii_uppercase_def)
    ultimately show False by (simp add: of_char_of take_bit_eq_mod)
  qed
  moreover have "\<not> is_ascii_uppercase (CHR ''/'')" by (simp add: is_ascii_uppercase_def)
  ultimately show ?thesis by (auto simp: to_ascii_lower_def split: if_splits)
qed

lemma lower_directory:
  assumes "prefix (to_ascii_lowercase p @ ''/'') (to_ascii_lowercase q)"
  obtains d r where "q = d @ CHR ''/'' # r" "to_ascii_lowercase d = to_ascii_lowercase p"
proof -
  obtain z where "map to_ascii_lower q = map to_ascii_lower p @ CHR ''/'' # z"
    using assms by (auto simp: prefix_def to_ascii_lowercase_def)
  then obtain d c r where "q = d @ c # r" "map to_ascii_lower d = map to_ascii_lower p" "to_ascii_lower c = CHR ''/''"
    by (auto simp: map_eq_append_conv map_eq_Cons_conv)
  then show ?thesis using that by (auto simp: lower_slash to_ascii_lowercase_def)
qed

text \<open>
  C1. No two paths of an accepted archive can meet when it is extracted, even where file names ignore
  case: two entries never name the same file, no file is a directory of another entry, and a directory two
  entries share is spelled alike in both.
\<close>

theorem archive_paths_apart:
  assumes "scan_archive bytes = Ok es" and "i < length es" and "j < length es" and "i \<noteq> j"
  shows "(let p = ae_path (es ! i); q = ae_path (es ! j) in
       to_ascii_lowercase p \<noteq> to_ascii_lowercase q
     \<and> \<not> prefix (to_ascii_lowercase p @ ''/'') (to_ascii_lowercase q)
     \<and> (\<forall>d d' r r'. p = d @ CHR ''/'' # r \<and> q = d' @ CHR ''/'' # r'
          \<and> to_ascii_lowercase d = to_ascii_lowercase d' \<longrightarrow> d = d'))"
proof -
  let ?p = "ae_path (es ! i)" and ?q = "ae_path (es ! j)"
  have "tree_loop es [] = Ok ()" using scan_archive_parts [OF assms(1)] by (metis check_path_tree_def)
  moreover have "tree_holds [] {}" by (simp add: tree_holds_def)
  ultimately have all: "\<forall>i j. i < j \<longrightarrow> j < length es \<longrightarrow> apart (places (ae_path (es ! i))) (places (ae_path (es ! j)))"
    using tree_loop_Ok by blast
  have ap: "apart (places ?p) (places ?q)"
    using all assms(2-4) apart_sym by (cases "i < j") auto
  have meet: "d = d' \<and> \<not> f \<and> \<not> g" if "(d, f) \<in> places ?p" "(d', g) \<in> places ?q"
    "to_ascii_lowercase d = to_ascii_lowercase d'" for d d' f g
    using ap that unfolding apart_def by fast
  have "to_ascii_lowercase ?p \<noteq> to_ascii_lowercase ?q" using meet [OF whole_place whole_place] by blast
  moreover have "\<not> prefix (to_ascii_lowercase ?p @ ''/'') (to_ascii_lowercase ?q)"
  proof
    assume "prefix (to_ascii_lowercase ?p @ ''/'') (to_ascii_lowercase ?q)"
    then obtain d r where "?q = d @ CHR ''/'' # r" "to_ascii_lowercase d = to_ascii_lowercase ?p"
      by (rule lower_directory)
    with meet [OF whole_place directory_place] show False by metis
  qed
  moreover have "d = d'" if "?p = d @ CHR ''/'' # r" "?q = d' @ CHR ''/'' # r'"
    "to_ascii_lowercase d = to_ascii_lowercase d'" for d d' r r'
    using meet [OF directory_place [OF that(1)] directory_place [OF that(2)] that(3)] by blast
  ultimately show ?thesis unfolding Let_def by blast
qed

theorem archive_paths_apart_witness:
  "to_ascii_lowercase (ae_path (sample_files ! 0)) \<noteq> to_ascii_lowercase (ae_path (sample_files ! 1))"
  using archive_paths_apart [OF sample_archive_scans, of 0 1] by (simp add: Let_def sample_files_def)

end
