(* ===== verification/Package.thy ===== *)
theory Package
  imports Manifest Archive
begin

text \<open>
  Package verification, \<^verbatim>\<open>package.rs\<close>, and the release's publisher policy, \<^verbatim>\<open>publishers.rs\<close>: publisher
  trust, the canonical manifest encoding and its signed payload, signatures in hexadecimal, and the two
  ways an archive is authorised. Hashing, signature verification, the ZIP reader and the decoding of the
  policy text are parameters, gathered in \<open>crypto\<close>.

  The lemmas show what a verified package guarantees: its files are exactly its inventory, byte for byte
  under the digest function, and an authority named beforehand approved it.
\<close>

section \<open>Third-party operations\<close>

text \<open>One entry of the ZIP reader; the reads are byte counts, or an error.\<close>

record zip_file =
  zf_name_raw :: string
  zf_size :: nat
  zf_data_start :: "nat option"
  zf_encrypted :: bool
  zf_is_file :: bool
  zf_stored :: bool
  zf_reads :: "nat option list"

record publisher_entry =
  pe_key_id :: string
  pe_public_key :: string
  pe_plugin_ids :: "string list"

record publisher_policy =
  pol_schema_version :: "32 word"
  pol_publishers :: "publisher_entry list"

record 'k crypto =
  sha256_digest :: "string \<Rightarrow> string"
  verifying_key :: "string \<Rightarrow> 'k option"
  is_weak :: "'k \<Rightarrow> bool"
  verify_strict :: "'k \<Rightarrow> string \<Rightarrow> string \<Rightarrow> bool"
  zip_open :: "string \<Rightarrow> zip_file option list option"
  dec_policy :: "string \<Rightarrow> publisher_policy option"

section \<open>Publisher trust\<close>

record 'k publisher_trust =
  pt_key_id :: string
  pt_key :: 'k
  pt_plugin_ids :: "string list"

text \<open>\<^verbatim>\<open>HashMap<String, PublisherTrust>\<close>\<close>

type_synonym 'k trust_store = "(string \<times> 'k publisher_trust) list"

fun identities :: "string list \<Rightarrow> string list \<Rightarrow> string list res" where
  "identities [] seen = Ok (rev seen)"
| "identities (p # ps) seen =
     rbind (validate_plugin_id p) (\<lambda>_.
     if p \<in> set seen then Err ''duplicate publisher plugin identity'' else identities ps (p # seen))"

definition new_publisher :: "'k crypto \<Rightarrow> string \<Rightarrow> string \<Rightarrow> string list \<Rightarrow> 'k publisher_trust res" where
  "new_publisher C key_id public_key plugin_ids =
     (if key_id = [] \<or> 128 < length key_id \<or> \<not> is_ascii_alphanumeric (key_id ! 0)
         \<or> \<not> list_all (\<lambda>b. is_ascii_alphanumeric b \<or> b \<in> set ''_.:-'') key_id
      then Err ''invalid publisher key identifier''
      else if plugin_ids = [] \<or> 128 < length plugin_ids
      then Err ''publisher must authorize a bounded list of exact plugin identities''
      else rbind (identities plugin_ids []) (\<lambda>ids.
        rbind (ok_or ''invalid publisher public key'' (verifying_key C public_key)) (\<lambda>key.
          if is_weak C key then Err ''weak publisher public key''
          else Ok \<lparr>pt_key_id = key_id, pt_key = key, pt_plugin_ids = ids\<rparr>)))"

fun store_loop :: "'k publisher_trust list \<Rightarrow> 'k trust_store \<Rightarrow> 'k trust_store res" where
  "store_loop [] store = Ok store"
| "store_loop (p # ps) store =
     (if map_of store (pt_key_id p) \<noteq> None then Err ''duplicate publisher key identifier''
      else store_loop ps ((pt_key_id p, p) # store))"

definition new_trust_store :: "'k publisher_trust list \<Rightarrow> 'k trust_store res" where
  "new_trust_store publishers =
     (if 128 < length publishers then Err ''publisher trust store exceeds key limit''
      else store_loop publishers [])"

section \<open>Hexadecimal\<close>

definition hex_digit :: "nat \<Rightarrow> char" where
  "hex_digit n = ''0123456789abcdef'' ! n"

definition hex_encode :: "string \<Rightarrow> string" where
  "hex_encode bytes = concat (map (\<lambda>b. [hex_digit (byte b div 16), hex_digit (byte b mod 16)]) bytes)"

definition sha256_hex :: "'k crypto \<Rightarrow> string \<Rightarrow> string" where
  "sha256_hex C bytes = hex_encode (sha256_digest C bytes)"

definition signature_digit :: "char \<Rightarrow> nat res" where
  "signature_digit c =
     (if is_ascii_digit c then Ok (byte c - 48)
      else if 97 \<le> byte c \<and> byte c \<le> 102 then Ok (byte c - 97 + 10)
      else Err ''invalid publisher signature'')"

fun decode_pairs :: "string \<Rightarrow> string res" where
  "decode_pairs (h # l # rest) =
     rbind (signature_digit h) (\<lambda>high. rbind (signature_digit l) (\<lambda>low.
     rbind (decode_pairs rest) (\<lambda>bytes. Ok (char_of (high * 16 + low) # bytes))))"
| "decode_pairs _ = Ok []"

definition decode_signature :: "string \<Rightarrow> string res" where
  "decode_signature value =
     (if length value \<noteq> 64 * 2 then Err ''invalid publisher signature'' else decode_pairs value)"

section \<open>The signed payload\<close>

definition SIGNING_DOMAIN :: string where
  "SIGNING_DOMAIN = ''inverter-desktop:idplugin:manifest:v1'' @ [CHR 0x00]"

text \<open>Object members in key order at every level; arrays keep theirs.\<close>

fun sort_json :: "json \<Rightarrow> json"
  and sort_members :: "(string \<times> json) list \<Rightarrow> (string \<times> json) list"
  and sort_elements :: "json list \<Rightarrow> json list" where
  "sort_json (JObject fs) = JObject (sort_key fst (sort_members fs))"
| "sort_json (JArray vs) = JArray (sort_elements vs)"
| "sort_json v = v"
| "sort_members [] = []"
| "sort_members ((k, v) # fs) = (k, sort_json v) # sort_members fs"
| "sort_elements [] = []"
| "sort_elements (v # vs) = sort_json v # sort_elements vs"

definition canonical_manifest_bytes :: "ext \<Rightarrow> plugin_manifest \<Rightarrow> string res" where
  "canonical_manifest_bytes X m =
     rbind (validate_manifest X m) (\<lambda>_.
     map_err (\<lambda>_. ''cannot serialize plugin manifest'')
       (enc_manifest X (m\<lparr>m_config_schema := sort_json (m_config_schema m)\<rparr>)))"

definition manifest_signing_payload :: "ext \<Rightarrow> plugin_manifest \<Rightarrow> string res" where
  "manifest_signing_payload X m =
     rbind (canonical_manifest_bytes X (m\<lparr>m_signature := None\<rparr>)) (\<lambda>bytes. Ok (SIGNING_DOMAIN @ bytes))"

definition verify_publisher :: "ext \<Rightarrow> 'k crypto \<Rightarrow> plugin_manifest \<Rightarrow> 'k trust_store \<Rightarrow> unit res" where
  "verify_publisher X C m trust =
     rbind (ok_or ''plugin package must have a publisher signature'' (m_signature m)) (\<lambda>signature.
     rbind (ok_or ''plugin publisher is not trusted'' (map_of trust (sig_key_id signature))) (\<lambda>publisher.
     if m_plugin_id m \<notin> set (pt_plugin_ids publisher)
     then Err ''publisher is not authorized for this plugin identity''
     else rbind (manifest_signing_payload X m) (\<lambda>payload.
       rbind (decode_signature (sig_signature signature)) (\<lambda>sig.
         reject (\<not> verify_strict C (pt_key publisher) payload sig)
           ''plugin publisher signature verification failed''))))"

section \<open>Archive contents\<close>

record verified_package =
  vp_manifest :: plugin_manifest
  vp_archive :: string
  vp_archive_sha256 :: string
  vp_files :: "archive_entry list"
  vp_archive_pin :: bool

text \<open>\<^verbatim>\<open>bytes[entry.data.clone()]\<close>, within bounds for every scanned entry.\<close>

definition entry_data :: "string \<Rightarrow> archive_entry \<Rightarrow> string" where
  "entry_data bytes x = take (snd (ae_data x) - fst (ae_data x)) (drop (fst (ae_data x)) bytes)"

text \<open>The \<^verbatim>\<open>HashMap\<close> of the inventory: a later item replaces an earlier one of the same path.\<close>

definition inventory_map :: "plugin_manifest \<Rightarrow> (string \<times> inventory_entry) list" where
  "inventory_map m = rev (map (\<lambda>i. (inv_path i, i)) (m_inventory m))"

definition check_inventory_file :: "'k crypto \<Rightarrow> plugin_manifest \<Rightarrow> string \<Rightarrow> archive_entry \<Rightarrow> unit res" where
  "check_inventory_file C m bytes x =
     rbind (ok_or ''plugin archive contains an unlisted file'' (map_of (inventory_map m) (ae_path x))) (\<lambda>item.
       reject (unat (inv_size item) \<noteq> length (entry_data bytes x)
               \<or> inv_sha256 item \<noteq> sha256_hex C (entry_data bytes x))
         ''plugin file does not match its inventory size and digest'')"

fun read_loop :: "nat option list \<Rightarrow> nat \<Rightarrow> nat \<Rightarrow> nat res" where
  "read_loop [] limit read = Ok read"
| "read_loop (None # rs) limit read = Err ''plugin ZIP checksum verification failed''"
| "read_loop (Some n # rs) limit read =
     (if n = 0 then Ok read
      else if limit < read + n then Err ''plugin ZIP reader exceeded declared size''
      else read_loop rs limit (read + n))"

definition check_zip_file :: "zip_file option \<Rightarrow> archive_entry \<Rightarrow> unit res" where
  "check_zip_file file x =
     rbind (ok_or ''invalid plugin ZIP file'' file) (\<lambda>f.
     let size = snd (ae_data x) - fst (ae_data x) in
     if zf_name_raw f \<noteq> ae_path x \<or> zf_size f \<noteq> size \<or> zf_data_start f \<noteq> Some (fst (ae_data x))
        \<or> zf_encrypted f \<or> \<not> zf_is_file f \<or> \<not> zf_stored f
     then Err ''plugin ZIP reader metadata mismatch''
     else rbind (read_loop (zf_reads f) size 0) (\<lambda>read.
       reject (read \<noteq> size) ''plugin ZIP reader returned a truncated file''))"

definition check_zip_reader :: "'k crypto \<Rightarrow> string \<Rightarrow> archive_entry list \<Rightarrow> unit res" where
  "check_zip_reader C bytes rest =
     rbind (ok_or ''invalid plugin ZIP archive'' (zip_open C bytes)) (\<lambda>archive.
     if length archive \<noteq> length rest then Err ''plugin ZIP reader entry-count mismatch''
     else checks (map2 check_zip_file archive rest))"

definition verify_archive_contents :: "ext \<Rightarrow> 'k crypto \<Rightarrow> string \<Rightarrow> string \<Rightarrow> bool
    \<Rightarrow> (plugin_manifest \<Rightarrow> string \<Rightarrow> unit res) \<Rightarrow> verified_package res" where
  "verify_archive_contents X C bytes target pin authorize =
     (if MAX_ARCHIVE_BYTES < length bytes then Err ''plugin package exceeds archive size limit''
      else rbind (scan_archive bytes) (\<lambda>files.
        let manifest_bytes = entry_data bytes (hd files) in
        rbind (parse_manifest X manifest_bytes) (\<lambda>m.
        rbind (validate_for_target X m target) (\<lambda>_.
        rbind (canonical_manifest_bytes X m) (\<lambda>canonical.
        if canonical \<noteq> manifest_bytes then Err ''plugin manifest is not in canonical package encoding''
        else
        let digest = sha256_hex C bytes in
        rbind (authorize m digest) (\<lambda>_.
        if length (m_inventory m) \<noteq> length files - 1 then Err ''plugin archive does not match its inventory''
        else
        rbind (for_each (check_inventory_file C m bytes) (tl files)) (\<lambda>_.
        rbind (check_zip_reader C bytes files) (\<lambda>_.
          Ok \<lparr>vp_manifest = m, vp_archive = bytes, vp_archive_sha256 = digest, vp_files = files,
              vp_archive_pin = pin\<rparr>))))))))"

definition verify_archive_bytes :: "ext \<Rightarrow> 'k crypto \<Rightarrow> string \<Rightarrow> 'k trust_store \<Rightarrow> string \<Rightarrow> verified_package res" where
  "verify_archive_bytes X C bytes trust target =
     verify_archive_contents X C bytes target False (\<lambda>m _. verify_publisher X C m trust)"

definition verify_pinned_archive_bytes :: "ext \<Rightarrow> 'k crypto \<Rightarrow> string \<Rightarrow> string \<Rightarrow> string \<Rightarrow> string \<Rightarrow> string
    \<Rightarrow> verified_package res" where
  "verify_pinned_archive_bytes X C bytes plugin version target sha256 =
     rbind (validate_plugin_id plugin) (\<lambda>_.
     if version = [] \<or> 128 < length version \<or> \<not> version_ok X version \<or> length sha256 \<noteq> 64
        \<or> \<not> list_all (\<lambda>b. is_ascii_digit b \<or> (97 \<le> byte b \<and> byte b \<le> 102)) sha256
     then Err ''invalid configured plugin version or archive digest''
     else verify_archive_contents X C bytes target True (\<lambda>m digest.
       reject (m_plugin_id m \<noteq> plugin \<or> m_version m \<noteq> version \<or> digest \<noteq> sha256)
         ''plugin package does not match its configured identity, version, or archive digest''))"

definition reverify :: "ext \<Rightarrow> 'k crypto \<Rightarrow> verified_package \<Rightarrow> 'k trust_store \<Rightarrow> string \<Rightarrow> verified_package res" where
  "reverify X C v trust target =
     (if vp_archive_pin v
      then verify_pinned_archive_bytes X C (vp_archive v) (m_plugin_id (vp_manifest v)) (m_version (vp_manifest v))
             target (vp_archive_sha256 v)
      else verify_archive_bytes X C (vp_archive v) trust target)"

definition payload_files :: "verified_package \<Rightarrow> (string \<times> string) list" where
  "payload_files v = map (\<lambda>x. (ae_path x, entry_data (vp_archive v) x)) (tl (vp_files v))"

section \<open>Files and the publisher policy\<close>

text \<open>What the operating system shows of a plugin file opened without following links.\<close>

record opened_file =
  of_metadata :: "(bool \<times> nat \<times> nat) option" \<comment> \<open>is a regular file, length, number of links\<close>
  of_content :: "string option"

definition read_regular_file :: "opened_file option \<Rightarrow> nat \<Rightarrow> string res" where
  "read_regular_file opened max_bytes =
     (if MAX_ARCHIVE_BYTES < max_bytes then Err ''plugin file read exceeds allowed limit''
      else rbind (ok_or ''cannot open plugin file'' opened) (\<lambda>file.
        rbind (ok_or ''cannot inspect plugin file'' (of_metadata file)) (\<lambda>(is_file, len, nlink).
        if \<not> is_file \<or> max_bytes < len then Err ''plugin file must be a bounded regular file''
        else if nlink \<noteq> 1 then Err ''plugin file must not be a hard link''
        else rbind (ok_or ''cannot read plugin file'' (of_content file)) (\<lambda>content.
          let bytes = take (max_bytes + 1) content
          in if max_bytes < length bytes then Err ''plugin file exceeds read limit'' else Ok bytes))))"

definition verify_archive :: "ext \<Rightarrow> 'k crypto \<Rightarrow> opened_file option \<Rightarrow> 'k trust_store \<Rightarrow> string \<Rightarrow> verified_package res" where
  "verify_archive X C opened trust target =
     rbind (read_regular_file opened MAX_ARCHIVE_BYTES) (\<lambda>bytes. verify_archive_bytes X C bytes trust target)"

definition MAX_POLICY_BYTES :: nat where "MAX_POLICY_BYTES = 64 * 1024"

fun collect_results :: "('a \<Rightarrow> 'e + 'b) \<Rightarrow> 'a list \<Rightarrow> 'e + 'b list" where
  "collect_results f [] = Ok []"
| "collect_results f (x # xs) = rbind (f x) (\<lambda>y. rbind (collect_results f xs) (\<lambda>ys. Ok (y # ys)))"

definition policy_publisher :: "'k crypto \<Rightarrow> publisher_entry \<Rightarrow> 'k publisher_trust res" where
  "policy_publisher C p =
     (if \<not> lowercase_hex (pe_public_key p) 64 \<or> pe_plugin_ids p = [] \<or> 64 < length (pe_plugin_ids p)
      then Err ''Invalid publisher key or plugin scope''
      else rbind (map_err (\<lambda>_. ''Invalid publisher key'') (decode_pairs (pe_public_key p))) (\<lambda>key.
        new_publisher C (pe_key_id p) key (pe_plugin_ids p)))"

definition parse_policy :: "'k crypto \<Rightarrow> string \<Rightarrow> 'k trust_store res" where
  "parse_policy C text =
     (if MAX_POLICY_BYTES < length text then Err ''Publisher policy exceeds size limit''
      else rbind (ok_or ''Invalid publisher policy'' (dec_policy C text)) (\<lambda>policy.
        if pol_schema_version policy \<noteq> 1 \<or> 64 < length (pol_publishers policy)
        then Err ''Unsupported publisher policy''
        else rbind (collect_results (policy_publisher C) (pol_publishers policy)) new_trust_store))"

section \<open>Hexadecimal, both ways\<close>

lemma hex_digit_decodes: "n < 16 \<Longrightarrow> signature_digit (hex_digit n) = Ok n"
proof -
  assume "n < 16"
  then have "n \<in> set [0..<16]" by simp
  moreover have "list_all (\<lambda>n. signature_digit (hex_digit n) = Ok n) [0..<16]" by code_simp
  ultimately show ?thesis by (simp add: list_all_iff)
qed

lemma signature_digit_Ok: "signature_digit c = Ok n \<Longrightarrow> n < 16 \<and> hex_digit n = c"
proof -
  assume "signature_digit c = Ok n"
  then have "48 \<le> byte c \<and> byte c < 58 \<and> n = byte c - 48 \<or> 97 \<le> byte c \<and> byte c < 103 \<and> n = byte c - 87"
    by (auto simp: signature_digit_def is_ascii_digit_def split: if_splits)
  then have *: "n < 16" "byte c = (if n < 10 then 48 + n else 87 + n)" by auto
  have "list_all (\<lambda>n. hex_digit n = char_of (if n < 10 then 48 + n else 87 + n)) [0..<16]" by code_simp
  then have "hex_digit n = char_of (if n < 10 then 48 + n else 87 + n)" using *(1) by (simp add: list_all_iff)
  then have "hex_digit n = char_of (byte c)" using *(2) by simp
  then show ?thesis using *(1) by simp
qed

lemma decode_pairs_hex: "decode_pairs (hex_encode bytes) = Ok bytes"
proof (induction bytes)
  case (Cons b bs)
  have "byte b < 256"  by simp
  then have "byte b div 16 < 16" by (simp add: less_mult_imp_div_less)
  then have "signature_digit (hex_digit (byte b div 16)) = Ok (byte b div 16)"
    "signature_digit (hex_digit (byte b mod 16)) = Ok (byte b mod 16)" by (simp_all add: hex_digit_decodes)
  moreover have "byte b div 16 * 16 + byte b mod 16 = byte b" by simp
  ultimately show ?case using Cons by (simp add: hex_encode_def)
qed (simp add: hex_encode_def)

lemma hex_decode_pairs: "decode_pairs v = Ok bytes \<Longrightarrow> even (length v) \<Longrightarrow> hex_encode bytes = v"
proof (induction v arbitrary: bytes rule: decode_pairs.induct)
  case (1 h l rest)
  then obtain hi lo bs where *: "signature_digit h = Ok hi" "signature_digit l = Ok lo" "decode_pairs rest = Ok bs"
    "bytes = char_of (hi * 16 + lo) # bs" by (auto simp: rbind_Ok)
  with signature_digit_Ok have d: "hi < 16" "lo < 16" "hex_digit hi = h" "hex_digit lo = l" by blast+
  have "hex_encode bs = rest" using 1 * by auto
  moreover have "byte (char_of (hi * 16 + lo)) = hi * 16 + lo"
    using d by (simp add: of_char_of take_bit_eq_mod)
  ultimately show ?case using * d by (simp add: hex_encode_def)
qed (auto simp: hex_encode_def)

lemma hex_encode_length: "length (hex_encode bytes) = 2 * length bytes"
  by (induction bytes) (simp_all add: hex_encode_def)

lemma decode_signature_Ok:
  "decode_signature v = Ok bytes \<longleftrightarrow> length bytes = 64 \<and> v = hex_encode bytes"
proof
  assume "decode_signature v = Ok bytes"
  then have "length v = 128" "decode_pairs v = Ok bytes" by (auto simp: decode_signature_def split: if_splits)
  with hex_decode_pairs [of v bytes] show "length bytes = 64 \<and> v = hex_encode bytes"
    using hex_encode_length [of bytes] by simp
next
  assume "length bytes = 64 \<and> v = hex_encode bytes"
  then show "decode_signature v = Ok bytes"
    by (simp add: decode_signature_def decode_pairs_hex hex_encode_length)
qed

text \<open>
  Signatures in hexadecimal are exact: 64 bytes written in lowercase decode to themselves, and
  whatever decodes is the lowercase writing of 64 bytes, so a signature has one accepted spelling.
\<close>

theorem signature_hex:
  "decode_signature v = Ok bytes \<longleftrightarrow> length bytes = 64 \<and> v = hex_encode bytes"
  by (rule decode_signature_Ok)

section \<open>What a verified package guarantees\<close>

lemma verify_archive_contents_Ok:
  assumes "verify_archive_contents X C bytes target pin authorize = Ok v"
  obtains "scan_archive bytes = Ok (vp_files v)" "validate_manifest X (vp_manifest v) = Ok ()"
    "m_target (vp_manifest v) = target"
    "canonical_manifest_bytes X (vp_manifest v) = Ok (entry_data bytes (hd (vp_files v)))"
    "authorize (vp_manifest v) (sha256_hex C bytes) = Ok ()"
    "length (m_inventory (vp_manifest v)) = length (vp_files v) - 1"
    "\<forall>x \<in> set (tl (vp_files v)). check_inventory_file C (vp_manifest v) bytes x = Ok ()"
    "vp_archive v = bytes" "vp_archive_sha256 v = sha256_hex C bytes" "vp_archive_pin v = pin"
    "length bytes \<le> MAX_ARCHIVE_BYTES"
  using assms
  by (auto simp: verify_archive_contents_def Let_def result_simps validate_for_target_def split: if_splits)

lemma sorted_payload_distinct: "sorted_payload xs \<Longrightarrow> distinct (map ae_path xs)"
proof -
  assume "sorted_payload xs"
  then have "sorted_wrt (<) (map ae_path xs)"
  proof (induction xs)
    case (Cons a xs)
    show ?case
    proof (cases xs)
      case (Cons b ys)
      with Cons.prems Cons.IH have "ae_path a < ae_path b" "sorted_wrt (<) (map ae_path xs)"
        by (simp_all add: sorted_payload_def)
      with Cons show ?thesis by (auto intro: less_trans)
    qed simp
  qed simp
  then show ?thesis by (simp add: strict_sorted_iff)
qed

lemma check_inventory_file_Ok:
  "check_inventory_file C m bytes x = Ok () \<longleftrightarrow> (\<exists>i. map_of (inventory_map m) (ae_path x) = Some i
     \<and> unat (inv_size i) = length (entry_data bytes x) \<and> inv_sha256 i = sha256_hex C (entry_data bytes x))"
  by (auto simp: check_inventory_file_def result_simps)

lemma inventory_map_Some: "map_of (inventory_map m) p = Some i \<Longrightarrow> i \<in> set (m_inventory m) \<and> inv_path i = p"
  by (auto simp: inventory_map_def dest!: map_of_SomeD)

text \<open>
  C7. Whoever authorises it, a verified package holds exactly its inventory: its payload files are
  the listed paths, each once, and each has the listed size and the listed digest of its very bytes.
\<close>

theorem verified_inventory:
  assumes "verify_archive_contents X C bytes target pin authorize = Ok v"
  shows "distinct (map fst (payload_files v))
     \<and> fst ` set (payload_files v) = inv_path ` set (m_inventory (vp_manifest v))
     \<and> (\<forall>(path, data) \<in> set (payload_files v). \<exists>i \<in> set (m_inventory (vp_manifest v)).
          inv_path i = path \<and> unat (inv_size i) = length data \<and> inv_sha256 i = sha256_hex C data)
     \<and> vp_archive v = bytes \<and> vp_archive_sha256 v = sha256_hex C bytes \<and> m_target (vp_manifest v) = target"
proof -
  let ?m = "vp_manifest v" and ?fs = "tl (vp_files v)"
  obtain scan: "scan_archive bytes = Ok (vp_files v)" and len: "length (m_inventory ?m) = length (vp_files v) - 1"
    and each: "\<forall>x \<in> set ?fs. check_inventory_file C ?m bytes x = Ok ()"
    and rest: "vp_archive v = bytes" "vp_archive_sha256 v = sha256_hex C bytes" "m_target ?m = target"
    using verify_archive_contents_Ok [OF assms] by metis
  have keys: "map fst (payload_files v) = map ae_path ?fs" by (simp add: payload_files_def)
  have d: "distinct (map ae_path ?fs)"
    using scan_archive_parts [OF scan] by (metis sorted_payload_distinct)
  have listed: "ae_path ` set ?fs \<subseteq> inv_path ` set (m_inventory ?m)"
    using each by (force simp: check_inventory_file_Ok dest!: inventory_map_Some)
  have "card (inv_path ` set (m_inventory ?m)) \<le> length (m_inventory ?m)"
    by (metis card_length length_map list.set_map)
  also have "\<dots> = card (ae_path ` set ?fs)" using distinct_card [OF d] len by simp
  finally have "ae_path ` set ?fs = inv_path ` set (m_inventory ?m)"
    using listed by (simp add: card_seteq)
  moreover have "\<exists>i \<in> set (m_inventory ?m). inv_path i = ae_path x \<and> unat (inv_size i) = length (entry_data bytes x)
      \<and> inv_sha256 i = sha256_hex C (entry_data bytes x)" if "x \<in> set ?fs" for x
    using each that inventory_map_Some by (fastforce simp: check_inventory_file_Ok)
  ultimately show ?thesis using keys d rest by (auto simp: payload_files_def image_image comp_def)
qed

lemma verify_publisher_Ok:
  "verify_publisher X C m trust = Ok () \<longleftrightarrow> (\<exists>s publisher payload sig. m_signature m = Some s
     \<and> map_of trust (sig_key_id s) = Some publisher \<and> m_plugin_id m \<in> set (pt_plugin_ids publisher)
     \<and> manifest_signing_payload X m = Ok payload \<and> decode_signature (sig_signature s) = Ok sig
     \<and> verify_strict C (pt_key publisher) payload sig)"
  by (auto simp: verify_publisher_def result_simps)

text \<open>
  C38. A package passes under a trust store only with the strict signature of a publisher the store
  names, who is entitled to that very plugin, over the signing domain and the canonical manifest
  without its signature; an empty store passes nothing.
\<close>

theorem publisher_authority:
  assumes "verify_archive_bytes X C bytes trust target = Ok v"
  shows "\<exists>s publisher canonical sig. m_signature (vp_manifest v) = Some s
     \<and> map_of trust (sig_key_id s) = Some publisher \<and> m_plugin_id (vp_manifest v) \<in> set (pt_plugin_ids publisher)
     \<and> canonical_manifest_bytes X ((vp_manifest v)\<lparr>m_signature := None\<rparr>) = Ok canonical
     \<and> sig_signature s = hex_encode sig \<and> length sig = 64
     \<and> verify_strict C (pt_key publisher) (''inverter-desktop:idplugin:manifest:v1'' @ [CHR 0x00] @ canonical) sig"
proof -
  have "verify_publisher X C (vp_manifest v) trust = Ok ()"
    using assms unfolding verify_archive_bytes_def by (rule verify_archive_contents_Ok)
  then obtain s publisher payload sig where *: "m_signature (vp_manifest v) = Some s"
    "map_of trust (sig_key_id s) = Some publisher" "m_plugin_id (vp_manifest v) \<in> set (pt_plugin_ids publisher)"
    "manifest_signing_payload X (vp_manifest v) = Ok payload" "decode_signature (sig_signature s) = Ok sig"
    "verify_strict C (pt_key publisher) payload sig"
    unfolding verify_publisher_Ok by blast
  from *(4) obtain canonical where "canonical_manifest_bytes X ((vp_manifest v)\<lparr>m_signature := None\<rparr>) = Ok canonical"
    "payload = SIGNING_DOMAIN @ canonical" by (auto simp: manifest_signing_payload_def rbind_Ok)
  with * show ?thesis by (auto simp: decode_signature_Ok SIGNING_DOMAIN_def)
qed

text \<open>
  Verification is repeatable on what it returns: the owned bytes, checked again under the same policy
  and target, give the same package, by the same authority; and a pinned package is the one
  the pin names, digest included.
\<close>

theorem reverify_stable:
  "(verify_archive_bytes X C bytes trust target = Ok v \<longrightarrow>
      reverify X C v trust target = Ok v)
   \<and> (verify_pinned_archive_bytes X C bytes plugin version target sha256 = Ok w \<longrightarrow>
      reverify X C w trust target = Ok w \<and> m_plugin_id (vp_manifest w) = plugin
      \<and> m_version (vp_manifest w) = version \<and> sha256_hex C (vp_archive w) = sha256)"
proof (intro conjI impI)
  assume v: "verify_archive_bytes X C bytes trust target = Ok v"
  then have "vp_archive v = bytes" "\<not> vp_archive_pin v"
    unfolding verify_archive_bytes_def by (auto elim: verify_archive_contents_Ok)
  with v show "reverify X C v trust target = Ok v" by (simp add: reverify_def)
next
  assume w: "verify_pinned_archive_bytes X C bytes plugin version target sha256 = Ok w"
  let ?auth = "\<lambda>m digest. reject (m_plugin_id m \<noteq> plugin \<or> m_version m \<noteq> version \<or> digest \<noteq> sha256)
    ''plugin package does not match its configured identity, version, or archive digest''"
  have c: "verify_archive_contents X C bytes target True ?auth = Ok w"
    using w by (auto simp: verify_pinned_archive_bytes_def result_simps split: if_splits)
  then have *: "vp_archive w = bytes" "vp_archive_pin w" "vp_archive_sha256 w = sha256_hex C bytes"
    "?auth (vp_manifest w) (sha256_hex C bytes) = Ok ()" by (auto elim: verify_archive_contents_Ok)
  then have pin: "m_plugin_id (vp_manifest w) = plugin" "m_version (vp_manifest w) = version" "sha256_hex C bytes = sha256"
    by (auto simp: reject_Ok)
  with * w show "reverify X C w trust target = Ok w" by (simp add: reverify_def)
  show "m_plugin_id (vp_manifest w) = plugin" "m_version (vp_manifest w) = version" "sha256_hex C (vp_archive w) = sha256"
    using pin * by simp_all
qed

section \<open>A package, evaluated\<close>

definition sample_crypto :: "unit crypto" where
  "sample_crypto = \<lparr>sha256_digest = (\<lambda>_. replicate 32 (CHR 0x00)), verifying_key = (\<lambda>_. Some ()),
     is_weak = (\<lambda>_. False), verify_strict = (\<lambda>_ _ _. True),
     zip_open = (\<lambda>_. Some [
       Some \<lparr>zf_name_raw = ''manifest.json'', zf_size = 2, zf_data_start = Some 43, zf_encrypted = False,
         zf_is_file = True, zf_stored = True, zf_reads = [Some 2, Some 0]\<rparr>,
       Some \<lparr>zf_name_raw = ''bin/worker'', zf_size = 7, zf_data_start = Some 85, zf_encrypted = False,
         zf_is_file = True, zf_stored = True, zf_reads = [Some 4, Some 3, Some 0]\<rparr>]),
     dec_policy = (\<lambda>_. None)\<rparr>"

definition signed_manifest :: plugin_manifest where
  "signed_manifest = sample_manifest\<lparr>m_signature := Some \<lparr>sig_algorithm = ''ed25519'', sig_key_id = ''k1'',
     sig_signature = replicate 128 (CHR ''0'')\<rparr>\<rparr>"

definition package_ext :: ext where
  "package_ext = sample_ext\<lparr>dec_manifest := (\<lambda>_. Ok signed_manifest)\<rparr>"

definition sample_trust :: "unit trust_store" where
  "sample_trust = [(''k1'', \<lparr>pt_key_id = ''k1'', pt_key = (), pt_plugin_ids = [''com.example'']\<rparr>)]"

definition sample_package :: verified_package where
  "sample_package = \<lparr>vp_manifest = signed_manifest, vp_archive = sample_archive,
     vp_archive_sha256 = replicate 64 (CHR ''0''), vp_files = sample_files, vp_archive_pin = False\<rparr>"

lemma sample_package_verifies:
  "verify_archive_bytes package_ext sample_crypto sample_archive sample_trust ''x86_64-unknown-linux-gnu'' = Ok sample_package"
  unfolding verify_archive_bytes_def verify_archive_contents_def sample_archive_scans rbind.simps by code_simp

theorem verified_inventory_witness:
  "fst ` set (payload_files sample_package) = inv_path ` set (m_inventory signed_manifest)
   \<and> m_target signed_manifest = ''x86_64-unknown-linux-gnu''"
proof -
  have m: "vp_manifest sample_package = signed_manifest" by (simp add: sample_package_def)
  show ?thesis using verified_inventory [OF sample_package_verifies [unfolded verify_archive_bytes_def]]
    unfolding m by blast
qed

theorem publisher_authority_witness:
  "\<exists>s. m_signature (vp_manifest sample_package) = Some s \<and> map_of sample_trust (sig_key_id s) \<noteq> None"
  using publisher_authority [OF sample_package_verifies] by auto

theorem reverify_stable_witness:
  "reverify package_ext sample_crypto sample_package sample_trust ''x86_64-unknown-linux-gnu'' = Ok sample_package"
  using reverify_stable [of package_ext sample_crypto sample_archive sample_trust "''x86_64-unknown-linux-gnu''" sample_package]
    sample_package_verifies by blast

end
