(* ===== verification/Contributions.thy ===== *)
theory Contributions
  imports Checks Samples "HOL-Library.Multiset"
begin

text \<open>
  Dashboard contributions of \<^verbatim>\<open>protocol.rs\<close>: the accessors of one contribution, its validation, and
  the validation of a complete replacement snapshot with its three sets carried through the loop.

  The lemmas replace the loop by what a snapshot must satisfy as a multiset, so acceptance cannot
  depend on the order in which a worker lists its items.
\<close>

section \<open>One contribution\<close>

fun contribution_id :: "dashboard_contribution \<Rightarrow> string" where
  "contribution_id (CText i _ _) = i"
| "contribution_id (CMetric i _ _ _) = i"
| "contribution_id (CStatus i _ _ _) = i"
| "contribution_id (CAction i _ _ _ _ _) = i"
| "contribution_id (CNumberInput i _ _) = i"

fun number_input_grant :: "dashboard_contribution \<Rightarrow> number_input_grant option" where
  "number_input_grant (CNumberInput i _ n) = Some
     \<lparr>g_id = i, g_action_id = ni_action_id n, g_unit = ni_unit n, g_input_revision = ni_input_revision n,
      g_min_scaled = ni_min_scaled n, g_max_scaled = ni_max_scaled n, g_step_scaled = ni_step_scaled n,
      g_decimal_places = ni_decimal_places n\<rparr>"
| "number_input_grant _ = None"

fun contribution_state_id :: "dashboard_contribution \<Rightarrow> string option" where
  "contribution_state_id (CAction _ _ s _ _ _) = s"
| "contribution_state_id (CNumberInput _ _ n) = ni_state_id n"
| "contribution_state_id _ = None"

fun contribution_title :: "dashboard_contribution \<Rightarrow> string" where
  "contribution_title (CText _ t _) = t"
| "contribution_title (CMetric _ t _ _) = t"
| "contribution_title (CStatus _ t _ _) = t"
| "contribution_title (CAction _ t _ _ _ _) = t"
| "contribution_title (CNumberInput _ t _) = t"

fun validate_body :: "ext \<Rightarrow> dashboard_contribution \<Rightarrow> unit res" where
  "validate_body X (CText _ _ body) = text_check body ''contribution text'' 4096"
| "validate_body X (CMetric _ _ v unit) = checks
     [reject (\<not> is_finite v) ''metric value must be finite'',
      if_some (\<lambda>u. label u ''metric unit'' 32) unit]"
| "validate_body X (CStatus _ _ v _) = label v ''status value'' 4096"
| "validate_body X (CAction _ _ _ a lab ps) = checks
     [token a ''action_id'', label lab ''action label'' 128, validate_action_params X ps]"
| "validate_body X (CNumberInput _ _ n) = checks
     [token (ni_action_id n) ''action_id'',
      token (ni_input_revision n) ''input revision'',
      label (ni_label n) ''action label'' 128,
      if_some (\<lambda>u. label u ''numeric unit'' 32) (ni_unit n),
      reject
        (6 < ni_decimal_places n
         \<or> \<not> scaled_coefficient (ni_min_scaled n)
         \<or> \<not> scaled_coefficient (ni_max_scaled n)
         \<or> \<not> scaled_coefficient (ni_step_scaled n)
         \<or> ni_max_scaled n < ni_min_scaled n
         \<or> \<not> scaled_value (ni_value_scaled n) (ni_min_scaled n) (ni_max_scaled n) (ni_step_scaled n))
        ''invalid numeric input bounds or observed value'']"

definition validate_contribution :: "ext \<Rightarrow> dashboard_contribution \<Rightarrow> unit res" where
  "validate_contribution X c = checks
     [token (contribution_id c) ''contribution id'',
      if_some (\<lambda>s. token s ''contribution state id'') (contribution_state_id c),
      validate_body X c,
      label (contribution_title c) ''contribution title'' 128]"

section \<open>A replacement snapshot\<close>

fun read_only :: "dashboard_contribution \<Rightarrow> bool" where
  "read_only (CText _ _ _) = True"
| "read_only (CMetric _ _ _ _) = True"
| "read_only (CStatus _ _ _ _) = True"
| "read_only _ = False"

text \<open>
  The loop over the items, with the sets \<^verbatim>\<open>states\<close> (fixed), \<^verbatim>\<open>ids\<close>, \<^verbatim>\<open>actionable\<close> and \<^verbatim>\<open>numeric\<close>.
\<close>

fun contributions_loop :: "ext \<Rightarrow> string set \<Rightarrow> dashboard_contribution list \<Rightarrow>
    string set \<Rightarrow> string set \<Rightarrow> string set \<Rightarrow> unit res" where
  "contributions_loop X states [] ids actionable numeric = Ok ()"
| "contributions_loop X states (item # items) ids actionable numeric =
     rbind (validate_contribution X item) (\<lambda>_.
     if contribution_id item \<in> ids then Err ''duplicate dashboard contribution id''
     else if (case contribution_state_id item of None \<Rightarrow> False | Some s \<Rightarrow> s \<notin> states)
     then Err ''control state id must reference a read-only contribution''
     else
       let ids = insert (contribution_id item) ids in
       case item of
         CNumberInput _ _ n \<Rightarrow>
           if ni_action_id n \<in> actionable then Err ''numeric action ids must be unique''
           else contributions_loop X states items ids
                  (insert (ni_action_id n) actionable) (insert (ni_action_id n) numeric)
       | CAction _ _ _ a _ _ \<Rightarrow>
           if a \<in> numeric then Err ''numeric action ids must be unique''
           else contributions_loop X states items ids (insert a actionable) numeric
       | _ \<Rightarrow> contributions_loop X states items ids actionable numeric)"

definition validate_contributions :: "ext \<Rightarrow> dashboard_contribution list \<Rightarrow> unit res" where
  "validate_contributions X items =
     (if MAX_CONTRIBUTIONS < length items then Err ''too many dashboard contributions''
      else contributions_loop X (set (map contribution_id (filter read_only items))) items {} {} {})"

section \<open>What a snapshot satisfies\<close>

fun action_of :: "dashboard_contribution \<Rightarrow> string option" where
  "action_of (CAction _ _ _ a _ _) = Some a"
| "action_of (CNumberInput _ _ n) = Some (ni_action_id n)"
| "action_of _ = None"

definition numeric_action :: "dashboard_contribution \<Rightarrow> string option" where
  "numeric_action c = map_option g_action_id (number_input_grant c)"

text \<open>How many items of a snapshot act under one action id.\<close>

definition actors :: "string \<Rightarrow> dashboard_contribution list \<Rightarrow> nat" where
  "actors a items = size (filter_mset (\<lambda>c. action_of c = Some a) (mset items))"

lemma actors_simps [simp]:
  "actors a [] = 0" "actors a (c # cs) = (if action_of c = Some a then 1 else 0) + actors a cs"
  by (auto simp: actors_def)

lemma actors_zero: "actors a items = 0 \<longleftrightarrow> (\<forall>c \<in> set items. action_of c \<noteq> Some a)"
  by (induction items) auto

lemma numeric_action_simps [simp]:
  "numeric_action (CText i t b) = None" "numeric_action (CMetric i t v u) = None"
  "numeric_action (CStatus i t w e) = None" "numeric_action (CAction i t s a l p) = None"
  "numeric_action (CNumberInput i t n) = Some (ni_action_id n)"
  by (simp_all add: numeric_action_def)

lemma numeric_action_of: "numeric_action c = Some a \<Longrightarrow> action_of c = Some a"
  by (cases c) auto

definition states_ok :: "string set \<Rightarrow> dashboard_contribution \<Rightarrow> bool" where
  "states_ok states c \<longleftrightarrow> (\<forall>s. contribution_state_id c = Some s \<longrightarrow> s \<in> states)"

text \<open>One turn of the loop.\<close>

definition turn_ok :: "ext \<Rightarrow> string set \<Rightarrow> string set \<Rightarrow> dashboard_contribution \<Rightarrow> bool" where
  "turn_ok X states ids c \<longleftrightarrow> validate_contribution X c = Ok () \<and> contribution_id c \<notin> ids \<and> states_ok states c"

lemma loop_turn:
  "contributions_loop X states (c # cs) ids actionable numeric = Ok () \<longleftrightarrow> turn_ok X states ids c
     \<and> (\<forall>a. numeric_action c = Some a \<longrightarrow> a \<notin> actionable)
     \<and> (\<forall>a. action_of c = Some a \<longrightarrow> a \<notin> numeric \<or> numeric_action c = Some a)
     \<and> contributions_loop X states cs (insert (contribution_id c) ids)
         (set_option (action_of c) \<union> actionable) (set_option (numeric_action c) \<union> numeric) = Ok ()"
  by (cases c) (auto simp: rbind_Ok Let_def turn_ok_def states_ok_def split: option.split_asm)

lemma contributions_loop_Ok:
  "numeric \<subseteq> actionable \<Longrightarrow> contributions_loop X states items ids actionable numeric = Ok () \<longleftrightarrow>
     (\<forall>c \<in> set items. validate_contribution X c = Ok () \<and> states_ok states c)
     \<and> distinct (map contribution_id items) \<and> set (map contribution_id items) \<inter> ids = {}
     \<and> (\<forall>c \<in> set items. \<forall>a. numeric_action c = Some a \<longrightarrow> a \<notin> actionable \<and> actors a items = 1)
     \<and> (\<forall>c \<in> set items. \<forall>a. action_of c = Some a \<longrightarrow> a \<notin> numeric)"
proof (induction items arbitrary: ids actionable numeric)
  case (Cons c cs)
  have "set_option (numeric_action c) \<union> numeric \<subseteq> set_option (action_of c) \<union> actionable"
    using Cons.prems numeric_action_of by (auto simp: elem_set)
  note IH = Cons.IH [OF this, of "insert (contribution_id c) ids"]
  have none: "actors a cs = 0 \<longleftrightarrow> (\<forall>d \<in> set cs. action_of d \<noteq> Some a)" for a by (rule actors_zero)
  show ?case
  proof (cases "action_of c")
    case None
    then have "numeric_action c = None" using numeric_action_of [of c] by (cases "numeric_action c") auto
    with None show ?thesis by (subst loop_turn, subst IH) (auto simp: turn_ok_def)
  next
    case (Some b)
    have one: "actors a (c # cs) = 1 \<longleftrightarrow> actors a cs = 1 \<and> a \<noteq> b" if "d \<in> set cs" "numeric_action d = Some a" for d a
      using that Some none [of a] numeric_action_of by auto
    have rest: "(\<forall>d \<in> set cs. \<forall>a. numeric_action d = Some a \<longrightarrow> a \<notin> actionable \<and> actors a (c # cs) = 1) \<longleftrightarrow>
      (\<forall>d \<in> set cs. \<forall>a. numeric_action d = Some a \<longrightarrow> a \<notin> insert b actionable \<and> actors a cs = 1)"
      using one by blast
    have first: "actors b (c # cs) = 1 \<longleftrightarrow> (\<forall>d \<in> set cs. action_of d \<noteq> Some b)" using Some none [of b] by simp
    have "numeric_action c = None \<or> numeric_action c = Some b"
      using Some numeric_action_of [of c] by (cases "numeric_action c") auto
    then show ?thesis
    proof
      assume "numeric_action c = None"
      then show ?thesis using rest Some
        by (subst loop_turn, subst IH) (simp del: actors_simps add: turn_ok_def, blast)
    next
      assume "numeric_action c = Some b"
      then show ?thesis using rest first Some Cons.prems
        by (subst loop_turn, subst IH) (simp del: actors_simps add: turn_ok_def, blast)
    qed
  qed
qed simp

definition anchored :: "dashboard_contribution list \<Rightarrow> bool" where
  "anchored items \<longleftrightarrow> (\<forall>c \<in> set items. \<forall>s. contribution_state_id c = Some s \<longrightarrow>
     (\<exists>d \<in> set items. read_only d \<and> contribution_id d = s))"

lemma anchored_states: "anchored items \<longleftrightarrow> (\<forall>c \<in> set items. states_ok (set (map contribution_id (filter read_only items))) c)"
  by (auto simp: anchored_def states_ok_def)

lemma validate_contributions_Ok:
  "validate_contributions X items = Ok () \<longleftrightarrow>
     length items \<le> 128 \<and> (\<forall>c \<in> set items. validate_contribution X c = Ok ())
     \<and> distinct (map contribution_id items) \<and> anchored items
     \<and> (\<forall>c \<in> set items. \<forall>a. numeric_action c = Some a \<longrightarrow> actors a items = 1)"
proof (cases "128 < length items")
  case False
  then show ?thesis
    unfolding anchored_states validate_contributions_def MAX_CONTRIBUTIONS_def
    by (simp only: contributions_loop_Ok [OF order_refl] if_False) auto
qed (simp add: validate_contributions_def MAX_CONTRIBUTIONS_def)

lemma validate_contributions_order:
  assumes "mset items' = mset items"
  shows "validate_contributions X items' = Ok () \<longleftrightarrow> validate_contributions X items = Ok ()"
proof -
  have "distinct (map contribution_id items') = distinct (map contribution_id items)"
    using assms by (metis mset_eq_imp_distinct_iff mset_map)
  moreover have "actors a items' = actors a items" for a using assms by (simp add: actors_def)
  moreover have "anchored items' = anchored items" using mset_eq_setD [OF assms] by (simp add: anchored_def)
  ultimately show ?thesis
    unfolding validate_contributions_Ok mset_eq_length [OF assms] mset_eq_setD [OF assms] by simp
qed

text \<open>
  C35. A snapshot is accepted exactly when it has at most 128 items, each valid in itself, with
  distinct identifiers; every state reference names a read-only item of the same snapshot; and the
  action of a numeric input is the action of no other item. In particular acceptance does not
  depend on the order of the items.
\<close>

theorem contributions_exact:
  "(validate_contributions X items = Ok () \<longleftrightarrow>
     length items \<le> 128 \<and> (\<forall>c \<in> set items. validate_contribution X c = Ok ())
     \<and> distinct (map contribution_id items)
     \<and> (\<forall>c \<in> set items. \<forall>s. contribution_state_id c = Some s \<longrightarrow>
          (\<exists>d \<in> set items. read_only d \<and> contribution_id d = s))
     \<and> (\<forall>c \<in> set items. \<forall>a. numeric_action c = Some a \<longrightarrow> actors a items = 1))
   \<and> (\<forall>items'. mset items' = mset items \<longrightarrow>
        (validate_contributions X items' = Ok () \<longleftrightarrow> validate_contributions X items = Ok ()))"
  using validate_contributions_Ok [of X items] validate_contributions_order [of _ items X]
  unfolding anchored_def by blast

theorem contributions_exact_witness:
  "validate_contributions sample_ext [CText ''a'' ''T'' ''x'', CAction ''b'' ''T'' (Some ''a'') ''go'' ''Go'' (JObject [])] = Ok ()
   \<and> validate_contributions sample_ext [CAction ''b'' ''T'' (Some ''a'') ''go'' ''Go'' (JObject []), CText ''a'' ''T'' ''x''] = Ok ()"
proof -
  have "validate_contributions sample_ext [CText ''a'' ''T'' ''x'', CAction ''b'' ''T'' (Some ''a'') ''go'' ''Go'' (JObject [])] = Ok ()"
    by code_simp
  with contributions_exact [of sample_ext "[CText ''a'' ''T'' ''x'', CAction ''b'' ''T'' (Some ''a'') ''go'' ''Go'' (JObject [])]"]
  show ?thesis by (simp add: add_mset_commute)
qed

text \<open>
  A valid numeric input and the grant derived from it agree: the grant accepts the request that
  repeats the observed value under the input's own revision, and every value it accepts is a coefficient.
\<close>

theorem numeric_input_grant:
  assumes "validate_contribution X (CNumberInput i t n) = Ok ()"
    and "number_input_grant (CNumberInput i t n) = Some g"
  shows "accepts g (JObject [(''input_revision'', JString (ni_input_revision n)),
                             (''value_scaled'', JNumber (NInt (ni_value_scaled n)))])
     \<and> scaled_coefficient (g_min_scaled g) \<and> scaled_coefficient (g_max_scaled g) \<and> 0 < g_step_scaled g
     \<and> g_min_scaled g \<le> g_max_scaled g"
proof -
  have v: "scaled_value (ni_value_scaled n) (ni_min_scaled n) (ni_max_scaled n) (ni_step_scaled n)"
    and c: "scaled_coefficient (ni_min_scaled n)" "scaled_coefficient (ni_max_scaled n)" "ni_min_scaled n \<le> ni_max_scaled n"
    using assms(1) by (simp_all add: validate_contribution_def result_simps)
  then have "0 < ni_step_scaled n" by (simp add: scaled_value_def)
  with v c assms(2) show ?thesis by (auto simp: accepts_iff)
qed

definition sample_input :: number_input where
  "sample_input = \<lparr>ni_state_id = None, ni_action_id = ''set'', ni_label = ''Set'', ni_unit = None,
     ni_input_revision = ''r1'', ni_value_scaled = 15, ni_min_scaled = 0, ni_max_scaled = 100,
     ni_step_scaled = 5, ni_decimal_places = 1\<rparr>"

theorem numeric_input_grant_witness:
  "\<exists>g. number_input_grant (CNumberInput ''n'' ''N'' sample_input) = Some g
     \<and> accepts g (JObject [(''input_revision'', JString ''r1''), (''value_scaled'', JNumber (NInt 15))])"
proof -
  have v: "validate_contribution sample_ext (CNumberInput ''n'' ''N'' sample_input) = Ok ()" by code_simp
  obtain g where g: "number_input_grant (CNumberInput ''n'' ''N'' sample_input) = Some g" by simp
  from numeric_input_grant [OF v g] g show ?thesis by (auto simp: sample_input_def)
qed

end
