(* ===== verification/Presentations.thy ===== *)
theory Presentations
  imports Contributions
begin

text \<open>
  \<^verbatim>\<open>presentation.rs\<close>: the compact views a worker publishes beside its contributions, and their
  validation against the items of the same snapshot. References only ever resolve to items, and an
  action reference only to an action item, so a view carries no authority of its own.
\<close>

section \<open>Primitives\<close>

definition bounded :: "string \<Rightarrow> nat \<Rightarrow> unit res" where
  "bounded v limit = reject
     (limit < length v \<or> list_ex (\<lambda>c. is_control c \<and> c \<noteq> 10) (chars v)) ''Invalid plugin presentation text''"

definition view_identifier :: "string \<Rightarrow> unit res" where
  "view_identifier v = reject
     (v = [] \<or> 64 < length v \<or> \<not> list_all (\<lambda>c. is_ascii_alphanumeric c \<or> c \<in> set ''-_.'') v)
     ''Invalid plugin presentation identity''"

definition item_ref :: "dashboard_contribution list \<Rightarrow> string \<Rightarrow> dashboard_contribution res" where
  "item_ref items i = ok_or ''Unknown presentation reference'' (find (\<lambda>v. contribution_id v = i) items)"

fun is_action :: "dashboard_contribution \<Rightarrow> bool" where
  "is_action (CAction _ _ _ _ _ _) = True" | "is_action _ = False"

fun is_number_input :: "dashboard_contribution \<Rightarrow> bool" where
  "is_number_input (CNumberInput _ _ _) = True" | "is_number_input _ = False"

fun is_text_or_status :: "dashboard_contribution \<Rightarrow> bool" where
  "is_text_or_status (CText _ _ _) = True"
| "is_text_or_status (CStatus _ _ _ _) = True"
| "is_text_or_status _ = False"

definition action_ref :: "dashboard_contribution list \<Rightarrow> string \<Rightarrow> unit res" where
  "action_ref items i = rbind (item_ref items i) (\<lambda>c.
     reject (\<not> is_action c) ''Invalid presentation action reference'')"

definition actions_ref :: "dashboard_contribution list \<Rightarrow> action_reference list \<Rightarrow> unit res" where
  "actions_ref items refs = checks
     [reject (4 < length refs) ''Too many presentation actions'',
      for_each (\<lambda>r. checks [bounded (ar_label r) 128, action_ref items (ar_id r)]) refs]"

definition sidebar :: "surface \<Rightarrow> unit res" where
  "sidebar s = reject (s \<noteq> Sidebar) ''Invalid presentation surface''"

section \<open>Views\<close>

definition expected_control :: "lock_state \<Rightarrow> control_state" where
  "expected_control l = (case l of Locked \<Rightarrow> On | Unlocked \<Rightarrow> Off | _ \<Rightarrow> Unavailable)"

definition lock_action_matches :: "string \<Rightarrow> dashboard_contribution \<Rightarrow> bool" where
  "lock_action_matches state_id c = (is_action c \<and> contribution_state_id c = Some state_id)"

definition validate_control :: "dashboard_contribution list \<Rightarrow> surface \<Rightarrow> control_state \<Rightarrow>
    lock_state option \<Rightarrow> string option \<Rightarrow> string option \<Rightarrow> unit res" where
  "validate_control items surf state lock state_id action = checks
     [reject (surf = Sidebar) ''Invalid control surface'',
      if_some (action_ref items) action,
      (case (lock, state_id) of
         (None, None) \<Rightarrow> Ok ()
       | (Some l, Some s) \<Rightarrow>
           let expected = expected_control l in checks
             [view_identifier s,
              rbind (item_ref items s) (\<lambda>c. reject (\<not> is_text_or_status c) ''Invalid lock state reference''),
              reject (state \<noteq> expected \<or> (expected = Unavailable \<and> action \<noteq> None)) ''Invalid lock control state'',
              if_some (\<lambda>r. rbind (item_ref items r) (\<lambda>c.
                reject (\<not> lock_action_matches s c) ''Invalid lock action state reference'')) action]
       | _ \<Rightarrow> Err ''Incomplete lock state presentation'')]"

definition validate_row :: "dashboard_contribution list \<Rightarrow> row \<Rightarrow> unit res" where
  "validate_row items r = checks
     [bounded (row_title r) 128,
      rbind (item_ref items (row_value r)) (\<lambda>c.
        reject (is_action c \<or> is_number_input c) ''Invalid presentation value reference''),
      actions_ref items (row_actions r),
      if_some (\<lambda>i. rbind (item_ref items i) (\<lambda>c.
        reject (\<not> is_number_input c) ''Invalid presentation input reference'')) (row_input r)]"

fun rows_loop :: "dashboard_contribution list \<Rightarrow> row list \<Rightarrow> string set \<Rightarrow> unit res" where
  "rows_loop items [] seen = Ok ()"
| "rows_loop items (r # rs) seen =
     rbind (view_identifier (row_id r)) (\<lambda>_.
     if row_id r \<in> seen then Err ''Duplicate presentation row''
     else rbind (validate_row items r) (\<lambda>_. rows_loop items rs (insert (row_id r) seen)))"

definition validate_period :: "forecast \<Rightarrow> unit res" where
  "validate_period p = checks
     [bounded (fc_datetime p) 64, bounded (fc_condition p) 128, bounded (fc_temperature p) 32,
      if_some (\<lambda>low. bounded low 32) (fc_templow p)]"

fun view_id :: "presentation \<Rightarrow> string" where
  "view_id (PControl i _ _ _ _ _ _ _ _) = i"
| "view_id (PGroup i _ _ _ _ _ _) = i"
| "view_id (PSummary i _ _ _ _ _ _ _ _) = i"
| "view_id (PWeather i _ _ _ _ _ _ _) = i"
| "view_id (PConnection i _ _) = i"

fun view_title :: "presentation \<Rightarrow> string" where
  "view_title (PControl _ _ _ t _ _ _ _ _) = t"
| "view_title (PGroup _ _ _ t _ _ _) = t"
| "view_title (PSummary _ _ _ t _ _ _ _ _) = t"
| "view_title (PWeather _ _ _ t _ _ _ _) = t"
| "view_title (PConnection _ t _) = t"

fun validate_view :: "dashboard_contribution list \<Rightarrow> presentation \<Rightarrow> unit res" where
  "validate_view items (PControl _ surf _ _ _ state lock state_id action) =
     validate_control items surf state lock state_id action"
| "validate_view items (PGroup _ surf _ _ _ _ rows) = checks
     [sidebar surf, reject (64 < length rows) ''Too many presentation rows'', rows_loop items rows {}]"
| "validate_view items (PSummary _ surf _ _ _ _ _ text refs) = checks
     [sidebar surf, bounded text 256, actions_ref items refs]"
| "validate_view items (PWeather _ surf _ _ condition temperature unit forecast) = checks
     [sidebar surf, bounded condition 128, bounded temperature 32, bounded unit 32,
      reject (5 < length forecast) ''Too many forecast periods'',
      for_each validate_period forecast]"
| "validate_view items (PConnection _ _ _) = Ok ()"

fun views_loop :: "dashboard_contribution list \<Rightarrow> presentation list \<Rightarrow> string set \<Rightarrow> unit res" where
  "views_loop items [] ids = Ok ()"
| "views_loop items (v # vs) ids =
     rbind (view_identifier (view_id v)) (\<lambda>_.
     rbind (bounded (view_title v) 128) (\<lambda>_.
     if view_id v \<in> ids then Err ''Duplicate plugin presentation identity''
     else rbind (validate_view items v) (\<lambda>_. views_loop items vs (insert (view_id v) ids))))"

definition validate_presentation :: "presentation list \<Rightarrow> dashboard_contribution list \<Rightarrow> unit res" where
  "validate_presentation views items =
     (if 96 < length views then Err ''Too many plugin presentations'' else views_loop items views {})"

interpretation view_ids: byte_class "\<lambda>s. view_identifier s = Ok ()" 64 "\<lambda>c. is_ascii_alphanumeric c \<or> c \<in> set ''-_.''"
  by unfold_locales (auto simp: view_identifier_def reject_Ok)

section \<open>What views refer to\<close>

text \<open>Every action a view offers.\<close>

fun offered :: "presentation \<Rightarrow> string set" where
  "offered (PControl _ _ _ _ _ _ _ _ action) = set_option action"
| "offered (PGroup _ _ _ _ _ _ rows) = (\<Union>r \<in> set rows. ar_id ` set (row_actions r))"
| "offered (PSummary _ _ _ _ _ _ _ _ refs) = ar_id ` set refs"
| "offered _ = {}"

fun inputs :: "presentation \<Rightarrow> string set" where
  "inputs (PGroup _ _ _ _ _ _ rows) = (\<Union>r \<in> set rows. set_option (row_input r))"
| "inputs _ = {}"

text \<open>The values of rows, and the state a lock shows.\<close>

fun readings :: "presentation \<Rightarrow> string set" where
  "readings (PGroup _ _ _ _ _ _ rows) = row_value ` set rows"
| "readings _ = {}"

fun shown_state :: "presentation \<Rightarrow> string set" where
  "shown_state (PControl _ _ _ _ _ _ _ state_id _) = set_option state_id"
| "shown_state _ = {}"

lemma item_ref_Ok: "item_ref items i = Ok c \<Longrightarrow> c \<in> set items \<and> contribution_id c = i"
  by (auto simp: item_ref_def ok_or_Ok find_Some_iff)

lemma action_ref_Ok: "action_ref items i = Ok () \<Longrightarrow> \<exists>c \<in> set items. contribution_id c = i \<and> is_action c"
  by (auto simp: action_ref_def result_simps dest: item_ref_Ok)

lemma actions_ref_Ok:
  "actions_ref items refs = Ok () \<Longrightarrow> i \<in> ar_id ` set refs \<Longrightarrow> \<exists>c \<in> set items. contribution_id c = i \<and> is_action c"
  by (auto simp: actions_ref_def result_simps intro!: action_ref_Ok)

lemma rows_loop_Ok:
  "rows_loop items rs seen = Ok () \<longleftrightarrow> (\<forall>r \<in> set rs. view_identifier (row_id r) = Ok () \<and> validate_row items r = Ok ())
     \<and> distinct (map row_id rs) \<and> row_id ` set rs \<inter> seen = {}"
  by (induction rs arbitrary: seen) (auto simp: rbind_Ok)

lemma views_loop_Ok:
  "views_loop items vs ids = Ok () \<longleftrightarrow>
     (\<forall>v \<in> set vs. view_identifier (view_id v) = Ok () \<and> bounded (view_title v) 128 = Ok () \<and> validate_view items v = Ok ())
     \<and> distinct (map view_id vs) \<and> view_id ` set vs \<inter> ids = {}"
  by (induction vs arbitrary: ids) (auto simp: rbind_Ok)

lemma validate_view_offered:
  "validate_view items v = Ok () \<Longrightarrow> i \<in> offered v \<Longrightarrow> \<exists>c \<in> set items. contribution_id c = i \<and> is_action c"
proof (cases v)
  case (PControl)
  assume "validate_view items v = Ok ()" "i \<in> offered v"
  with PControl show ?thesis by (auto simp: validate_control_def result_simps elem_set intro!: action_ref_Ok)
next
  case (PGroup)
  assume "validate_view items v = Ok ()" "i \<in> offered v"
  with PGroup show ?thesis
    by (auto simp: result_simps rows_loop_Ok validate_row_def intro!: actions_ref_Ok)
next
  case (PSummary)
  assume "validate_view items v = Ok ()" "i \<in> offered v"
  with PSummary show ?thesis by (auto simp: result_simps intro!: actions_ref_Ok)
qed auto

lemma validate_view_inputs:
  "validate_view items v = Ok () \<Longrightarrow> i \<in> inputs v \<Longrightarrow> \<exists>c \<in> set items. contribution_id c = i \<and> is_number_input c"
  by (cases v) (fastforce simp: result_simps rows_loop_Ok validate_row_def elem_set dest!: item_ref_Ok)+

lemma validate_view_readings:
  "validate_view items v = Ok () \<Longrightarrow> i \<in> readings v \<Longrightarrow>
    \<exists>c \<in> set items. contribution_id c = i \<and> \<not> is_action c \<and> \<not> is_number_input c"
  by (cases v) (fastforce simp: result_simps rows_loop_Ok validate_row_def dest!: item_ref_Ok)+

lemma validate_view_state:
  "validate_view items v = Ok () \<Longrightarrow> i \<in> shown_state v \<Longrightarrow> \<exists>c \<in> set items. contribution_id c = i \<and> is_text_or_status c"
  by (cases v) (auto simp: validate_control_def Let_def result_simps elem_set split: option.split_asm dest!: item_ref_Ok)

text \<open>A lock shows a state exactly if it names one, and the control agrees with it.\<close>

lemma validate_lock:
  assumes "validate_view items (PControl i surf order title icon state l s a) = Ok ()"
  shows "(l = None \<longleftrightarrow> s = None) \<and> (\<forall>x. l = Some x \<longrightarrow> state = expected_control x
    \<and> (a \<noteq> None \<longrightarrow> x \<in> {Locked, Unlocked}))"
proof -
  have "x \<in> {Locked, Unlocked}" if "expected_control x \<noteq> Unavailable" for x
    using that by (cases x) (simp_all add: expected_control_def)
  then show ?thesis
    using assms by (cases l; cases s) (auto simp: validate_control_def Let_def result_simps)
qed

lemma same_item: "distinct (map contribution_id items) \<Longrightarrow> c \<in> set items \<Longrightarrow> d \<in> set items
   \<Longrightarrow> contribution_id c = contribution_id d \<Longrightarrow> c = d"
  by (auto simp: distinct_map dest: inj_onD)

text \<open>
  C39. In an accepted pair of views and items every reference is resolved by the one item that bears
  its identifier: what a view offers as an action is an action item, what it offers as an input is a
  numeric input, the value of a row is an item of neither kind, and the state a lock shows is a text or a status. A control
  names such a state exactly if it shows a lock state, agrees with it, and offers an action only for a lock that is locked or
  unlocked, one that acts on that very state.
\<close>

theorem presentation_references:
  assumes "validate_contributions X items = Ok ()" and "validate_presentation views items = Ok ()"
    and "v \<in> set views"
  shows "(\<forall>i \<in> offered v. \<exists>!c. c \<in> set items \<and> contribution_id c = i \<and> is_action c)
     \<and> (\<forall>i \<in> inputs v. \<exists>!c. c \<in> set items \<and> contribution_id c = i \<and> is_number_input c)
     \<and> (\<forall>i \<in> readings v. \<exists>!c. c \<in> set items \<and> contribution_id c = i \<and> \<not> is_action c \<and> \<not> is_number_input c)
     \<and> (\<forall>i \<in> shown_state v. \<exists>!c. c \<in> set items \<and> contribution_id c = i \<and> is_text_or_status c)
     \<and> (\<forall>i surf order title icon state l s a. v = PControl i surf order title icon state l s a \<longrightarrow>
          (l = None \<longleftrightarrow> s = None) \<and> (\<forall>x. l = Some x \<longrightarrow> state = expected_control x)
          \<and> (\<forall>x b. l = Some x \<and> a = Some b \<longrightarrow> x \<in> {Locked, Unlocked}
               \<and> (\<exists>!c. c \<in> set items \<and> contribution_id c = b \<and> is_action c \<and> contribution_state_id c = s)))"
proof -
  have vv: "validate_view items v = Ok ()"
    using assms(2,3) by (auto simp: validate_presentation_def views_loop_Ok split: if_splits)
  have d: "distinct (map contribution_id items)" using assms(1) by (simp add: validate_contributions_Ok)
  have only: "\<exists>!c. c \<in> set items \<and> contribution_id c = i \<and> P c" if "\<exists>c \<in> set items. contribution_id c = i \<and> P c" for i P
    using that same_item [OF d] by blast
  have acts: "\<exists>!c. c \<in> set items \<and> contribution_id c = b \<and> is_action c \<and> contribution_state_id c = s"
    if eq: "v = PControl i surf order title icon state (Some x) s (Some b)" for i surf order title icon state x s b
  proof -
    obtain t where "s = Some t"
      "rbind (item_ref items b) (\<lambda>c. reject (\<not> lock_action_matches t c) ''Invalid lock action state reference'') = Ok ()"
      using vv unfolding eq by (cases s) (auto simp: validate_control_def Let_def result_simps)
    then show ?thesis by (intro only) (auto simp: result_simps lock_action_matches_def dest: item_ref_Ok)
  qed
  have lock: "(l = None \<longleftrightarrow> s = None) \<and> (\<forall>x. l = Some x \<longrightarrow> state = expected_control x)
      \<and> (\<forall>x b. l = Some x \<and> a = Some b \<longrightarrow> x \<in> {Locked, Unlocked}
           \<and> (\<exists>!c. c \<in> set items \<and> contribution_id c = b \<and> is_action c \<and> contribution_state_id c = s))"
    if eq: "v = PControl i surf order title icon state l s a" for i surf order title icon state l s a
    using validate_lock [OF vv [unfolded eq]] acts eq by auto
  show ?thesis
  proof (intro conjI)
    show "\<forall>i \<in> offered v. \<exists>!c. c \<in> set items \<and> contribution_id c = i \<and> is_action c"
      by (intro ballI only validate_view_offered [OF vv])
    show "\<forall>i \<in> inputs v. \<exists>!c. c \<in> set items \<and> contribution_id c = i \<and> is_number_input c"
      by (intro ballI only validate_view_inputs [OF vv])
    show "\<forall>i \<in> readings v. \<exists>!c. c \<in> set items \<and> contribution_id c = i \<and> \<not> is_action c \<and> \<not> is_number_input c"
      by (intro ballI only validate_view_readings [OF vv])
    show "\<forall>i \<in> shown_state v. \<exists>!c. c \<in> set items \<and> contribution_id c = i \<and> is_text_or_status c"
      by (intro ballI only validate_view_state [OF vv])
  qed (intro allI impI lock)
qed

definition sample_items :: "dashboard_contribution list" where
  "sample_items = [CText ''s'' ''Door'' ''locked'', CAction ''u'' ''Door'' (Some ''s'') ''unlock'' ''Unlock'' (JObject [])]"

definition sample_lock :: presentation where
  "sample_lock = PControl ''door'' Home 1 ''Door'' ILock On (Some Locked) (Some ''s'') (Some ''u'')"

theorem presentation_references_witness:
  "(\<exists>!c. c \<in> set sample_items \<and> contribution_id c = ''u'' \<and> is_action c)
   \<and> (\<exists>!c. c \<in> set sample_items \<and> contribution_id c = ''s'' \<and> is_text_or_status c)"
proof -
  have items: "validate_contributions sample_ext sample_items = Ok ()" by code_simp
  have views: "validate_presentation [sample_lock] sample_items = Ok ()" by code_simp
  have "''u'' \<in> offered sample_lock" "''s'' \<in> shown_state sample_lock" by (simp_all add: sample_lock_def)
  with presentation_references [OF items views, of sample_lock] show ?thesis
    by (auto simp del: offered.simps shown_state.simps)
qed

end
