(* ===== verification/LiveUrls.thy ===== *)
theory LiveUrls
  imports Samples
begin

text \<open>
  \<^verbatim>\<open>desktop-plugins/camera-common/src/live_urls.rs\<close>: the exact Home Assistant camera endpoints that
  the worker and the native host share. \<open>parse\<close> reads the settings text into a map from camera
  identifiers to URLs; \<open>resolve\<close> lets one live event vary only a camera-scoped token.

  The lemmas give the shape of what \<open>parse\<close> accepts and of what \<open>resolve\<close> resolves to; \<open>camera_id\<close>
  interprets \<open>byte_class\<close>, which keeps MQTT wildcards out of the subscribed topics.
\<close>

definition TOPIC_PREFIX :: string where "TOPIC_PREFIX = ''homelab/cameras/live/''"
definition LIVE_ERROR :: string where "LIVE_ERROR = ''Invalid MQTT live camera destination''"

record camera_live_urls =
  cl_endpoints :: "(string \<times> url) list"

definition camera_id :: "string \<Rightarrow> bool" where
  "camera_id v \<longleftrightarrow> v \<noteq> [] \<and> length v \<le> 128
     \<and> list_all (\<lambda>c. is_ascii_alphanumeric c \<or> c \<in> set ''_-'') v"

text \<open>One iteration of the loop of \<open>parse\<close>.\<close>

definition parse_endpoint :: "ext \<Rightarrow> string \<Rightarrow> string \<Rightarrow> url res" where
  "parse_endpoint X key v =
     rbind (ok_or LIVE_ERROR (url_parse X v)) (\<lambda>u.
     rbind (ok_or LIVE_ERROR (strip_prefix ''/api/camera_proxy_stream/camera.'' (u_path u))) (\<lambda>entity.
     if \<not> camera_id key
        \<or> 1536 < length v
        \<or> u_str u \<noteq> v
        \<or> u_scheme u \<noteq> ''https''
        \<or> u_host u = None
        \<or> u_username u \<noteq> []
        \<or> u_password u \<noteq> None
        \<or> contains_char (CHR 0x40) v
        \<or> u_query u \<noteq> None
        \<or> u_fragment u \<noteq> None
        \<or> entity = []
        \<or> 128 < length entity
        \<or> \<not> list_all (\<lambda>c. is_ascii_lowercase c \<or> is_ascii_digit c \<or> c = CHR ''_'') entity
     then Err LIVE_ERROR else Ok u))"

definition parse_live_urls :: "ext \<Rightarrow> string option \<Rightarrow> camera_live_urls res" where
  "parse_live_urls X value =
     (if (case value of None \<Rightarrow> False | Some v \<Rightarrow> 16384 < length v) then Err LIVE_ERROR
      else case value of
          None \<Rightarrow> Ok \<lparr>cl_endpoints = []\<rparr>
        | Some v \<Rightarrow>
            if trim v = [] then Ok \<lparr>cl_endpoints = []\<rparr>
            else rbind (ok_or LIVE_ERROR (dec_string_map X v)) (\<lambda>mapping.
              if 32 < length mapping then Err LIVE_ERROR
              else rbind (insert_all (parse_endpoint X) mapping []) (\<lambda>es. Ok \<lparr>cl_endpoints = es\<rparr>)))"

definition topics :: "camera_live_urls \<Rightarrow> string list" where
  "topics c = map (\<lambda>(key, _). TOPIC_PREFIX @ key) (cl_endpoints c)"

definition resolve_live :: "ext \<Rightarrow> camera_live_urls \<Rightarrow> string \<Rightarrow> string \<Rightarrow> url res" where
  "resolve_live X c key value =
     (if 2048 < length value then Err LIVE_ERROR
      else rbind (ok_or LIVE_ERROR (map_of (cl_endpoints c) key)) (\<lambda>endpoint.
        rbind (ok_or LIVE_ERROR
          (Option.bind (strip_prefix (u_str endpoint) value) (strip_prefix ''?token=''))) (\<lambda>tok.
        if tok = [] \<or> 512 < length tok
           \<or> \<not> list_all (\<lambda>c. is_ascii_alphanumeric c \<or> c \<in> set ''_-'') tok
        then Err LIVE_ERROR
        else ok_or LIVE_ERROR (url_parse X value))))"

section \<open>What settings can configure\<close>

interpretation cameras: byte_class camera_id 128 "\<lambda>c. is_ascii_alphanumeric c \<or> c \<in> set ''_-''"
  by unfold_locales (auto simp: camera_id_def)

lemma parse_endpoint_Ok:
  "parse_endpoint X key v = Ok u \<Longrightarrow> url_parse X v = Some u \<and> camera_id key \<and> u_str u = v
     \<and> u_scheme u = ''https'' \<and> u_username u = [] \<and> u_password u = None \<and> u_query u = None
     \<and> u_fragment u = None \<and> CHR 0x40 \<notin> set v \<and> length v \<le> 1536"
  by (auto simp: parse_endpoint_def result_simps split: if_splits)

lemma parse_live_urls_entry:
  assumes "parse_live_urls X (Some v) = Ok c" "map_of (cl_endpoints c) key = Some u"
  shows "\<exists>m s. dec_string_map X v = Some m \<and> (key, s) \<in> set m \<and> parse_endpoint X key s = Ok u"
  using assms insert_all_entries [of "parse_endpoint X" _ "[]" "cl_endpoints c" key u]
  by (fastforce simp: parse_live_urls_def result_simps split: if_splits)

lemma parse_live_urls_key:
  assumes "parse_live_urls X value = Ok c" "(key, u) \<in> set (cl_endpoints c)"
  shows "camera_id key"
proof -
  obtain m where ok: "insert_all (parse_endpoint X) m [] = Ok (cl_endpoints c)"
    using assms by (auto simp: parse_live_urls_def result_simps split: if_splits option.splits)
  then have "key \<in> fst ` set m" using assms(2) insert_all_keys [OF ok] by force
  then obtain s where "(key, s) \<in> set m" by force
  then show ?thesis using insert_all_ok [OF ok] parse_endpoint_Ok by blast
qed

lemma resolve_live_Ok:
  "resolve_live X c key value = Ok u \<longleftrightarrow> length value \<le> 2048 \<and> url_parse X value = Some u
     \<and> (\<exists>e tok. map_of (cl_endpoints c) key = Some e \<and> value = u_str e @ ''?token='' @ tok
          \<and> tok \<noteq> [] \<and> length tok \<le> 512 \<and> list_all (\<lambda>c. is_ascii_alphanumeric c \<or> c \<in> set ''_-'') tok)"
  by (auto simp: resolve_live_def result_simps bind_eq_Some_conv not_less not_le simp del: append_Cons)

text \<open>
  C35. A live camera event only ever resolves to an endpoint the settings text lists under that very
  camera, byte for byte, followed by \<^verbatim>\<open>?token=\<close> and a token of 1 to 512 URL-safe bytes: the URL of
  the event cannot name another host, path, user or parameter.
\<close>

theorem live_url_scope:
  assumes "parse_live_urls X (Some v) = Ok c" and "resolve_live X c key value = Ok u"
  shows "\<exists>m s tok base. dec_string_map X v = Some m \<and> (key, s) \<in> set m \<and> url_parse X s = Some base
     \<and> u_scheme base = ''https'' \<and> u_username base = [] \<and> u_password base = None
     \<and> u_query base = None \<and> u_fragment base = None
     \<and> value = s @ ''?token='' @ tok \<and> 1 \<le> length tok \<and> length tok \<le> 512
     \<and> (\<forall>c \<in> set tok. is_ascii_alphanumeric c \<or> c \<in> {CHR ''_'', CHR ''-''}) \<and> CHR 0x40 \<notin> set value"
proof -
  obtain e tok where e: "map_of (cl_endpoints c) key = Some e" "value = u_str e @ ''?token='' @ tok"
    "tok \<noteq> []" "length tok \<le> 512" "list_all (\<lambda>c. is_ascii_alphanumeric c \<or> c \<in> set ''_-'') tok"
    using assms(2) unfolding resolve_live_Ok by blast
  obtain m s where m: "dec_string_map X v = Some m" "(key, s) \<in> set m" "parse_endpoint X key s = Ok e"
    using parse_live_urls_entry [OF assms(1) e(1)] by blast
  have "CHR 0x40 \<notin> set tok" using e(5) by (auto simp: list_all_iff ascii_defs)
  with e m parse_endpoint_Ok [OF m(3)] show ?thesis
    by (intro exI [of _ m] exI [of _ s] exI [of _ tok] exI [of _ e]) (auto simp: list_all_iff Suc_le_eq)
qed

definition sample_camera :: string where
  "sample_camera = ''https://ha.invalid/api/camera_proxy_stream/camera.front''"

definition sample_live :: camera_live_urls where
  "sample_live = (case parse_live_urls sample_ext (Some sample_camera) of Inl _ \<Rightarrow> \<lparr>cl_endpoints = []\<rparr> | Inr c \<Rightarrow> c)"

theorem live_url_scope_witness:
  "\<exists>u. parse_live_urls sample_ext (Some sample_camera) = Ok sample_live
     \<and> resolve_live sample_ext sample_live ''front'' (sample_camera @ ''?token=a-1'') = Ok u
     \<and> (\<exists>s tok. (''front'', s) \<in> set [(''front'', sample_camera)] \<and> sample_camera @ ''?token=a-1'' = s @ ''?token='' @ tok)"
proof -
  have p: "parse_live_urls sample_ext (Some sample_camera) = Ok sample_live" by code_simp
  have "is_ok (resolve_live sample_ext sample_live ''front'' (sample_camera @ ''?token=a-1''))" by code_simp
  then obtain u where r: "resolve_live sample_ext sample_live ''front'' (sample_camera @ ''?token=a-1'') = Ok u"
    by (auto simp: is_ok_iff)
  have "dec_string_map sample_ext sample_camera = Some [(''front'', sample_camera)]" by (simp add: sample_ext_def)
  with live_url_scope [OF p r] p r show ?thesis by auto
qed

text \<open>
  The MQTT topics derived from accepted settings name single cameras: no topic holds a
  wildcard, and a topic has exactly the three levels of the prefix and the camera.
\<close>

theorem live_topics_plain:
  assumes "parse_live_urls X value = Ok c" and "t \<in> set (topics c)"
  shows "CHR ''+'' \<notin> set t \<and> CHR ''#'' \<notin> set t
     \<and> (\<exists>key. t = ''homelab/cameras/live/'' @ key \<and> key \<noteq> [] \<and> CHR ''/'' \<notin> set key)"
proof -
  obtain key u where k: "(key, u) \<in> set (cl_endpoints c)" "t = TOPIC_PREFIX @ key"
    using assms(2) by (auto simp: topics_def)
  then have key: "camera_id key" using parse_live_urls_key [OF assms(1)] by blast
  have "CHR ''+'' \<notin> set key" "CHR ''#'' \<notin> set key" "CHR ''/'' \<notin> set key"
    using cameras.excludes [OF key] by (simp_all add: ascii_defs)
  with k(2) cameras.accepts_nonempty [OF key] show ?thesis by (auto simp: TOPIC_PREFIX_def)
qed

theorem live_topics_plain_witness:
  "topics sample_live = [''homelab/cameras/live/front''] \<and> CHR ''#'' \<notin> set ''homelab/cameras/live/front''"
proof -
  have p: "parse_live_urls sample_ext (Some sample_camera) = Ok sample_live" by code_simp
  have t: "topics sample_live = [''homelab/cameras/live/front'']" by code_simp
  show ?thesis using live_topics_plain [OF p, of "''homelab/cameras/live/front''"] t by simp
qed

end
