(* ===== verification/MediaGrants.thy ===== *)
theory MediaGrants
  imports Manifest LiveUrls
begin

text \<open>
  The media authority of a plugin in \<^verbatim>\<open>protocol.rs\<close>: \<open>LiveViewGrant\<close> and \<open>HttpVideoGrant\<close>, derived from a
  manifest and its startup configuration, and the URL check every media request passes.

  The lemmas follow a path segment through percent-decoding, and give the exact authority of each
  kind of grant.
\<close>

section \<open>Media URLs\<close>

definition to_digit16 :: "char \<Rightarrow> nat option" where
  "to_digit16 c =
     (if is_ascii_digit c then Some (byte c - 48)
      else if 97 \<le> byte c \<and> byte c \<le> 102 then Some (byte c - 87)
      else if 65 \<le> byte c \<and> byte c \<le> 70 then Some (byte c - 55) else None)"

fun percent_decode :: "string \<Rightarrow> string option" where
  "percent_decode [] = Some []"
| "percent_decode (b # bs) =
     (if b = CHR 0x25
      then (case bs of
          h # l # rest \<Rightarrow>
            (case (to_digit16 h, to_digit16 l) of
                (Some high, Some low) \<Rightarrow> map_option ((#) (char_of (high * 16 + low))) (percent_decode rest)
              | _ \<Rightarrow> None)
        | _ \<Rightarrow> None)
      else map_option ((#) b) (percent_decode bs))"

definition check_segment :: "string \<Rightarrow> unit res" where
  "check_segment segment =
     (let lower = to_ascii_lowercase segment in
      if segment = ''.'' \<or> segment = ''..''
         \<or> contains_str ''%2e'' lower
         \<or> contains_str ''%2f'' lower
         \<or> contains_str ''%5c'' lower
         \<or> contains_str ''%25'' lower
      then Err ''Invalid HTTP video URL path''
      else case percent_decode segment of
          None \<Rightarrow> Err ''Invalid HTTP video URL path''
        | Some decoded \<Rightarrow>
            reject (\<not> from_utf8_ok decoded \<or> has_control decoded) ''Invalid HTTP video URL path'')"

definition raw_path :: "string \<Rightarrow> string" where
  "raw_path value =
     (case split_once ''://'' value of None \<Rightarrow> []
      | Some (_, tail) \<Rightarrow> takeWhile (\<lambda>c. c \<notin> {CHR 0x3F, CHR 0x23}) (dropWhile (\<lambda>c. c \<noteq> CHR ''/'') tail))"

definition validated_media_url :: "ext \<Rightarrow> string \<Rightarrow> bool \<Rightarrow> url res" where
  "validated_media_url X value allow_query =
     (if value = [] \<or> 2048 < length value \<or> trim value \<noteq> value \<or> has_control value
         \<or> contains_char (CHR 0x5C) value
      then Err ''Invalid HTTP video URL''
      else if \<not> contains_str ''://'' value then Err ''Invalid HTTP video URL''
      else rbind (ok_or ''Invalid HTTP video URL'' (url_parse X value)) (\<lambda>u.
        if u_scheme u \<notin> {''http'', ''https''} \<or> u_host u = None \<or> u_username u \<noteq> []
           \<or> u_password u \<noteq> None \<or> (\<not> allow_query \<and> u_query u \<noteq> None) \<or> u_fragment u \<noteq> None
        then Err ''Invalid HTTP video URL''
        else rbind (for_each check_segment (split_on (\<lambda>c. c = CHR ''/'') (raw_path value))) (\<lambda>_. Ok u)))"

definition validated_video_url :: "ext \<Rightarrow> string \<Rightarrow> url res" where
  "validated_video_url X value = validated_media_url X value False"

section \<open>HTTP media grants\<close>

record http_video_grant =
  vg_base :: url
  vg_live_preview :: "live_preview_declaration option"
  vg_exact_preview :: "(url \<times> 16 word) option"
  vg_bearer_token :: "string option"
  vg_cooldown_seconds :: "16 word"
  vg_allow_query :: bool

definition media_credential :: "ext \<Rightarrow> worker_configuration \<Rightarrow> http_video_declaration \<Rightarrow> string option res" where
  "media_credential X c d =
     (let bearer = (case Option.bind (hv_bearer_token_setting d) (map_of (wc_secrets c)) of
                      None \<Rightarrow> None | Some v \<Rightarrow> if v = [] then None else Some v)
      in case bearer of None \<Rightarrow> Ok None
         | Some v \<Rightarrow> if 4096 < length v \<or> \<not> header_value_ok X (''Bearer '' @ v)
                     then Err ''Invalid media credential'' else Ok (Some v))"

definition video_grant :: "ext \<Rightarrow> plugin_manifest \<Rightarrow> worker_configuration option \<Rightarrow> http_video_grant option res" where
  "video_grant X m configuration =
     rbind (validate_http_video X m) (\<lambda>_.
     case m_http_video m of None \<Rightarrow> Ok None
     | Some d \<Rightarrow>
     rbind (ok_or ''HTTP video startup configuration missing'' configuration) (\<lambda>c.
     if map_of (wc_secrets c) (hv_base_url_setting d) \<noteq> None then Err ''HTTP video base cannot be secret''
     else case jget (hv_base_url_setting d) (wc_values c) of
         None \<Rightarrow> Ok None
       | Some value \<Rightarrow>
         if is_null value then Ok None
         else rbind (ok_or ''HTTP video base must be a string'' (as_str value)) (\<lambda>base.
           if trim base = [] then Ok None
           else rbind (media_credential X c d) (\<lambda>bearer.
             rbind (validated_video_url X base) (\<lambda>u.
               Ok (Some \<lparr>vg_base = u, vg_live_preview = hv_live_preview d, vg_exact_preview = None,
                     vg_bearer_token = bearer,
                     vg_cooldown_seconds = unwrap_or 45 (hv_cooldown_seconds d),
                     vg_allow_query = hv_allow_query d\<rparr>))))))"

definition in_scope :: "http_video_grant \<Rightarrow> url \<Rightarrow> bool" where
  "in_scope g u \<longleftrightarrow> u_origin u = u_origin (vg_base g)
     \<and> prefix (trim_end_matches (CHR ''/'') (u_path (vg_base g)) @ ''/'') (u_path u)"

definition validate_url :: "ext \<Rightarrow> http_video_grant \<Rightarrow> string \<Rightarrow> url res" where
  "validate_url X g value =
     (if vg_exact_preview g \<noteq> None then Err ''Mapped live view does not authorize downloads''
      else rbind (validated_media_url X value (vg_allow_query g)) (\<lambda>u.
        if \<not> in_scope g u then Err ''HTTP video URL is outside its configured scope'' else Ok u))"

text \<open>Durations in seconds.\<close>

definition preview_duration :: "http_video_grant \<Rightarrow> nat option" where
  "preview_duration g = (case vg_exact_preview g of
       Some (_, duration) \<Rightarrow> Some (unat duration)
     | None \<Rightarrow> map_option (\<lambda>policy. unat (lp_max_duration_seconds policy)) (vg_live_preview g))"

definition validate_preview_url :: "ext \<Rightarrow> http_video_grant \<Rightarrow> string \<Rightarrow> url res" where
  "validate_preview_url X g value = (case vg_exact_preview g of
       Some (u, _) \<Rightarrow> if value = u_str u then Ok u else Err ''Live preview URL is outside its configured scope''
     | None \<Rightarrow>
         rbind (ok_or ''Live preview is not authorized'' (vg_live_preview g)) (\<lambda>policy.
         rbind (validated_media_url X value True) (\<lambda>u.
           if vg_bearer_token g \<noteq> None \<or> \<not> in_scope g u \<or> u_query u \<noteq> Some (lp_query policy)
           then Err ''Live preview URL is outside its configured scope'' else Ok u)))"

definition cooldown :: "http_video_grant \<Rightarrow> nat" where
  "cooldown g = unat (vg_cooldown_seconds g)"

section \<open>Live view grants\<close>

record live_view_grant =
  lg_urls :: "(string \<times> url) list"
  lg_mqtt_urls :: camera_live_urls
  lg_preview_duration_seconds :: "16 word option"

definition live_destination :: "ext \<Rightarrow> string \<Rightarrow> string \<Rightarrow> url res" where
  "live_destination X key value =
     rbind (validate_live_id key) (\<lambda>_.
     if 2048 < length value \<or> trim value \<noteq> value \<or> has_control value \<or> contains_char (CHR 0x5C) value
     then Err ''Invalid live view destination''
     else rbind (ok_or ''Invalid live view destination'' (split_once ''://'' value)) (\<lambda>(_, tail).
       if contains_char (CHR 0x40) (hd (split_on (\<lambda>c. c \<in> set ''/?#'') tail))
       then Err ''Invalid live view destination''
       else rbind (ok_or ''Invalid live view destination'' (url_parse X value)) (\<lambda>u.
         if u_scheme u \<notin> {''http'', ''https''} \<or> u_host u = None \<or> u_username u \<noteq> [] \<or> u_password u \<noteq> None
         then Err ''Invalid live view destination'' else Ok u)))"

definition mqtt_urls_text :: "live_view_declaration \<Rightarrow> worker_configuration \<Rightarrow> string option res" where
  "mqtt_urls_text d c =
     (case Option.bind (lv_mqtt_urls_setting d) (\<lambda>key. jget key (wc_values c)) of
         None \<Rightarrow> Ok None
       | Some v \<Rightarrow> rbind (ok_or ''Invalid MQTT live camera configuration'' (as_str v)) (\<lambda>s. Ok (Some s)))"

definition live_grant :: "ext \<Rightarrow> plugin_manifest \<Rightarrow> worker_configuration option \<Rightarrow> live_view_grant option res" where
  "live_grant X m configuration =
     rbind (validate_http_video X m) (\<lambda>_.
     case m_live_view m of None \<Rightarrow> Ok None
     | Some d \<Rightarrow>
     rbind (ok_or ''Live view startup configuration missing'' configuration) (\<lambda>c.
     rbind (rbind (mqtt_urls_text d c) (parse_live_urls X)) (\<lambda>mqtt.
     let grant = (\<lambda>urls. Ok (Some \<lparr>lg_urls = urls, lg_mqtt_urls = mqtt,
           lg_preview_duration_seconds = lv_preview_duration_seconds d\<rparr>))
     in case map_of (wc_secrets c) (lv_urls_setting d) of
         None \<Rightarrow> grant []
       | Some value \<Rightarrow>
         if trim value = [] then grant []
         else if 16 * 1024 < length value then Err ''Live view configuration exceeds byte limit''
         else rbind (ok_or ''Invalid live view configuration'' (dec_string_map X value)) (\<lambda>values.
           if 32 < length values then Err ''Too many live view destinations''
           else rbind (insert_all (live_destination X) values []) grant))))"

definition resolve_view :: "live_view_grant \<Rightarrow> string \<Rightarrow> url option" where
  "resolve_view G key = map_of (lg_urls G) key"

definition exact_preview :: "url \<Rightarrow> 16 word \<Rightarrow> url \<times> http_video_grant" where
  "exact_preview u duration = (u, \<lparr>vg_base = u, vg_live_preview = None, vg_exact_preview = Some (u, duration),
     vg_bearer_token = None, vg_cooldown_seconds = 15, vg_allow_query = False\<rparr>)"

definition preview :: "live_view_grant \<Rightarrow> string \<Rightarrow> (url \<times> http_video_grant) option res" where
  "preview G key =
     rbind (ok_or ''Automatic live view is not authorized'' (lg_preview_duration_seconds G)) (\<lambda>duration.
       Ok (map_option (\<lambda>u. exact_preview u duration) (resolve_view G key)))"

definition mqtt_preview :: "ext \<Rightarrow> live_view_grant \<Rightarrow> string \<Rightarrow> string \<Rightarrow> (url \<times> http_video_grant) res" where
  "mqtt_preview X G key value =
     rbind (ok_or ''MQTT live preview is not authorized''
             (case lg_preview_duration_seconds G of None \<Rightarrow> None
              | Some s \<Rightarrow> if 1 \<le> s \<and> s \<le> 15 then Some s else None)) (\<lambda>duration.
     rbind (resolve_live X (lg_mqtt_urls G) key value) (\<lambda>u. Ok (exact_preview u duration)))"

section \<open>Percent-decoding\<close>

fun_cases percent_decode_NoneE: "percent_decode w = None"

text \<open>Each decoded byte is a byte of the segment or one of its escapes.\<close>

lemma sublist_Cons: "sublist p s \<Longrightarrow> sublist p (c # s)"
  by (simp add: sublist_Cons_right)

lemma percent_decode_Cons_escape:
  "percent_decode (CHR ''%'' # bs) = Some d \<Longrightarrow> \<exists>h l rest hi lo d'. bs = h # l # rest \<and> to_digit16 h = Some hi
     \<and> to_digit16 l = Some lo \<and> percent_decode rest = Some d' \<and> d = char_of (hi * 16 + lo) # d'"
  by (auto split: list.splits option.splits)

lemma percent_decode_Cons_plain:
  "b \<noteq> CHR ''%'' \<Longrightarrow> percent_decode (b # bs) = Some d \<Longrightarrow> \<exists>d'. percent_decode bs = Some d' \<and> d = b # d'"
  by auto

declare percent_decode.simps(2) [simp del]

definition escaped :: "string \<Rightarrow> char \<Rightarrow> bool" where
  "escaped w c \<longleftrightarrow> (\<exists>h l hi lo. sublist [CHR ''%'', h, l] w \<and> to_digit16 h = Some hi \<and> to_digit16 l = Some lo
     \<and> c = char_of (hi * 16 + lo))"

lemma escaped_Cons: "escaped w c \<Longrightarrow> escaped (b # w) c"
  unfolding escaped_def by (blast intro: sublist_Cons)

lemma percent_decode_bytes:
  "percent_decode w = Some d \<Longrightarrow> c \<in> set d \<Longrightarrow> (c \<in> set w \<and> c \<noteq> CHR ''%'') \<or> escaped w c"
proof (induction w arbitrary: d rule: percent_decode.induct)
  case (2 b bs)
  show ?case
  proof (cases "b = CHR ''%''")
    case True
    then obtain h l rest hi lo d' where *: "bs = h # l # rest" "to_digit16 h = Some hi" "to_digit16 l = Some lo"
      "percent_decode rest = Some d'" "d = char_of (hi * 16 + lo) # d'"
      using percent_decode_Cons_escape 2(3) by blast
    have here: "escaped (b # bs) (char_of (hi * 16 + lo))"
      unfolding escaped_def using * True by (metis append_Cons append_Nil sublist_append_rightI)
    show ?thesis
    proof (cases "c \<in> set d'")
      case True
      with 2(1)[OF \<open>b = CHR ''%''\<close> *(1) refl _ *(2)] * have "(c \<in> set rest \<and> c \<noteq> CHR ''%'') \<or> escaped rest c"
        by auto
      with * escaped_Cons show ?thesis by auto
    qed (use here * 2(4) in auto)
  next
    case False
    then obtain d' where d': "percent_decode bs = Some d'" "d = b # d'"
      using percent_decode_Cons_plain 2(3) by blast
    show ?thesis
    proof (cases "c \<in> set d'")
      case True
      with 2(2)[OF False d'(1)] escaped_Cons show ?thesis by auto
    qed (use d' False 2(4) in auto)
  qed
qed simp

lemma percent_decode_same:
  "percent_decode w = Some d \<Longrightarrow> (\<And>c. c \<in> set d \<Longrightarrow> \<not> escaped w c) \<Longrightarrow> d = w"
proof (induction w arbitrary: d rule: percent_decode.induct)
  case (2 b bs)
  show ?case
  proof (cases "b = CHR ''%''")
    case True
    then obtain h l rest hi lo d' where *: "bs = h # l # rest" "to_digit16 h = Some hi" "to_digit16 l = Some lo"
      "percent_decode rest = Some d'" "d = char_of (hi * 16 + lo) # d'"
      using percent_decode_Cons_escape 2(3) by blast
    have "escaped (b # bs) (char_of (hi * 16 + lo))"
      unfolding escaped_def using * True by (metis append_Cons append_Nil sublist_append_rightI)
    with 2(4) * show ?thesis by auto
  next
    case False
    then obtain d' where d': "percent_decode bs = Some d'" "d = b # d'"
      using percent_decode_Cons_plain 2(3) by blast
    have "d' = bs" using 2(2)[OF False d'(1)] 2(4) escaped_Cons d' by auto
    with d' show ?thesis by simp
  qed
qed simp

text \<open>Text without a percent sign decodes to itself.\<close>

lemma percent_decode_plain: "CHR ''%'' \<notin> set w \<Longrightarrow> percent_decode w = Some w"
  by (induction w) (auto simp: percent_decode.simps(2))

text \<open>An escape of a byte, in any case of its digits, is its lowercase escape in the lowered text.\<close>

lemma sublist_map: "sublist p s \<Longrightarrow> sublist (map f p) (map f s)"
  by (auto simp: sublist_def) (metis)

lemma escaped_lower:
  assumes "escaped w c" "c = char_of (hi * 16 + lo)" "hi < 16" "lo < 16"
    "\<And>h. to_digit16 h = Some hi \<Longrightarrow> to_ascii_lower h = x" "\<And>l. to_digit16 l = Some lo \<Longrightarrow> to_ascii_lower l = y"
  shows "contains_str [CHR ''%'', x, y] (to_ascii_lowercase w)"
proof -
  obtain h l hi' lo' where *: "sublist [CHR ''%'', h, l] w" "to_digit16 h = Some hi'" "to_digit16 l = Some lo'"
    "(char_of (hi * 16 + lo) :: char) = char_of (hi' * 16 + lo')"
    using assms(1) unfolding escaped_def assms(2) by (elim exE conjE) (rule that)
  have "hi' < 16" "lo' < 16" using *(2,3) by (auto simp: to_digit16_def ascii_defs split: if_splits)
  then have "(hi * 16 + lo) mod 256 = (hi' * 16 + lo') mod 256" "hi' * 16 + lo' < 256"
    using *(4) by (simp_all add: char_of_eq_iff take_bit_eq_mod)
  then have "hi * 16 + lo = hi' * 16 + lo'" using assms(3,4) by simp
  then have "(hi * 16 + lo) div 16 = (hi' * 16 + lo') div 16" "(hi * 16 + lo) mod 16 = (hi' * 16 + lo') mod 16"
    by simp_all
  then have "hi' = hi" "lo' = lo" using assms(4) \<open>lo' < 16\<close> by simp_all
  then have "to_ascii_lower h = x" "to_ascii_lower l = y" using *(2,3) assms(5,6) by simp_all
  moreover have "to_ascii_lower (CHR ''%'') = CHR ''%''" by (simp add: to_ascii_lower_def ascii_defs)
  ultimately show ?thesis
    using sublist_map [OF *(1), of to_ascii_lower] by (simp add: contains_str_iff to_ascii_lowercase_def)
qed

lemma lower_digit:
  assumes "to_digit16 h = Some n"
  shows "to_ascii_lower h = char_of (if n < 10 then 48 + n else 87 + n)"
proof -
  have h: "h = char_of k" if "byte h = k" for k using that by auto
  show ?thesis
  proof (cases "65 \<le> byte h \<and> byte h \<le> 70")
    case True
    with assms have "n = byte h - 55" by (auto simp: to_digit16_def ascii_defs split: if_splits)
    with True show ?thesis by (auto simp: to_ascii_lower_def ascii_defs intro!: arg_cong [of _ _ char_of])
  next
    case False
    with assms have "n < 10 \<and> byte h = 48 + n \<or> 10 \<le> n \<and> byte h = 87 + n" "\<not> is_ascii_uppercase h"
      by (auto simp: to_digit16_def ascii_defs split: if_splits)
    then show ?thesis using h by (auto simp: to_ascii_lower_def simp del: char_of_char)
  qed
qed

lemma escape_sequences:
  "escaped w (CHR ''.'') \<Longrightarrow> contains_str ''%2e'' (to_ascii_lowercase w)"
  "escaped w (CHR ''/'') \<Longrightarrow> contains_str ''%2f'' (to_ascii_lowercase w)"
  "escaped w (CHR 0x5C) \<Longrightarrow> contains_str ''%5c'' (to_ascii_lowercase w)"
  "escaped w (CHR ''%'') \<Longrightarrow> contains_str ''%25'' (to_ascii_lowercase w)"
proof -
  have code: "CHR ''.'' = char_of (2 * 16 + 14 :: nat)" "CHR ''/'' = char_of (2 * 16 + 15 :: nat)"
    "CHR 0x5C = char_of (5 * 16 + 12 :: nat)" "CHR ''%'' = char_of (2 * 16 + 5 :: nat)" by code_simp+
  have digit: "char_of (50 :: nat) = CHR ''2''" "char_of (53 :: nat) = CHR ''5''" "char_of (101 :: nat) = CHR ''e''"
    "char_of (102 :: nat) = CHR ''f''" "char_of (99 :: nat) = CHR ''c''" by code_simp+
  note lower = escaped_lower [OF _ code(1)] escaped_lower [OF _ code(2)] escaped_lower [OF _ code(3)]
    escaped_lower [OF _ code(4)]
  show "escaped w (CHR ''.'') \<Longrightarrow> contains_str ''%2e'' (to_ascii_lowercase w)"
    by (erule lower(1)) (auto dest!: lower_digit simp: digit)
  show "escaped w (CHR ''/'') \<Longrightarrow> contains_str ''%2f'' (to_ascii_lowercase w)"
    by (erule lower(2)) (auto dest!: lower_digit simp: digit)
  show "escaped w (CHR 0x5C) \<Longrightarrow> contains_str ''%5c'' (to_ascii_lowercase w)"
    by (erule lower(3)) (auto dest!: lower_digit simp: digit)
  show "escaped w (CHR ''%'') \<Longrightarrow> contains_str ''%25'' (to_ascii_lowercase w)"
    by (erule lower(4)) (auto dest!: lower_digit simp: digit)
qed

lemma check_segment_Ok:
  "check_segment w = Ok () \<Longrightarrow> w \<noteq> ''.'' \<and> w \<noteq> ''..''
     \<and> \<not> escaped w (CHR ''.'') \<and> \<not> escaped w (CHR ''/'') \<and> \<not> escaped w (CHR 0x5C) \<and> \<not> escaped w (CHR ''%'')
     \<and> (\<exists>d. percent_decode w = Some d \<and> from_utf8_ok d \<and> \<not> has_control d)"
  using escape_sequences [of w]
  by (auto simp: check_segment_def Let_def reject_Ok split: if_splits option.splits)

text \<open>A URL written \<^verbatim>\<open>scheme://authority/path?query\<close>: the text the check scans is its path.\<close>

definition plain_form :: "string \<Rightarrow> string \<Rightarrow> string \<Rightarrow> string \<Rightarrow> bool" where
  "plain_form scheme authority path rest \<longleftrightarrow> CHR '':'' \<notin> set scheme
     \<and> set authority \<inter> {CHR ''/'', CHR ''?'', CHR 0x23} = {} \<and> set path \<inter> {CHR ''?'', CHR 0x23} = {}
     \<and> (path = [] \<or> hd path = CHR ''/'') \<and> (rest = [] \<or> hd rest \<in> {CHR ''?'', CHR 0x23})"

lemma split_once_scheme: "CHR '':'' \<notin> set a \<Longrightarrow> split_once ''://'' (a @ ''://'' @ b) = Some (a, b)"
  by (induction a) auto

lemma dropWhile_authority:
  assumes "CHR ''/'' \<notin> set a"
  shows "dropWhile (\<lambda>c. c \<noteq> CHR ''/'') (a @ xs) = dropWhile (\<lambda>c. c \<noteq> CHR ''/'') xs"
  using assms by (induction a) auto

lemma takeWhile_path:
  assumes "set p \<inter> {CHR ''?'', CHR 0x23} = {}" "rest = [] \<or> hd rest \<in> {CHR ''?'', CHR 0x23}"
  shows "takeWhile (\<lambda>c. c \<notin> {CHR ''?'', CHR 0x23}) (p @ rest) = p"
  using assms by (cases rest) (auto simp: takeWhile_append takeWhile_eq_all_conv)

lemma raw_path_plain:
  assumes "plain_form scheme authority path rest" "path \<noteq> []"
  shows "raw_path (scheme @ ''://'' @ authority @ path @ rest) = path"
proof -
  have "dropWhile (\<lambda>c. c \<noteq> CHR ''/'') (path @ rest) = path @ rest"
    using assms by (cases path) (auto simp: plain_form_def)
  moreover have "CHR ''/'' \<notin> set authority" "CHR '':'' \<notin> set scheme" using assms by (auto simp: plain_form_def)
  ultimately show ?thesis
    using takeWhile_path [of path rest] split_once_scheme [of scheme "authority @ path @ rest"] assms
    by (simp add: raw_path_def dropWhile_authority plain_form_def)
qed

lemma check_segment_Nil: "check_segment [] = Ok ()"
  by code_simp

lemma accepted_segment:
  assumes "validated_media_url X (scheme @ ''://'' @ authority @ path @ rest) q = Ok u"
    and "plain_form scheme authority path rest" and "w \<in> set (split_on (\<lambda>c. c = CHR ''/'') path)"
  shows "check_segment w = Ok () \<and> CHR 0x5C \<notin> set w"
proof (cases "path = []")
  case True
  then show ?thesis using assms(3) by (simp add: check_segment_Nil)
next
  case False
  have "CHR 0x5C \<notin> set path" using assms(1) by (auto simp: validated_media_url_def result_simps split: if_splits)
  moreover have "check_segment w = Ok ()"
    using assms(1,3) raw_path_plain [OF assms(2) False] by (auto simp: validated_media_url_def result_simps split: if_splits)
  ultimately show ?thesis using split_on_set [OF assms(3)] by auto
qed

text \<open>
  C8. What a media server sees when it decodes the path of an accepted URL is what the check saw. For a URL
  written as a scheme, two slashes, an authority and a path, every segment of that path decodes to text, no
  decoded segment is a traversal or holds a separator, a backslash or a control character, and decoding a
  second time changes nothing.
\<close>

theorem media_path_canonical:
  assumes "validated_media_url X (scheme @ ''://'' @ authority @ path @ rest) q = Ok u"
    and "plain_form scheme authority path rest" and "w \<in> set (split_on (\<lambda>c. c = CHR ''/'') path)"
  shows "\<exists>d. percent_decode w = Some d \<and> from_utf8_ok d \<and> \<not> has_control d \<and> d \<noteq> ''.'' \<and> d \<noteq> ''..''
     \<and> CHR ''/'' \<notin> set d \<and> CHR 0x5C \<notin> set d \<and> percent_decode d = Some d"
proof -
  have checked: "check_segment w = Ok ()" and bs: "CHR 0x5C \<notin> set w" using accepted_segment [OF assms] by auto
  then obtain d where d: "percent_decode w = Some d" "from_utf8_ok d" "\<not> has_control d" "w \<noteq> ''.''" "w \<noteq> ''..''"
    and no: "\<not> escaped w (CHR ''.'')" "\<not> escaped w (CHR ''/'')" "\<not> escaped w (CHR 0x5C)" "\<not> escaped w (CHR ''%'')"
    using check_segment_Ok by blast
  note bytes = percent_decode_bytes [OF d(1)]
  have "CHR ''/'' \<notin> set w" using split_on_pieces [OF assms(3)] by auto
  then have "CHR ''/'' \<notin> set d" "CHR 0x5C \<notin> set d" "CHR ''%'' \<notin> set d" using bytes no bs by blast+
  moreover have "percent_decode d = Some d" using \<open>CHR ''%'' \<notin> set d\<close> by (rule percent_decode_plain)
  moreover have "d \<noteq> ''.''" "d \<noteq> ''..''" using percent_decode_same [OF d(1)] no(1) d(4,5) by auto
  ultimately show ?thesis using d by blast
qed

theorem media_path_canonical_witness:
  "\<exists>d. percent_decode ''clip%20one.mp4'' = Some d \<and> percent_decode d = Some d"
proof -
  have "is_ok (validated_media_url sample_ext (''http'' @ ''://'' @ ''h.invalid'' @ ''/v/clip%20one.mp4'' @ ''?a=/%2f'') True)"
    by code_simp
  then obtain u where
    u: "validated_media_url sample_ext (''http'' @ ''://'' @ ''h.invalid'' @ ''/v/clip%20one.mp4'' @ ''?a=/%2f'') True = Ok u"
    by (auto simp: is_ok_iff)
  have "plain_form ''http'' ''h.invalid'' ''/v/clip%20one.mp4'' ''?a=/%2f''" by code_simp
  moreover have "''clip%20one.mp4'' \<in> set (split_on (\<lambda>c. c = CHR ''/'') ''/v/clip%20one.mp4'')" by code_simp
  ultimately show ?thesis using media_path_canonical [OF u] by blast
qed


text \<open>A parser that takes the scheme without slashes, as the URL standard has it.\<close>

definition lenient_ext :: ext where
  "lenient_ext = sample_ext\<lparr>url_parse := (\<lambda>s. if prefix ''http:'' s \<and> \<not> prefix ''http://'' s
     then sample_url (''http://'' @ drop 5 s) else sample_url s)\<rparr>"


section \<open>What a grant authorises\<close>

lemma validated_media_url_Ok:
  "validated_media_url X v q = Ok u \<Longrightarrow> url_parse X v = Some u \<and> u_scheme u \<in> {''http'', ''https''}
     \<and> u_host u \<noteq> None \<and> u_username u = [] \<and> u_password u = None \<and> u_fragment u = None
     \<and> (\<not> q \<longrightarrow> u_query u = None)"
  by (auto simp: validated_media_url_def result_simps split: if_splits)

lemma video_grant_Some:
  "video_grant X m configuration = Ok (Some g) \<Longrightarrow> \<exists>d c base.
     m_http_video m = Some d \<and> configuration = Some c \<and> validate_http_video X m = Ok ()
     \<and> map_of (wc_secrets c) (hv_base_url_setting d) = None
     \<and> jget (hv_base_url_setting d) (wc_values c) = Some (JString base)
     \<and> validated_video_url X base = Ok (vg_base g) \<and> media_credential X c d = Ok (vg_bearer_token g)
     \<and> vg_live_preview g = hv_live_preview d \<and> vg_exact_preview g = None
     \<and> vg_allow_query g = hv_allow_query d
     \<and> vg_cooldown_seconds g = unwrap_or 45 (hv_cooldown_seconds d)"
  by (auto simp: video_grant_def result_simps split: option.split_asm if_split_asm)

lemma media_credential_Some:
  "media_credential X c d = Ok (Some v) \<Longrightarrow> \<exists>key. hv_bearer_token_setting d = Some key
     \<and> map_of (wc_secrets c) key = Some v \<and> header_value_ok X (''Bearer '' @ v)"
  by (auto simp: media_credential_def Let_def bind_eq_Some_conv split: option.splits if_splits)

lemma media_credential_declared:
  "media_credential X c d = Ok t \<Longrightarrow> t = (case Option.bind (hv_bearer_token_setting d) (map_of (wc_secrets c)) of
     None \<Rightarrow> None | Some v \<Rightarrow> if v = [] then None else Some v)"
  by (auto simp: media_credential_def Let_def split: option.splits if_splits)

text \<open>
  C37. Every media authority a plugin obtains at start-up is the one its validated manifest and its
  configuration describe: the base is the URL in the declared setting, which is not secret; queries are allowed
  and previews authorised exactly as declared; the cooldown is the declared one, or 45 seconds, and
  between 20 and 300; the credential is the text of the declared secret setting, absent exactly if that is
  absent or empty; downloads stay on the base's origin below its path; and a grant that carries a credential
  authorises no preview at all.
\<close>

theorem video_grant_authority:
  assumes "video_grant X m configuration = Ok (Some g)"
  shows "u_query (vg_base g) = None \<and> u_username (vg_base g) = [] \<and> 20 \<le> cooldown g \<and> cooldown g \<le> 300
     \<and> (\<exists>d c base. m_http_video m = Some d \<and> configuration = Some c
          \<and> jget (hv_base_url_setting d) (wc_values c) = Some (JString base)
          \<and> map_of (wc_secrets c) (hv_base_url_setting d) = None \<and> url_parse X base = Some (vg_base g)
          \<and> vg_allow_query g = hv_allow_query d \<and> vg_live_preview g = hv_live_preview d \<and> vg_exact_preview g = None
          \<and> vg_cooldown_seconds g = unwrap_or 45 (hv_cooldown_seconds d)
          \<and> vg_bearer_token g = (case Option.bind (hv_bearer_token_setting d) (map_of (wc_secrets c)) of
               None \<Rightarrow> None | Some v \<Rightarrow> if v = [] then None else Some v)
          \<and> (\<forall>v. vg_bearer_token g = Some v \<longrightarrow> (\<exists>key \<in> secret_settings m. map_of (wc_secrets c) key = Some v)))
     \<and> (\<forall>v u. validate_url X g v = Ok u \<longrightarrow> u_origin u = u_origin (vg_base g)
          \<and> prefix (trim_end_matches (CHR ''/'') (u_path (vg_base g)) @ ''/'') (u_path u)
          \<and> (\<not> vg_allow_query g \<longrightarrow> u_query u = None))
     \<and> (vg_bearer_token g \<noteq> None \<longrightarrow> (\<forall>v u. validate_preview_url X g v \<noteq> Ok u))"
proof -
  obtain d c base where g: "m_http_video m = Some d" "configuration = Some c" "validate_http_video X m = Ok ()"
    "map_of (wc_secrets c) (hv_base_url_setting d) = None"
    "jget (hv_base_url_setting d) (wc_values c) = Some (JString base)"
    "validated_video_url X base = Ok (vg_base g)" "media_credential X c d = Ok (vg_bearer_token g)"
    "vg_exact_preview g = None"
    "vg_cooldown_seconds g = unwrap_or 45 (hv_cooldown_seconds d)"
    "vg_allow_query g = hv_allow_query d" "vg_live_preview g = hv_live_preview d"
    using video_grant_Some [OF assms] by blast
  have d: "validate_video_declaration X m d = Ok ()"
    using g(1,3) by (auto simp: validate_http_video_def result_simps)
  have cool: "20 \<le> cooldown g \<and> cooldown g \<le> 300"
    using d g(9) by (auto simp: validate_video_declaration_def result_simps cooldown_def word_le_nat_alt unwrap_or_def split: option.splits)
  have cred: "\<exists>key \<in> secret_settings m. map_of (wc_secrets c) key = Some v" if "vg_bearer_token g = Some v" for v
    using media_credential_Some [of X c d v] g(1,7) that by (auto simp: secret_settings_def)
  have base: "url_parse X base = Some (vg_base g)" "u_query (vg_base g) = None" "u_username (vg_base g) = []"
    using g(6) validated_media_url_Ok by (auto simp: validated_video_url_def)
  have down: "in_scope g u \<and> (\<not> vg_allow_query g \<longrightarrow> u_query u = None)" if "validate_url X g v = Ok u" for v u
    using that validated_media_url_Ok by (auto simp: validate_url_def result_simps split: if_splits)
  have prev: "validate_preview_url X g v \<noteq> Ok u" if "vg_bearer_token g \<noteq> None" for v u
    using that g(8) by (auto simp: validate_preview_url_def result_simps split: if_splits)
  note token = media_credential_declared [OF g(7)]
  from g base cool cred down prev token show ?thesis unfolding in_scope_def by blast
qed

definition sample_configuration :: worker_configuration where
  "sample_configuration = \<lparr>wc_revision = ''r1'',
     wc_values = JObject [(''base'', JString ''https://media.invalid/clips'')], wc_secrets = []\<rparr>"

definition sample_grant_opt :: "http_video_grant option" where
  "sample_grant_opt = (case video_grant sample_ext sample_manifest (Some sample_configuration) of
     Inl _ \<Rightarrow> None | Inr g \<Rightarrow> g)"

theorem video_grant_authority_witness:
  "\<exists>g. video_grant sample_ext sample_manifest (Some sample_configuration) = Ok (Some g)
     \<and> cooldown g \<le> 300 \<and> (\<exists>d. m_http_video sample_manifest = Some d \<and> vg_allow_query g = hv_allow_query d)
     \<and> (\<forall>v u. validate_url sample_ext g v = Ok u \<longrightarrow> u_origin u = u_origin (vg_base g))"
proof -
  have "video_grant sample_ext sample_manifest (Some sample_configuration) = Ok sample_grant_opt
    \<and> sample_grant_opt \<noteq> None" by code_simp
  then obtain g where "video_grant sample_ext sample_manifest (Some sample_configuration) = Ok (Some g)" by auto
  with video_grant_authority [OF this] show ?thesis by blast
qed

text \<open>
  A preview derived from the native live maps authorises one URL and nothing else: no download,
  no credential, no other text, for at most 15 seconds on the MQTT path.
\<close>

theorem mqtt_preview_exact:
  assumes "mqtt_preview X G key value = Ok (u, g)"
  shows "resolve_live X (lg_mqtt_urls G) key value = Ok u \<and> (\<forall>v w. validate_url X g v \<noteq> Ok w)
     \<and> (\<forall>v w. validate_preview_url X g v = Ok w \<longleftrightarrow> v = u_str u \<and> w = u)
     \<and> vg_bearer_token g = None \<and> (\<exists>n. preview_duration g = Some n \<and> 1 \<le> n \<and> n \<le> 15)"
proof -
  obtain s where s: "lg_preview_duration_seconds G = Some s" "1 \<le> s" "s \<le> 15"
    "resolve_live X (lg_mqtt_urls G) key value = Ok u" "exact_preview u s = (u, g)"
    using assms by (auto simp: mqtt_preview_def exact_preview_def result_simps split: option.splits if_splits)
  then have "1 \<le> unat s" "unat s \<le> 15" by (simp_all add: word_le_nat_alt)
  with s show ?thesis
    by (auto simp: exact_preview_def validate_url_def validate_preview_url_def preview_duration_def split: if_splits)
qed

definition sample_view :: live_view_grant where
  "sample_view = \<lparr>lg_urls = [], lg_mqtt_urls = sample_live, lg_preview_duration_seconds = Some 10\<rparr>"

theorem mqtt_preview_exact_witness:
  "\<exists>u g. mqtt_preview sample_ext sample_view ''front'' (sample_camera @ ''?token=a'') = Ok (u, g)
     \<and> validate_preview_url sample_ext g (u_str u) = Ok u"
proof -
  have "is_ok (mqtt_preview sample_ext sample_view ''front'' (sample_camera @ ''?token=a''))" by code_simp
  then obtain u g where "mqtt_preview sample_ext sample_view ''front'' (sample_camera @ ''?token=a'') = Ok (u, g)"
    by (auto simp: is_ok_iff)
  with mqtt_preview_exact [OF this] show ?thesis by blast
qed

end
