(* ===== verification/Messages.thy ===== *)
theory Messages
  imports Presentations Manifest LiveUrls MediaGrants
begin

text \<open>
  Whole messages of \<^verbatim>\<open>protocol.rs\<close>: the validation of the configuration, of host messages and of worker
  messages, the handshake, and the framing functions on either side.

  The lemmas characterise the frames the host accepts and the messages it lets through.
\<close>

section \<open>Validation\<close>

definition secret_key_ok :: "worker_configuration \<Rightarrow> string \<Rightarrow> unit res" where
  "secret_key_ok c key = checks
     [token key ''secret key'',
      reject (jget key (wc_values c) \<noteq> None) ''worker values and secrets must have separate keys'']"

definition validate_configuration :: "ext \<Rightarrow> worker_configuration \<Rightarrow> unit res" where
  "validate_configuration X c = checks
     [token (wc_revision c) ''configuration revision'',
      reject (\<not> is_object (wc_values c)) ''worker configuration values must be an object'',
      bounded_json X (wc_values c) MAX_CONFIGURATION_BYTES,
      for_each (secret_key_ok c) (map fst (wc_secrets c)),
      (if MAX_JSON_NODES < length (wc_secrets c) then Err ''worker configuration exceeds byte or field limit''
       else rbind (map_err (\<lambda>_. ''cannot encode worker configuration'') (enc_config X c)) (\<lambda>bytes.
         reject (MAX_CONFIGURATION_BYTES < length bytes) ''worker configuration exceeds byte or field limit''))]"

definition frame_fits :: "string res \<Rightarrow> unit res" where
  "frame_fits encoded = rbind (bounded_serialized_frame encoded) (\<lambda>_. Ok ())"

fun host_body :: "ext \<Rightarrow> host_message \<Rightarrow> unit res" where
  "host_body X (Hello v api plugin) = checks [validate_versions v api, validate_plugin_id plugin]"
| "host_body X (Configuration c) = validate_configuration X c"
| "host_body X (Action request action params deadline) = checks
     [token request ''request_id'', token action ''action_id'', validate_action_params X params,
      reject (\<not> (1 \<le> deadline \<and> unat deadline \<le> MAX_ACTION_DEADLINE_MS))
        ''action deadline is outside allowed range'']"
| "host_body X (Cancel request) = token request ''request_id''"
| "host_body X host_message.Shutdown = Ok ()"

definition validate_host_message :: "ext \<Rightarrow> host_message \<Rightarrow> unit res" where
  "validate_host_message X m = checks [host_body X m, frame_fits (enc_host X m)]"

definition url_ok :: "ext \<Rightarrow> string \<Rightarrow> unit res" where
  "url_ok X u = rbind (validated_media_url X u True) (\<lambda>_. Ok ())"

fun worker_body :: "ext \<Rightarrow> worker_message \<Rightarrow> unit res" where
  "worker_body X (Ready v api plugin) = checks [validate_versions v api, validate_plugin_id plugin]"
| "worker_body X (ConfigurationReady revision) = token revision ''configuration revision''"
| "worker_body X (Contributions items views) = checks
     [validate_contributions X items, validate_presentation views items]"
| "worker_body X (HttpVideo i u title _ cool) = checks
     [token i ''HTTP video id'', if_some (\<lambda>c. token c ''HTTP media cooldown id'') cool,
      label title ''HTTP video title'' 128, url_ok X u]"
| "worker_body X (HttpLive i u title) = checks
     [token i ''live preview id'', label title ''live preview title'' 128, url_ok X u]"
| "worker_body X (MqttLive i title camera u) = checks
     [token i ''MQTT live preview id'', label title ''MQTT live preview title'' 128,
      reject (\<not> camera_id camera) ''Invalid MQTT live camera identity'', url_ok X u]"
| "worker_body X (LiveView i title view) = checks
     [token i ''live preview id'', label title ''live preview title'' 128, validate_live_id view]"
| "worker_body X (Notification i title body view) = checks
     [token i ''notification id'',
      label title ''notification title'' MAX_NOTIFICATION_TITLE_BYTES,
      label body ''notification body'' MAX_NOTIFICATION_BODY_BYTES,
      if_some validate_live_id view]"
| "worker_body X (ActionResult request v) = checks
     [token request ''request_id'', bounded_json X v MAX_ACTION_RESULT_BYTES]"
| "worker_body X (ActionError request code message) = checks
     [token request ''request_id'', token code ''error code'', text_check message ''error message'' 1024]"
| "worker_body X (Event name data) = checks
     [token name ''worker event name'', bounded_json X data MAX_ACTION_RESULT_BYTES]"

definition validate_worker_message :: "ext \<Rightarrow> worker_message \<Rightarrow> unit res" where
  "validate_worker_message X m = checks [worker_body X m, frame_fits (enc_worker X m)]"

definition validate_handshake :: "ext \<Rightarrow> string \<Rightarrow> worker_message \<Rightarrow> unit res" where
  "validate_handshake X expected m = checks
     [validate_plugin_id expected, validate_worker_message X m,
      (case m of
         Ready _ _ plugin \<Rightarrow> reject (plugin \<noteq> expected) ''worker plugin identity mismatch''
       | _ \<Rightarrow> Err ''worker must acknowledge the handshake before sending data'')]"

section \<open>Frames\<close>

definition parse_worker_frame :: "ext \<Rightarrow> string \<Rightarrow> worker_message res" where
  "parse_worker_frame X bytes =
     rbind (frame_payload bytes) (\<lambda>p.
     rbind (map_err (\<lambda>e. ''invalid worker message: '' @ e) (dec_worker X p)) (\<lambda>m.
     rbind (validate_worker_message X m) (\<lambda>_. Ok m)))"

definition encode_host_frame :: "ext \<Rightarrow> host_message \<Rightarrow> string res" where
  "encode_host_frame X m =
     rbind (validate_host_message X m) (\<lambda>_. bounded_serialized_frame (enc_host X m))"

abbreviation LF :: char where "LF \<equiv> CHR 0x0A"
abbreviation CR :: char where "CR \<equiv> CHR 0x0D"

lemma bounded_serialized_frame_Ok:
  "bounded_serialized_frame encoded = Ok b \<longleftrightarrow>
     (\<exists>p. encoded = Ok p \<and> length p < HOST_MAX_FRAME_BYTES \<and> b = p @ [LF])"
  by (cases encoded) (auto simp: bounded_serialized_frame_def)

lemma frame_fits_Ok: "frame_fits encoded = Ok () \<longleftrightarrow> (\<exists>p. encoded = Ok p \<and> length p < HOST_MAX_FRAME_BYTES)"
  by (auto simp: frame_fits_def rbind_Ok bounded_serialized_frame_Ok)

lemma encode_host_frame_Ok:
  "encode_host_frame X m = Ok b \<longleftrightarrow> host_body X m = Ok ()
     \<and> (\<exists>p. enc_host X m = Ok p \<and> length p < HOST_MAX_FRAME_BYTES \<and> b = p @ [LF])"
  by (auto simp: encode_host_frame_def validate_host_message_def result_simps frame_fits_Ok bounded_serialized_frame_Ok)

lemma parse_worker_frame_Ok:
  "parse_worker_frame X b = Ok m \<Longrightarrow> \<exists>p. frame_payload b = Ok p \<and> dec_worker X p = Ok m \<and> worker_body X m = Ok ()"
  by (auto simp: parse_worker_frame_def validate_worker_message_def result_simps)

text \<open>The two optional delimiters a frame may end in.\<close>

definition unframed :: "string \<Rightarrow> string" where
  "unframed b =
     (let p = (case strip_suffix [LF] b of None \<Rightarrow> b | Some s \<Rightarrow> s)
      in (case strip_suffix [CR] p of None \<Rightarrow> p | Some s \<Rightarrow> s))"

lemma strip_suffix_single: "strip_suffix [c] s = (if s \<noteq> [] \<and> last s = c then Some (butlast s) else None)"
  by (cases s rule: rev_cases) (auto simp: strip_suffix_def)

lemma strip_delimiter:
  "(case strip_suffix [c] s of None \<Rightarrow> s | Some t \<Rightarrow> t) = t \<longleftrightarrow> s = t @ [c] \<or> (s = t \<and> (t = [] \<or> last t \<noteq> c))"
  by (cases s rule: rev_cases) (auto simp: strip_suffix_single)

lemma unframed_cases:
  assumes "LF \<notin> set p" "CR \<notin> set p"
  shows "unframed b = p \<longleftrightarrow> b \<in> {p, p @ [LF], p @ [CR], p @ [CR, LF]}"
proof -
  have last: "p = [] \<or> last p \<noteq> LF" "p = [] \<or> last p \<noteq> CR" using assms last_in_set [of p] by metis+
  have "unframed b = p \<longleftrightarrow>
    (\<exists>q. (case strip_suffix [LF] b of None \<Rightarrow> b | Some t \<Rightarrow> t) = q
       \<and> (case strip_suffix [CR] q of None \<Rightarrow> q | Some t \<Rightarrow> t) = p)"
    by (simp add: unframed_def Let_def)
  then show ?thesis unfolding strip_delimiter using last by auto
qed

text \<open>
  The frames the host accepts are exactly: one non-empty payload of fewer than 64 KiB without
  line breaks, followed by nothing, a line feed, a carriage return or both, within 64 KiB together;
  and the payload is recovered unchanged.
\<close>

theorem frame_payload_exact:
  "frame_payload b = Ok p \<longleftrightarrow> p \<noteq> [] \<and> length p < 64 * 1024 \<and> LF \<notin> set p \<and> CR \<notin> set p
     \<and> length b \<le> 64 * 1024 \<and> b \<in> {p, p @ [LF], p @ [CR], p @ [CR, LF]}"
proof -
  have "frame_payload b = Ok p \<longleftrightarrow> b \<noteq> [] \<and> length b \<le> 64 * 1024 \<and> unframed b = p
     \<and> p \<noteq> [] \<and> length p < 64 * 1024 \<and> LF \<notin> set p \<and> CR \<notin> set p"
    by (auto simp: frame_payload_def unframed_def Let_def HOST_MAX_FRAME_BYTES_def list_ex_iff not_le not_less)
  then show ?thesis using unframed_cases [of p b] by auto
qed

text \<open>
  The handshake lets exactly one message through: the acknowledgement of this protocol version
  and host API version by the plugin that was started, under a well-formed identifier.
\<close>

theorem handshake_exact:
  "validate_handshake X expected m = Ok () \<longleftrightarrow>
     m = Ready PROTOCOL_VERSION HOST_API_VERSION expected \<and> validate_plugin_id expected = Ok ()
     \<and> (\<exists>p. enc_worker X m = Ok p \<and> length p < 64 * 1024)"
  by (cases m) (auto simp: validate_handshake_def validate_worker_message_def validate_versions_def
      result_simps frame_fits_Ok HOST_MAX_FRAME_BYTES_def)

text \<open>
  Configuration and secrets never share a key: in a valid configuration a name is a public
  value or a secret, and both are bounded.
\<close>

theorem configuration_separates_secrets:
  assumes "validate_configuration X c = Ok ()"
  shows "(\<forall>key v. (key, v) \<in> set (wc_secrets c) \<longrightarrow> jget key (wc_values c) = None \<and> token key ''secret key'' = Ok ())
     \<and> (\<exists>fs. wc_values c = JObject fs) \<and> jdepth (wc_values c) \<le> 8 \<and> jnodes (wc_values c) \<le> 512
     \<and> length (wc_secrets c) \<le> 512
     \<and> (\<exists>bytes. enc_config X c = Ok bytes \<and> length bytes \<le> 32 * 1024)"
  using assms
  by (fastforce simp: validate_configuration_def secret_key_ok_def result_simps bounded_json_def bounded_json_depth_Ok
      limit_defs is_object_iff split: if_splits)

theorem configuration_separates_secrets_witness:
  "jdepth (wc_values sample_configuration) \<le> 8"
proof -
  have "validate_configuration sample_ext sample_configuration = Ok ()" by code_simp
  from configuration_separates_secrets [OF this] show ?thesis by blast
qed

end
