(* ===== verification/SettingsChoices.thy ===== *)
theory SettingsChoices
  imports Samples
begin

text \<open>
  \<^verbatim>\<open>settings_choices.rs\<close>: the catalog of choices a worker publishes page by page. \<open>accept\<close> takes one
  event value; a source is published only by the page that completes it. The catalog's two maps are
  association lists; their keys stay distinct, which is part of the invariant.

  The lemmas give the invariant that bounds the catalog and the outcome of an upload, page after page.
\<close>

record snapshot =
  sn_revision :: "string option"
  sn_sources :: "(string \<times> choice list) list"

record catalog =
  cat_current :: snapshot
  cat_pending :: "(string \<times> string \<times> choice list) list"

definition empty_catalog :: catalog where
  "empty_catalog = \<lparr>cat_current = \<lparr>sn_revision = None, sn_sources = []\<rparr>, cat_pending = []\<rparr>"

definition choice_token :: "string \<Rightarrow> bool" where
  "choice_token v \<longleftrightarrow> v \<noteq> [] \<and> length v \<le> 64
     \<and> list_all (\<lambda>b. is_ascii_alphanumeric b \<or> b \<in> set ''.-_'') v"

definition choice_bad :: "choice \<Rightarrow> bool" where
  "choice_bad c \<longleftrightarrow> ch_value c = [] \<or> 128 < length (ch_value c) \<or> 128 < length (ch_label c)
     \<or> has_control (ch_value c) \<or> has_control (ch_label c)"

definition page_bad :: "choice_page \<Rightarrow> bool" where
  "page_bad p \<longleftrightarrow> \<not> choice_token (page_source p) \<or> \<not> choice_token (page_revision p)
     \<or> 64 < length (page_options p) \<or> 4096 < page_offset p \<or> list_ex choice_bad (page_options p)"

text \<open>The sources a catalog knows, published or being uploaded.\<close>

definition source_names :: "catalog \<Rightarrow> string list" where
  "source_names c = remdups (map fst (sn_sources (cat_current c)) @ map fst (cat_pending c))"

text \<open>\<^verbatim>\<open>if page.offset == 0 { .. }\<close>\<close>

definition start_upload :: "choice_page \<Rightarrow> catalog \<Rightarrow> catalog option" where
  "start_upload p c =
     (if page_offset p \<noteq> 0 then Some c
      else if page_source p \<notin> set (source_names c) \<and> 8 \<le> length (source_names c) then None
      else Some (c\<lparr>cat_pending := AList.update (page_source p) (page_revision p, []) (cat_pending c)\<rparr>))"

text \<open>The loop \<^verbatim>\<open>if !values.insert(&choice.value) { return Err(()) }\<close>.\<close>

fun insert_values :: "choice list \<Rightarrow> string set \<Rightarrow> bool" where
  "insert_values [] seen = True"
| "insert_values (c # cs) seen = (ch_value c \<notin> seen \<and> insert_values cs (insert (ch_value c) seen))"

definition publish :: "choice_page \<Rightarrow> choice list \<Rightarrow> catalog \<Rightarrow> catalog" where
  "publish p choices c = c\<lparr>
     cat_pending := AList.delete (page_source p) (cat_pending c),
     cat_current := \<lparr>sn_revision = Some (page_revision p),
       sn_sources = AList.update (page_source p) choices (sn_sources (cat_current c))\<rparr>\<rparr>"

text \<open>\<^verbatim>\<open>accept\<close> after decoding: the catalog as the call leaves it, also when it fails, and its answer.\<close>

definition accept_page :: "choice_page \<Rightarrow> catalog \<Rightarrow> catalog \<times> bool" where
  "accept_page p c =
     (if page_bad p then (c, False)
      else case start_upload p c of
          None \<Rightarrow> (c, False)
        | Some c \<Rightarrow>
            (case map_of (cat_pending c) (page_source p) of
               None \<Rightarrow> (c, False)
             | Some (revision, choices) \<Rightarrow>
                 if revision \<noteq> page_revision p \<or> length choices \<noteq> page_offset p
                    \<or> 4096 < length choices + length (page_options p)
                 then (c, False)
                 else if \<not> insert_values (page_options p) (set (map ch_value choices)) then (c, False)
                 else
                   (let choices = choices @ page_options p;
                        c = c\<lparr>cat_pending := AList.update (page_source p) (revision, choices) (cat_pending c)\<rparr>
                    in (if page_complete p then publish p choices c else c, True))))"

definition accept :: "ext \<Rightarrow> json \<Rightarrow> catalog \<Rightarrow> catalog \<times> bool" where
  "accept X v c = (case dec_choice_page X v of None \<Rightarrow> (c, False) | Some p \<Rightarrow> accept_page p c)"

section \<open>The catalog stays bounded\<close>

definition choices_ok :: "choice list \<Rightarrow> bool" where
  "choices_ok cs \<longleftrightarrow> length cs \<le> 4096 \<and> distinct (map ch_value cs) \<and> (\<forall>c \<in> set cs. \<not> choice_bad c)"

definition catalog_ok :: "catalog \<Rightarrow> bool" where
  "catalog_ok c \<longleftrightarrow> distinct (map fst (sn_sources (cat_current c))) \<and> distinct (map fst (cat_pending c))
     \<and> length (source_names c) \<le> 8 \<and> (\<forall>s \<in> set (source_names c). choice_token s)
     \<and> (\<forall>(s, cs) \<in> set (sn_sources (cat_current c)). choices_ok cs)
     \<and> (\<forall>(s, r, cs) \<in> set (cat_pending c). choices_ok cs)"

interpretation choice_tokens: byte_class choice_token 64 "\<lambda>b. is_ascii_alphanumeric b \<or> b \<in> set ''.-_''"
  by unfold_locales (auto simp: choice_token_def)

lemma insert_values_iff: "insert_values cs seen \<longleftrightarrow> distinct (map ch_value cs) \<and> ch_value ` set cs \<inter> seen = {}"
  by (induction cs arbitrary: seen) auto

lemma source_count: "length (source_names c) = card (set (source_names c))"
  by (simp add: source_names_def length_remdups_card_conv)

lemma source_set: "set (source_names c) = fst ` set (sn_sources (cat_current c)) \<union> fst ` set (cat_pending c)"
  by (auto simp: source_names_def)

lemma update_entries: "(k, v) \<in> set (AList.update k' v' xs) \<Longrightarrow> (k, v) = (k', v') \<or> (k, v) \<in> set xs"
  by (induction xs) (auto split: if_splits)

lemma delete_entries: "x \<in> set (AList.delete k xs) \<Longrightarrow> x \<in> set xs"
  by (auto simp: AList.delete_eq)

lemma catalog_ok_update:
  assumes "catalog_ok c" "choices_ok cs" "choice_token s"
    and "s \<in> set (source_names c) \<or> length (source_names c) < 8"
  shows "catalog_ok (c\<lparr>cat_pending := AList.update s (r, cs) (cat_pending c)\<rparr>)" (is "catalog_ok ?c")
proof -
  have names: "set (source_names ?c) = insert s (set (source_names c))"
    by (auto simp: source_set dom_update)
  then have "length (source_names ?c) \<le> 8"
    using assms(1,4) by (auto simp: source_count catalog_ok_def card_insert_if)
  with assms names show ?thesis
    by (auto simp: catalog_ok_def distinct_update dest!: update_entries split: prod.splits)
qed

lemma catalog_ok_publish:
  assumes "catalog_ok c" "choices_ok cs" "choice_token (page_source p)" "page_source p \<in> set (source_names c)"
  shows "catalog_ok (publish p cs c)"
proof -
  have names: "set (source_names (publish p cs c)) \<subseteq> set (source_names c)"
    using assms(4) by (auto simp: source_set publish_def dom_update dest!: delete_entries)
  then have "length (source_names (publish p cs c)) \<le> 8"
    using assms(1) card_mono [OF _ names] by (simp add: source_count catalog_ok_def)
  with assms names show ?thesis
    by (auto simp: catalog_ok_def publish_def distinct_update distinct_delete dest!: update_entries delete_entries
        split: prod.splits)
qed

lemma choices_ok_append:
  "choices_ok cs \<Longrightarrow> \<not> page_bad p \<Longrightarrow> length cs + length (page_options p) \<le> 4096
     \<Longrightarrow> insert_values (page_options p) (set (map ch_value cs)) \<Longrightarrow> choices_ok (cs @ page_options p)"
  by (auto simp: choices_ok_def page_bad_def insert_values_iff list_ex_iff)

lemma start_upload_ok:
  assumes "catalog_ok c" "\<not> page_bad p" "start_upload p c = Some d"
  shows "catalog_ok d \<and> cat_current d = cat_current c"
proof (cases "page_offset p = 0")
  case True
  then have "d = c\<lparr>cat_pending := AList.update (page_source p) (page_revision p, []) (cat_pending c)\<rparr>"
    "page_source p \<in> set (source_names c) \<or> length (source_names c) < 8"
    using assms(3) by (auto simp: start_upload_def split: if_splits)
  then show ?thesis using catalog_ok_update [OF assms(1)] assms(2) by (auto simp: choices_ok_def page_bad_def)
qed (use assms in \<open>auto simp: start_upload_def\<close>)

text \<open>The three outcomes of a page: refused, appended, published.\<close>

lemma accept_page_cases:
  obtains (refused) c' where "accept_page p c = (c', False)"
      "c' = c \<or> (\<not> page_bad p \<and> start_upload p c = Some c')"
  | (taken) d r cs where "\<not> page_bad p" "start_upload p c = Some d"
      "map_of (cat_pending d) (page_source p) = Some (r, cs)" "r = page_revision p" "length cs = page_offset p"
      "length cs + length (page_options p) \<le> 4096" "insert_values (page_options p) (set (map ch_value cs))"
      "accept_page p c = (let d' = d\<lparr>cat_pending :=
           AList.update (page_source p) (r, cs @ page_options p) (cat_pending d)\<rparr>
         in (if page_complete p then publish p (cs @ page_options p) d' else d', True))"
proof (cases "page_bad p")
  case True
  then show ?thesis using refused by (simp add: accept_page_def)
next
  case False
  show ?thesis
  proof (cases "start_upload p c")
    case None
    then show ?thesis using refused False by (simp add: accept_page_def)
  next
    case (Some d)
    show ?thesis
    proof (cases "map_of (cat_pending d) (page_source p)")
      case None
      then show ?thesis using refused False Some by (simp add: accept_page_def)
    next
      case (Some rcs)
      obtain r cs where rcs: "rcs = (r, cs)" by (cases rcs)
      show ?thesis
      proof (cases "r \<noteq> page_revision p \<or> length cs \<noteq> page_offset p \<or> 4096 < length cs + length (page_options p)
          \<or> \<not> insert_values (page_options p) (set (map ch_value cs))")
        case True
        then have "accept_page p c = (d, False)"
          using False Some rcs \<open>start_upload p c = Some d\<close> by (auto simp: accept_page_def)
        then show ?thesis using refused False \<open>start_upload p c = Some d\<close> by blast
      next
        case ok: False
        then show ?thesis
          using taken [OF False \<open>start_upload p c = Some d\<close>, of r cs] Some rcs False \<open>start_upload p c = Some d\<close>
          by (simp add: accept_page_def Let_def)
      qed
    qed
  qed
qed

lemma pending_is_source: "map_of (cat_pending c) s = Some v \<Longrightarrow> s \<in> set (source_names c)"
  by (force simp: source_set dest: map_of_SomeD)

lemma accept_page_ok: "catalog_ok c \<Longrightarrow> catalog_ok (fst (accept_page p c))"
proof (cases p c rule: accept_page_cases)
  case (refused c')
  assume "catalog_ok c"
  with refused show ?thesis using start_upload_ok by auto
next
  case (taken d r cs)
  assume "catalog_ok c"
  then have d: "catalog_ok d" using start_upload_ok taken by blast
  then have "choices_ok cs" using taken(3) by (auto simp: catalog_ok_def dest!: map_of_SomeD split: prod.splits)
  then have cs: "choices_ok (cs @ page_options p)" using taken choices_ok_append by blast
  have tok: "choice_token (page_source p)" using taken(1) by (simp add: page_bad_def)
  let ?d = "d\<lparr>cat_pending := AList.update (page_source p) (r, cs @ page_options p) (cat_pending d)\<rparr>"
  have "catalog_ok ?d"
    using catalog_ok_update [OF d cs tok] pending_is_source [OF taken(3)] by blast
  moreover have "page_source p \<in> set (source_names ?d)" by (auto simp: source_set dom_update)
  ultimately show ?thesis using taken(8) catalog_ok_publish [OF _ cs tok] by (simp add: Let_def)
qed

definition run_events :: "ext \<Rightarrow> json list \<Rightarrow> catalog \<Rightarrow> catalog" where
  "run_events X vs c = fold (\<lambda>v c. fst (accept X v c)) vs c"

lemma run_events_ok: "catalog_ok c \<Longrightarrow> catalog_ok (run_events X vs c)"
  by (induction vs arbitrary: c)
    (auto simp: run_events_def accept_def accept_page_ok split: option.splits)

text \<open>
  Whatever a worker sends, its catalog stays within bounds: at most 8 sources, published and
  pending together, each with at most 4096 valid choices of distinct values.
\<close>

theorem catalog_bounded:
  "let c = run_events X vs empty_catalog in
     length (source_names c) \<le> 8
     \<and> (\<forall>s cs. map_of (sn_sources (cat_current c)) s = Some cs \<longrightarrow>
          length cs \<le> 4096 \<and> distinct (map ch_value cs) \<and> (\<forall>ch \<in> set cs. \<not> choice_bad ch))
     \<and> (\<forall>s r cs. map_of (cat_pending c) s = Some (r, cs) \<longrightarrow> length cs \<le> 4096 \<and> distinct (map ch_value cs))"
proof -
  have "catalog_ok empty_catalog" by (simp add: catalog_ok_def empty_catalog_def source_names_def)
  from run_events_ok [OF this, of X vs] show ?thesis
    by (auto simp: catalog_ok_def choices_ok_def Let_def dest!: map_of_SomeD split: prod.splits)
qed

section \<open>Uploads\<close>

fun run_pages :: "choice_page list \<Rightarrow> catalog \<Rightarrow> catalog \<times> bool" where
  "run_pages [] c = (c, True)"
| "run_pages (p # ps) c =
     (case accept_page p c of (c', ok) \<Rightarrow> (case run_pages ps c' of (c'', oks) \<Rightarrow> (c'', ok \<and> oks)))"

text \<open>The pages of one upload: one source, one revision, contiguous offsets, complete at the end.\<close>

fun upload :: "string \<Rightarrow> string \<Rightarrow> nat \<Rightarrow> choice_page list \<Rightarrow> bool" where
  "upload s r n [] = False"
| "upload s r n (p # ps) \<longleftrightarrow> page_source p = s \<and> page_revision p = r \<and> page_offset p = n \<and> \<not> page_bad p
     \<and> (if ps = [] then page_complete p
        else \<not> page_complete p \<and> page_options p \<noteq> [] \<and> upload s r (n + length (page_options p)) ps)"

lemma unpublished_page:
  "accept_page p c = (c', ok) \<Longrightarrow> \<not> ok \<or> \<not> page_complete p \<Longrightarrow> cat_current c' = cat_current c"
  by (cases p c rule: accept_page_cases)
    (auto simp: start_upload_def Let_def split: if_splits)

lemma take_upload_current:
  "upload s r n ps \<Longrightarrow> k < length ps \<Longrightarrow> cat_current (fst (run_pages (take k ps) c)) = cat_current c"
proof (induction k arbitrary: n ps c)
  case (Suc k)
  then obtain p q qs where ps: "ps = p # q # qs" by (cases ps; cases "tl ps") auto
  with Suc.prems have u: "upload s r (n + length (page_options p)) (q # qs)" "\<not> page_complete p"
    by (auto split: if_splits)
  obtain c' ok where step: "accept_page p c = (c', ok)" by (cases "accept_page p c")
  show ?case using Suc.IH [OF u(1), of c'] Suc.prems(2) ps step unpublished_page [OF step] u(2)
    by (simp add: split_def)
qed simp

lemma delete_updated: "AList.delete k (AList.update k v xs) = AList.delete k xs"
  by (induction xs) (auto simp: AList.delete_eq)

lemma upload_continues:
  assumes "upload s r n ps" "map_of (cat_pending c) s = Some (r, cs)" "length cs = n" "0 < n"
    "n + length (concat (map page_options ps)) \<le> 4096"
    "distinct (map ch_value (cs @ concat (map page_options ps)))"
    "run_pages ps c = (c', ok)"
  shows "ok \<and> cat_current c' = \<lparr>sn_revision = Some r,
     sn_sources = AList.update s (cs @ concat (map page_options ps)) (sn_sources (cat_current c))\<rparr>
     \<and> cat_pending c' = AList.delete s (cat_pending c)"
  using assms
proof (induction ps arbitrary: n c cs c' ok)
  case (Cons p ps)
  have p: "page_source p = s" "page_revision p = r" "page_offset p = n" "\<not> page_bad p" using Cons.prems by simp_all
  have "insert_values (page_options p) (set (map ch_value cs))"
    using Cons.prems(6) by (auto simp: insert_values_iff)
  then have step: "accept_page p c = (let d = c\<lparr>cat_pending := AList.update s (r, cs @ page_options p) (cat_pending c)\<rparr>
      in (if page_complete p then publish p (cs @ page_options p) d else d, True))"
    using Cons.prems p by (simp add: accept_page_def start_upload_def Let_def)
  show ?case
  proof (cases "ps = []")
    case True
    then show ?thesis using Cons.prems p step
      by (auto simp: publish_def Let_def delete_updated)
  next
    case False
    let ?c = "c\<lparr>cat_pending := AList.update s (r, cs @ page_options p) (cat_pending c)\<rparr>"
    obtain d ok' where run: "run_pages ps ?c = (d, ok')" by (cases "run_pages ps ?c")
    have *: "c' = d" "ok = ok'" using Cons.prems(1,7) False step run by (auto simp: Let_def)
    have "ok' \<and> cat_current d = \<lparr>sn_revision = Some r,
       sn_sources = AList.update s ((cs @ page_options p) @ concat (map page_options ps)) (sn_sources (cat_current ?c))\<rparr>
       \<and> cat_pending d = AList.delete s (cat_pending ?c)"
      using Cons.prems False run by (intro Cons.IH [of "n + length (page_options p)"]) (auto simp: update_conv')
    then show ?thesis using * by (simp add: delete_updated)
  qed
qed simp

text \<open>
  C32. Publication is atomic and exact: until the last page of an upload nothing published changes,
  and the last page publishes the concatenation of all pages for that source alone, under the
  upload's revision, and forgets the upload.
\<close>

theorem upload_atomic:
  assumes "upload s r 0 ps"
    and "s \<in> set (source_names c) \<or> length (source_names c) < 8"
    and "length (concat (map page_options ps)) \<le> 4096"
    and "distinct (map ch_value (concat (map page_options ps)))"
    and "run_pages ps c = (c', ok)"
  shows "ok \<and> (\<forall>k < length ps. cat_current (fst (run_pages (take k ps) c)) = cat_current c)
     \<and> sn_revision (cat_current c') = Some r
     \<and> map_of (sn_sources (cat_current c')) =
         (map_of (sn_sources (cat_current c)))(s \<mapsto> concat (map page_options ps))
     \<and> map_of (cat_pending c') s = None"
proof -
  obtain p qs where ps: "ps = p # qs" using assms(1) by (cases ps) auto
  have p: "page_source p = s" "page_revision p = r" "page_offset p = 0" "\<not> page_bad p" using assms(1) ps by auto
  let ?d = "c\<lparr>cat_pending := AList.update s (r, page_options p)
      (AList.update s (r, []) (cat_pending c))\<rparr>"
  have "distinct (map ch_value (page_options p))" "length (page_options p) \<le> 4096" using assms(3,4) ps by simp_all
  then have step: "accept_page p c =
      (if page_complete p then publish p (page_options p) ?d else ?d, True)"
    using assms(2) p by (simp add: accept_page_def start_upload_def Let_def insert_values_iff update_conv' not_less not_le)
  have final: "ok \<and> cat_current c' = \<lparr>sn_revision = Some r,
       sn_sources = AList.update s (concat (map page_options ps)) (sn_sources (cat_current c))\<rparr>
     \<and> cat_pending c' = AList.delete s (cat_pending ?d)"
  proof (cases "qs = []")
    case True
    then show ?thesis using assms(1,5) ps p step by (auto simp: publish_def)
  next
    case False
    obtain d ok' where run: "run_pages qs ?d = (d, ok')" by (cases "run_pages qs ?d")
    have *: "c' = d" "ok = ok'" using assms(1,5) ps False step run by auto
    have "ok' \<and> cat_current d = \<lparr>sn_revision = Some r,
       sn_sources = AList.update s (page_options p @ concat (map page_options qs)) (sn_sources (cat_current ?d))\<rparr>
       \<and> cat_pending d = AList.delete s (cat_pending ?d)"
      using assms ps False run by (intro upload_continues) (auto simp: update_conv')
    then show ?thesis using * ps by simp
  qed
  then show ?thesis using take_upload_current [OF assms(1)]
    by (auto simp: update_conv' delete_conv')
qed

definition sample_page :: "nat \<Rightarrow> bool \<Rightarrow> string \<Rightarrow> choice_page" where
  "sample_page n done v = \<lparr>page_source = ''lights'', page_revision = ''r1'', page_offset = n, page_complete = done,
     page_options = [\<lparr>ch_value = v, ch_label = v\<rparr>]\<rparr>"

theorem upload_atomic_witness:
  "snd (run_pages [sample_page 0 False ''a'', sample_page 1 True ''b''] empty_catalog)
   \<and> map_of (sn_sources (cat_current (fst (run_pages [sample_page 0 False ''a'', sample_page 1 True ''b''] empty_catalog))))
       ''lights'' = Some [\<lparr>ch_value = ''a'', ch_label = ''a''\<rparr>, \<lparr>ch_value = ''b'', ch_label = ''b''\<rparr>]"
proof -
  let ?ps = "[sample_page 0 False ''a'', sample_page 1 True ''b'']"
  have u: "upload ''lights'' ''r1'' 0 ?ps" by code_simp
  have room: "''lights'' \<in> set (source_names empty_catalog) \<or> length (source_names empty_catalog) < 8" by code_simp
  obtain c' ok where run: "run_pages ?ps empty_catalog = (c', ok)" by (cases "run_pages ?ps empty_catalog")
  have "length (concat (map page_options ?ps)) \<le> 4096" "distinct (map ch_value (concat (map page_options ?ps)))"
    by (simp_all add: sample_page_def)
  from upload_atomic [OF u room this run] run show ?thesis by (simp add: sample_page_def)
qed

text \<open>One complete page through the worker's event path: the bounds at a catalog that is not empty.\<close>

theorem catalog_bounded_witness:
  "let X = sample_ext\<lparr>dec_choice_page := \<lambda>_. Some (sample_page 0 True ''a'')\<rparr>;
       c = run_events X [JNull] empty_catalog
   in source_names c = [''lights''] \<and> length (source_names c) \<le> 8"
proof -
  let ?X = "sample_ext\<lparr>dec_choice_page := \<lambda>_. Some (sample_page 0 True ''a'')\<rparr>"
  have "source_names (run_events ?X [JNull] empty_catalog) = [''lights'']" by code_simp
  with catalog_bounded [of ?X "[JNull]"] show ?thesis by (simp add: Let_def)
qed

end
