(* ===== verification/Entries.thy ===== *)
theory Entries
  imports Messages SettingsChoices
begin

text \<open>
  One registered worker of the plugin host: \<^verbatim>\<open>generation.rs\<close> and the entry operations of \<^verbatim>\<open>runtime.rs\<close>.

  What several owners share lives in \<open>shared\<close>, as in the code: the host's authority, the global
  notification window, and the two kinds of reference-counted leases, each in a store of its own
  (generation leases under their instance identity, numeric leases under an allocation number, so that
  \<^verbatim>\<open>Arc::ptr_eq\<close> is equality). A mutex-guarded field is a field of the record; the code between taking and
  releasing the outermost guard is one operation. Instants and durations are nanoseconds of the monotonic
  clock; an operation that reads the clock takes the instant as an argument.
\<close>

section \<open>Durations\<close>

definition MAX_WORKERS :: nat where "MAX_WORKERS = 8"
definition MAX_IN_FLIGHT :: nat where "MAX_IN_FLIGHT = 16"
definition MAX_RESTARTS :: "32 word" where "MAX_RESTARTS = 2"
definition STARTUP_TIMEOUT :: nat where "STARTUP_TIMEOUT = seconds 3"
definition MAX_FRAMES_PER_SECOND :: nat where "MAX_FRAMES_PER_SECOND = 120"
definition MAX_CONTRIBUTIONS_PER_SECOND :: nat where "MAX_CONTRIBUTIONS_PER_SECOND = 10"
definition NOTIFICATION_QUEUE_CAPACITY :: nat where "NOTIFICATION_QUEUE_CAPACITY = 16"
definition NOTIFICATIONS_PER_WORKER_PER_MINUTE :: nat where "NOTIFICATIONS_PER_WORKER_PER_MINUTE = 30"
definition NOTIFICATIONS_GLOBAL_PER_MINUTE :: nat where "NOTIFICATIONS_GLOBAL_PER_MINUTE = 120"
definition NOTIFICATION_SEEN_CAPACITY :: nat where "NOTIFICATION_SEEN_CAPACITY = 512"
definition NOTIFICATION_DEDUP_TTL :: nat where "NOTIFICATION_DEDUP_TTL = seconds (10 * 60)"
definition NOTIFICATION_DELIVERY_TTL :: nat where "NOTIFICATION_DELIVERY_TTL = seconds 30"
definition HTTP_VIDEO_QUEUE_CAPACITY :: nat where "HTTP_VIDEO_QUEUE_CAPACITY = 4"
definition LIVE_PREVIEW_DELIVERY_TTL :: nat where "LIVE_PREVIEW_DELIVERY_TTL = seconds 3"

lemmas capacity_defs = MAX_WORKERS_def MAX_IN_FLIGHT_def NOTIFICATION_QUEUE_CAPACITY_def
  NOTIFICATIONS_PER_WORKER_PER_MINUTE_def NOTIFICATIONS_GLOBAL_PER_MINUTE_def
  NOTIFICATION_SEEN_CAPACITY_def HTTP_VIDEO_QUEUE_CAPACITY_def

section \<open>Data\<close>

text \<open>\<^verbatim>\<open>GenerationState\<close>; its key in the store is the instance identity.\<close>

record generation_state =
  gs_plugin_id :: string
  gs_epoch :: "64 word"
  gs_generation :: "64 word"
  gs_active :: bool
  gs_cancelled :: bool

record numeric_lease =
  nl_grant :: number_input_grant
  nl_revoked :: bool

record authority =
  au_enabled :: bool
  au_epoch :: "64 word"

record notification_rate =
  nr_window :: nat
  nr_count :: nat

record shared =
  sh_authority :: authority
  sh_stopped :: bool
  sh_leases :: "string \<rightharpoonup> generation_state"
  sh_numeric :: "nat \<rightharpoonup> numeric_lease"
  sh_next_numeric :: nat
  sh_rate :: notification_rate
  sh_next_request :: "64 word"
  sh_changed :: nat \<comment> \<open>how often the change callback ran\<close>

datatype media_camera_id = ExplicitCamera string | HttpPreview string

datatype media_cooldown_id = Camera media_camera_id | LegacyTitle string

record queued_http_video =
  qv_created :: nat
  qv_camera_id :: "media_camera_id option"
  qv_live_preview :: bool
  qv_lease :: string
  qv_grant :: http_video_grant
  qv_id :: string
  qv_url :: string
  qv_title :: string
  qv_media_kind :: http_media_kind

record http_video_state =
  vs_pending :: "queued_http_video list"
  vs_seen :: "(string \<times> nat) list"
  vs_cooldowns :: "(media_cooldown_id \<times> nat) list"
  vs_rate :: notification_rate

record media_admission =
  ma_kind :: http_media_kind
  ma_cooldown_id :: "string option"
  ma_live_preview :: bool

record live_view_request =
  lr_lease :: string
  lr_id :: string
  lr_url :: url

record desktop_notification =
  dn_plugin_id :: string
  dn_id :: string
  dn_title :: string
  dn_body :: string
  dn_live_view :: "live_view_request option"

record queued_notification =
  qn_notification :: desktop_notification
  qn_generation :: "64 word"
  qn_created :: nat

record notification_state =
  ns_pending :: "queued_notification list"
  ns_seen :: "(string \<times> nat) list"
  ns_rate :: notification_rate

datatype worker_state = Starting | Running | Restarting | Stopped | Failed

record plugin_snapshot =
  ps_plugin_id :: string
  ps_state :: worker_state
  ps_generation :: "64 word"
  ps_instance_id :: "string option"
  ps_restart_count :: "32 word"
  ps_contributions :: "dashboard_contribution list"
  ps_presentation :: "presentation list"
  ps_last_error :: "string option"

text \<open>\<^verbatim>\<open>WorkerEntry\<close>, without its channels to the supervising task.\<close>

record worker_entry =
  en_snapshot :: plugin_snapshot
  en_numeric :: "(string \<times> nat) list"
  en_stop :: bool
  en_epoch :: "64 word"
  en_done :: bool
  en_reaped :: bool
  en_notifications :: notification_state
  en_lease :: "string option"
  en_videos :: http_video_state
  en_choices :: catalog

definition new_notifications :: "nat \<Rightarrow> notification_state" where
  "new_notifications now = \<lparr>ns_pending = [], ns_seen = [], ns_rate = \<lparr>nr_window = now, nr_count = 0\<rparr>\<rparr>"

definition new_videos :: "nat \<Rightarrow> http_video_state" where
  "new_videos now = \<lparr>vs_pending = [], vs_seen = [], vs_cooldowns = [], vs_rate = \<lparr>nr_window = now, nr_count = 0\<rparr>\<rparr>"

section \<open>Generation leases\<close>

definition lease_active :: "shared \<Rightarrow> string \<Rightarrow> bool" where
  "lease_active sh i = (case sh_leases sh i of None \<Rightarrow> False | Some g \<Rightarrow> gs_active g)"

text \<open>\<^verbatim>\<open>GenerationLease::new\<close> under the identity \<open>i\<close> the uuid crate drew.\<close>

definition new_lease :: "string \<Rightarrow> string \<Rightarrow> 64 word \<Rightarrow> 64 word \<Rightarrow> shared \<Rightarrow> shared" where
  "new_lease i plugin epoch generation sh = sh\<lparr>sh_leases := (sh_leases sh)(i \<mapsto>
     \<lparr>gs_plugin_id = plugin, gs_epoch = epoch, gs_generation = generation, gs_active = True, gs_cancelled = False\<rparr>)\<rparr>"

definition commit_if_active :: "shared \<Rightarrow> string \<Rightarrow> (unit \<Rightarrow> 'a) \<Rightarrow> 'a res" where
  "commit_if_active sh i commit =
     (if \<not> lease_active sh i then Err ''Plugin generation was revoked'' else Ok (commit ()))"

definition revoke_lease :: "string \<Rightarrow> shared \<Rightarrow> shared" where
  "revoke_lease i sh = (case sh_leases sh i of None \<Rightarrow> sh
     | Some g \<Rightarrow> sh\<lparr>sh_leases := (sh_leases sh)(i \<mapsto> g\<lparr>gs_active := False, gs_cancelled := True\<rparr>)\<rparr>)"

section \<open>Entry operations\<close>

definition refresh :: "nat \<Rightarrow> notification_rate \<Rightarrow> notification_rate" where
  "refresh now r = (if seconds 60 \<le> now - nr_window r then \<lparr>nr_window = now, nr_count = 0\<rparr> else r)"

definition delivery_deadline :: "queued_http_video \<Rightarrow> nat" where
  "delivery_deadline q = qv_created q
     + (if qv_live_preview q then LIVE_PREVIEW_DELIVERY_TTL else NOTIFICATION_DELIVERY_TTL)"

text \<open>\<^verbatim>\<open>lease.revoked.send_replace(true)\<close> on each of some numeric leases.\<close>

definition revoke_numeric :: "nat list \<Rightarrow> shared \<Rightarrow> shared" where
  "revoke_numeric refs sh = sh\<lparr>sh_numeric := (\<lambda>r. if r \<in> set refs
     then map_option (nl_revoked_update (\<lambda>_. True)) (sh_numeric sh r) else sh_numeric sh r)\<rparr>"

definition revoke_generation :: "shared \<times> worker_entry \<Rightarrow> shared \<times> worker_entry" where
  "revoke_generation = (\<lambda>(sh, en).
     (let sh = revoke_numeric (map snd (en_numeric en)) sh;
          sh = (case en_lease en of None \<Rightarrow> sh | Some i \<Rightarrow> revoke_lease i sh)
      in (sh, en\<lparr>en_choices := empty_catalog, en_numeric := [],
           en_snapshot := (en_snapshot en)\<lparr>ps_instance_id := None\<rparr>,
           en_videos := (en_videos en)\<lparr>vs_pending := []\<rparr>\<rparr>)))"

definition authorized :: "shared \<Rightarrow> worker_entry \<Rightarrow> bool" where
  "authorized sh en \<longleftrightarrow> au_enabled (sh_authority sh) \<and> au_epoch (sh_authority sh) = en_epoch en"

definition update_entry :: "(plugin_snapshot \<Rightarrow> plugin_snapshot) \<Rightarrow> shared \<times> worker_entry \<Rightarrow> shared \<times> worker_entry" where
  "update_entry f = (\<lambda>(sh, en).
     (let en = en\<lparr>en_snapshot := f (en_snapshot en)\<rparr>;
          en = (if ps_state (en_snapshot en) \<noteq> Running
                then en\<lparr>en_notifications := (en_notifications en)\<lparr>ns_pending := []\<rparr>\<rparr> else en)
      in (sh\<lparr>sh_changed := sh_changed sh + 1\<rparr>, en)))"

definition fail_entry :: "string \<Rightarrow> shared \<times> worker_entry \<Rightarrow> shared \<times> worker_entry" where
  "fail_entry code se = update_entry (\<lambda>s. s\<lparr>ps_state := Failed, ps_last_error := Some code,
     ps_contributions := [], ps_presentation := []\<rparr>) (revoke_generation se)"

text \<open>Keeping what is younger than a time to live: \<^verbatim>\<open>retain(|(_, created)| now - created < ttl)\<close>.\<close>

definition keep :: "nat \<Rightarrow> nat \<Rightarrow> ('k \<times> nat) list \<Rightarrow> ('k \<times> nat) list" where
  "keep ttl now xs = filter (\<lambda>(_, created). now - created < ttl) xs"

definition can_queue :: "worker_entry \<Rightarrow> bool" where
  "can_queue en \<longleftrightarrow> ps_state (en_snapshot en) = Running \<and> \<not> en_stop en \<and> \<not> en_reaped en"

definition queue_notification :: "nat \<Rightarrow> desktop_notification \<Rightarrow> shared \<times> worker_entry
    \<Rightarrow> (shared \<times> worker_entry) \<times> bool" where
  "queue_notification now n = (\<lambda>(sh, en).
     if \<not> can_queue en then ((sh, en), False)
     else
       let st = en_notifications en;
           st = st\<lparr>ns_seen := keep NOTIFICATION_DEDUP_TTL now (ns_seen st),
             ns_pending := filter (\<lambda>q. now - qn_created q < NOTIFICATION_DELIVERY_TTL) (ns_pending st),
             ns_rate := refresh now (ns_rate st)\<rparr>
       in
       if dn_id n \<in> fst ` set (ns_seen st)
          \<or> NOTIFICATION_QUEUE_CAPACITY \<le> length (ns_pending st)
          \<or> NOTIFICATIONS_PER_WORKER_PER_MINUTE \<le> nr_count (ns_rate st)
       then ((sh, en\<lparr>en_notifications := st\<rparr>), False)
       else
         let global = refresh now (sh_rate sh) in
         if NOTIFICATIONS_GLOBAL_PER_MINUTE \<le> nr_count global
         then ((sh\<lparr>sh_rate := global\<rparr>, en\<lparr>en_notifications := st\<rparr>), False)
         else
           let seen = (if NOTIFICATION_SEEN_CAPACITY \<le> length (ns_seen st) then tl (ns_seen st) else ns_seen st)
           in ((sh\<lparr>sh_rate := global\<lparr>nr_count := nr_count global + 1\<rparr>\<rparr>,
                en\<lparr>en_notifications := \<lparr>
                  ns_pending = ns_pending st @ [\<lparr>qn_notification = n,
                    qn_generation = ps_generation (en_snapshot en), qn_created = now\<rparr>],
                  ns_seen = seen @ [(dn_id n, now)],
                  ns_rate = (ns_rate st)\<lparr>nr_count := nr_count (ns_rate st) + 1\<rparr>\<rparr>\<rparr>), True))"

text \<open>The identity a media request is admitted under; nothing when its preview URL is refused.\<close>

definition admission_camera :: "ext \<Rightarrow> http_video_grant \<Rightarrow> string \<Rightarrow> media_admission \<Rightarrow> media_camera_id option option" where
  "admission_camera X grant u admission =
     (case ma_cooldown_id admission of
        Some i \<Rightarrow> Some (Some (ExplicitCamera i))
      | None \<Rightarrow>
          if ma_live_preview admission then
            (case validate_preview_url X grant u of
               Inl _ \<Rightarrow> None
             | Inr source \<Rightarrow> Some (Some (HttpPreview (u_str (url_clear_fragment X (url_clear_query X source))))))
          else Some None)"

definition cooldown_key :: "media_camera_id option \<Rightarrow> string \<Rightarrow> media_cooldown_id" where
  "cooldown_key camera title = (case camera of Some c \<Rightarrow> Camera c | None \<Rightarrow> LegacyTitle title)"

definition refresh_videos :: "nat \<Rightarrow> http_video_grant \<Rightarrow> http_video_state \<Rightarrow> http_video_state" where
  "refresh_videos now grant st = st\<lparr>
     vs_pending := filter (\<lambda>q. now < delivery_deadline q) (vs_pending st),
     vs_seen := keep NOTIFICATION_DEDUP_TTL now (vs_seen st),
     vs_cooldowns := keep (seconds (cooldown grant)) now (vs_cooldowns st),
     vs_rate := refresh now (vs_rate st)\<rparr>"

definition video_refused :: "http_video_state \<Rightarrow> string \<Rightarrow> media_camera_id option \<Rightarrow> media_cooldown_id \<Rightarrow> bool" where
  "video_refused st i camera key \<longleftrightarrow>
     HTTP_VIDEO_QUEUE_CAPACITY \<le> length (vs_pending st)
     \<or> NOTIFICATION_SEEN_CAPACITY \<le> length (vs_seen st)
     \<or> i \<in> fst ` set (vs_seen st)
     \<or> key \<in> fst ` set (vs_cooldowns st)
     \<or> (camera \<noteq> None \<and> camera \<in> qv_camera_id ` set (vs_pending st))
     \<or> NOTIFICATIONS_PER_WORKER_PER_MINUTE \<le> nr_count (vs_rate st)"

definition queue_http_video :: "ext \<Rightarrow> nat \<Rightarrow> http_video_grant \<Rightarrow> string \<Rightarrow> string \<Rightarrow> string \<Rightarrow> media_admission
    \<Rightarrow> shared \<times> worker_entry \<Rightarrow> (shared \<times> worker_entry) \<times> bool" where
  "queue_http_video X now grant i u title admission = (\<lambda>(sh, en).
     case admission_camera X grant u admission of
       None \<Rightarrow> ((sh, en), False)
     | Some camera \<Rightarrow>
         if \<not> can_queue en then ((sh, en), False)
         else case en_lease en of
             None \<Rightarrow> ((sh, en), False)
           | Some lease \<Rightarrow>
             if \<not> lease_active sh lease then ((sh, en), False)
             else
               let st = refresh_videos now grant (en_videos en);
                   key = cooldown_key camera title
               in if video_refused st i camera key then ((sh, en\<lparr>en_videos := st\<rparr>), False)
                  else
                    ((sh, en\<lparr>en_videos := \<lparr>
                        vs_pending = vs_pending st @ [\<lparr>qv_created = now, qv_camera_id = camera,
                          qv_live_preview = ma_live_preview admission, qv_lease = lease, qv_grant = grant,
                          qv_id = i, qv_url = u, qv_title = title, qv_media_kind = ma_kind admission\<rparr>],
                        vs_seen = vs_seen st @ [(i, now)],
                        vs_cooldowns = vs_cooldowns st @ [(key, now)],
                        vs_rate = (vs_rate st)\<lparr>nr_count := nr_count (vs_rate st) + 1\<rparr>\<rparr>\<rparr>), True))"

section \<open>Replacing contributions\<close>

definition allocate_numeric :: "number_input_grant \<Rightarrow> shared \<Rightarrow> nat \<times> shared" where
  "allocate_numeric g sh = (sh_next_numeric sh, sh\<lparr>
     sh_numeric := (sh_numeric sh)(sh_next_numeric sh \<mapsto> \<lparr>nl_grant = g, nl_revoked = False\<rparr>),
     sh_next_numeric := sh_next_numeric sh + 1\<rparr>)"

text \<open>The loop over the grants of the new items; the old registry is emptied as its leases move or end.\<close>

fun numeric_loop :: "number_input_grant list \<Rightarrow> shared \<Rightarrow> (string \<times> nat) list \<Rightarrow> (string \<times> nat) list
    \<Rightarrow> shared \<times> (string \<times> nat) list \<times> (string \<times> nat) list" where
  "numeric_loop [] sh registry new = (sh, registry, new)"
| "numeric_loop (g # gs) sh registry new =
     (let previous = map_of registry (g_action_id g);
          registry = AList.delete (g_action_id g) registry
      in case previous of
          Some r \<Rightarrow>
            if map_option nl_grant (sh_numeric sh r) = Some g
            then numeric_loop gs sh registry (AList.update (g_action_id g) r new)
            else (case allocate_numeric g (revoke_numeric [r] sh) of
                (r', sh') \<Rightarrow> numeric_loop gs sh' registry (AList.update (g_action_id g) r' new))
        | None \<Rightarrow>
            (case allocate_numeric g sh of
                (r', sh') \<Rightarrow> numeric_loop gs sh' registry (AList.update (g_action_id g) r' new)))"

definition replace_contributions :: "dashboard_contribution list \<Rightarrow> presentation list
    \<Rightarrow> shared \<times> worker_entry \<Rightarrow> shared \<times> worker_entry" where
  "replace_contributions items views = (\<lambda>(sh, en).
     case numeric_loop (List.map_filter number_input_grant items) sh (en_numeric en) [] of
       (sh, registry, new) \<Rightarrow>
         (revoke_numeric (map snd registry) sh,
          en\<lparr>en_numeric := new,
             en_snapshot := (en_snapshot en)\<lparr>ps_contributions := items, ps_presentation := views\<rparr>\<rparr>))"

text \<open>\<^verbatim>\<open>advertises\<close> and \<^verbatim>\<open>current_numeric\<close>.\<close>

definition advertises :: "dashboard_contribution list \<Rightarrow> string \<Rightarrow> json \<Rightarrow> bool" where
  "advertises items action params = list_ex (\<lambda>c. case c of
       CAction _ _ _ a _ advertised \<Rightarrow> a = action \<and> advertised = params
     | _ \<Rightarrow> (case number_input_grant c of None \<Rightarrow> False | Some g \<Rightarrow> g_action_id g = action \<and> accepts g params)) items"

definition current_numeric :: "shared \<Rightarrow> (string \<times> nat) list \<Rightarrow> nat \<Rightarrow> json \<Rightarrow> bool" where
  "current_numeric sh registry r params = (case sh_numeric sh r of
       None \<Rightarrow> False
     | Some lease \<Rightarrow> map_of registry (g_action_id (nl_grant lease)) = Some r \<and> accepts (nl_grant lease) params)"

end
