(* ===== verification/Admission.thy ===== *)
theory Admission
  imports Entries
begin

text \<open>
  Admission of media requests. The queues of a worker entry remember what they admitted for a time to
  live; the locale \<open>remembering\<close> states that contract and proves, for any interleaving with operations
  that leave the memory alone, that two admissions under one key are a whole time to live apart. The
  identifier memory and the camera cooldown of \<open>queue_http_video\<close> both provide it.
\<close>

section \<open>The contract of a memory with a time to live\<close>

text \<open>What happens to a state: a request at an instant, or anything else.\<close>

datatype ('r, 's) event = Ask nat 'r | Elsewhere "'s \<Rightarrow> 's"

fun admitted :: "(nat \<Rightarrow> 'r \<Rightarrow> 's \<Rightarrow> 's \<times> bool) \<Rightarrow> ('r, 's) event list \<Rightarrow> 's \<Rightarrow> (nat \<times> 'r) list" where
  "admitted admit [] s = []"
| "admitted admit (Ask now r # es) s =
     (case admit now r s of (s', b) \<Rightarrow> (if b then [(now, r)] else []) @ admitted admit es s')"
| "admitted admit (Elsewhere f # es) s = admitted admit es (f s)"

text \<open>The clock never goes back.\<close>

fun monotone_from :: "nat \<Rightarrow> ('r, 's) event list \<Rightarrow> bool" where
  "monotone_from t [] = True"
| "monotone_from t (Ask now r # es) \<longleftrightarrow> t \<le> now \<and> monotone_from now es"
| "monotone_from t (Elsewhere f # es) = monotone_from t es"

lemma keep_member [simp]: "(k, t) \<in> set (keep ttl now xs) \<longleftrightarrow> (k, t) \<in> set xs \<and> now - t < ttl"
  by (auto simp: keep_def)

lemma keep_keys: "k \<in> fst ` set (keep ttl now xs) \<longleftrightarrow> (\<exists>t. (k, t) \<in> set xs \<and> now - t < ttl)"
  by (force simp: keep_def)

lemma keep_length: "length (keep ttl now xs) \<le> length xs"
  by (simp add: keep_def)

locale remembering =
  fixes admit :: "nat \<Rightarrow> 'r \<Rightarrow> 's \<Rightarrow> 's \<times> bool"
    and key :: "'r \<Rightarrow> 'k"
    and memory :: "'s \<Rightarrow> ('k \<times> nat) list"
    and ttl :: nat
  assumes admit_fresh: "admit now r s = (s', True) \<Longrightarrow> key r \<notin> fst ` set (keep ttl now (memory s))"
    and admit_records: "admit now r s = (s', True) \<Longrightarrow> (key r, now) \<in> set (memory s')"
    and admit_keeps: "admit now r s = (s', b) \<Longrightarrow> set (keep ttl now (memory s)) \<subseteq> set (memory s')"
begin

lemma remembered:
  assumes "monotone_from t es" "(k, t0) \<in> set (memory s)" "t0 \<le> t"
    "\<And>f s. Elsewhere f \<in> set es \<Longrightarrow> memory (f s) = memory s"
    "(now, r) \<in> set (admitted admit es s)" "key r = k"
  shows "t0 + ttl \<le> now"
  using assms
proof (induction es arbitrary: s t)
  case (Cons e es)
  show ?case
  proof (cases e)
    case (Ask time q)
    obtain s' b where step: "admit time q s = (s', b)" by (cases "admit time q s")
    show ?thesis
    proof (cases "time - t0 < ttl")
      case True
      then have kept: "(k, t0) \<in> set (keep ttl time (memory s))" using Cons.prems(2) by simp
      then have "(k, t0) \<in> set (memory s')" using admit_keeps [OF step] by blast
      moreover have "\<not> (b \<and> key q = k)" 
        using admit_fresh [of time q s s'] step image_eqI [of k fst, OF _ kept] by auto
      ultimately show ?thesis using Cons Ask step by (auto split: if_splits)
    next
      case False
      have "monotone_from time es" using Cons.prems(1) Ask by simp
      moreover have "time \<le> now" if "monotone_from time es" "(now, r) \<in> set (admitted admit es s')" for time s' es
        using that
      proof (induction es arbitrary: time s')
        case (Cons e es)
        then show ?case by (cases e) (force split: prod.splits if_splits)+
      qed simp
      ultimately have "time \<le> now" using Cons.prems(5) Ask step by (auto split: if_splits)
      then show ?thesis using False Cons.prems(1,3) Ask by auto
    qed
  next
    case (Elsewhere f)
    have "memory (f s) = memory s" using Cons.prems(4) Elsewhere by (meson list.set_intros(1))
    then show ?thesis using Cons.IH [of t "f s"] Cons.prems Elsewhere by auto
  qed
qed simp

theorem spaced:
  assumes "monotone_from t es" "\<And>f s. Elsewhere f \<in> set es \<Longrightarrow> memory (f s) = memory s"
    "i < j" "j < length (admitted admit es s)" "admitted admit es s ! i = (t1, r1)" "admitted admit es s ! j = (t2, r2)"
    "key r1 = key r2"
  shows "t1 + ttl \<le> t2"
  using assms
proof (induction es arbitrary: s t i j)
  case (Cons e es)
  show ?case
  proof (cases e)
    case (Ask time q)
    obtain s' b where step: "admit time q s = (s', b)" by (cases "admit time q s")
    have mono: "monotone_from time es" using Cons.prems(1) Ask by simp
    show ?thesis
    proof (cases "b \<and> i = 0")
      case True
      then have r1: "(t1, r1) = (time, q)" using Cons.prems(5) Ask step by simp
      have later: "j - 1 < length (admitted admit es s')" "admitted admit es s' ! (j - 1) = (t2, r2)"
        using Cons.prems(3,4,6) Ask step True by (auto simp: nth_Cons' split: if_splits)
      then have "(t2, r2) \<in> set (admitted admit es s')" by (metis nth_mem)
      with r1 show ?thesis using remembered [OF mono _ order_refl, of "key q" s' t2 r2] admit_records [of time q s s']
          Cons.prems(2,7) step True by auto
    next
      case False
      let ?o = "if b then 1 else 0"
      have "i - ?o < j - ?o" "j - ?o < length (admitted admit es s')"
        "admitted admit es s' ! (i - ?o) = (t1, r1)" "admitted admit es s' ! (j - ?o) = (t2, r2)"
        using Cons.prems(3-6) Ask step False by (auto simp: nth_Cons' split: if_splits)
      then show ?thesis using Cons.IH [OF mono] Cons.prems(2,7) by auto
    qed
  next
    case (Elsewhere f)
    then show ?thesis using Cons.IH [of t i j "f s"] Cons.prems by auto
  qed
qed simp

end

section \<open>The media queue provides it\<close>

type_synonym media_request = "http_video_grant \<times> string \<times> string \<times> string \<times> media_admission"

definition admit_video :: "ext \<Rightarrow> nat \<Rightarrow> media_request \<Rightarrow> shared \<times> worker_entry \<Rightarrow> (shared \<times> worker_entry) \<times> bool" where
  "admit_video X now = (\<lambda>(grant, i, u, title, admission). queue_http_video X now grant i u title admission)"

definition request_id :: "media_request \<Rightarrow> string" where
  "request_id = (\<lambda>(grant, i, u, title, admission). i)"

definition request_cooldown :: "media_request \<Rightarrow> nat" where
  "request_cooldown = (\<lambda>(grant, i, u, title, admission). seconds (cooldown grant))"

text \<open>The cooldown identity of a request, if it has one.\<close>

definition request_key :: "ext \<Rightarrow> media_request \<Rightarrow> media_cooldown_id option" where
  "request_key X = (\<lambda>(grant, i, u, title, admission).
     map_option (\<lambda>camera. cooldown_key camera title) (admission_camera X grant u admission))"

lemma queue_http_video_cases:
  obtains (unchanged) "queue_http_video X now grant i u title admission (sh, en) = ((sh, en), False)"
  | (refused) camera st where "admission_camera X grant u admission = Some camera"
      "st = refresh_videos now grant (en_videos en)"
      "video_refused st i camera (cooldown_key camera title)"
      "queue_http_video X now grant i u title admission (sh, en) = ((sh, en\<lparr>en_videos := st\<rparr>), False)"
  | (admitted) camera st lease where "admission_camera X grant u admission = Some camera"
      "can_queue en" "en_lease en = Some lease" "lease_active sh lease"
      "st = refresh_videos now grant (en_videos en)"
      "\<not> video_refused st i camera (cooldown_key camera title)"
      "queue_http_video X now grant i u title admission (sh, en) =
        ((sh, en\<lparr>en_videos := \<lparr>
            vs_pending = vs_pending st @ [\<lparr>qv_created = now, qv_camera_id = camera,
              qv_live_preview = ma_live_preview admission, qv_lease = lease, qv_grant = grant,
              qv_id = i, qv_url = u, qv_title = title, qv_media_kind = ma_kind admission\<rparr>],
            vs_seen = vs_seen st @ [(i, now)],
            vs_cooldowns = vs_cooldowns st @ [(cooldown_key camera title, now)],
            vs_rate = (vs_rate st)\<lparr>nr_count := nr_count (vs_rate st) + 1\<rparr>\<rparr>\<rparr>), True)"
proof (cases "admission_camera X grant u admission")
  case None
  then show ?thesis using unchanged by (simp add: queue_http_video_def)
next
  case (Some camera)
  show ?thesis
  proof (cases "can_queue en \<and> (\<exists>l. en_lease en = Some l \<and> lease_active sh l)")
    case False
    then show ?thesis using unchanged Some by (auto simp: queue_http_video_def split: option.splits)
  next
    case True
    then obtain lease where "can_queue en" "en_lease en = Some lease" "lease_active sh lease" by blast
    with Some refused [OF Some refl] admitted [OF Some _ _ _ refl] show ?thesis
      by (cases "video_refused (refresh_videos now grant (en_videos en)) i camera (cooldown_key camera title)")
        (simp_all add: queue_http_video_def Let_def)
  qed
qed

lemma refresh_videos_simps [simp]:
  "vs_seen (refresh_videos now g st) = keep NOTIFICATION_DEDUP_TTL now (vs_seen st)"
  "vs_cooldowns (refresh_videos now g st) = keep (seconds (cooldown g)) now (vs_cooldowns st)"
  "vs_pending (refresh_videos now g st) = filter (\<lambda>q. now < delivery_deadline q) (vs_pending st)"
  "vs_rate (refresh_videos now g st) = refresh now (vs_rate st)"
  by (simp_all add: refresh_videos_def)

interpretation ids: remembering "admit_video X" request_id "\<lambda>se. vs_seen (en_videos (snd se))" NOTIFICATION_DEDUP_TTL
  for X
proof
  fix now :: nat and r :: media_request and s s' :: "shared \<times> worker_entry" and b :: bool
  obtain grant i u title admission where r: "r = (grant, i, u, title, admission)" by (cases r) auto
  obtain sh en where s: "s = (sh, en)" by (cases s)
  show "admit_video X now r s = (s', True) \<Longrightarrow>
      request_id r \<notin> fst ` set (keep NOTIFICATION_DEDUP_TTL now (vs_seen (en_videos (snd s))))"
    "admit_video X now r s = (s', True) \<Longrightarrow> (request_id r, now) \<in> set (vs_seen (en_videos (snd s')))"
    "admit_video X now r s = (s', b) \<Longrightarrow>
      set (keep NOTIFICATION_DEDUP_TTL now (vs_seen (en_videos (snd s)))) \<subseteq> set (vs_seen (en_videos (snd s')))"
    using queue_http_video_cases [of X now grant i u title admission sh en]
    by (cases; auto simp: r s admit_video_def request_id_def video_refused_def; force simp: keep_def)+
qed

lemma admitted_cooldown:
  assumes "queue_http_video X now grant i u title admission (sh, en) = ((sh', en'), True)"
  shows "\<exists>camera. admission_camera X grant u admission = Some camera
     \<and> cooldown_key camera title \<notin> fst ` set (keep (seconds (cooldown grant)) now (vs_cooldowns (en_videos en)))
     \<and> (cooldown_key camera title, now) \<in> set (vs_cooldowns (en_videos en'))"
  using queue_http_video_cases [of X now grant i u title admission sh en]
proof cases
  case (admitted camera st lease)
  then show ?thesis using assms by (auto simp: video_refused_def)
qed (use assms in simp_all)

lemma kept_cooldown:
  assumes "queue_http_video X now grant i u title admission (sh, en) = ((sh', en'), b)"
  shows "set (keep (seconds (cooldown grant)) now (vs_cooldowns (en_videos en))) \<subseteq> set (vs_cooldowns (en_videos en'))"
  using queue_http_video_cases [of X now grant i u title admission sh en]
  by cases (use assms in \<open>auto simp: keep_def\<close>)

text \<open>Cooldowns are remembered for as long as the grant of the request at hand says.\<close>

definition admit_cooled :: "ext \<Rightarrow> nat \<Rightarrow> nat \<Rightarrow> media_request \<Rightarrow> shared \<times> worker_entry \<Rightarrow> (shared \<times> worker_entry) \<times> bool" where
  "admit_cooled X ttl now r s = (if request_cooldown r = ttl then admit_video X now r s else (s, False))"

interpretation cooled: remembering "admit_cooled X ttl" "request_key X"
  "\<lambda>se. map (\<lambda>(k, t). (Some k, t)) (vs_cooldowns (en_videos (snd se)))" ttl
  for X ttl
proof
  fix now :: nat and r :: media_request and s s' :: "shared \<times> worker_entry" and b :: bool
  obtain grant i u title admission where r: "r = (grant, i, u, title, admission)" by (cases r) auto
  obtain sh en where s: "s = (sh, en)" by (cases s)
  have k: "keep ttl now (map (\<lambda>(k, t). (Some k, t)) xs) = map (\<lambda>(k, t). (Some k, t)) (keep ttl now xs)"
    for xs :: "(media_cooldown_id \<times> nat) list" and ttl
    by (induction xs) (auto simp: keep_def)
  obtain sh' en' where s': "s' = (sh', en')" by (cases s')
  show "admit_cooled X ttl now r s = (s', True) \<Longrightarrow>
      request_key X r \<notin> fst ` set (keep ttl now (map (\<lambda>(k, t). (Some k, t)) (vs_cooldowns (en_videos (snd s)))))"
    unfolding k r s s'
    by (auto simp: admit_cooled_def admit_video_def request_cooldown_def request_key_def split: if_splits
        dest!: admitted_cooldown simp: keep_keys)
  show "admit_cooled X ttl now r s = (s', True) \<Longrightarrow>
      (request_key X r, now) \<in> set (map (\<lambda>(k, t). (Some k, t)) (vs_cooldowns (en_videos (snd s'))))"
    unfolding r s s'
    by (auto simp: admit_cooled_def admit_video_def request_cooldown_def request_key_def split: if_splits
        dest!: admitted_cooldown intro: image_eqI [rotated])
  show "admit_cooled X ttl now r s = (s', b) \<Longrightarrow>
      set (keep ttl now (map (\<lambda>(k, t). (Some k, t)) (vs_cooldowns (en_videos (snd s)))))
        \<subseteq> set (map (\<lambda>(k, t). (Some k, t)) (vs_cooldowns (en_videos (snd s'))))"
    unfolding k r s s'
    by (auto simp: admit_cooled_def admit_video_def request_cooldown_def split: if_splits
        dest!: kept_cooldown)
qed

section \<open>Spacing of admissions\<close>

text \<open>
  However requests interleave with anything that leaves the memory alone, one queue admits one identifier at
  most once in ten minutes. What the host does to a queue is followed in \<open>HostMedia\<close>.
\<close>

theorem media_ids_spaced:
  assumes "monotone_from t es"
    and "\<And>f s. Elsewhere f \<in> set es \<Longrightarrow> vs_seen (en_videos (snd (f s))) = vs_seen (en_videos (snd s))"
    and "i < j" and "j < length (admitted (admit_video X) es s)"
    and "admitted (admit_video X) es s ! i = (t1, r1)" and "admitted (admit_video X) es s ! j = (t2, r2)"
    and "request_id r1 = request_id r2"
  shows "t1 + seconds 600 \<le> t2"
  using ids.spaced [of t es i j X s t1 r1 t2 r2] assms by (simp add: NOTIFICATION_DEDUP_TTL_def)

text \<open>
  Requests under one cooldown are admitted at least that cooldown apart for one camera, and for
  one title where the request names no camera.
\<close>

theorem camera_cooldown_spaced:
  assumes "monotone_from t es"
    and "\<And>f s. Elsewhere f \<in> set es \<Longrightarrow> vs_cooldowns (en_videos (snd (f s))) = vs_cooldowns (en_videos (snd s))"
    and "i < j" and "j < length (admitted (admit_cooled X ttl) es s)"
    and "admitted (admit_cooled X ttl) es s ! i = (t1, r1)" and "admitted (admit_cooled X ttl) es s ! j = (t2, r2)"
    and "request_key X r1 = request_key X r2"
  shows "t1 + ttl \<le> t2"
  using cooled.spaced [of t es i j X ttl s t1 r1 t2 r2] assms by simp

definition sample_entry :: worker_entry where
  "sample_entry = \<lparr>
     en_snapshot = \<lparr>ps_plugin_id = ''com.example'', ps_state = Running, ps_generation = 1, ps_instance_id = Some ''i'',
       ps_restart_count = 0, ps_contributions = [], ps_presentation = [], ps_last_error = None\<rparr>,
     en_numeric = [], en_stop = False, en_epoch = 0, en_done = False, en_reaped = False,
     en_notifications = new_notifications 0, en_lease = Some ''i'', en_videos = new_videos 0,
     en_choices = empty_catalog\<rparr>"

definition sample_shared :: shared where
  "sample_shared = new_lease ''i'' ''com.example'' 0 1
     \<lparr>sh_authority = \<lparr>au_enabled = True, au_epoch = 0\<rparr>, sh_stopped = False, sh_leases = (\<lambda>_. None),
      sh_numeric = (\<lambda>_. None), sh_next_numeric = 0, sh_rate = \<lparr>nr_window = 0, nr_count = 0\<rparr>,
      sh_next_request = 1, sh_changed = 0\<rparr>"

definition sample_url_record :: url where
  "sample_url_record = \<lparr>u_str = ''https://m.invalid/'', u_scheme = ''https'', u_host = Some ''m.invalid'', u_username = [],
     u_password = None, u_origin = ''https://m.invalid'', u_path = ''/'', u_query = None, u_fragment = None\<rparr>"

definition sample_video_grant :: "16 word \<Rightarrow> http_video_grant" where
  "sample_video_grant n = \<lparr>vg_base = sample_url_record, vg_live_preview = None, vg_exact_preview = None,
     vg_bearer_token = None, vg_cooldown_seconds = n, vg_allow_query = False\<rparr>"

definition sample_request :: "16 word \<Rightarrow> string \<Rightarrow> string \<Rightarrow> media_request" where
  "sample_request n i camera = (sample_video_grant n, i, ''https://m.invalid/clip'', ''Door'',
     \<lparr>ma_kind = Video, ma_cooldown_id = Some camera, ma_live_preview = False\<rparr>)"

definition sample_events :: "(media_request, shared \<times> worker_entry) event list" where
  "sample_events = [Ask 0 (sample_request 30 ''a'' ''front''), Ask (seconds 10) (sample_request 30 ''b'' ''front''),
     Ask (seconds 700) (sample_request 30 ''a'' ''front'')]"

lemma sample_admissions:
  "admitted (admit_video sample_ext) sample_events (sample_shared, sample_entry) =
     [(0, sample_request 30 ''a'' ''front''), (seconds 700, sample_request 30 ''a'' ''front'')]"
  by code_simp

lemma sample_cooled:
  "admitted (admit_cooled sample_ext (seconds 30)) sample_events (sample_shared, sample_entry) =
     [(0, sample_request 30 ''a'' ''front''), (seconds 700, sample_request 30 ''a'' ''front'')]"
  by code_simp

text \<open>
  The cooldowns of one registration are pruned by the grant of the request at hand: whatever the outcome of a
  request that reaches the queue, a camera whose admissions are all at least its cooldown old is forgotten, even if
  the camera's own grant asks for a longer pause, and no later request of the camera is refused for it.
\<close>

lemma cooldown_forgotten:
  assumes "admission_camera X grant u admission = Some camera" and "can_queue en" "en_lease en = Some l" "lease_active sh l"
    and "queue_http_video X now grant i u title admission (sh, en) = ((sh', en'), b)"
    and "other \<noteq> cooldown_key camera title"
    and "\<And>t. (other, t) \<in> set (vs_cooldowns (en_videos en)) \<Longrightarrow> t + seconds (cooldown grant) \<le> now"
  shows "other \<notin> fst ` set (vs_cooldowns (refresh_videos later grant' (en_videos en')))"
proof -
  have "other \<notin> fst ` set (keep (seconds (cooldown grant)) now (vs_cooldowns (en_videos en)))"
    using assms(7) by (fastforce simp: keep_def)
  moreover have "set (vs_cooldowns (en_videos en')) \<subseteq> insert (cooldown_key camera title, now)
      (set (keep (seconds (cooldown grant)) now (vs_cooldowns (en_videos en))))"
    using assms(1-5) by (auto simp: queue_http_video_def refresh_videos_def Let_def split: if_split_asm)
  ultimately have "other \<notin> fst ` set (vs_cooldowns (en_videos en'))" using assms(6) by auto
  then show ?thesis by (auto simp: keep_def image_iff)
qed

text \<open>
  After a request under a 15 second cooldown, even for another camera, a camera whose own grant asks for 300
  seconds is admitted again; without that request it is refused.
\<close>

lemma cooldown_forgotten_sample:
  "map fst (admitted (admit_video sample_ext)
     [Ask 0 (sample_request 300 ''a'' ''front''), Ask (seconds 20) (sample_request 15 ''b'' ''back''),
      Ask (seconds 31) (sample_request 300 ''c'' ''front'')] (sample_shared, sample_entry))
   = [0, seconds 20, seconds 31]
   \<and> map fst (admitted (admit_video sample_ext)
     [Ask 0 (sample_request 300 ''a'' ''front''), Ask (seconds 31) (sample_request 300 ''c'' ''front'')]
     (sample_shared, sample_entry)) = [0]"
  by code_simp

end
