(* ===== verification/Framing.thy ===== *)
theory Framing
  imports Prelude
begin

text \<open>
  Newline-delimited frames read from a buffered pipe. A reader is the list of the buffers its
  next \<^verbatim>\<open>fill_buf\<close> calls return (\<open>None\<close> is an I/O error, an empty buffer or no more buffers is end
  of file). Both ends of the pipe, the worker (\<^verbatim>\<open>worker-protocol/src/lib.rs\<close>) and the host
  (\<^verbatim>\<open>plugins/runtime.rs\<close>), run the same loop over it with their own errors; the locale states
  the loop's contract and proves once that how the bytes are split into buffers is irrelevant.
\<close>

type_synonym buffers = "string option list"

abbreviation newline :: char where "newline \<equiv> CHR 0x0A"
abbreviation carriage_return :: char where "carriage_return \<equiv> CHR 0x0D"

text \<open>\<^verbatim>\<open>chunk.iter().position(|byte| *byte == b'\n')\<close>\<close>

fun position :: "('a \<Rightarrow> bool) \<Rightarrow> 'a list \<Rightarrow> nat option" where
  "position p [] = None"
| "position p (x # xs) = (if p x then Some 0 else map_option Suc (position p xs))"

text \<open>\<^verbatim>\<open>reader.consume(n)\<close> on the buffer at the front.\<close>

definition consume :: "nat \<Rightarrow> string \<Rightarrow> buffers \<Rightarrow> buffers" where
  "consume n b bs = (if n < length b then Some (drop n b) # bs else bs)"

definition flat :: "buffers \<Rightarrow> string" where
  "flat bs = concat (map (\<lambda>b. case b of None \<Rightarrow> [] | Some s \<Rightarrow> s) bs)"

text \<open>A stream with no I/O error and no premature empty buffer.\<close>

definition live :: "buffers \<Rightarrow> bool" where
  "live bs \<longleftrightarrow> list_all (\<lambda>b. b \<noteq> None \<and> b \<noteq> Some []) bs"

text \<open>The first line of a byte sequence, with its newline, and what follows it.\<close>

definition first_line :: "string \<Rightarrow> (string \<times> string) option" where
  "first_line s = map_option (\<lambda>i. (take (Suc i) s, drop (Suc i) s)) (position (\<lambda>c. c = newline) s)"

lemma position_None: "position p xs = None \<longleftrightarrow> (\<forall>x \<in> set xs. \<not> p x)"
  by (induction xs) auto

lemma position_Some: "position p xs = Some i \<Longrightarrow>
   i < length xs \<and> p (xs ! i) \<and> (\<forall>x \<in> set (take i xs). \<not> p x)"
proof (induction xs arbitrary: i)
  case (Cons x xs)
  then show ?case by (cases i) (auto split: if_splits)
qed simp

lemma position_append:
  "position p (xs @ ys) = (case position p xs of
     Some i \<Rightarrow> Some i | None \<Rightarrow> map_option (\<lambda>i. length xs + i) (position p ys))"
  by (induction xs) (cases "position p ys"; auto split: option.splits)+

lemma flat_simps [simp]:
  "flat [] = []" "flat (Some s # bs) = s @ flat bs" "flat (None # bs) = flat bs"
  by (simp_all add: flat_def)

lemma live_simps [simp]:
  "live []" "live (Some s # bs) \<longleftrightarrow> s \<noteq> [] \<and> live bs" "\<not> live (None # bs)"
  by (simp_all add: live_def)

lemma flat_consume: "n \<le> length b \<Longrightarrow> flat (consume n b bs) = drop n b @ flat bs"
  by (simp add: consume_def)

lemma live_consume: "live bs \<Longrightarrow> live (consume n b bs)"
  by (simp add: consume_def)

lemma first_line_None: "first_line s = None \<longleftrightarrow> newline \<notin> set s"
  by (auto simp: first_line_def position_None)

lemma first_line_Some: "first_line s = Some (l, r) \<Longrightarrow>
   s = l @ r \<and> l \<noteq> [] \<and> last l = newline \<and> newline \<notin> set (butlast l)"
proof -
  assume "first_line s = Some (l, r)"
  then obtain i where i: "position (\<lambda>c. c = newline) s = Some i"
    and l: "l = take (Suc i) s" and r: "r = drop (Suc i) s"
    by (auto simp: first_line_def)
  from position_Some [OF i] have "i < length s" "s ! i = newline" "newline \<notin> set (take i s)" by auto
  then have "take (Suc i) s = take i s @ [newline]" by (simp add: take_Suc_conv_app_nth)
  then show ?thesis using l r \<open>newline \<notin> set (take i s)\<close>
    by simp (metis append.assoc append_Cons append_Nil append_take_drop_id)
qed

lemma first_line_append:
  assumes "newline \<notin> set xs"
  shows "first_line (xs @ ys) = map_option (\<lambda>(l, r). (xs @ l, r)) (first_line ys)"
proof -
  have "position (\<lambda>c. c = newline) xs = None" using assms by (auto simp: position_None)
  then show ?thesis
    by (simp add: first_line_def position_append option.map_comp comp_def)
qed

lemma first_line_nonempty_rest: "first_line s = Some (l, r) \<Longrightarrow> length r < length s"
  using first_line_Some [of s l r] by (cases l) auto

text \<open>
  The contract of the read loop: at end of file \<open>eof\<close> decides on what has been gathered; a buffer
  is taken up to its first newline, refused if the frame would outgrow \<open>limit\<close>.
\<close>

locale frame_reader =
  fixes gather :: "string \<Rightarrow> buffers \<Rightarrow> string + (string option \<times> buffers)"
    and limit :: nat
    and eof :: "string \<Rightarrow> string + string option"
    and too_large io_error :: string
  assumes gather_end: "gather f [] = map_sum id (\<lambda>l. (l, [])) (eof f)"
    and gather_error: "gather f (None # bs) = Err io_error"
    and gather_empty: "gather f (Some [] # bs) = map_sum id (\<lambda>l. (l, Some [] # bs)) (eof f)"
    and gather_buffer: "b \<noteq> [] \<Longrightarrow> gather f (Some b # bs) =
      (let i = position (\<lambda>c. c = newline) b;
           n = (case i of None \<Rightarrow> length b | Some j \<Rightarrow> j + 1)
       in if limit < length f + n then Err too_large
          else if i = None then gather (f @ take n b) (consume n b bs)
          else Ok (Some (f @ take n b), consume n b bs))"
begin

text \<open>The frame a byte sequence yields, independent of buffering.\<close>

definition frame_of :: "string \<Rightarrow> string + (string option \<times> string)" where
  "frame_of s = (case first_line s of
     Some (l, r) \<Rightarrow> if limit < length l then Err too_large else Ok (Some l, r)
   | None \<Rightarrow> if limit < length s then Err too_large else map_sum id (\<lambda>l. (l, [])) (eof s))"

lemma gather_flat:
  assumes "live bs" "newline \<notin> set f" "length f \<le> limit"
  shows "map_sum id (map_prod id flat) (gather f bs) = frame_of (f @ flat bs)"
  using assms
proof (induction bs arbitrary: f)
  case Nil
  moreover have "first_line f = None" using Nil by (simp add: first_line_None)
  ultimately show ?case by (cases "eof f") (simp_all add: gather_end frame_of_def)
next
  case (Cons x bs)
  then obtain b where x: "x = Some b" and b: "b \<noteq> []" and bs: "live bs" by (cases x) auto
  show ?case
  proof (cases "position (\<lambda>c. c = newline) b")
    case None
    then have nb: "newline \<notin> set b" by (auto simp: position_None)
    have step: "gather f (x # bs) =
      (if limit < length f + length b then Err too_large else gather (f @ b) bs)"
      using None b by (simp add: x gather_buffer consume_def)
    show ?thesis
    proof (cases "limit < length f + length b")
      case True
      have "first_line (f @ b @ flat bs) = map_option (\<lambda>(l, r). (f @ b @ l, r)) (first_line (flat bs))"
        using nb Cons.prems first_line_append [of "f @ b" "flat bs"] by simp
      then have "frame_of (f @ b @ flat bs) = Err too_large"
        using True by (auto simp: frame_of_def split: option.splits)
      then show ?thesis using step True x by simp
    next
      case False
      then have "map_sum id (map_prod id flat) (gather (f @ b) bs) = frame_of ((f @ b) @ flat bs)"
        using nb bs Cons.prems by (intro Cons.IH) auto
      then show ?thesis using step False x by (simp add: id_def)
    qed
  next
    case (Some i)
    from position_Some [OF this] have i: "i < length b" by simp
    have line: "first_line b = Some (take (Suc i) b, drop (Suc i) b)"
      by (simp add: first_line_def Some)
    have "first_line (b @ flat bs) = Some (take (Suc i) b, drop (Suc i) b @ flat bs)"
      using Some i by (simp add: first_line_def position_append)
    then have "first_line (f @ b @ flat bs) = Some (f @ take (Suc i) b, drop (Suc i) b @ flat bs)"
      using Cons.prems first_line_append [of f "b @ flat bs"] by simp
    then have "frame_of (f @ b @ flat bs) =
      (if limit < length f + Suc i then Err too_large
       else Ok (Some (f @ take (Suc i) b), drop (Suc i) b @ flat bs))"
      using i by (simp add: frame_of_def min_def)
    moreover have "gather f (x # bs) = (if limit < length f + Suc i then Err too_large
       else Ok (Some (f @ take (Suc i) b), consume (Suc i) b bs))"
      using Some b x by (simp add: gather_buffer)
    ultimately show ?thesis using i x by (simp add: flat_consume)
  qed
qed

corollary gather_chunking:
  assumes "live bs" "live cs" "flat bs = flat cs"
  shows "map_sum id (map_prod id flat) (gather [] bs) = map_sum id (map_prod id flat) (gather [] cs)"
  using assms by (simp add: gather_flat)

lemma gather_shrinks:
  assumes "gather f bs = Ok (Some l, rest)" "\<And>s t. eof s \<noteq> Ok (Some t)"
  shows "length (flat rest) < length (flat bs)"
  using assms(1)
proof (induction bs arbitrary: f)
  case Nil
  then show ?case using assms(2) by (cases "eof f") (auto simp: gather_end)
next
  case (Cons x bs)
  consider "x = None" | "x = Some []" | b where "x = Some b" "b \<noteq> []" by (cases x) auto
  then show ?case
  proof cases
    case 1
    then show ?thesis using Cons.prems by (simp add: gather_error)
  next
    case 2
    then show ?thesis using Cons.prems assms(2) by (cases "eof f") (auto simp: gather_empty)
  next
    case 3
    show ?thesis
    proof (cases "position (\<lambda>c. c = newline) b")
      case None
      then have "gather (f @ b) bs = Ok (Some l, rest)"
        using Cons.prems 3 by (auto simp: gather_buffer consume_def Let_def split: if_splits)
      from Cons.IH [OF this] show ?thesis using 3 by simp
    next
      case (Some i)
      from position_Some [OF this] have "i < length b" by simp
      moreover have "rest = consume (Suc i) b bs"
        using Cons.prems 3 Some by (auto simp: gather_buffer Let_def split: if_splits)
      ultimately show ?thesis using 3 by (simp add: flat_consume)
    qed
  qed
qed

end

end
