(* ===== verification/Pipes.thy ===== *)
theory Pipes
  imports Admission Framing
begin

text \<open>
  The host's end of a worker's pipes, \<^verbatim>\<open>runtime.rs\<close>: the bounded channel into the writer task, the
  writer itself and the reader of worker frames.

  The writer awaits several things at once. What it observes is a script: the state it sees when it takes
  a message, the events its \<^verbatim>\<open>select!\<close> resolves to until the first byte is accepted (a poll of the pipe
  carries the state seen under the authority guard and the pipe's answer), and how writing the rest ends.
  A script is arbitrary, so what is proved holds for every interleaving with the rest of the host.
\<close>

definition CONTROL_QUEUE_CAPACITY :: nat where "CONTROL_QUEUE_CAPACITY = 32"
definition PIPE_QUEUE_CAPACITY :: nat where "PIPE_QUEUE_CAPACITY = 16"

section \<open>The channel into the writer\<close>

text \<open>
  \<^verbatim>\<open>Outgoing\<close>. The guard of a numeric action is its lease; the registry it is checked against is the
  entry's and the sender of rejections is the pipes' own.
\<close>

datatype outgoing =
    OControl string
  | OConfiguration string nat \<comment> \<open>encoded, deadline\<close>
  | OAction string string json "nat option" nat \<comment> \<open>request id, action id, params, numeric lease, deadline\<close>

text \<open>\<^verbatim>\<open>WorkerPipes\<close>: the messages waiting for the writer, and whether it still receives.\<close>

record pipes =
  pw_writer :: "outgoing list"
  pw_open :: bool

definition new_pipes :: pipes where "new_pipes = \<lparr>pw_writer = [], pw_open = True\<rparr>"

definition pipe_send :: "outgoing \<Rightarrow> pipes \<Rightarrow> pipes option" where
  "pipe_send msg p = (if pw_open p \<and> length (pw_writer p) < PIPE_QUEUE_CAPACITY
     then Some (p\<lparr>pw_writer := pw_writer p @ [msg]\<rparr>) else None)"

fun is_configuration :: "host_message \<Rightarrow> bool" where
  "is_configuration (Configuration _) = True" | "is_configuration _ = False"

definition pipes_send :: "ext \<Rightarrow> host_message \<Rightarrow> pipes \<Rightarrow> pipes res" where
  "pipes_send X msg p =
     (if is_configuration msg then Err ''configuration_requires_authorized_writer''
      else rbind (map_err (\<lambda>_. ''host_frame_invalid'') (encode_host_frame X msg)) (\<lambda>bytes.
        ok_or ''worker_write_queue_full'' (pipe_send (OControl bytes) p)))"

definition pipes_configure :: "ext \<Rightarrow> worker_configuration \<Rightarrow> nat \<Rightarrow> pipes \<Rightarrow> pipes res" where
  "pipes_configure X configuration deadline p =
     rbind (map_err (\<lambda>_. ''host_configuration_invalid'') (encode_host_frame X (Configuration configuration))) (\<lambda>encoded.
       ok_or ''worker_write_queue_full'' (pipe_send (OConfiguration encoded deadline) p))"

section \<open>The writer\<close>

text \<open>What a task sees of the host at an instant, the request's cancellation flag included.\<close>

record view =
  vw_shared :: shared
  vw_entry :: worker_entry
  vw_cancelled :: bool
  vw_now :: nat

definition view_authorized :: "view \<Rightarrow> bool" where
  "view_authorized v \<longleftrightarrow> authorized (vw_shared v) (vw_entry v)"

datatype poll_answer = Blocked | Accepted nat | Broken

datatype first_write =
    FWaiting
  | FReturn "unit res" \<comment> \<open>the writer ends\<close>
  | FRejected
  | FExpired
  | FStarted string nat \<comment> \<open>the encoded frame and how much of it the pipe took\<close>

definition as_millis :: "nat \<Rightarrow> nat" where "as_millis d = d div 1000000"

text \<open>The closure polled until the first byte is accepted, for plain and numeric actions.\<close>

definition poll_action :: "ext \<Rightarrow> string \<Rightarrow> string \<Rightarrow> json \<Rightarrow> nat option \<Rightarrow> nat \<Rightarrow> view \<Rightarrow> poll_answer \<Rightarrow> first_write" where
  "poll_action X rid aid params numeric deadline v answer =
     (if \<not> view_authorized v \<or> en_stop (vw_entry v) \<or> vw_cancelled v
      then FReturn (Err ''worker_write_cancelled'')
      else if (case numeric of None \<Rightarrow> False
               | Some r \<Rightarrow> \<not> current_numeric (vw_shared v) (en_numeric (vw_entry v)) r params)
      then FRejected
      else
        let remaining = as_millis (deadline - vw_now v)
        in if remaining = 0 then FExpired
           else case encode_host_frame X (Action rid aid params (of_nat remaining)) of
               Err _ \<Rightarrow> FReturn (Err ''host_frame_invalid'')
             | Ok encoded \<Rightarrow> (case answer of
                   Broken \<Rightarrow> FReturn (Err ''worker_write_failed'')
                 | Accepted n \<Rightarrow> if n = 0 then FReturn (Err ''worker_write_failed'') else FStarted encoded n
                 | Blocked \<Rightarrow> FWaiting))"

text \<open>What the \<^verbatim>\<open>select!\<close> around that closure resolves to, in the order it happens.\<close>

datatype first_event = EStop | ECancel | EDeadline | ERevoked | EPoll view poll_answer

fun await_first :: "ext \<Rightarrow> string \<Rightarrow> string \<Rightarrow> json \<Rightarrow> nat option \<Rightarrow> nat \<Rightarrow> first_event list \<Rightarrow> first_write" where
  "await_first X rid aid ps num dl [] = FWaiting"
| "await_first X rid aid ps num dl (EStop # es) = FReturn (Ok ())"
| "await_first X rid aid ps num dl (ECancel # es) = FReturn (Err ''worker_write_cancelled'')"
| "await_first X rid aid ps num dl (EDeadline # es) = FReturn (Err ''worker_write_timeout'')"
| "await_first X rid aid ps num dl (ERevoked # es) =
     (if num = None then await_first X rid aid ps num dl es else FRejected)"
| "await_first X rid aid ps num dl (EPoll v answer # es) =
     (case poll_action X rid aid ps num dl v answer of
        FWaiting \<Rightarrow> await_first X rid aid ps num dl es
      | result \<Rightarrow> result)"

text \<open>
  How writing the rest of a frame ends: which arm of the \<^verbatim>\<open>select!\<close> resolves, and how many bytes the pipe
  took by then. The task can also be aborted, when the generation's pipes are dropped.
\<close>

datatype rest_end = RDone | RStop nat | RCancel nat | RDeadline nat | RBroken nat | RAborted nat

datatype status = Continues | Ended "unit res" | Aborted

record script =
  sc_view :: view \<comment> \<open>seen when the message is taken from the channel\<close>
  sc_first :: "first_event list"
  sc_rest :: rest_end
  sc_room :: bool \<comment> \<open>room in the channel of rejections\<close>

text \<open>\<^verbatim>\<open>write_all\<close> under \<^verbatim>\<open>select!\<close>, with the errors of its cancellation arm, if it has one, and its deadline.\<close>

fun write_rest :: "string option \<Rightarrow> string \<Rightarrow> string \<Rightarrow> rest_end \<Rightarrow> string \<times> status" where
  "write_rest cancelled expired bytes RDone = (bytes, Continues)"
| "write_rest cancelled expired bytes (RStop n) = (take n bytes, Ended (Ok ()))"
| "write_rest cancelled expired bytes (RCancel n) =
     (case cancelled of None \<Rightarrow> (bytes, Continues) | Some code \<Rightarrow> (take n bytes, Ended (Err code)))"
| "write_rest cancelled expired bytes (RDeadline n) = (take n bytes, Ended (Err expired))"
| "write_rest cancelled expired bytes (RBroken n) = (take n bytes, Ended (Err ''worker_write_failed''))"
| "write_rest cancelled expired bytes (RAborted n) = (take n bytes, Aborted)"

text \<open>One message: the bytes written, the request rejected if any, and whether the writer goes on.\<close>

fun write_message :: "ext \<Rightarrow> outgoing \<Rightarrow> script \<Rightarrow> string \<times> string list \<times> status" where
  "write_message X (OConfiguration encoded deadline) sc =
     (if \<not> view_authorized (sc_view sc) \<or> en_stop (vw_entry (sc_view sc)) then ([], [], Ended (Ok ()))
      else if deadline \<le> vw_now (sc_view sc) then ([], [], Ended (Err ''worker_configuration_timeout''))
      else (case write_rest None ''worker_configuration_timeout'' encoded (sc_rest sc) of
          (bytes, status) \<Rightarrow> (bytes, [], status)))"
| "write_message X (OControl encoded) sc =
     (case write_rest None ''worker_write_timeout'' encoded (sc_rest sc) of (bytes, status) \<Rightarrow> (bytes, [], status))"
| "write_message X (OAction rid aid params numeric deadline) sc =
     (if \<not> view_authorized (sc_view sc) \<or> en_stop (vw_entry (sc_view sc)) \<or> vw_cancelled (sc_view sc)
         \<or> deadline \<le> vw_now (sc_view sc)
      then ([], [], Continues)
      else case await_first X rid aid params numeric deadline (sc_first sc) of
          FWaiting \<Rightarrow> ([], [], Aborted)
        | FReturn result \<Rightarrow> ([], [], Ended result)
        | FRejected \<Rightarrow> if sc_room sc then ([], [rid], Continues) else ([], [], Ended (Err ''worker_write_queue_full''))
        | FExpired \<Rightarrow> ([], [], Continues)
        | FStarted encoded n \<Rightarrow>
            (case write_rest (Some ''worker_write_cancelled'') ''worker_write_timeout'' (drop n encoded) (sc_rest sc) of
               (bytes, status) \<Rightarrow> (take n encoded @ bytes, [], status)))"

text \<open>
  \<^verbatim>\<open>write_frames\<close>: between messages the stop signal comes first; it is answered with a shutdown frame, of
  which the pipe may take only a part within its 20 ms.
\<close>

datatype loop_event = HeadStop nat | HeadClosed | Taken outgoing script

fun write_frames_host :: "ext \<Rightarrow> loop_event list \<Rightarrow> string \<times> string list \<times> status" where
  "write_frames_host X [] = ([], [], Aborted)"
| "write_frames_host X (HeadClosed # es) = ([], [], Ended (Ok ()))"
| "write_frames_host X (HeadStop n # es) =
     (case encode_host_frame X Shutdown of
        Err _ \<Rightarrow> ([], [], Ended (Err ''host_frame_invalid''))
      | Ok bytes \<Rightarrow> (take n bytes, [], Ended (Ok ())))"
| "write_frames_host X (Taken msg sc # es) =
     (case write_message X msg sc of
        (bytes, rejected, Continues) \<Rightarrow>
          (case write_frames_host X es of (tail, later, status) \<Rightarrow> (bytes @ tail, rejected @ later, status))
      | result \<Rightarrow> result)"

section \<open>The reader\<close>

definition host_eof :: "string \<Rightarrow> string option res" where
  "host_eof frame = Err ''worker_eof''"

function host_gather :: "string \<Rightarrow> buffers \<Rightarrow> (string option \<times> buffers) res" where
  "host_gather frame [] = map_sum id (\<lambda>l. (l, [])) (host_eof frame)"
| "host_gather frame (None # bs) = Err ''worker_read_failed''"
| "host_gather frame (Some buffer # bs) =
     (if buffer = [] then map_sum id (\<lambda>l. (l, Some [] # bs)) (host_eof frame)
      else
        (let newline_at = position (\<lambda>c. c = newline) buffer;
             count = (case newline_at of None \<Rightarrow> length buffer | Some i \<Rightarrow> i + 1)
         in if HOST_MAX_FRAME_BYTES < length frame + count then Err ''worker_frame_too_large''
            else if newline_at = None then host_gather (frame @ take count buffer) (consume count buffer bs)
            else Ok (Some (frame @ take count buffer), consume count buffer bs)))"
  by pat_completeness auto
termination by (relation "measure (\<lambda>(frame, bs). length bs)") (auto simp: consume_def)

declare host_gather.simps(3) [simp del]

definition read_worker_frame :: "ext \<Rightarrow> buffers \<Rightarrow> (worker_message \<times> buffers) res" where
  "read_worker_frame X bs =
     rbind (host_gather [] bs) (\<lambda>(line, rest). case line of
         None \<Rightarrow> Err ''worker_eof''
       | Some frame \<Rightarrow> rbind (map_err (\<lambda>_. ''worker_frame_invalid'') (parse_worker_frame X frame)) (\<lambda>m. Ok (m, rest)))"

text \<open>\<^verbatim>\<open>read_task\<close>: every result goes to the supervisor; the first error is the last one.\<close>

lemma host_eof_no_frame: "host_eof s \<noteq> Ok (Some t)"
  by (simp add: host_eof_def)

interpretation hf: frame_reader host_gather HOST_MAX_FRAME_BYTES host_eof
  "''worker_frame_too_large''" "''worker_read_failed''"
  by unfold_locales (auto simp: host_gather.simps(3) Let_def)

lemma read_worker_frame_shrinks: "read_worker_frame X bs = Ok (m, rest) \<Longrightarrow> length (flat rest) < length (flat bs)"
  using hf.gather_shrinks [of "[]" bs _ rest] host_eof_no_frame
  by (auto simp: read_worker_frame_def result_simps split: option.splits)

function read_task :: "ext \<Rightarrow> buffers \<Rightarrow> worker_message res list" where
  "read_task X bs =
     (case read_worker_frame X bs of
        Err e \<Rightarrow> [Err e]
      | Ok (m, rest) \<Rightarrow> Ok m # read_task X rest)"
  by pat_completeness auto
termination
  by (relation "measure (\<lambda>(X, bs). length (flat bs))") (auto dest: read_worker_frame_shrinks)

declare read_task.simps [simp del]

section \<open>What reaches the pipe\<close>

text \<open>The frames a message can put on the pipe: one for a control or configuration, one per remaining time for an action.\<close>

fun frames_of :: "ext \<Rightarrow> outgoing \<Rightarrow> string set" where
  "frames_of X (OControl encoded) = {encoded}"
| "frames_of X (OConfiguration encoded deadline) = {encoded}"
| "frames_of X (OAction rid aid ps numeric deadline) =
     {f. \<exists>remaining. encode_host_frame X (Action rid aid ps remaining) = Ok f}"

fun event_frames :: "ext \<Rightarrow> loop_event \<Rightarrow> string set" where
  "event_frames X (HeadStop n) = {f. encode_host_frame X Shutdown = Ok f}"
| "event_frames X HeadClosed = {}"
| "event_frames X (Taken msg sc) = frames_of X msg"

text \<open>Before the poll that writes, the pipe blocked at every poll, and only a plain action survives a revoked lease.\<close>

definition waited :: "nat option \<Rightarrow> first_event \<Rightarrow> bool" where
  "waited numeric e \<longleftrightarrow> (\<exists>w. e = EPoll w Blocked) \<or> e = ERevoked \<and> numeric = None"

lemma poll_action_waiting: "poll_action X rid aid ps numeric deadline v answer = FWaiting \<Longrightarrow> answer = Blocked"
  by (auto simp: poll_action_def Let_def split: if_split_asm option.split_asm sum.split_asm poll_answer.split_asm)

lemma await_first_started:
  assumes "await_first X rid aid ps numeric deadline es = FStarted encoded n"
  shows "\<exists>before v answer after. es = before @ EPoll v answer # after \<and> list_all (waited numeric) before
    \<and> poll_action X rid aid ps numeric deadline v answer = FStarted encoded n"
  using assms
proof (induction es)
  case (Cons e es)
  show ?case
  proof (cases "await_first X rid aid ps numeric deadline es = FStarted encoded n \<and> waited numeric e")
    case True
    with Cons.IH obtain before v answer after where "es = before @ EPoll v answer # after" "list_all (waited numeric) before"
      "poll_action X rid aid ps numeric deadline v answer = FStarted encoded n" by blast
    with True show ?thesis by (intro exI [of _ "e # before"] exI [of _ v] exI [of _ answer] exI [of _ after]) simp
  next
    case False
    with Cons.prems obtain v answer where "e = EPoll v answer"
      "poll_action X rid aid ps numeric deadline v answer = FStarted encoded n"
      by (cases e) (auto simp: waited_def dest: poll_action_waiting split: if_split_asm first_write.split_asm)
    then show ?thesis by (intro exI [of _ "[]"] exI [of _ v] exI [of _ answer] exI [of _ es]) simp
  qed
qed simp

lemma poll_action_started:
  assumes "poll_action X rid aid ps numeric deadline v answer = FStarted encoded n"
  shows "view_authorized v \<and> \<not> en_stop (vw_entry v) \<and> \<not> vw_cancelled v \<and> answer = Accepted n \<and> 0 < n
    \<and> (\<forall>r. numeric = Some r \<longrightarrow> current_numeric (vw_shared v) (en_numeric (vw_entry v)) r ps)
    \<and> 1 \<le> as_millis (deadline - vw_now v)
    \<and> encode_host_frame X (Action rid aid ps (of_nat (as_millis (deadline - vw_now v)))) = Ok encoded"
  using assms by (auto simp: poll_action_def Let_def split: if_split_asm option.split_asm sum.split_asm poll_answer.split_asm)

text \<open>What write_all writes is all of its bytes when the writer goes on, a part of them when it ends.\<close>

lemma write_rest_prefix:
  "write_rest c e bytes rest = (out, status) \<Longrightarrow> prefix out bytes \<and> (status = Continues \<longrightarrow> out = bytes)"
  by (cases rest) (auto simp: take_is_prefix split: option.split_asm)

lemma write_action_started:
  assumes "write_message X (OAction rid aid ps numeric deadline) sc = (out, rejected, status)" "out \<noteq> []"
  obtains encoded n tail where "await_first X rid aid ps numeric deadline (sc_first sc) = FStarted encoded n"
    "out = take n encoded @ tail" "prefix tail (drop n encoded)" "status = Continues \<Longrightarrow> tail = drop n encoded"
  using assms by (auto split: if_split_asm first_write.split_asm prod.split_asm dest: write_rest_prefix)

lemma started_prefix: "prefix tail (drop n encoded) \<Longrightarrow> prefix (take n encoded @ tail) encoded"
  by (metis append_take_drop_id same_prefix_prefix)

lemma write_message_frame:
  assumes "write_message X msg sc = (out, rejected, status)" "out \<noteq> []"
  obtains f where "f \<in> frames_of X msg" "prefix out f" "status = Continues \<Longrightarrow> out = f"
proof (cases msg)
  case (OAction rid aid ps numeric deadline)
  obtain encoded n tail where
    first: "await_first X rid aid ps numeric deadline (sc_first sc) = FStarted encoded n"
    and out: "out = take n encoded @ tail" "prefix tail (drop n encoded)" "status = Continues \<Longrightarrow> tail = drop n encoded"
    using write_action_started [OF assms(1) [unfolded OAction] assms(2)] by blast
  have "encoded \<in> frames_of X msg"
    using await_first_started [OF first] poll_action_started OAction by fastforce
  then show thesis using out started_prefix that by auto
qed (use assms that in \<open>auto split: if_split_asm prod.split_asm dest: write_rest_prefix\<close>)

text \<open>
  C2. Action bytes reach a worker only under its authority: if any byte of an action is written, the first of
  them is taken by the pipe at one poll, before which every poll found the pipe blocked. At that very poll
  the host's authority is that of the worker's registration, neither the worker is stopped nor the request
  cancelled, a numeric control is still the one the request was admitted for, and the frame whose bytes are
  written carries the whole milliseconds remaining at that poll, at least one.
\<close>

theorem action_bytes_authorised:
  assumes "write_message X (OAction rid aid ps numeric deadline) sc = (out, rejected, status)" and "out \<noteq> []"
  shows "\<exists>before v n after encoded. sc_first sc = before @ EPoll v (Accepted n) # after \<and> 0 < n
    \<and> list_all (waited numeric) before
    \<and> view_authorized v \<and> \<not> en_stop (vw_entry v) \<and> \<not> vw_cancelled v
    \<and> (\<forall>r. numeric = Some r \<longrightarrow> current_numeric (vw_shared v) (en_numeric (vw_entry v)) r ps)
    \<and> vw_now v + milliseconds 1 \<le> deadline
    \<and> encode_host_frame X (Action rid aid ps (of_nat (as_millis (deadline - vw_now v)))) = Ok encoded
    \<and> prefix out encoded"
proof -
  obtain encoded n tail where
    first: "await_first X rid aid ps numeric deadline (sc_first sc) = FStarted encoded n"
    and out: "out = take n encoded @ tail" "prefix tail (drop n encoded)"
    using write_action_started [OF assms] by metis
  then have "prefix out encoded" using started_prefix by simp
  moreover obtain before v answer after where "sc_first sc = before @ EPoll v answer # after" "list_all (waited numeric) before"
    "poll_action X rid aid ps numeric deadline v answer = FStarted encoded n"
    using await_first_started [OF first] by blast
  ultimately show ?thesis
    using poll_action_started [of X rid aid ps numeric deadline v answer encoded n]
    by (intro exI [of _ before] exI [of _ v] exI [of _ n] exI [of _ after] exI [of _ encoded])
      (auto simp: as_millis_def milliseconds_def)
qed

text \<open>
  What one event of the writer leaves on the pipe when the writer goes on: the whole frame of the message it
  took, or nothing, for an action that is refused before its first byte.
\<close>

definition wrote :: "ext \<Rightarrow> loop_event \<Rightarrow> string \<Rightarrow> bool" where
  "wrote X e chunk \<longleftrightarrow> (\<exists>msg sc. e = Taken msg sc \<and> (chunk \<in> frames_of X msg
     \<or> chunk = [] \<and> (\<exists>rid aid ps numeric deadline. msg = OAction rid aid ps numeric deadline)))"

lemma write_message_continues:
  assumes "write_message X msg sc = (out, rejected, Continues)"
  shows "wrote X (Taken msg sc) out"
proof (cases "out = []")
  case True
  with assms show ?thesis
    by (cases msg) (auto simp: wrote_def split: if_split_asm prod.split_asm dest: write_rest_prefix)
next
  case False
  from assms False have "out \<in> frames_of X msg" by (rule write_message_frame) simp
  then show ?thesis by (auto simp: wrote_def)
qed

text \<open>An event with which the writer ends leaves at most a part of one frame.\<close>

lemma last_event_part:
  assumes "write_frames_host X (e # es) = (out, rejected, status)"
    and "\<And>msg sc b r. e = Taken msg sc \<Longrightarrow> write_message X msg sc \<noteq> (b, r, Continues)"
  shows "out = [] \<or> (\<exists>f \<in> event_frames X e. prefix out f)"
proof (cases e)
  case (Taken msg sc)
  obtain bytes r st where m: "write_message X msg sc = (bytes, r, st)" by (cases "write_message X msg sc") auto
  then have "out = bytes" using assms Taken by (cases st) auto
  then show ?thesis using write_message_frame [OF m] Taken by auto
qed (use assms in \<open>auto simp: take_is_prefix split: sum.split_asm\<close>)

lemma frames_in_order_Cons:
  assumes "wrote X e chunk" "list_all2 (wrote X) (take (length chunks) es) chunks"
    "part = [] \<or> length chunks < length es \<and> (\<exists>f \<in> event_frames X (es ! length chunks). prefix part f)"
  shows "list_all2 (wrote X) (take (length (chunk # chunks)) (e # es)) (chunk # chunks)
    \<and> (part = [] \<or> length (chunk # chunks) < length (e # es)
        \<and> (\<exists>f \<in> event_frames X ((e # es) ! length (chunk # chunks)). prefix part f))"
  using assms by auto

text \<open>
  C31. The writer never splices, reorders or repeats frames: whatever interrupts it, the bytes on the pipe are,
  in the order of the first events, exactly one whole frame for each message taken (nothing, for an action
  refused before its first byte), and then at most a part of a frame of the very next event, after which nothing is written.
\<close>

theorem writer_never_splices:
  assumes "write_frames_host X es = (out, rejected, status)"
  shows "\<exists>chunks part. out = concat chunks @ part
    \<and> list_all2 (wrote X) (take (length chunks) es) chunks
    \<and> (part = [] \<or> length chunks < length es \<and> (\<exists>f \<in> event_frames X (es ! length chunks). prefix part f))"
  using assms
proof (induction es arbitrary: out rejected)
  case (Cons e es)
  show ?case
  proof (cases "\<exists>msg sc b r. e = Taken msg sc \<and> write_message X msg sc = (b, r, Continues)")
    case True
    then obtain msg sc bytes r where e: "e = Taken msg sc" and m: "write_message X msg sc = (bytes, r, Continues)" by blast
    obtain tail l where rest: "write_frames_host X es = (tail, l, status)" "out = bytes @ tail"
      using Cons.prems e m by (auto split: prod.split_asm)
    from Cons.IH [OF rest(1)] obtain chunks part where tail: "tail = concat chunks @ part"
      and order: "list_all2 (wrote X) (take (length chunks) es) chunks"
        "part = [] \<or> length chunks < length es \<and> (\<exists>f \<in> event_frames X (es ! length chunks). prefix part f)" by blast
    from frames_in_order_Cons [OF write_message_continues [OF m] order]
    show ?thesis using rest(2) tail e by (intro exI [of _ "bytes # chunks"] exI [of _ part]) simp
  next
    case False
    then have "out = [] \<or> (\<exists>f \<in> event_frames X e. prefix out f)"
      using last_event_part [OF Cons.prems] by blast
    then show ?thesis by (intro exI [of _ "[]"] exI [of _ out]) auto
  qed
qed simp

section \<open>An action on the pipe\<close>

definition sample_look :: view where
  "sample_look = \<lparr>vw_shared = sample_shared, vw_entry = sample_entry, vw_cancelled = False, vw_now = 0\<rparr>"

text \<open>The pipe blocks once, then takes one byte; the rest is written, or cut after none of it.\<close>

definition sample_script :: "rest_end \<Rightarrow> script" where
  "sample_script rest = \<lparr>sc_view = sample_look,
     sc_first = [EPoll sample_look Blocked, EPoll (sample_look\<lparr>vw_now := seconds 1\<rparr>) (Accepted 1)],
     sc_rest = rest, sc_room = True\<rparr>"

definition sample_out :: outgoing where
  "sample_out = OAction ''7'' ''on'' (JObject []) None (seconds 2)"

theorem action_bytes_authorised_witness:
  "write_message sample_ext sample_out (sample_script RDone) = (''{}'' @ [LF], [], Continues)
   \<and> (\<exists>before v n after. sc_first (sample_script RDone) = before @ EPoll v (Accepted n) # after \<and> 0 < n
        \<and> list_all (waited None) before \<and> view_authorized v \<and> vw_now v + milliseconds 1 \<le> seconds 2)"
proof -
  have w: "write_message sample_ext sample_out (sample_script RDone) = (''{}'' @ [LF], [], Continues)" by code_simp
  from action_bytes_authorised [OF w [unfolded sample_out_def]] w show ?thesis by blast
qed

theorem writer_never_splices_witness:
  "write_frames_host sample_ext [Taken sample_out (sample_script RDone), Taken sample_out (sample_script (RCancel 0))] =
     (''{}'' @ [LF] @ ''{'', [], Ended (Err ''worker_write_cancelled''))
   \<and> (\<exists>chunks part. ''{}'' @ [LF] @ ''{'' = concat chunks @ part
        \<and> list_all2 (wrote sample_ext)
            (take (length chunks) [Taken sample_out (sample_script RDone), Taken sample_out (sample_script (RCancel 0))]) chunks)"
proof -
  have w: "write_frames_host sample_ext [Taken sample_out (sample_script RDone), Taken sample_out (sample_script (RCancel 0))] =
     (''{}'' @ [LF] @ ''{'', [], Ended (Err ''worker_write_cancelled''))" by code_simp
  from writer_never_splices [OF w] w show ?thesis by blast
qed

end
