(* ===== verification/Supervision.thy ===== *)
theory Supervision
  imports Pipes
begin

text \<open>
  One worker process from spawn to exit, \<^verbatim>\<open>runtime.rs\<close>: what the host does with each frame the worker
  sends, each control message of a caller, each tick and each rejected write, and the outcome that ends the
  generation. A generation's local variables are \<open>generation_run\<close>; the arms of the \<^verbatim>\<open>select!\<close> loop are
  the events of \<open>generation_step\<close>. A reply sent on a one-shot channel is recorded under its request.
\<close>

section \<open>Data\<close>

record worker_spec =
  sp_plugin_id :: string
  sp_executable :: string
  sp_args :: "string list"
  sp_configuration :: "worker_configuration option"
  sp_desktop_notifications :: bool
  sp_http_video :: "http_video_grant option"
  sp_live_view :: "live_view_grant option"

datatype plugin_error = InvalidWorker | AlreadyRegistered | Capacity | HostStopped | UnknownPlugin
  | PluginUnavailable | UnknownAction | Busy | InvalidRequest | DeadlineExceeded | Cancelled | WorkerError

text \<open>\<^verbatim>\<open>Control::Action\<close> without its channels; the reply and the cancellation belong to the request id.\<close>

record action_request =
  rq_id :: string
  rq_generation :: "64 word"
  rq_action :: string
  rq_params :: json
  rq_numeric :: "nat option"
  rq_deadline :: nat
  rq_worker_deadline :: nat

datatype control = ControlAction action_request | ControlCancel string

datatype startup_phase = Identity | AwaitConfiguration | StartupDone

text \<open>The phases are ordered: startup only goes forward.\<close>

instantiation startup_phase :: linorder
begin

fun startup_rank :: "startup_phase \<Rightarrow> nat" where
  "startup_rank Identity = 0" | "startup_rank AwaitConfiguration = 1" | "startup_rank StartupDone = 2"

definition less_eq_startup_phase :: "startup_phase \<Rightarrow> startup_phase \<Rightarrow> bool" where
  "less_eq_startup_phase a b \<longleftrightarrow> startup_rank a \<le> startup_rank b"

definition less_startup_phase :: "startup_phase \<Rightarrow> startup_phase \<Rightarrow> bool" where
  "less_startup_phase a b \<longleftrightarrow> startup_rank a < startup_rank b"

instance
proof
  fix a b :: startup_phase
  show "a \<le> b \<Longrightarrow> b \<le> a \<Longrightarrow> a = b"
    by (cases a; cases b) (simp_all add: less_eq_startup_phase_def)
qed (auto simp: less_eq_startup_phase_def less_startup_phase_def)

end

datatype outcome = OutStopped | OutExited string | OutFailed string

fun outcome_error :: "outcome \<Rightarrow> string option" where
  "outcome_error OutStopped = None"
| "outcome_error (OutExited code) = Some code"
| "outcome_error (OutFailed code) = Some code"

record frame_rate =
  fr_window :: nat
  fr_frames :: nat
  fr_contributions :: nat

type_synonym reply = "string \<times> (plugin_error + json)"

record generation_run =
  gr_shared :: shared
  gr_entry :: worker_entry
  gr_generation :: "64 word"
  gr_startup_deadline :: nat
  gr_startup :: startup_phase
  gr_rate :: frame_rate
  gr_pending :: "(string \<times> nat) list" \<comment> \<open>request id and deadline\<close>
  gr_pipes :: pipes
  gr_replies :: "reply list"

definition on_entry :: "(shared \<times> worker_entry \<Rightarrow> (shared \<times> worker_entry) \<times> 'a) \<Rightarrow> generation_run \<Rightarrow> generation_run \<times> 'a" where
  "on_entry f gr = (case f (gr_shared gr, gr_entry gr) of ((sh, en), r) \<Rightarrow> (gr\<lparr>gr_shared := sh, gr_entry := en\<rparr>, r))"

definition reply_to :: "string \<Rightarrow> plugin_error + json \<Rightarrow> generation_run \<Rightarrow> generation_run" where
  "reply_to i r gr = gr\<lparr>gr_replies := gr_replies gr @ [(i, r)]\<rparr>"

definition forget :: "string \<Rightarrow> generation_run \<Rightarrow> generation_run" where
  "forget i gr = gr\<lparr>gr_pending := AList.delete i (gr_pending gr)\<rparr>"

text \<open>\<^verbatim>\<open>let _ = pipes.send(..)\<close>: a full or closed channel is ignored.\<close>

definition send_ignored :: "ext \<Rightarrow> host_message \<Rightarrow> generation_run \<Rightarrow> generation_run" where
  "send_ignored X msg gr = (case pipes_send X msg (gr_pipes gr) of Err _ \<Rightarrow> gr | Ok p \<Rightarrow> gr\<lparr>gr_pipes := p\<rparr>)"

definition changed :: "generation_run \<Rightarrow> generation_run" where
  "changed gr = gr\<lparr>gr_shared := (gr_shared gr)\<lparr>sh_changed := sh_changed (gr_shared gr) + 1\<rparr>\<rparr>"

section \<open>Spawning\<close>

text \<open>
  \<^verbatim>\<open>spawn_generation\<close>: \<open>identity\<close> is the identity drawn for the spawned process, or nothing when the
  operating system refuses to spawn. \<open>Ok False\<close> is the code's \<^verbatim>\<open>Ok(None)\<close>.
\<close>

definition begin_generation :: "32 word \<Rightarrow> plugin_snapshot \<Rightarrow> plugin_snapshot" where
  "begin_generation restarts s = s\<lparr>
     ps_state := (if restarts = 0 then Starting else Restarting),
     ps_generation := ps_generation s + 1, ps_instance_id := None, ps_restart_count := restarts,
     ps_contributions := [], ps_presentation := []\<rparr>"

definition spawn_generation :: "worker_spec \<Rightarrow> 32 word \<Rightarrow> string option \<Rightarrow> shared \<times> worker_entry
    \<Rightarrow> (shared \<times> worker_entry) \<times> bool res" where
  "spawn_generation spec restarts identity = (\<lambda>(sh, en).
     if \<not> authorized sh en \<or> en_stop en then ((sh, en), Ok False)
     else
       let en = en\<lparr>en_snapshot := begin_generation restarts (en_snapshot en)\<rparr>
       in case identity of
            None \<Rightarrow> ((sh, en), Err ''worker_spawn_failed'')
          | Some i \<Rightarrow>
              ((new_lease i (sp_plugin_id spec) (en_epoch en) (ps_generation (en_snapshot en))
                  (sh\<lparr>sh_changed := sh_changed sh + 1\<rparr>),
                en\<lparr>en_lease := Some i, en_snapshot := (en_snapshot en)\<lparr>ps_instance_id := Some i\<rparr>,
                   en_reaped := False\<rparr>), Ok True))"

section \<open>Frames\<close>

text \<open>The frames of startup: the identity, then the acknowledgement of the configuration.\<close>

definition startup_ok :: "ext \<Rightarrow> worker_spec \<Rightarrow> startup_phase \<Rightarrow> worker_message \<Rightarrow> string res" where
  "startup_ok X spec phase m = (case phase of
       Identity \<Rightarrow> (case validate_handshake X (sp_plugin_id spec) m of
           Err _ \<Rightarrow> Err ''worker_handshake_invalid'' | Ok _ \<Rightarrow> Ok [])
     | _ \<Rightarrow> (case m of
           ConfigurationReady revision \<Rightarrow>
             if map_option wc_revision (sp_configuration spec) = Some revision then Ok []
             else Err ''worker_configuration_ack_invalid''
         | _ \<Rightarrow> Err ''worker_configuration_ack_invalid''))"

definition running :: "generation_run \<Rightarrow> generation_run" where
  "running gr = changed (gr\<lparr>gr_startup := StartupDone, gr_entry := (gr_entry gr)\<lparr>en_snapshot :=
     (en_snapshot (gr_entry gr))\<lparr>ps_state := Running, ps_last_error := None\<rparr>\<rparr>\<rparr>)"

definition startup_frame :: "ext \<Rightarrow> nat \<Rightarrow> worker_spec \<Rightarrow> worker_message \<Rightarrow> generation_run
    \<Rightarrow> generation_run \<times> outcome option" where
  "startup_frame X now spec m gr =
     (if gr_startup_deadline gr \<le> now then (gr, Some (OutFailed ''worker_startup_timeout''))
      else case startup_ok X spec (gr_startup gr) m of
          Err code \<Rightarrow> (gr, Some (OutFailed code))
        | Ok _ \<Rightarrow>
            if \<not> authorized (gr_shared gr) (gr_entry gr) then (gr, Some OutStopped)
            else case (gr_startup gr, sp_configuration spec) of
                (Identity, Some configuration) \<Rightarrow>
                  (case pipes_configure X configuration (gr_startup_deadline gr) (gr_pipes gr) of
                     Err code \<Rightarrow> (gr, Some (OutFailed code))
                   | Ok p \<Rightarrow> (gr\<lparr>gr_pipes := p, gr_startup := AwaitConfiguration\<rparr>, None))
              | _ \<Rightarrow> (running gr, None))"

text \<open>
  The frames of a running worker, under the authority guard. The answer is whether the change callback is
  owed, or the outcome that ends the generation.
\<close>

definition media_notice :: "worker_spec \<Rightarrow> string \<Rightarrow> string \<Rightarrow> http_media_kind \<Rightarrow> desktop_notification" where
  "media_notice spec i title kind = \<lparr>dn_plugin_id = sp_plugin_id spec, dn_id = i, dn_title = title,
     dn_body = (if is_video kind then ''Camera motion clip available'' else ''Camera snapshot available''),
     dn_live_view = None\<rparr>"

definition http_video_frame :: "ext \<Rightarrow> nat \<Rightarrow> worker_spec \<Rightarrow> string \<Rightarrow> string \<Rightarrow> string \<Rightarrow> http_media_kind \<Rightarrow> string option
    \<Rightarrow> generation_run \<Rightarrow> generation_run \<times> (outcome + bool)" where
  "http_video_frame X now spec i u title kind cooldown_id gr = (case sp_http_video spec of
       None \<Rightarrow> (gr, Inl (OutFailed ''worker_http_video_unauthorized''))
     | Some grant \<Rightarrow> (case validate_url X grant u of
           Err _ \<Rightarrow> (gr, Inl (OutFailed ''worker_http_video_url_invalid''))
         | Ok _ \<Rightarrow>
             (case on_entry (queue_http_video X now grant i u title
                 \<lparr>ma_kind = kind, ma_cooldown_id = cooldown_id, ma_live_preview = False\<rparr>) gr of
                (gr, notify) \<Rightarrow>
                  if notify \<and> sp_desktop_notifications spec
                  then (fst (on_entry (queue_notification now (media_notice spec i title kind)) gr), Inr notify)
                  else (gr, Inr notify))))"

definition preview_frame :: "ext \<Rightarrow> nat \<Rightarrow> http_video_grant \<Rightarrow> string \<Rightarrow> string \<Rightarrow> string \<Rightarrow> string option
    \<Rightarrow> generation_run \<Rightarrow> generation_run \<times> (outcome + bool)" where
  "preview_frame X now grant i u title cooldown_id gr = (case on_entry (queue_http_video X now grant i u title
       \<lparr>ma_kind = Video, ma_cooldown_id = cooldown_id, ma_live_preview = True\<rparr>) gr of
     (gr, notify) \<Rightarrow> (gr, Inr notify))"

definition http_live_frame :: "ext \<Rightarrow> nat \<Rightarrow> worker_spec \<Rightarrow> string \<Rightarrow> string \<Rightarrow> string
    \<Rightarrow> generation_run \<Rightarrow> generation_run \<times> (outcome + bool)" where
  "http_live_frame X now spec i u title gr = (case sp_http_video spec of
       None \<Rightarrow> (gr, Inl (OutFailed ''worker_http_video_unauthorized''))
     | Some grant \<Rightarrow> (case validate_preview_url X grant u of
           Err _ \<Rightarrow> (gr, Inl (OutFailed ''worker_http_live_url_invalid''))
         | Ok _ \<Rightarrow> preview_frame X now grant i u title None gr))"

definition mqtt_live_frame :: "ext \<Rightarrow> nat \<Rightarrow> worker_spec \<Rightarrow> string \<Rightarrow> string \<Rightarrow> string \<Rightarrow> string
    \<Rightarrow> generation_run \<Rightarrow> generation_run \<times> (outcome + bool)" where
  "mqtt_live_frame X now spec i title camera u gr = (case sp_live_view spec of
       None \<Rightarrow> (gr, Inl (OutFailed ''worker_mqtt_live_unauthorized''))
     | Some mapping \<Rightarrow> (case mqtt_preview X mapping camera u of
           Err _ \<Rightarrow> (gr, Inl (OutFailed ''worker_mqtt_live_url_invalid''))
         | Ok (url, grant) \<Rightarrow> preview_frame X now grant i (u_str url) title (Some (''mqtt:'' @ camera)) gr))"

definition live_view_frame :: "ext \<Rightarrow> nat \<Rightarrow> worker_spec \<Rightarrow> string \<Rightarrow> string \<Rightarrow> string
    \<Rightarrow> generation_run \<Rightarrow> generation_run \<times> (outcome + bool)" where
  "live_view_frame X now spec i title view gr = (case sp_live_view spec of
       None \<Rightarrow> (gr, Inl (OutFailed ''worker_live_view_unauthorized''))
     | Some mapping \<Rightarrow> (case preview mapping view of
           Err _ \<Rightarrow> (gr, Inl (OutFailed ''worker_live_view_preview_unauthorized''))
         | Ok None \<Rightarrow> (gr, Inr False)
         | Ok (Some (url, grant)) \<Rightarrow> preview_frame X now grant i (u_str url) title (Some view) gr))"

definition live_view_request_for :: "worker_spec \<Rightarrow> string option \<Rightarrow> worker_entry \<Rightarrow> outcome + live_view_request option" where
  "live_view_request_for spec view en = (case view of
       None \<Rightarrow> Inr None
     | Some v \<Rightarrow> (case sp_live_view spec of
           None \<Rightarrow> Inl (OutFailed ''worker_live_view_unauthorized'')
         | Some grant \<Rightarrow> (case en_lease en of
               None \<Rightarrow> Inl OutStopped
             | Some lease \<Rightarrow> Inr (map_option (\<lambda>url. \<lparr>lr_lease = lease, lr_id = v, lr_url = url\<rparr>) (resolve_view grant v)))))"

definition notification_frame :: "nat \<Rightarrow> worker_spec \<Rightarrow> string \<Rightarrow> string \<Rightarrow> string \<Rightarrow> string option
    \<Rightarrow> generation_run \<Rightarrow> generation_run \<times> (outcome + bool)" where
  "notification_frame now spec i title body view gr =
     (if \<not> sp_desktop_notifications spec then (gr, Inl (OutFailed ''worker_notification_unauthorized''))
      else case live_view_request_for spec view (gr_entry gr) of
          Inl out \<Rightarrow> (gr, Inl out)
        | Inr live_view \<Rightarrow>
            (case on_entry (queue_notification now \<lparr>dn_plugin_id = sp_plugin_id spec, dn_id = i, dn_title = title,
                dn_body = body, dn_live_view = live_view\<rparr>) gr of
               (gr, notify) \<Rightarrow> (gr, Inr notify)))"

text \<open>An answer of the worker settles its request, once.\<close>

definition settle :: "string \<Rightarrow> (nat \<Rightarrow> plugin_error + json) \<Rightarrow> generation_run \<Rightarrow> generation_run" where
  "settle i answer gr = (case map_of (gr_pending gr) i of
       None \<Rightarrow> gr
     | Some deadline \<Rightarrow> reply_to i (answer deadline) (forget i gr))"

fun worker_frame :: "ext \<Rightarrow> nat \<Rightarrow> worker_spec \<Rightarrow> worker_message \<Rightarrow> generation_run \<Rightarrow> generation_run \<times> (outcome + bool)" where
  "worker_frame X now spec (HttpVideo i u title kind c) gr = http_video_frame X now spec i u title kind c gr"
| "worker_frame X now spec (HttpLive i u title) gr = http_live_frame X now spec i u title gr"
| "worker_frame X now spec (MqttLive i title camera u) gr = mqtt_live_frame X now spec i title camera u gr"
| "worker_frame X now spec (LiveView i title view) gr = live_view_frame X now spec i title view gr"
| "worker_frame X now spec (Notification i title body view) gr = notification_frame now spec i title body view gr"
| "worker_frame X now spec (Contributions items views) gr =
     (fst (on_entry (\<lambda>se. (replace_contributions items views se, ())) gr), Inr True)"
| "worker_frame X now spec (ActionResult i v) gr =
     (settle i (\<lambda>deadline. if deadline \<le> now then Inl DeadlineExceeded else Inr v) gr, Inr False)"
| "worker_frame X now spec (ActionError i code message) gr = (settle i (\<lambda>_. Inl WorkerError) gr, Inr False)"
| "worker_frame X now spec (Event name payload) gr =
     (if name = ''settings_choices'' then
        (case accept X payload (en_choices (gr_entry gr)) of
           (c, ok) \<Rightarrow> (gr\<lparr>gr_entry := (gr_entry gr)\<lparr>en_choices := c\<rparr>\<rparr>,
             if ok then Inr False else Inl (OutFailed ''worker_settings_choices_invalid'')))
      else (gr, Inr False))"
| "worker_frame X now spec (Ready v api p) gr = (gr, Inl (OutFailed ''worker_duplicate_handshake''))"
| "worker_frame X now spec (ConfigurationReady revision) gr = (gr, Inl (OutFailed ''worker_duplicate_handshake''))"

definition running_frame :: "ext \<Rightarrow> nat \<Rightarrow> worker_spec \<Rightarrow> worker_message \<Rightarrow> generation_run
    \<Rightarrow> generation_run \<times> outcome option" where
  "running_frame X now spec m gr =
     (if \<not> authorized (gr_shared gr) (gr_entry gr) then (gr, Some OutStopped)
      else case worker_frame X now spec m gr of
          (gr, Inl out) \<Rightarrow> (gr, Some out)
        | (gr, Inr notify) \<Rightarrow> (if notify then changed gr else gr, None))"

definition handle_frame :: "ext \<Rightarrow> nat \<Rightarrow> worker_spec \<Rightarrow> worker_message res option \<Rightarrow> generation_run
    \<Rightarrow> generation_run \<times> outcome option" where
  "handle_frame X now spec frame gr = (case frame of
       None \<Rightarrow> (gr, Some (OutExited ''worker_pipe_closed''))
     | Some (Err code) \<Rightarrow> (gr, Some (if code = ''worker_eof'' \<or> code = ''worker_write_failed''
         then OutExited ''worker_pipe_closed'' else OutFailed code))
     | Some (Ok m) \<Rightarrow>
         if gr_startup gr \<noteq> StartupDone then startup_frame X now spec m gr else running_frame X now spec m gr)"

section \<open>Control messages and deadlines\<close>

text \<open>Why an action is refused at the supervisor, if it is.\<close>

definition action_refusal :: "nat \<Rightarrow> action_request \<Rightarrow> generation_run \<Rightarrow> plugin_error option" where
  "action_refusal now rq gr =
     (let sh = gr_shared gr; en = gr_entry gr
      in if \<not> authorized sh en \<or> gr_startup gr \<noteq> StartupDone \<or> rq_generation rq \<noteq> gr_generation gr
         then Some PluginUnavailable
         else if rq_worker_deadline rq \<le> now then Some DeadlineExceeded
         else if \<not> advertises (ps_contributions (en_snapshot en)) (rq_action rq) (rq_params rq)
            \<or> (case rq_numeric rq of
                 Some r \<Rightarrow> \<not> current_numeric sh (en_numeric en) r (rq_params rq)
               | None \<Rightarrow> map_of (en_numeric en) (rq_action rq) \<noteq> None)
         then Some UnknownAction
         else if MAX_IN_FLIGHT \<le> length (gr_pending gr) then Some Busy
         else None)"

fun handle_control :: "ext \<Rightarrow> nat \<Rightarrow> control \<Rightarrow> generation_run \<Rightarrow> generation_run" where
  "handle_control X now (ControlCancel i) gr =
     (if map_of (gr_pending gr) i = None then gr
      else reply_to i (Inl Cancelled) (send_ignored X (Cancel i) (forget i gr)))"
| "handle_control X now (ControlAction rq) gr =
     (case action_refusal now rq gr of
        Some e \<Rightarrow> reply_to (rq_id rq) (Inl e) gr
      | None \<Rightarrow>
          (case pipe_send (OAction (rq_id rq) (rq_action rq) (rq_params rq) (rq_numeric rq) (rq_worker_deadline rq))
              (gr_pipes gr) of
             None \<Rightarrow> reply_to (rq_id rq) (Inl Busy) gr
           | Some p \<Rightarrow> gr\<lparr>gr_pipes := p,
               gr_pending := AList.update (rq_id rq) (rq_deadline rq) (gr_pending gr)\<rparr>))"

text \<open>\<^verbatim>\<open>expire_pending\<close>: \<open>gone\<close> holds the requests whose caller has gone.\<close>

definition expire :: "ext \<Rightarrow> string \<Rightarrow> generation_run \<Rightarrow> generation_run" where
  "expire X i gr = reply_to i (Inl DeadlineExceeded) (send_ignored X (Cancel i) (forget i gr))"

definition expire_pending :: "ext \<Rightarrow> nat \<Rightarrow> string set \<Rightarrow> generation_run \<Rightarrow> generation_run" where
  "expire_pending X now gone gr = fold (expire X)
     (map fst (filter (\<lambda>(i, deadline). i \<in> gone \<or> deadline \<le> now) (gr_pending gr))) gr"

section \<open>The select loop\<close>

datatype generation_event =
    GStop
  | GExit bool \<comment> \<open>whether \<^verbatim>\<open>child.wait()\<close> succeeded\<close>
  | GTick nat "string set"
  | GRejected string
  | GFrame nat "worker_message res option"
  | GControl nat "control option"

text \<open>One second's budget of frames, and of contributions among them.\<close>

definition count_frame :: "nat \<Rightarrow> bool \<Rightarrow> frame_rate \<Rightarrow> frame_rate" where
  "count_frame now contributions r =
     (let r = (if seconds 1 \<le> now - fr_window r
               then \<lparr>fr_window = now, fr_frames = 0, fr_contributions = 0\<rparr> else r)
      in r\<lparr>fr_frames := fr_frames r + 1,
           fr_contributions := fr_contributions r + (if contributions then 1 else 0)\<rparr>)"

definition over_rate :: "frame_rate \<Rightarrow> bool" where
  "over_rate r \<longleftrightarrow> MAX_FRAMES_PER_SECOND < fr_frames r \<or> MAX_CONTRIBUTIONS_PER_SECOND < fr_contributions r"

fun is_contributions :: "worker_message res option \<Rightarrow> bool" where
  "is_contributions (Some (Ok (Contributions _ _))) = True" | "is_contributions _ = False"

definition frame_arm :: "ext \<Rightarrow> nat \<Rightarrow> worker_spec \<Rightarrow> worker_message res option \<Rightarrow> generation_run
    \<Rightarrow> generation_run \<times> outcome option" where
  "frame_arm X now spec frame gr =
     (if \<not> authorized (gr_shared gr) (gr_entry gr) then (gr, Some OutStopped)
      else
        let gr = gr\<lparr>gr_rate := count_frame now (is_contributions frame) (gr_rate gr)\<rparr>
        in if over_rate (gr_rate gr) then (gr, Some (OutFailed ''worker_rate_limit''))
           else handle_frame X now spec frame gr)"

fun generation_step :: "ext \<Rightarrow> worker_spec \<Rightarrow> generation_event \<Rightarrow> generation_run \<Rightarrow> generation_run \<times> outcome option" where
  "generation_step X spec GStop gr = (gr, Some OutStopped)"
| "generation_step X spec (GExit ok) gr =
     (gr, Some (OutExited (if ok then ''worker_exited'' else ''worker_wait_failed'')))"
| "generation_step X spec (GTick now gone) gr =
     (if gr_startup gr \<noteq> StartupDone \<and> gr_startup_deadline gr \<le> now
      then (gr, Some (OutFailed ''worker_startup_timeout''))
      else (expire_pending X now gone gr, None))"
| "generation_step X spec (GRejected i) gr = (settle i (\<lambda>_. Inl UnknownAction) gr, None)"
| "generation_step X spec (GFrame now frame) gr = frame_arm X now spec frame gr"
| "generation_step X spec (GControl now None) gr = (gr, Some OutStopped)"
| "generation_step X spec (GControl now (Some c)) gr = (handle_control X now c gr, None)"

text \<open>
  \<^verbatim>\<open>run_generation\<close> up to its loop: the greeting, and the local variables. When the generation ends, every
  request still pending is answered.
\<close>

definition start_run :: "ext \<Rightarrow> nat \<Rightarrow> worker_spec \<Rightarrow> shared \<times> worker_entry \<Rightarrow> generation_run \<times> outcome option" where
  "start_run X now spec = (\<lambda>(sh, en).
     (let gr = \<lparr>gr_shared = sh, gr_entry = en, gr_generation = ps_generation (en_snapshot en),
            gr_startup_deadline = now + STARTUP_TIMEOUT, gr_startup = Identity,
            gr_rate = \<lparr>fr_window = now, fr_frames = 0, fr_contributions = 0\<rparr>,
            gr_pending = [], gr_pipes = new_pipes, gr_replies = []\<rparr>
      in case pipes_send X (Hello PROTOCOL_VERSION HOST_API_VERSION (sp_plugin_id spec)) new_pipes of
           Err _ \<Rightarrow> (gr, Some (OutFailed ''host_hello_failed''))
         | Ok p \<Rightarrow> (gr\<lparr>gr_pipes := p\<rparr>, None)))"

definition finish_run :: "generation_run \<Rightarrow> generation_run" where
  "finish_run gr = gr\<lparr>gr_pending := [],
     gr_replies := gr_replies gr @ map (\<lambda>(i, _). (i, Inl PluginUnavailable)) (gr_pending gr)\<rparr>"

definition reject_control :: "control option \<Rightarrow> reply list" where
  "reject_control c = (case c of Some (ControlAction rq) \<Rightarrow> [(rq_id rq, Inl PluginUnavailable)] | _ \<Rightarrow> [])"

section \<open>The supervisor\<close>

text \<open>
  \<^verbatim>\<open>supervise\<close> between its await points. \<open>Deciding\<close> is the head of its loop, \<open>Spawning\<close> and \<open>Piping\<close> the
  start of a generation, \<open>Generating\<close> the select loop, \<open>Closing\<close> what follows it, \<open>Terminating\<close> the wait for
  the process, \<open>BackingOff\<close> the pause before a restart, \<open>Settling\<close> the final update.
\<close>

datatype phase = Deciding | Spawning | Piping | Generating | Closing outcome | Terminating outcome
  | BackingOff | Settling | Finished

record supervisor =
  su_spec :: worker_spec
  su_phase :: phase
  su_restarts :: "32 word"
  su_run :: "generation_run option" \<comment> \<open>the local variables of the select loop\<close>
  su_replies :: "reply list"
  su_spawned :: nat \<comment> \<open>processes spawned so far; only the model counts them\<close>

text \<open>After the select loop: revoke, publish, terminate.\<close>

definition close_generation :: "outcome \<Rightarrow> shared \<times> worker_entry \<Rightarrow> shared \<times> worker_entry" where
  "close_generation out se = update_entry (\<lambda>s. s\<lparr>ps_contributions := [], ps_presentation := [],
     ps_state := (if out = OutStopped then Stopped else Restarting), ps_last_error := outcome_error out\<rparr>)
     (revoke_generation se)"

definition settle_entry :: "shared \<times> worker_entry \<Rightarrow> shared \<times> worker_entry" where
  "settle_entry = update_entry (\<lambda>s. s\<lparr>ps_state := Stopped, ps_contributions := [], ps_presentation := [],
     ps_last_error := None\<rparr>)"

definition set_reaped :: "bool \<Rightarrow> shared \<times> worker_entry \<Rightarrow> shared \<times> worker_entry" where
  "set_reaped b = (\<lambda>(sh, en). (sh, en\<lparr>en_reaped := b\<rparr>))"

definition set_done :: "shared \<times> worker_entry \<Rightarrow> shared \<times> worker_entry" where
  "set_done = (\<lambda>(sh, en). (sh, en\<lparr>en_done := True\<rparr>))"

text \<open>What \<^verbatim>\<open>supervise\<close> does once the process is terminated or not.\<close>

definition after_terminate :: "bool \<Rightarrow> outcome \<Rightarrow> supervisor \<Rightarrow> shared \<times> worker_entry
    \<Rightarrow> supervisor \<times> (shared \<times> worker_entry)" where
  "after_terminate reaped out su se =
     (let se = set_reaped reaped se
      in if \<not> reaped then (su\<lparr>su_phase := Finished\<rparr>, set_done (fail_entry ''worker_reap_failed'' se))
         else case out of
             OutStopped \<Rightarrow> (su\<lparr>su_phase := Settling\<rparr>, se)
           | OutFailed code \<Rightarrow> (su\<lparr>su_phase := Finished\<rparr>, set_done (fail_entry code se))
           | OutExited code \<Rightarrow>
               if MAX_RESTARTS \<le> su_restarts su
               then (su\<lparr>su_phase := Finished\<rparr>, set_done (fail_entry code se))
               else (su\<lparr>su_phase := BackingOff, su_restarts := su_restarts su + 1\<rparr>, se))"

text \<open>
  What moves the supervisor on: the spawned process's identity or a refusal, whether the pipes exist and, if
  not, whether the process was reaped, an event of the select loop, the answer of \<^verbatim>\<open>terminate\<close>, the end of
  the backoff or a control received during it.
\<close>

datatype supervisor_event =
    SGo
  | SSpawn "string option"
  | SPipes bool bool nat
  | SEvent generation_event
  | STerminated bool
  | SBackoff "control option"
  | SDrain "control list"

definition attach :: "generation_run \<Rightarrow> supervisor \<Rightarrow> supervisor \<times> (shared \<times> worker_entry)" where
  "attach gr su = (su\<lparr>su_run := Some gr, su_replies := su_replies su @ gr_replies gr\<rparr>, (gr_shared gr, gr_entry gr))"

text \<open>A select arm runs on the entry as it now is; the replies it sends leave the run.\<close>

definition resume_run :: "generation_run \<Rightarrow> shared \<times> worker_entry \<Rightarrow> generation_run" where
  "resume_run gr = (\<lambda>(sh, en). gr\<lparr>gr_shared := sh, gr_entry := en, gr_replies := []\<rparr>)"

definition end_arm :: "generation_run \<times> outcome option \<Rightarrow> supervisor \<Rightarrow> supervisor \<times> (shared \<times> worker_entry)" where
  "end_arm = (\<lambda>(gr, out) su. case out of
       None \<Rightarrow> attach gr (su\<lparr>su_phase := Generating\<rparr>)
     | Some out \<Rightarrow> attach (finish_run gr) (su\<lparr>su_phase := Closing out\<rparr>))"

definition supervise_step :: "ext \<Rightarrow> supervisor_event \<Rightarrow> supervisor \<Rightarrow> shared \<times> worker_entry
    \<Rightarrow> (supervisor \<times> (shared \<times> worker_entry)) option" where
  "supervise_step X ev su = (\<lambda>(sh, en). case (su_phase su, ev) of
     (Deciding, SGo) \<Rightarrow>
       Some (su\<lparr>su_phase := if en_stop en \<or> \<not> authorized sh en then Settling else Spawning\<rparr>, (sh, en))
   | (Spawning, SSpawn identity) \<Rightarrow>
       Some (case spawn_generation (su_spec su) (su_restarts su) identity (sh, en) of
           (se, Err code) \<Rightarrow> (su\<lparr>su_phase := Finished\<rparr>, set_done (fail_entry code se))
         | (se, Ok spawned) \<Rightarrow>
             if spawned then (su\<lparr>su_phase := Piping, su_spawned := su_spawned su + 1\<rparr>, se)
             else (su\<lparr>su_phase := Settling\<rparr>, se))
   | (Piping, SPipes piped reaped now) \<Rightarrow>
       Some (if piped then end_arm (start_run X now (su_spec su) (sh, en)) su
         else (su\<lparr>su_phase := Finished\<rparr>,
           set_done (fail_entry ''worker_pipe_failed'' (set_reaped reaped (revoke_generation (sh, en))))))
   | (Generating, SEvent e) \<Rightarrow>
       map_option (\<lambda>gr. end_arm (generation_step X (su_spec su) e (resume_run gr (sh, en))) su) (su_run su)
   | (Closing out, SGo) \<Rightarrow> Some (su\<lparr>su_phase := Terminating out, su_run := None\<rparr>, close_generation out (sh, en))
   | (Terminating out, STerminated reaped) \<Rightarrow> Some (after_terminate reaped out su (sh, en))
   | (BackingOff, SBackoff c) \<Rightarrow>
       Some (su\<lparr>su_replies := su_replies su @ reject_control c\<rparr>, (sh, en))
   | (BackingOff, SGo) \<Rightarrow> Some (su\<lparr>su_phase := Deciding\<rparr>, (sh, en))
   | (Settling, SDrain cs) \<Rightarrow>
       Some (su\<lparr>su_phase := Finished, su_replies := su_replies su @ concat (map (\<lambda>c. reject_control (Some c)) cs)\<rparr>,
         set_done (settle_entry (sh, en)))
   | _ \<Rightarrow> None)"

end
