(* ===== verification/Host.thy ===== *)
theory Host
  imports Supervision
begin

text \<open>
  \<^verbatim>\<open>PluginHost\<close> of \<^verbatim>\<open>runtime.rs\<close>: the registry of workers and the operations the application calls.
  A worker entry is shared between the registry, its supervisor and callers in flight, so entries live in a
  store and the registry holds references (\<^verbatim>\<open>Arc::ptr_eq\<close> is equality of references). What an \<^verbatim>\<open>async\<close>
  operation does between two awaits, or under the authority guard, is one definition.
\<close>

record host =
  ho_shared :: shared
  ho_registry :: "(string \<times> nat) list"
  ho_entries :: "nat \<Rightarrow> worker_entry option"
  ho_supervisors :: "nat \<Rightarrow> supervisor option"
  ho_commands :: "nat \<Rightarrow> control list"
  ho_next :: nat

definition with_entry :: "nat \<Rightarrow> (shared \<times> worker_entry \<Rightarrow> shared \<times> worker_entry) \<Rightarrow> host \<Rightarrow> host" where
  "with_entry r f h = (case ho_entries h r of None \<Rightarrow> h
     | Some en \<Rightarrow> (case f (ho_shared h, en) of (sh, en) \<Rightarrow>
         h\<lparr>ho_shared := sh, ho_entries := (ho_entries h)(r \<mapsto> en)\<rparr>))"

definition host_changed :: "host \<Rightarrow> host" where
  "host_changed h = h\<lparr>ho_shared := (ho_shared h)\<lparr>sh_changed := sh_changed (ho_shared h) + 1\<rparr>\<rparr>"

definition registered :: "host \<Rightarrow> worker_entry list" where
  "registered h = List.map_filter (\<lambda>(_, r). ho_entries h r) (ho_registry h)"

definition new_host :: "nat \<Rightarrow> host" where
  "new_host now = \<lparr>ho_shared = \<lparr>sh_authority = \<lparr>au_enabled = True, au_epoch = 0\<rparr>, sh_stopped = False,
       sh_leases = (\<lambda>_. None), sh_numeric = (\<lambda>_. None), sh_next_numeric = 0,
       sh_rate = \<lparr>nr_window = now, nr_count = 0\<rparr>, sh_next_request = 1, sh_changed = 0\<rparr>,
     ho_registry = [], ho_entries = (\<lambda>_. None), ho_supervisors = (\<lambda>_. None), ho_commands = (\<lambda>_. []), ho_next = 0\<rparr>"

section \<open>Authority\<close>

definition authority_epoch :: "host \<Rightarrow> 64 word" where
  "authority_epoch h = au_epoch (sh_authority (ho_shared h))"

definition is_authorized_epoch :: "64 word \<Rightarrow> host \<Rightarrow> bool" where
  "is_authorized_epoch epoch h \<longleftrightarrow> \<not> sh_stopped (ho_shared h) \<and> au_enabled (sh_authority (ho_shared h))
     \<and> authority_epoch h = epoch"

definition commit_in_epoch :: "64 word \<Rightarrow> (unit \<Rightarrow> 'a res) \<Rightarrow> host \<Rightarrow> 'a res" where
  "commit_in_epoch epoch commit h =
     (if sh_stopped (ho_shared h) \<or> \<not> au_enabled (sh_authority (ho_shared h)) \<or> authority_epoch h \<noteq> epoch
      then Err ''Plugin operation authorization changed'' else commit ())"

text \<open>\<^verbatim>\<open>revoke_epoch\<close> on one registered entry, and on all of them.\<close>

definition revoke_entry :: "shared \<times> worker_entry \<Rightarrow> shared \<times> worker_entry" where
  "revoke_entry se = (case revoke_generation se of (sh, en) \<Rightarrow>
     (sh, en\<lparr>en_stop := True,
        en_snapshot := (en_snapshot en)\<lparr>ps_state := Stopped, ps_contributions := [], ps_presentation := []\<rparr>,
        en_notifications := (en_notifications en)\<lparr>ns_pending := []\<rparr>\<rparr>))"

definition revoke_epoch :: "host \<Rightarrow> host \<times> 64 word" where
  "revoke_epoch h =
     (let epoch = authority_epoch h + 1;
          sh = ho_shared h;
          h = h\<lparr>ho_shared := sh\<lparr>sh_authority := \<lparr>au_enabled = False, au_epoch = epoch\<rparr>\<rparr>\<rparr>
      in (host_changed (fold (\<lambda>r. with_entry r revoke_entry) (map snd (ho_registry h)) h), epoch))"

definition enable :: "host \<Rightarrow> host" where
  "enable h = h\<lparr>ho_shared := (ho_shared h)\<lparr>sh_authority := (sh_authority (ho_shared h))\<lparr>au_enabled := True\<rparr>\<rparr>\<rparr>"

definition resume :: "host \<Rightarrow> host" where
  "resume h = (if sh_stopped (ho_shared h) then h else enable h)"

definition resume_in_epoch :: "64 word \<Rightarrow> host \<Rightarrow> host \<times> bool" where
  "resume_in_epoch epoch h =
     (if sh_stopped (ho_shared h) \<or> authority_epoch h \<noteq> epoch then (h, False) else (enable h, True))"

text \<open>\<^verbatim>\<open>shutdown\<close> before its waits; \<^verbatim>\<open>stop_all\<close> is the revocation and the waits.\<close>

definition shutdown :: "host \<Rightarrow> host" where
  "shutdown h = fst (revoke_epoch (h\<lparr>ho_shared := (ho_shared h)\<lparr>sh_stopped := True\<rparr>\<rparr>))"

text \<open>The entries \<^verbatim>\<open>wait_revoked\<close> waits for.\<close>

definition revoked_entries :: "host \<Rightarrow> worker_entry list" where
  "revoked_entries h = filter (\<lambda>en. \<not> au_enabled (sh_authority (ho_shared h)) \<or> en_epoch en \<noteq> authority_epoch h)
     (registered h)"

section \<open>Observation\<close>

definition snapshots :: "host \<Rightarrow> plugin_snapshot list" where
  "snapshots h = sort_key ps_plugin_id (map en_snapshot (registered h))"

definition has_pending_notifications :: "host \<Rightarrow> bool" where
  "has_pending_notifications h = list_ex (\<lambda>en. ns_pending (en_notifications en) \<noteq> []) (registered h)"

definition has_pending_http_videos :: "host \<Rightarrow> bool" where
  "has_pending_http_videos h = list_ex (\<lambda>en. vs_pending (en_videos en) \<noteq> []) (registered h)"

definition find_entry :: "string \<Rightarrow> host \<Rightarrow> plugin_error + nat \<times> worker_entry" where
  "find_entry plugin h = (case map_of (ho_registry h) plugin of
       None \<Rightarrow> Inl UnknownPlugin
     | Some r \<Rightarrow> (case ho_entries h r of None \<Rightarrow> Inl UnknownPlugin | Some en \<Rightarrow> Inr (r, en)))"

definition settings_choices :: "string \<Rightarrow> host \<Rightarrow> plugin_error + SettingsChoices.snapshot" where
  "settings_choices plugin h =
     (if \<not> au_enabled (sh_authority (ho_shared h)) \<or> sh_stopped (ho_shared h) then Inl HostStopped
      else rbind (find_entry plugin h) (\<lambda>(_, en).
        if en_epoch en \<noteq> authority_epoch h \<or> ps_state (en_snapshot en) \<noteq> Running \<or> en_stop en
        then Inl PluginUnavailable else Inr (cat_current (en_choices en))))"

section \<open>Delivery\<close>

definition deliverable :: "nat \<Rightarrow> host \<Rightarrow> worker_entry \<Rightarrow> queued_notification \<Rightarrow> bool" where
  "deliverable now h en queued \<longleftrightarrow> \<not> sh_stopped (ho_shared h) \<and> authorized (ho_shared h) en
     \<and> \<not> en_stop en \<and> \<not> en_reaped en \<and> ps_state (en_snapshot en) = Running
     \<and> ps_generation (en_snapshot en) = qn_generation queued
     \<and> now - qn_created queued < NOTIFICATION_DELIVERY_TTL"

text \<open>
  One turn of \<^verbatim>\<open>dispatch_notifications\<close>, between taking and releasing the authority guard: it yields to
  media, finds the worker's queue empty, or takes one notification, which is delivered or dropped.
\<close>

datatype turn = Yield | Exhausted | Dropped | Delivered desktop_notification

definition pop_notification :: "worker_entry \<Rightarrow> worker_entry" where
  "pop_notification en = en\<lparr>en_notifications := (en_notifications en)\<lparr>ns_pending := tl (ns_pending (en_notifications en))\<rparr>\<rparr>"

definition dispatch_one :: "nat \<Rightarrow> nat \<Rightarrow> host \<Rightarrow> host \<times> turn" where
  "dispatch_one now r h =
     (if has_pending_http_videos h then (h, Yield)
      else case ho_entries h r of
          None \<Rightarrow> (h, Exhausted)
        | Some en \<Rightarrow> (case ns_pending (en_notifications en) of
              [] \<Rightarrow> (h, Exhausted)
            | queued # _ \<Rightarrow>
                (with_entry r (\<lambda>(sh, en). (sh, pop_notification en)) h,
                 if deliverable now h en queued then Delivered (qn_notification queued) else Dropped)))"

text \<open>
  The loops. Before a turn, other tasks may run: \<open>others k\<close> is what they do before the turn with \<open>k\<close> turns
  of the worker left, and the time by then.
\<close>

fun dispatch_entry :: "(nat \<Rightarrow> host \<Rightarrow> host \<times> nat) \<Rightarrow> nat \<Rightarrow> nat \<Rightarrow> host \<Rightarrow> host \<times> desktop_notification list \<times> bool" where
  "dispatch_entry others r 0 h = (h, [], False)"
| "dispatch_entry others r (Suc k) h =
     (case others k h of (h, now) \<Rightarrow>
       (case dispatch_one now r h of
          (h, Yield) \<Rightarrow> (h, [], True)
        | (h, Exhausted) \<Rightarrow> (h, [], False)
        | (h, Dropped) \<Rightarrow> dispatch_entry others r k h
        | (h, Delivered n) \<Rightarrow> (case dispatch_entry others r k h of (h, ns, stop) \<Rightarrow> (h, n # ns, stop))))"

fun dispatch_all :: "(nat \<Rightarrow> nat \<Rightarrow> host \<Rightarrow> host \<times> nat) \<Rightarrow> nat list \<Rightarrow> host \<Rightarrow> host \<times> desktop_notification list" where
  "dispatch_all others [] h = (h, [])"
| "dispatch_all others (r # rs) h =
     (case dispatch_entry (others r) r NOTIFICATION_QUEUE_CAPACITY h of
        (h, ns, stop) \<Rightarrow> if stop then (h, ns)
          else (case dispatch_all others rs h of (h, later) \<Rightarrow> (h, ns @ later)))"

definition dispatch_notifications :: "(nat \<Rightarrow> nat \<Rightarrow> host \<Rightarrow> host \<times> nat) \<Rightarrow> host \<Rightarrow> host \<times> desktop_notification list" where
  "dispatch_notifications others h = dispatch_all others (map snd (ho_registry h)) h"

definition takeable :: "nat \<Rightarrow> shared \<Rightarrow> worker_entry \<Rightarrow> queued_http_video \<Rightarrow> bool" where
  "takeable now sh en q \<longleftrightarrow> \<not> sh_stopped sh \<and> authorized sh en \<and> \<not> en_stop en \<and> \<not> en_reaped en
     \<and> ps_state (en_snapshot en) = Running
     \<and> (case sh_leases sh (qv_lease q) of None \<Rightarrow> False | Some g \<Rightarrow>
          gs_active g \<and> gs_generation g = ps_generation (en_snapshot en)
          \<and> gs_epoch g = au_epoch (sh_authority sh) \<and> gs_plugin_id g = ps_plugin_id (en_snapshot en))
     \<and> en_lease en = Some (qv_lease q)
     \<and> now < delivery_deadline q"

definition drain_videos :: "worker_entry \<Rightarrow> worker_entry" where
  "drain_videos en = en\<lparr>en_videos := (en_videos en)\<lparr>vs_pending := []\<rparr>\<rparr>"

fun take_videos :: "nat \<Rightarrow> nat list \<Rightarrow> host \<Rightarrow> host \<times> queued_http_video list" where
  "take_videos now [] h = (h, [])"
| "take_videos now (r # rs) h =
     (case ho_entries h r of
        None \<Rightarrow> take_videos now rs h
      | Some en \<Rightarrow>
          (case take_videos now rs (with_entry r (\<lambda>(sh, en). (sh, drain_videos en)) h) of
             (h', taken) \<Rightarrow> (h', filter (takeable now (ho_shared h) en) (vs_pending (en_videos en)) @ taken)))"

definition take_http_video_requests :: "nat \<Rightarrow> host \<Rightarrow> host \<times> queued_http_video list" where
  "take_http_video_requests now h = take_videos now (map snd (ho_registry h)) h"

section \<open>Registration\<close>

text \<open>\<^verbatim>\<open>Path::is_absolute\<close> on the Unix targets.\<close>

definition is_absolute :: "string \<Rightarrow> bool" where "is_absolute p \<longleftrightarrow> starts_with_char CHR ''/'' p"

definition new_snapshot :: "string \<Rightarrow> plugin_snapshot" where
  "new_snapshot plugin = \<lparr>ps_plugin_id = plugin, ps_state = Starting, ps_generation = 0, ps_instance_id = None,
     ps_restart_count = 0, ps_contributions = [], ps_presentation = [], ps_last_error = None\<rparr>"

definition new_entry :: "nat \<Rightarrow> string \<Rightarrow> 64 word \<Rightarrow> worker_entry" where
  "new_entry now plugin epoch = \<lparr>en_snapshot = new_snapshot plugin, en_numeric = [], en_stop = False,
     en_epoch = epoch, en_done = False, en_reaped = True, en_notifications = new_notifications now,
     en_lease = None, en_videos = new_videos now, en_choices = empty_catalog\<rparr>"

definition new_supervisor :: "worker_spec \<Rightarrow> supervisor" where
  "new_supervisor spec = \<lparr>su_spec = spec, su_phase = Deciding, su_restarts = 0, su_run = None,
     su_replies = [], su_spawned = 0\<rparr>"

definition replaceable :: "worker_entry \<Rightarrow> bool" where
  "replaceable en \<longleftrightarrow> ps_state (en_snapshot en) \<in> {Stopped, Failed} \<and> en_done en \<and> en_reaped en"

definition invalid_spec :: "ext \<Rightarrow> worker_spec \<Rightarrow> bool" where
  "invalid_spec X spec \<longleftrightarrow> \<not> is_absolute (sp_executable spec) \<or> \<not> is_ok (validate_plugin_id (sp_plugin_id spec))
     \<or> (sp_http_video spec \<noteq> None \<and> sp_configuration spec = None)
     \<or> (case sp_configuration spec of None \<Rightarrow> False | Some c \<Rightarrow> \<not> is_ok (validate_configuration X c))"

text \<open>The entry goes into the store under a new reference, with its supervisor and an empty channel.\<close>

definition insert_entry :: "worker_spec \<Rightarrow> worker_entry \<Rightarrow> host \<Rightarrow> host" where
  "insert_entry spec en h = h\<lparr>
     ho_registry := AList.update (sp_plugin_id spec) (ho_next h) (ho_registry h),
     ho_entries := (ho_entries h)(ho_next h \<mapsto> en),
     ho_supervisors := (ho_supervisors h)(ho_next h \<mapsto> new_supervisor spec),
     ho_commands := (ho_commands h)(ho_next h := []),
     ho_next := ho_next h + 1\<rparr>"

definition register :: "ext \<Rightarrow> nat \<Rightarrow> worker_spec \<Rightarrow> 64 word option \<Rightarrow> host \<Rightarrow> host \<times> (plugin_error + plugin_snapshot)" where
  "register X now spec expected h =
     (if sh_stopped (ho_shared h) then (h, Inl HostStopped)
      else if invalid_spec X spec then (h, Inl InvalidWorker)
      else if \<not> au_enabled (sh_authority (ho_shared h))
        \<or> (case expected of None \<Rightarrow> False | Some epoch \<Rightarrow> epoch \<noteq> authority_epoch h)
      then (h, Inl PluginUnavailable)
      else
        let en = new_entry now (sp_plugin_id spec) (authority_epoch h)
        in case find_entry (sp_plugin_id spec) h of
            Inr (_, previous) \<Rightarrow>
              if \<not> replaceable previous then (h, Inl AlreadyRegistered)
              else
                let en = en\<lparr>en_snapshot := (en_snapshot en)\<lparr>ps_generation := ps_generation (en_snapshot previous)\<rparr>\<rparr>
                in (host_changed (insert_entry spec en h), Inr (en_snapshot en))
          | Inl _ \<Rightarrow>
              if MAX_WORKERS \<le> length (ho_registry h) then (h, Inl Capacity)
              else (host_changed (insert_entry spec en h), Inr (en_snapshot en)))"

text \<open>\<^verbatim>\<open>stop\<close> and \<^verbatim>\<open>remove\<close> up to their wait, under the authority guard.\<close>

definition stop_entry :: "shared \<times> worker_entry \<Rightarrow> shared \<times> worker_entry" where
  "stop_entry se = (case revoke_generation se of (sh, en) \<Rightarrow> (sh, en\<lparr>en_stop := True\<rparr>))"

definition begin_stop :: "string \<Rightarrow> host \<Rightarrow> host \<times> (plugin_error + nat)" where
  "begin_stop plugin h = (case find_entry plugin h of
       Inl e \<Rightarrow> (h, Inl e)
     | Inr (r, _) \<Rightarrow> (with_entry r stop_entry h, Inr r))"

definition finish_stop :: "nat \<Rightarrow> host \<Rightarrow> plugin_error + unit" where
  "finish_stop r h = (case ho_entries h r of None \<Rightarrow> Inl UnknownPlugin
     | Some en \<Rightarrow> reject (\<not> en_reaped en) WorkerError)"

definition finish_remove :: "string \<Rightarrow> nat \<Rightarrow> host \<Rightarrow> host \<times> (plugin_error + unit)" where
  "finish_remove plugin r h = (case finish_stop r h of
       Inl e \<Rightarrow> (h, Inl e)
     | Inr _ \<Rightarrow> (case map_of (ho_registry h) plugin of
           Some current \<Rightarrow>
             if current = r
             then (host_changed (h\<lparr>ho_registry := AList.delete plugin (ho_registry h)\<rparr>), Inr ())
             else (h, Inl AlreadyRegistered)
         | None \<Rightarrow> (h, Inr ())))"

text \<open>What \<^verbatim>\<open>wait_stopped\<close> waits for.\<close>

definition stopped_wait :: "nat \<Rightarrow> host \<Rightarrow> bool" where
  "stopped_wait r h \<longleftrightarrow> pred_option en_done (ho_entries h r)"

section \<open>Actions\<close>

record action_budget =
  ab_total :: nat
  ab_worker :: nat

definition budget_bad :: "action_budget \<Rightarrow> bool" where
  "budget_bad b \<longleftrightarrow> ab_total b = 0 \<or> milliseconds MAX_ACTION_DEADLINE_MS < ab_total b
     \<or> ab_worker b = 0 \<or> ab_total b < ab_worker b"

definition current_instance :: "string \<Rightarrow> plugin_snapshot \<Rightarrow> bool" where
  "current_instance instance s \<longleftrightarrow> ps_state s = Running \<and> ps_instance_id s = Some instance"

text \<open>
  \<^verbatim>\<open>action_in_epoch_with_budget\<close> before the authority guard: early checks, a request id, and the message
  it would send. The answer is the entry found and the request's id.
\<close>

definition prepare_action :: "ext \<Rightarrow> string \<Rightarrow> string \<Rightarrow> string \<Rightarrow> json \<Rightarrow> action_budget \<Rightarrow> host
    \<Rightarrow> host \<times> (plugin_error + nat \<times> string)" where
  "prepare_action X plugin instance action params budget h =
     (if sh_stopped (ho_shared h) then (h, Inl HostStopped)
      else if budget_bad budget then (h, Inl InvalidRequest)
      else case find_entry plugin h of
          Inl e \<Rightarrow> (h, Inl e)
        | Inr (r, en) \<Rightarrow>
            if \<not> current_instance instance (en_snapshot en) then (h, Inl PluginUnavailable)
            else if \<not> advertises (ps_contributions (en_snapshot en)) action params then (h, Inl UnknownAction)
            else
              let n = sh_next_request (ho_shared h);
                  rid = decimal (unat n);
                  h = h\<lparr>ho_shared := (ho_shared h)\<lparr>sh_next_request := n + 1\<rparr>\<rparr>
              in if is_ok (validate_host_message X (Action rid action params (of_nat (max (as_millis (ab_worker budget)) 1))))
                 then (h, Inr (r, rid)) else (h, Inl InvalidRequest))"

text \<open>The channel to the supervisor: its answer to \<^verbatim>\<open>try_send\<close> and what it then holds.\<close>

definition send_command :: "nat \<Rightarrow> control \<Rightarrow> host \<Rightarrow> host \<times> plugin_error option" where
  "send_command r c h = (case ho_supervisors h r of
       None \<Rightarrow> (h, Some PluginUnavailable)
     | Some su \<Rightarrow>
         if su_phase su = Finished then (h, Some PluginUnavailable)
         else if CONTROL_QUEUE_CAPACITY \<le> length (ho_commands h r) then (h, Some Busy)
         else (h\<lparr>ho_commands := (ho_commands h)(r := ho_commands h r @ [c])\<rparr>, None))"

text \<open>The part under the authority guard; both deadlines count from \<open>since\<close>.\<close>

definition enqueue_action :: "nat \<Rightarrow> string \<Rightarrow> string \<Rightarrow> string \<Rightarrow> json \<Rightarrow> action_budget \<Rightarrow> 64 word \<Rightarrow> nat \<Rightarrow> host
    \<Rightarrow> host \<times> plugin_error option" where
  "enqueue_action r rid instance action params budget epoch since h =
     (case ho_entries h r of
        None \<Rightarrow> (h, Some PluginUnavailable)
      | Some en \<Rightarrow>
          if sh_stopped (ho_shared h) then (h, Some HostStopped)
          else if \<not> au_enabled (sh_authority (ho_shared h)) \<or> authority_epoch h \<noteq> epoch \<or> en_epoch en \<noteq> epoch
          then (h, Some PluginUnavailable)
          else if \<not> current_instance instance (en_snapshot en) then (h, Some PluginUnavailable)
          else if \<not> advertises (ps_contributions (en_snapshot en)) action params then (h, Some UnknownAction)
          else send_command r (ControlAction \<lparr>rq_id = rid, rq_generation = ps_generation (en_snapshot en),
              rq_action = action, rq_params = params, rq_numeric = map_of (en_numeric en) action,
              rq_deadline = since + ab_total budget, rq_worker_deadline = since + ab_worker budget\<rparr>) h)"

datatype received = Replied "plugin_error + json" | ReplyDropped | TimedOut

definition finish_action :: "nat \<Rightarrow> received \<Rightarrow> host \<Rightarrow> plugin_error + json" where
  "finish_action r received h =
     (if \<not> pred_option (authorized (ho_shared h)) (ho_entries h r) then Inl PluginUnavailable
      else case received of
          Replied result \<Rightarrow> result
        | ReplyDropped \<Rightarrow> Inl PluginUnavailable
        | TimedOut \<Rightarrow> Inl DeadlineExceeded)"

text \<open>\<^verbatim>\<open>CancelOnDrop\<close>: cancellation that meets a full queue is left to the deadline.\<close>

definition cancel_on_drop :: "nat \<Rightarrow> string \<Rightarrow> host \<Rightarrow> host" where
  "cancel_on_drop r rid h = fst (send_command r (ControlCancel rid) h)"

section \<open>Supervision in the store\<close>

text \<open>
  A step of the supervisor of entry \<open>r\<close>. A control it receives is the oldest in its channel, and settling
  drains the channel.
\<close>

fun event_commands :: "supervisor_event \<Rightarrow> control list \<Rightarrow> control list option" where
  "event_commands (SEvent (GControl now c)) q = (case (c, q) of (Some c, d # rest) \<Rightarrow> if c = d then Some rest else None
     | (None, _) \<Rightarrow> None | _ \<Rightarrow> None)"
| "event_commands (SBackoff c) q = (case (c, q) of (Some c, d # rest) \<Rightarrow> if c = d then Some rest else None
     | _ \<Rightarrow> None)"
| "event_commands (SDrain cs) q = (if cs = q then Some [] else None)"
| "event_commands _ q = Some q"

definition host_supervise :: "ext \<Rightarrow> nat \<Rightarrow> supervisor_event \<Rightarrow> host \<Rightarrow> host option" where
  "host_supervise X r ev h = (case (ho_entries h r, ho_supervisors h r, event_commands ev (ho_commands h r)) of
       (Some en, Some su, Some q) \<Rightarrow>
         (case supervise_step X ev su (ho_shared h, en) of
            None \<Rightarrow> None
          | Some (su, (sh, en)) \<Rightarrow> Some (h\<lparr>ho_shared := sh, ho_entries := (ho_entries h)(r \<mapsto> en),
              ho_supervisors := (ho_supervisors h)(r \<mapsto> su), ho_commands := (ho_commands h)(r := q)\<rparr>))
     | _ \<Rightarrow> None)"

text \<open>The writer task of entry \<open>r\<close> takes its next message, or ends and closes the channel.\<close>

definition writer_takes :: "nat \<Rightarrow> bool \<Rightarrow> host \<Rightarrow> host" where
  "writer_takes r ends h = (case ho_supervisors h r of
       None \<Rightarrow> h
     | Some su \<Rightarrow> h\<lparr>ho_supervisors := (ho_supervisors h)(r \<mapsto> su\<lparr>su_run := map_option (\<lambda>gr.
         gr\<lparr>gr_pipes := \<lparr>pw_writer = tl (pw_writer (gr_pipes gr)),
              pw_open = (pw_open (gr_pipes gr) \<and> \<not> ends)\<rparr>\<rparr>) (su_run su)\<rparr>)\<rparr>)"

end
