(* ===== verification/Invariant.thy ===== *)
theory Invariant
  imports Host
begin

text \<open>
  The invariant of one worker entry and the contract every operation on an entry keeps towards the rest of
  the host: \<open>entry_ok\<close> and \<open>confined\<close>. An operation is confined if it touches no authority, only its own
  lease and numeric leases, and revives nothing; such steps compose, and the host's invariant needs to know
  nothing else about them.
\<close>

section \<open>The invariant of an entry\<close>

definition lease_ok :: "shared \<Rightarrow> worker_entry \<Rightarrow> bool" where
  "lease_ok sh en \<longleftrightarrow> (\<forall>i. en_lease en = Some i \<longrightarrow> (\<exists>g. sh_leases sh i = Some g
     \<and> gs_epoch g = en_epoch en \<and> gs_plugin_id g = ps_plugin_id (en_snapshot en)))
     \<and> (\<forall>i. ps_instance_id (en_snapshot en) = Some i \<longrightarrow> en_lease en = Some i \<and> lease_active sh i)"

definition queues_ok :: "shared \<Rightarrow> worker_entry \<Rightarrow> bool" where
  "queues_ok sh en \<longleftrightarrow> length (vs_pending (en_videos en)) \<le> HTTP_VIDEO_QUEUE_CAPACITY
     \<and> (\<forall>q \<in> set (vs_pending (en_videos en)). en_lease en = Some (qv_lease q) \<and> lease_active sh (qv_lease q))
     \<and> length (ns_pending (en_notifications en)) \<le> NOTIFICATION_QUEUE_CAPACITY
     \<and> (ns_pending (en_notifications en) \<noteq> [] \<longrightarrow> ps_state (en_snapshot en) = Running)"

definition numeric_ok :: "shared \<Rightarrow> (string \<times> nat) list \<Rightarrow> bool" where
  "numeric_ok sh registry \<longleftrightarrow> distinct (map fst registry) \<and> distinct (map snd registry)
     \<and> (\<forall>(a, r) \<in> set registry. r < sh_next_numeric sh
          \<and> (\<exists>l. sh_numeric sh r = Some l \<and> \<not> nl_revoked l \<and> g_action_id (nl_grant l) = a))"

definition entry_ok :: "shared \<Rightarrow> worker_entry \<Rightarrow> bool" where
  "entry_ok sh en \<longleftrightarrow> lease_ok sh en \<and> queues_ok sh en \<and> numeric_ok sh (en_numeric en)"

lemmas entry_defs = entry_ok_def lease_ok_def queues_ok_def numeric_ok_def

definition numeric_refs :: "worker_entry \<Rightarrow> nat set" where
  "numeric_refs en = snd ` set (en_numeric en)"

section \<open>Confined steps\<close>

text \<open>Leases only lose activity, and only the entry's own.\<close>

fun lease_le :: "generation_state option \<Rightarrow> generation_state option \<Rightarrow> bool" where
  "lease_le (Some g) (Some g') \<longleftrightarrow> gs_epoch g' = gs_epoch g \<and> gs_plugin_id g' = gs_plugin_id g
     \<and> gs_generation g' = gs_generation g \<and> (gs_active g' \<longrightarrow> gs_active g)"
| "lease_le None g' \<longleftrightarrow> g' = None"
| "lease_le (Some g) None = False"

definition leases_shrink :: "string option \<Rightarrow> shared \<Rightarrow> shared \<Rightarrow> bool" where
  "leases_shrink own sh sh' \<longleftrightarrow> (\<forall>i. lease_le (sh_leases sh i) (sh_leases sh' i)
     \<and> (own \<noteq> Some i \<longrightarrow> sh_leases sh' i = sh_leases sh i))"

lemma lease_le_refl [simp]: "lease_le g g"
  by (cases g) auto

lemma lease_le_trans: "lease_le a b \<Longrightarrow> lease_le b c \<Longrightarrow> lease_le a c"
  by (cases a; cases b; cases c) auto

lemma lease_le_SomeE: "lease_le (Some g) x \<Longrightarrow> (\<And>g'. x = Some g' \<Longrightarrow> gs_epoch g' = gs_epoch g \<Longrightarrow>
   gs_plugin_id g' = gs_plugin_id g \<Longrightarrow> gs_generation g' = gs_generation g \<Longrightarrow> (gs_active g' \<Longrightarrow> gs_active g) \<Longrightarrow> P) \<Longrightarrow> P"
  by (cases x) auto

definition numeric_grows :: "nat set \<Rightarrow> shared \<Rightarrow> shared \<Rightarrow> nat set \<Rightarrow> bool" where
  "numeric_grows own sh sh' own' \<longleftrightarrow> sh_next_numeric sh \<le> sh_next_numeric sh'
     \<and> (\<forall>r. r < sh_next_numeric sh \<longrightarrow> r \<notin> own \<longrightarrow> sh_numeric sh' r = sh_numeric sh r)
     \<and> (\<forall>r \<in> own'. r \<in> own \<or> (sh_next_numeric sh \<le> r \<and> r < sh_next_numeric sh'))"

definition confined :: "shared \<times> worker_entry \<Rightarrow> shared \<times> worker_entry \<Rightarrow> bool" where
  "confined = (\<lambda>(sh, en) (sh', en').
     entry_ok sh en \<longrightarrow> entry_ok sh' en'
     \<and> sh_authority sh' = sh_authority sh \<and> sh_stopped sh' = sh_stopped sh
     \<and> en_epoch en' = en_epoch en \<and> en_lease en' = en_lease en
     \<and> ps_plugin_id (en_snapshot en') = ps_plugin_id (en_snapshot en)
     \<and> leases_shrink (en_lease en) sh sh'
     \<and> (\<forall>i. en_lease en = Some i \<longrightarrow> lease_active sh' i \<longrightarrow> en_stop en' = en_stop en)
     \<and> numeric_grows (numeric_refs en) sh sh' (numeric_refs en'))"

lemma leases_shrink_refl [simp]: "sh_leases sh' = sh_leases sh \<Longrightarrow> leases_shrink own sh sh'"
  by (simp add: leases_shrink_def)

lemma leases_shrink_trans: "leases_shrink own sh sh' \<Longrightarrow> leases_shrink own sh' sh'' \<Longrightarrow> leases_shrink own sh sh''"
  unfolding leases_shrink_def by (auto intro: lease_le_trans)

lemma shrink_active: "leases_shrink own sh sh' \<Longrightarrow> lease_active sh' i \<Longrightarrow> lease_active sh i"
  unfolding leases_shrink_def lease_active_def
  by (cases "sh_leases sh i"; cases "sh_leases sh' i") (force dest: spec [of _ i])+

lemma shrink_other: "leases_shrink own sh sh' \<Longrightarrow> own \<noteq> Some i \<Longrightarrow> lease_active sh' i = lease_active sh i"
  by (simp add: leases_shrink_def lease_active_def)

lemma numeric_grows_refl [simp]:
  "sh_numeric sh' = sh_numeric sh \<Longrightarrow> sh_next_numeric sh' = sh_next_numeric sh \<Longrightarrow> own' \<subseteq> own
   \<Longrightarrow> numeric_grows own sh sh' own'"
  by (auto simp: numeric_grows_def)

lemma numeric_grows_trans:
  assumes 1: "numeric_grows own sh sh' own'" and 2: "numeric_grows own' sh' sh'' own''"
  shows "numeric_grows own sh sh'' own''"
  unfolding numeric_grows_def
proof (intro conjI allI impI ballI)
  fix r assume r: "r < sh_next_numeric sh" "r \<notin> own"
  then have "r \<notin> own'" "sh_numeric sh' r = sh_numeric sh r" using 1 by (auto simp: numeric_grows_def)
  then show "sh_numeric sh'' r = sh_numeric sh r" using 1 2 r by (auto simp: numeric_grows_def)
next
  show "sh_next_numeric sh \<le> sh_next_numeric sh''" using 1 2 by (simp add: numeric_grows_def)
next
  fix r assume "r \<in> own''"
  then show "r \<in> own \<or> (sh_next_numeric sh \<le> r \<and> r < sh_next_numeric sh'')"
    using 1 2 by (force simp: numeric_grows_def)
qed

lemma confined_trans: "confined a b \<Longrightarrow> confined b c \<Longrightarrow> confined a c"
  by (auto simp: confined_def split: prod.splits intro: leases_shrink_trans numeric_grows_trans dest: shrink_active)

lemma confined_refl [simp]: "confined se se"
  by (auto simp: confined_def split: prod.splits)

text \<open>What a step leaves alone.\<close>

lemma confined_entry:
  assumes "en_epoch en' = en_epoch en" "en_lease en' = en_lease en" "en_stop en' = en_stop en"
    "ps_plugin_id (en_snapshot en') = ps_plugin_id (en_snapshot en)" "numeric_refs en' \<subseteq> numeric_refs en"
    "entry_ok sh en \<Longrightarrow> entry_ok sh en'"
  shows "confined (sh, en) (sh, en')"
  using assms by (simp add: confined_def)

lemma entry_ok_shared:
  assumes "sh_leases sh' = sh_leases sh" "sh_numeric sh' = sh_numeric sh" "sh_next_numeric sh' = sh_next_numeric sh"
  shows "entry_ok sh' en = entry_ok sh en"
  using assms by (simp add: entry_defs lease_active_def)

lemma confined_shared:
  assumes "sh_authority sh' = sh_authority sh" "sh_stopped sh' = sh_stopped sh" "sh_leases sh' = sh_leases sh"
    "sh_numeric sh' = sh_numeric sh" "sh_next_numeric sh' = sh_next_numeric sh"
  shows "confined (sh, en) (sh', en)"
  using assms entry_ok_shared [of sh' sh en] by (simp add: confined_def)

section \<open>The operations of an entry\<close>

lemma revoke_numeric_simps [simp]:
  "sh_authority (revoke_numeric rs sh) = sh_authority sh" "sh_stopped (revoke_numeric rs sh) = sh_stopped sh"
  "sh_leases (revoke_numeric rs sh) = sh_leases sh" "sh_next_numeric (revoke_numeric rs sh) = sh_next_numeric sh"
  "sh_rate (revoke_numeric rs sh) = sh_rate sh"
  by (simp_all add: revoke_numeric_def)

lemma revoke_lease_simps [simp]:
  "sh_authority (revoke_lease i sh) = sh_authority sh" "sh_stopped (revoke_lease i sh) = sh_stopped sh"
  "sh_numeric (revoke_lease i sh) = sh_numeric sh" "sh_next_numeric (revoke_lease i sh) = sh_next_numeric sh"
  by (simp_all add: revoke_lease_def split: option.splits)

lemma revoke_lease_shrink: "leases_shrink (Some i) sh (revoke_lease i sh)"
  by (auto simp: leases_shrink_def revoke_lease_def split: option.splits)

lemma revoke_lease_inactive [simp]: "\<not> lease_active (revoke_lease i sh) i"
  by (auto simp: lease_active_def revoke_lease_def split: option.splits)

lemma revoke_numeric_grows: "numeric_grows (set rs) sh (revoke_numeric rs sh) {}"
  by (auto simp: numeric_grows_def revoke_numeric_def)

lemma shrink_lease_ok:
  assumes "lease_ok sh en" "leases_shrink own sh sh'" "en_lease en' = en_lease en" "en_epoch en' = en_epoch en"
    "ps_plugin_id (en_snapshot en') = ps_plugin_id (en_snapshot en)" "ps_instance_id (en_snapshot en') = None"
  shows "lease_ok sh' en'"
proof -
  have "\<exists>g'. sh_leases sh' i = Some g' \<and> gs_epoch g' = en_epoch en \<and> gs_plugin_id g' = ps_plugin_id (en_snapshot en)"
    if own: "en_lease en = Some i" for i
  proof -
    obtain g where "sh_leases sh i = Some g" "gs_epoch g = en_epoch en" "gs_plugin_id g = ps_plugin_id (en_snapshot en)"
      using assms(1) own by (auto simp: lease_ok_def)
    moreover have "lease_le (sh_leases sh i) (sh_leases sh' i)" using assms(2) by (simp add: leases_shrink_def)
    ultimately show ?thesis by (auto elim: lease_le_SomeE)
  qed
  then show ?thesis using assms(3-6) by (simp add: lease_ok_def)
qed

lemma revoke_generation_facts:
  assumes "revoke_generation (sh, en) = (sh', en')"
  shows "en_lease en' = en_lease en" "en_stop en' = en_stop en" "en_epoch en' = en_epoch en" "en_done en' = en_done en"
    "en_reaped en' = en_reaped en" "en_snapshot en' = (en_snapshot en)\<lparr>ps_instance_id := None\<rparr>"
    "vs_pending (en_videos en') = []" "en_numeric en' = []" "en_notifications en' = en_notifications en"
    "en_lease en = Some i \<Longrightarrow> \<not> lease_active sh' i" "leases_shrink (en_lease en) sh sh'"
    "sh_authority sh' = sh_authority sh" "sh_stopped sh' = sh_stopped sh"
    "numeric_grows (numeric_refs en) sh sh' {}"
proof -
  have sh': "sh' = (case en_lease en of None \<Rightarrow> revoke_numeric (map snd (en_numeric en)) sh
      | Some i \<Rightarrow> revoke_lease i (revoke_numeric (map snd (en_numeric en)) sh))"
    using assms by (auto simp: revoke_generation_def Let_def)
  show "leases_shrink (en_lease en) sh sh'"
    by (cases "en_lease en") (auto simp: sh' intro: leases_shrink_trans [OF _ revoke_lease_shrink])
  show "en_lease en = Some i \<Longrightarrow> \<not> lease_active sh' i" by (simp add: sh')
  show "numeric_grows (numeric_refs en) sh sh' {}"
    using revoke_numeric_grows [of "map snd (en_numeric en)" sh]
    by (cases "en_lease en") (auto simp: sh' numeric_refs_def numeric_grows_def)
qed (use assms in \<open>auto simp: revoke_generation_def Let_def split: option.splits\<close>)

lemma confined_revoke: "confined se (revoke_generation se)"
proof (cases se)
  case (Pair sh en)
  obtain sh' en' where r: "revoke_generation (sh, en) = (sh', en')" by (cases "revoke_generation (sh, en)")
  note f = revoke_generation_facts [OF r]
  have "entry_ok sh' en'" if "entry_ok sh en"
    using that f shrink_lease_ok [of sh en "en_lease en" sh' en']
    by (auto simp: entry_ok_def queues_ok_def numeric_ok_def)
  then show ?thesis using f Pair r by (simp add: confined_def numeric_refs_def)
qed

text \<open>Updates of the snapshot that leave identities alone.\<close>

definition keeps_identity :: "(plugin_snapshot \<Rightarrow> plugin_snapshot) \<Rightarrow> bool" where
  "keeps_identity f \<longleftrightarrow> (\<forall>s. ps_plugin_id (f s) = ps_plugin_id s \<and> ps_instance_id (f s) = ps_instance_id s)"

lemma confined_update: assumes "keeps_identity f" shows "confined se (update_entry f se)"
proof (cases se)
  case (Pair sh en)
  let ?s = "f (en_snapshot en)"
  let ?ns = "if ps_state ?s \<noteq> Running then (en_notifications en)\<lparr>ns_pending := []\<rparr> else en_notifications en"
  let ?en = "en\<lparr>en_snapshot := ?s, en_notifications := ?ns\<rparr>"
  have id: "ps_plugin_id ?s = ps_plugin_id (en_snapshot en)" "ps_instance_id ?s = ps_instance_id (en_snapshot en)"
    using assms by (simp_all add: keeps_identity_def)
  have "queues_ok sh ?en" if "queues_ok sh en" using that by (simp add: queues_ok_def)
  then have "entry_ok sh ?en" if "entry_ok sh en" using that id by (simp add: entry_ok_def lease_ok_def)
  then have "confined (sh, en) (sh, ?en)" using id by (intro confined_entry) (simp_all add: numeric_refs_def)
  moreover have "confined (sh, ?en) (sh\<lparr>sh_changed := sh_changed sh + 1\<rparr>, ?en)" by (rule confined_shared) simp_all
  moreover have "update_entry f (sh, en) = (sh\<lparr>sh_changed := sh_changed sh + 1\<rparr>, ?en)"
    by (simp add: update_entry_def Let_def)
  ultimately show ?thesis using confined_trans [of "(sh, en)" "(sh, ?en)"] Pair by (simp only:)
qed

lemma confined_fail: "confined se (fail_entry code se)"
  unfolding fail_entry_def by (rule confined_trans [OF confined_revoke confined_update]) (simp add: keeps_identity_def)

lemma confined_close: "confined se (close_generation out se)"
  unfolding close_generation_def by (rule confined_trans [OF confined_revoke confined_update]) (simp add: keeps_identity_def)

lemma confined_settle: "confined se (settle_entry se)"
  unfolding settle_entry_def by (rule confined_update) (simp add: keeps_identity_def)

lemma entry_ok_flags [simp]:
  "entry_ok sh (en\<lparr>en_reaped := b\<rparr>) = entry_ok sh en" "entry_ok sh (en\<lparr>en_done := b\<rparr>) = entry_ok sh en"
  "entry_ok sh (en\<lparr>en_stop := b\<rparr>) = entry_ok sh en" "entry_ok sh (en\<lparr>en_choices := c\<rparr>) = entry_ok sh en"
  by (simp_all add: entry_defs)

lemma numeric_refs_flags [simp]:
  "numeric_refs (en\<lparr>en_reaped := b\<rparr>) = numeric_refs en" "numeric_refs (en\<lparr>en_done := b\<rparr>) = numeric_refs en"
  "numeric_refs (en\<lparr>en_stop := b\<rparr>) = numeric_refs en" "numeric_refs (en\<lparr>en_choices := c\<rparr>) = numeric_refs en"
  by (simp_all add: numeric_refs_def)

lemma confined_flags: "confined se (set_reaped b se)" "confined se (set_done se)"
  by (cases se; auto simp: set_reaped_def set_done_def intro: confined_entry)+

lemma confined_stop: "confined se (stop_entry se)"
proof (cases se)
  case (Pair sh en)
  obtain sh' en' where r: "revoke_generation (sh, en) = (sh', en')" by (cases "revoke_generation (sh, en)")
  have "confined (sh, en) (sh', en'\<lparr>en_stop := True\<rparr>)"
    using confined_revoke [of "(sh, en)"] revoke_generation_facts [OF r] by (simp add: r confined_def)
  then show ?thesis by (simp add: stop_entry_def Pair r)
qed

text \<open>The queues.\<close>

lemma confined_queues:
  assumes "sh_authority sh' = sh_authority sh" "sh_stopped sh' = sh_stopped sh" "sh_leases sh' = sh_leases sh"
    "sh_numeric sh' = sh_numeric sh" "sh_next_numeric sh' = sh_next_numeric sh"
    "queues_ok sh en \<Longrightarrow> queues_ok sh (en\<lparr>en_notifications := ns, en_videos := vs\<rparr>)"
  shows "confined (sh, en) (sh', en\<lparr>en_notifications := ns, en_videos := vs\<rparr>)"
proof (rule confined_trans [OF confined_shared confined_entry])
  have "entry_ok sh (en\<lparr>en_notifications := ns, en_videos := vs\<rparr>)" if "entry_ok sh en"
    using that assms(6) by (simp add: entry_ok_def lease_ok_def)
  then show "entry_ok sh' (en\<lparr>en_notifications := ns, en_videos := vs\<rparr>)" if "entry_ok sh' en"
    using that entry_ok_shared [OF assms(3-5)] by simp
qed (simp_all add: assms numeric_refs_def)

lemma confined_notification_queue:
  assumes "queues_ok sh en \<Longrightarrow> queues_ok sh (en\<lparr>en_notifications := ns\<rparr>)"
  shows "confined (sh, en) (sh\<lparr>sh_rate := r\<rparr>, en\<lparr>en_notifications := ns\<rparr>)"
    and "confined (sh, en) (sh, en\<lparr>en_notifications := ns\<rparr>)"
proof -
  have "en\<lparr>en_notifications := ns, en_videos := en_videos en\<rparr> = en\<lparr>en_notifications := ns\<rparr>" by (cases en) simp
  then show "confined (sh, en) (sh\<lparr>sh_rate := r\<rparr>, en\<lparr>en_notifications := ns\<rparr>)"
    "confined (sh, en) (sh, en\<lparr>en_notifications := ns\<rparr>)"
    using confined_queues [where sh = sh and sh' = "sh\<lparr>sh_rate := r\<rparr>" and en = en and ns = ns and vs = "en_videos en"]
      confined_queues [where sh = sh and sh' = sh and en = en and ns = ns and vs = "en_videos en"] assms by simp_all
qed

lemma confined_video_queue:
  assumes "queues_ok sh en \<Longrightarrow> queues_ok sh (en\<lparr>en_videos := vs\<rparr>)"
  shows "confined (sh, en) (sh, en\<lparr>en_videos := vs\<rparr>)"
proof -
  have "en\<lparr>en_notifications := en_notifications en, en_videos := vs\<rparr> = en\<lparr>en_videos := vs\<rparr>" by (cases en) simp
  then show ?thesis using confined_queues [where sh = sh and sh' = sh and en = en and ns = "en_notifications en" and vs = vs] assms by simp
qed

lemma confined_notification: "confined se (fst (queue_notification now n se))"
proof (cases se)
  case (Pair sh en)
  let ?kept = "filter (\<lambda>q. now - qn_created q < NOTIFICATION_DELIVERY_TTL) (ns_pending (en_notifications en))"
  have "queues_ok sh (en\<lparr>en_notifications := ns\<rparr>)"
    if "queues_ok sh en" "can_queue en" "ns_pending ns = ?kept \<or>
      (length ?kept < NOTIFICATION_QUEUE_CAPACITY \<and> (\<exists>q. ns_pending ns = ?kept @ [q]))" for ns
    using that by (auto simp: queues_ok_def can_queue_def intro: order_trans [OF length_filter_le])
  then show ?thesis unfolding Pair
    by (auto simp: queue_notification_def Let_def intro!: confined_notification_queue)
qed

lemma confined_video: "confined se (fst (queue_http_video X now grant i u title admission se))"
proof (cases se)
  case (Pair sh en)
  let ?kept = "filter (\<lambda>q. now < delivery_deadline q) (vs_pending (en_videos en))"
  have ok: "queues_ok sh (en\<lparr>en_videos := vs\<rparr>)"
    if "queues_ok sh en" "vs_pending vs = ?kept \<or> (length ?kept < HTTP_VIDEO_QUEUE_CAPACITY
      \<and> (\<exists>q. vs_pending vs = ?kept @ [q] \<and> en_lease en = Some (qv_lease q) \<and> lease_active sh (qv_lease q)))" for vs
    using that by (auto simp: queues_ok_def intro: order_trans [OF length_filter_le])
  show ?thesis
  proof (cases "queue_http_video X now grant i u title admission (sh, en) = ((sh, en), False)")
    case False
    then obtain vs where "fst (queue_http_video X now grant i u title admission (sh, en)) = (sh, en\<lparr>en_videos := vs\<rparr>)"
      "vs_pending vs = ?kept \<or> (length ?kept < HTTP_VIDEO_QUEUE_CAPACITY
      \<and> (\<exists>q. vs_pending vs = ?kept @ [q] \<and> en_lease en = Some (qv_lease q) \<and> lease_active sh (qv_lease q)))"
      by (auto simp: queue_http_video_def Let_def refresh_videos_def video_refused_def split: option.split_asm if_split_asm)
    then show ?thesis using ok Pair confined_video_queue by simp
  qed (use Pair in simp)
qed

lemmas confined_steps = confined_revoke confined_fail confined_close confined_settle confined_flags confined_stop

end
