(* ===== verification/Numeric.thy ===== *)
theory Numeric
  imports Invariant
begin

text \<open>
  Replacement of contributions and the leases of numeric controls: which leases survive a new snapshot of
  the worker, which end, and that the registry stays coherent with the store of leases.
\<close>

section \<open>One pass over the grants\<close>

definition live_numeric :: "shared \<Rightarrow> string \<times> nat \<Rightarrow> bool" where
  "live_numeric sh = (\<lambda>(a, r). r < sh_next_numeric sh
     \<and> (\<exists>l. sh_numeric sh r = Some l \<and> \<not> nl_revoked l \<and> g_action_id (nl_grant l) = a))"

lemma numeric_ok_iff: "numeric_ok sh registry \<longleftrightarrow> distinct (map fst registry) \<and> distinct (map snd registry)
   \<and> (\<forall>e \<in> set registry. live_numeric sh e)"
  by (auto simp: numeric_ok_def live_numeric_def)

lemma set_update_subset: "set (AList.update k v al) \<subseteq> insert (k, v) (set al)"
  by (induction al) auto

lemma set_update_alist:
  "distinct (map fst al) \<Longrightarrow> set (AList.update k v al) = insert (k, v) {e \<in> set al. fst e \<noteq> k}"
  by (induction al) (auto simp: image_iff)

lemma distinct_snd_update:
  "distinct (map snd al) \<Longrightarrow> r \<notin> snd ` set al \<Longrightarrow> distinct (map snd (AList.update a r al))"
proof (induction al)
  case (Cons x al)
  have "snd ` set (AList.update a r al) \<subseteq> insert r (snd ` set al)"
    using set_update_subset [of a r al] by force
  with Cons show ?case by (cases x) auto
qed simp

lemma set_delete_alist: "set (AList.delete a al) = {e \<in> set al. fst e \<noteq> a}"
  by (auto simp: AList.delete_eq)

lemma distinct_delete: "distinct (map snd al) \<Longrightarrow> distinct (map snd (AList.delete a al))"
  by (simp add: AList.delete_eq distinct_map_filter)

text \<open>
  The invariant of the loop, over what is left of the old registry and what the new one has: together they
  are coherent, no key is in both, and no lease but the old and the fresh ones was touched.
\<close>

definition loop_ok :: "shared \<Rightarrow> (string \<times> nat) list \<Rightarrow> (string \<times> nat) list \<Rightarrow> bool" where
  "loop_ok sh registry new \<longleftrightarrow> numeric_ok sh registry \<and> numeric_ok sh new
     \<and> fst ` set registry \<inter> fst ` set new = {} \<and> snd ` set registry \<inter> snd ` set new = {}"

lemma numeric_ok_delete: "numeric_ok sh registry \<Longrightarrow> numeric_ok sh (AList.delete a registry)"
  by (simp add: numeric_ok_iff set_delete_alist AList.distinct_delete distinct_delete)

lemma numeric_ok_update:
  assumes "numeric_ok sh new" "live_numeric sh (a, r)" "r \<notin> snd ` set new"
  shows "numeric_ok sh (AList.update a r new)"
proof -
  have "live_numeric sh e" if "e \<in> set (AList.update a r new)" for e
    using that assms set_update_subset [of a r new] by (auto simp: numeric_ok_iff)
  then show ?thesis using assms by (simp add: numeric_ok_iff distinct_update distinct_snd_update)
qed

lemma keys_delete: "fst ` set (AList.delete a registry) = fst ` set registry - {a}"
  by (auto simp: set_delete_alist)

lemma keys_update: "fst ` set (AList.update a r new) \<subseteq> insert a (fst ` set new)"
  "snd ` set (AList.update a r new) \<subseteq> insert r (snd ` set new)"
  using set_update_subset [of a r new] by force+

lemma refs_delete: "snd ` set (AList.delete a registry) \<subseteq> snd ` set registry"
  by (auto simp: set_delete_alist)

lemma ref_once: "distinct (map snd al) \<Longrightarrow> (a, r) \<in> set al \<Longrightarrow> r \<notin> snd ` set (AList.delete a al)"
proof (induction al)
  case (Cons x al)
  then show ?case using refs_delete [of a al] by (cases x) (auto simp: image_iff)
qed simp

text \<open>What the loop's invariant says of one key of the old registry.\<close>

lemma loop_ok_parts:
  assumes "loop_ok sh registry new" "map_of registry a = Some r"
  shows "numeric_ok sh registry" "numeric_ok sh new" "fst ` set registry \<inter> fst ` set new = {}"
    "snd ` set registry \<inter> snd ` set new = {}" "live_numeric sh (a, r)" "r \<notin> snd ` set new"
    "r \<notin> snd ` set (AList.delete a registry)"
proof -
  show parts: "numeric_ok sh registry" "numeric_ok sh new" "fst ` set registry \<inter> fst ` set new = {}"
    "snd ` set registry \<inter> snd ` set new = {}" using assms(1) unfolding loop_ok_def by simp_all
  have r: "(a, r) \<in> set registry" using assms(2) by (rule map_of_SomeD)
  then have "r \<in> snd ` set registry" by (rule image_eqI [rotated]) simp
  then show "r \<notin> snd ` set new" using parts(4) by (metis IntI empty_iff)
  show "live_numeric sh (a, r)" using parts(1) r unfolding numeric_ok_iff by simp
  show "r \<notin> snd ` set (AList.delete a registry)"
    using parts(1) r ref_once [of registry a r] unfolding numeric_ok_iff by simp
qed

lemma disjoint_moved:
  "F' = F - {a} \<Longrightarrow> G' \<subseteq> insert a G \<Longrightarrow> F \<inter> G = {} \<Longrightarrow> F' \<inter> G' = {}"
  "S' \<subseteq> S \<Longrightarrow> T' \<subseteq> insert r T \<Longrightarrow> S \<inter> T = {} \<Longrightarrow> r \<notin> S' \<Longrightarrow> S' \<inter> T' = {}"
  by blast+

lemma disjoint_subset: "F' \<subseteq> F \<Longrightarrow> F \<inter> G = {} \<Longrightarrow> F' \<inter> G = {}"
  by blast

lemma loop_okI:
  assumes "numeric_ok sh (AList.delete a registry)" "numeric_ok sh (AList.update a r new)"
    "fst ` set registry \<inter> fst ` set new = {}" "snd ` set registry \<inter> snd ` set new = {}"
    "r \<notin> snd ` set (AList.delete a registry)"
  shows "loop_ok sh (AList.delete a registry) (AList.update a r new)"
  unfolding loop_ok_def
  using assms(1,2) disjoint_moved(1) [OF keys_delete keys_update(1) assms(3)]
    disjoint_moved(2) [OF refs_delete keys_update(2) assms(4,5)] by (intro conjI)

lemma loop_ok_keep:
  assumes "loop_ok sh registry new" "map_of registry a = Some r"
  shows "loop_ok sh (AList.delete a registry) (AList.update a r new)"
  using loop_ok_parts [OF assms] by (intro loop_okI numeric_ok_delete numeric_ok_update)

lemma allocate_numeric_simps [simp]:
  "fst (allocate_numeric g sh) = sh_next_numeric sh"
  "sh_next_numeric (snd (allocate_numeric g sh)) = Suc (sh_next_numeric sh)"
  "sh_leases (snd (allocate_numeric g sh)) = sh_leases sh"
  "sh_authority (snd (allocate_numeric g sh)) = sh_authority sh"
  "sh_stopped (snd (allocate_numeric g sh)) = sh_stopped sh"
  by (simp_all add: allocate_numeric_def)

lemma live_allocate: "live_numeric sh e \<Longrightarrow> live_numeric (snd (allocate_numeric g sh)) e"
  "live_numeric (snd (allocate_numeric g sh)) (g_action_id g, sh_next_numeric sh)"
  by (auto simp: live_numeric_def allocate_numeric_def)

lemma loop_ok_allocate:
  assumes "loop_ok sh registry new"
  shows "loop_ok (snd (allocate_numeric g sh)) (AList.delete (g_action_id g) registry)
    (AList.update (g_action_id g) (sh_next_numeric sh) new)"
proof -
  let ?t = "snd (allocate_numeric g sh)"
  have fresh: "sh_next_numeric sh \<notin> snd ` set new" "sh_next_numeric sh \<notin> snd ` set registry"
    using assms by (force simp: loop_ok_def numeric_ok_iff live_numeric_def)+
  then have "sh_next_numeric sh \<notin> snd ` set (AList.delete (g_action_id g) registry)"
    using refs_delete [of "g_action_id g" registry] by blast
  moreover have "numeric_ok ?t registry" "numeric_ok ?t new"
    using assms live_allocate(1) by (simp_all add: loop_ok_def numeric_ok_iff)
  ultimately show ?thesis using assms fresh live_allocate(2)
    by (intro loop_okI numeric_ok_delete numeric_ok_update) (simp_all add: loop_ok_def)
qed

lemma live_revoke_numeric: "r \<notin> set rs \<Longrightarrow> live_numeric (revoke_numeric rs sh) (a, r) = live_numeric sh (a, r)"
  by (simp add: live_numeric_def revoke_numeric_def)

lemma numeric_ok_revoke:
  "numeric_ok sh registry \<Longrightarrow> r \<notin> snd ` set registry \<Longrightarrow> numeric_ok (revoke_numeric [r] sh) registry"
  by (auto simp: numeric_ok_iff live_revoke_numeric image_iff)

lemma loop_ok_revoke:
  assumes "loop_ok sh registry new" "map_of registry a = Some r"
  shows "loop_ok (revoke_numeric [r] sh) (AList.delete a registry) new"
proof -
  note parts = loop_ok_parts [OF assms]
  have "fst ` set (AList.delete a registry) \<subseteq> fst ` set registry" unfolding keys_delete by (rule Diff_subset)
  then show ?thesis unfolding loop_ok_def
    using parts disjoint_subset [OF _ parts(3)] disjoint_subset [OF refs_delete parts(4)]
    by (intro conjI numeric_ok_revoke numeric_ok_delete)
qed

text \<open>The whole pass.\<close>

definition old_refs :: "(string \<times> nat) list \<Rightarrow> (string \<times> nat) list \<Rightarrow> nat set" where
  "old_refs registry new = snd ` set registry \<union> snd ` set new"

lemma numeric_grows_mono: "numeric_grows own sh sh' own' \<Longrightarrow> own \<subseteq> big \<Longrightarrow> numeric_grows big sh sh' own'"
  by (auto simp: numeric_grows_def)

lemma old_refs_step:
  "old_refs (AList.delete a registry) (AList.update a r new) \<subseteq> insert r (old_refs registry new)"
  using set_update_subset [of a r new] by (force simp: old_refs_def set_delete_alist)

lemma allocate_grows:
  assumes "own' \<subseteq> insert (sh_next_numeric sh) own"
  shows "numeric_grows own sh (snd (allocate_numeric g sh)) own'"
  using assms by (auto simp: numeric_grows_def allocate_numeric_def)

lemma revoke_grows: "set rs \<subseteq> own \<Longrightarrow> numeric_grows own sh (revoke_numeric rs sh) own"
  by (auto simp: numeric_grows_def revoke_numeric_def)

lemma numeric_loop_Cons:
  obtains
    (keep) r where "map_of registry (g_action_id g) = Some r" "map_option nl_grant (sh_numeric sh r) = Some g"
      "numeric_loop (g # gs) sh registry new =
         numeric_loop gs sh (AList.delete (g_action_id g) registry) (AList.update (g_action_id g) r new)"
  | (renew) r where "map_of registry (g_action_id g) = Some r" "map_option nl_grant (sh_numeric sh r) \<noteq> Some g"
      "numeric_loop (g # gs) sh registry new = numeric_loop gs (snd (allocate_numeric g (revoke_numeric [r] sh)))
         (AList.delete (g_action_id g) registry) (AList.update (g_action_id g) (sh_next_numeric sh) new)"
  | (fresh) "map_of registry (g_action_id g) = None"
      "numeric_loop (g # gs) sh registry new = numeric_loop gs (snd (allocate_numeric g sh))
         (AList.delete (g_action_id g) registry) (AList.update (g_action_id g) (sh_next_numeric sh) new)"
proof (cases "map_of registry (g_action_id g)")
  case None
  then show thesis using fresh by (simp add: allocate_numeric_def)
next
  case (Some r)
  then show thesis using keep renew
    by (cases "map_option nl_grant (sh_numeric sh r) = Some g") (simp_all add: allocate_numeric_def Let_def del: map_option_eq_Some)
qed

lemma numeric_loop_ok:
  assumes "numeric_loop gs sh registry new = (sh', registry', new')" "loop_ok sh registry new"
  shows "loop_ok sh' registry' new' \<and> sh_leases sh' = sh_leases sh \<and> sh_authority sh' = sh_authority sh
    \<and> sh_stopped sh' = sh_stopped sh \<and> numeric_grows (old_refs registry new) sh sh' (old_refs registry' new')"
  using assms
proof (induction gs arbitrary: sh registry new)
  case (Cons g gs)
  let ?a = "g_action_id g"
  let ?R = "AList.delete ?a registry"
  let ?N = "AList.update ?a (sh_next_numeric sh) new"
  show ?case
  proof (cases rule: numeric_loop_Cons [of registry g sh gs new])
    case (keep r)
    let ?M = "AList.update ?a r new"
    have run: "numeric_loop gs sh ?R ?M = (sh', registry', new')" using Cons.prems(1) unfolding keep(3) .
    note ih = Cons.IH [OF run loop_ok_keep [OF Cons.prems(2) keep(1)]]
    have "r \<in> old_refs registry new" using map_of_SomeD [OF keep(1)] by (force simp: old_refs_def)
    then have "old_refs ?R ?M \<subseteq> old_refs registry new" using old_refs_step [of ?a registry r new] by blast
    then have "numeric_grows (old_refs registry new) sh sh' (old_refs registry' new')"
      by (rule numeric_grows_mono [rotated]) (rule ih [THEN conjunct2, THEN conjunct2, THEN conjunct2, THEN conjunct2])
    then show ?thesis using ih by (simp only: simp_thms)
  next
    case (renew r)
    let ?s = "revoke_numeric [r] sh"
    let ?t = "snd (allocate_numeric g ?s)"
    have "loop_ok ?t (AList.delete ?a ?R) (AList.update ?a (sh_next_numeric ?s) new)"
      by (rule loop_ok_allocate [OF loop_ok_revoke [OF Cons.prems(2) renew(1)]])
    then have ok: "loop_ok ?t ?R ?N" by (simp only: AList.delete_idem revoke_numeric_simps)
    have run: "numeric_loop gs ?t ?R ?N = (sh', registry', new')" using Cons.prems(1) unfolding renew(3) .
    note ih = Cons.IH [OF run ok]
    have own: "set [r] \<subseteq> old_refs registry new" using map_of_SomeD [OF renew(1)] by (force simp: old_refs_def)
    have "old_refs ?R ?N \<subseteq> insert (sh_next_numeric ?s) (old_refs registry new)"
      unfolding revoke_numeric_simps by (rule old_refs_step)
    then have "numeric_grows (old_refs registry new) sh ?t (old_refs ?R ?N)"
      by (rule numeric_grows_trans [OF revoke_grows [OF own] allocate_grows])
    then have "numeric_grows (old_refs registry new) sh sh' (old_refs registry' new')"
      by (rule numeric_grows_trans) (rule ih [THEN conjunct2, THEN conjunct2, THEN conjunct2, THEN conjunct2])
    then show ?thesis using ih by (simp only: allocate_numeric_simps revoke_numeric_simps simp_thms)
  next
    case fresh
    let ?t = "snd (allocate_numeric g sh)"
    have run: "numeric_loop gs ?t ?R ?N = (sh', registry', new')" using Cons.prems(1) unfolding fresh(2) .
    note ih = Cons.IH [OF run loop_ok_allocate [OF Cons.prems(2)]]
    have "numeric_grows (old_refs registry new) sh ?t (old_refs ?R ?N)" by (rule allocate_grows [OF old_refs_step])
    then have "numeric_grows (old_refs registry new) sh sh' (old_refs registry' new')"
      by (rule numeric_grows_trans) (rule ih [THEN conjunct2, THEN conjunct2, THEN conjunct2, THEN conjunct2])
    then show ?thesis using ih by (simp only: allocate_numeric_simps simp_thms)
  qed
qed simp

lemma confined_replace: "confined se (replace_contributions items views se)"
proof (cases se)
  case (Pair sh en)
  obtain sh' registry new where loop: "numeric_loop (List.map_filter number_input_grant items) sh (en_numeric en) [] = (sh', registry, new)"
    by (metis prod_cases3)
  let ?sh = "revoke_numeric (map snd registry) sh'"
  let ?en = "en\<lparr>en_numeric := new, en_snapshot := (en_snapshot en)\<lparr>ps_contributions := items, ps_presentation := views\<rparr>\<rparr>"
  have "confined (sh, en) (?sh, ?en)"
  proof (cases "entry_ok sh en")
    case True
    then have "loop_ok sh (en_numeric en) []" by (simp add: loop_ok_def entry_ok_def numeric_ok_def)
    note after = numeric_loop_ok [OF loop this]
    have "live_numeric ?sh e" if "e \<in> set new" for e
    proof -
      have "snd e \<notin> set (map snd registry)" "live_numeric sh' e"
        using after that by (auto simp: loop_ok_def numeric_ok_iff)
      then show ?thesis by (cases e) (simp add: live_revoke_numeric)
    qed
    then have "numeric_ok ?sh new" using after by (simp add: loop_ok_def numeric_ok_iff)
    moreover have "numeric_grows (numeric_refs en) sh ?sh (numeric_refs ?en)"
    proof (rule numeric_grows_trans)
      show "numeric_grows (numeric_refs en) sh sh' (old_refs registry new)"
        using after by (simp add: old_refs_def numeric_refs_def)
      show "numeric_grows (old_refs registry new) sh' ?sh (numeric_refs ?en)"
        by (auto simp: numeric_grows_def revoke_numeric_def old_refs_def numeric_refs_def)
    qed
    ultimately show ?thesis using True after
      by (simp add: confined_def entry_ok_def lease_ok_def queues_ok_def lease_active_def)
  qed (simp add: confined_def)
  then show ?thesis using Pair loop by (simp add: replace_contributions_def)
qed

section \<open>What happens to each lease\<close>

definition granted :: "shared \<Rightarrow> nat \<Rightarrow> number_input_grant option" where
  "granted sh r = map_option nl_grant (sh_numeric sh r)"

definition revoked :: "shared \<Rightarrow> nat \<Rightarrow> bool" where
  "revoked sh r \<longleftrightarrow> map_option nl_revoked (sh_numeric sh r) = Some True"

text \<open>What becomes of a grant, and of the lease its action had before.\<close>

definition settled :: "shared \<Rightarrow> shared \<Rightarrow> (string \<times> nat) list \<Rightarrow> (string \<times> nat) list \<Rightarrow> number_input_grant \<Rightarrow> bool" where
  "settled sh sh' registry new g \<longleftrightarrow>
     (\<exists>r. map_of new (g_action_id g) = Some r \<and> granted sh' r = Some g)
     \<and> (\<forall>r. map_of registry (g_action_id g) = Some r \<longrightarrow>
          (if granted sh r = Some g then map_of new (g_action_id g) = Some r else revoked sh' r))"

lemma settled_change:
  assumes "settled t sh' R new g" "map_of R (g_action_id g) = map_of registry (g_action_id g)"
    "\<And>r. map_of R (g_action_id g) = Some r \<Longrightarrow> sh_numeric t r = sh_numeric sh r"
  shows "settled sh sh' registry new g"
  using assms by (auto simp: settled_def granted_def)

lemma numeric_loop_settles:
  assumes "numeric_loop gs sh registry new = (sh', registry', new')" "distinct (map g_action_id gs)" "loop_ok sh registry new"
  shows "(\<forall>r < sh_next_numeric sh. (\<forall>g \<in> set gs. map_of registry (g_action_id g) \<noteq> Some r) \<longrightarrow> sh_numeric sh' r = sh_numeric sh r)
    \<and> (\<forall>a. a \<notin> g_action_id ` set gs \<longrightarrow> map_of registry' a = map_of registry a \<and> map_of new' a = map_of new a)
    \<and> (\<forall>g \<in> set gs. map_of registry' (g_action_id g) = None \<and> settled sh sh' registry new' g)"
  using assms
proof (induction gs arbitrary: sh registry new)
  case (Cons g gs)
  let ?a = "g_action_id g"
  let ?R = "AList.delete ?a registry"
  let ?N = "AList.update ?a (sh_next_numeric sh) new"
  have d: "distinct (map g_action_id gs)" "?a \<notin> g_action_id ` set gs" using Cons.prems(2) by auto
  have R: "map_of ?R b = (if b = ?a then None else map_of registry b)" for b
    by (simp add: AList.delete_conv')
  have bound: "r < sh_next_numeric sh" if "map_of registry b = Some r" for b r
    using loop_ok_parts(5) [OF Cons.prems(3) that] by (simp add: live_numeric_def)
  have unused: "map_of ?R b \<noteq> Some (sh_next_numeric sh)" for b
    using bound [of b "sh_next_numeric sh"] by (auto simp: R)
  have once: "r2 \<noteq> r" if "map_of registry ?a = Some r" "map_of ?R b = Some r2" for b r r2
    using loop_ok_parts(7) [OF Cons.prems(3) that(1)] map_of_SomeD [OF that(2)] by (metis image_eqI snd_conv)
  have later: ?case
    if ih: "(\<forall>r < sh_next_numeric t. (\<forall>g \<in> set gs. map_of ?R (g_action_id g) \<noteq> Some r) \<longrightarrow> sh_numeric sh' r = sh_numeric t r)
        \<and> (\<forall>b. b \<notin> g_action_id ` set gs \<longrightarrow> map_of registry' b = map_of ?R b \<and> map_of new' b = map_of M b)
        \<and> (\<forall>h \<in> set gs. map_of registry' (g_action_id h) = None \<and> settled t sh' ?R new' h)"
      and same: "\<And>r. r < sh_next_numeric sh \<Longrightarrow> map_of registry ?a \<noteq> Some r \<Longrightarrow> sh_numeric t r = sh_numeric sh r"
      and mono: "sh_next_numeric sh \<le> sh_next_numeric t"
      and M: "\<And>b. b \<noteq> ?a \<Longrightarrow> map_of M b = map_of new b"
      and mine: "settled sh sh' registry new' g"
    for t M
  proof (intro conjI allI impI ballI)
    fix r assume "r < sh_next_numeric sh" "\<forall>h \<in> set (g # gs). map_of registry (g_action_id h) \<noteq> Some r"
    then show "sh_numeric sh' r = sh_numeric sh r" using ih same mono by (auto simp: R)
  next
    fix b assume b: "b \<notin> g_action_id ` set (g # gs)"
    then show "map_of registry' b = map_of registry b" "map_of new' b = map_of new b"
      using ih M [of b] by (auto simp: R)
  next
    fix h assume h: "h \<in> set (g # gs)"
    show "map_of registry' (g_action_id h) = None" using h ih d(2) by (auto simp: R)
    show "settled sh sh' registry new' h"
    proof (cases "h = g")
      case False
      then have hg: "h \<in> set gs" using h by simp
      then have hg: "h \<in> set gs" "g_action_id h \<noteq> ?a" using d(2) by (simp, metis imageI)
      then have "settled t sh' ?R new' h" using ih by blast
      then show ?thesis
      proof (rule settled_change)
        fix r assume r: "map_of ?R (g_action_id h) = Some r"
        with hg(2) have "map_of registry (g_action_id h) = Some r" by (simp add: R)
        moreover have "map_of registry ?a \<noteq> Some r" using once r by blast
        ultimately show "sh_numeric t r = sh_numeric sh r" using bound same by blast
      qed (use hg(2) in \<open>simp add: R\<close>)
    qed (use mine in simp)
  qed
  show ?case
  proof (cases rule: numeric_loop_Cons [of registry g sh gs new])
    case (keep r)
    have run: "numeric_loop gs sh ?R (AList.update ?a r new) = (sh', registry', new')" using Cons.prems(1) unfolding keep(3) .
    note ih = Cons.IH [OF run d(1) loop_ok_keep [OF Cons.prems(3) keep(1)]]
    have "sh_numeric sh' r = sh_numeric sh r" using ih bound [OF keep(1)] once [OF keep(1)] by blast
    then have "settled sh sh' registry new' g" using ih d(2) keep(1,2) by (simp add: settled_def granted_def update_conv')
    then show ?thesis by (intro later [OF ih]) (simp_all add: update_conv')
  next
    case (renew r)
    let ?t = "snd (allocate_numeric g (revoke_numeric [r] sh))"
    have run: "numeric_loop gs ?t ?R ?N = (sh', registry', new')" using Cons.prems(1) unfolding renew(3) .
    have "loop_ok ?t (AList.delete ?a ?R) (AList.update ?a (sh_next_numeric (revoke_numeric [r] sh)) new)"
      by (rule loop_ok_allocate [OF loop_ok_revoke [OF Cons.prems(3) renew(1)]])
    then have "loop_ok ?t ?R ?N" by (simp only: AList.delete_idem revoke_numeric_simps)
    note ih = Cons.IH [OF run d(1) this]
    obtain l where l: "sh_numeric sh r = Some l"
      using loop_ok_parts(5) [OF Cons.prems(3) renew(1)] by (auto simp: live_numeric_def)
    have "r < sh_next_numeric ?t" "\<forall>h \<in> set gs. map_of ?R (g_action_id h) \<noteq> Some r"
      using bound [OF renew(1)] once [OF renew(1)] by auto
    then have "sh_numeric sh' r = sh_numeric ?t r" using ih by blast
    moreover have "sh_next_numeric sh < sh_next_numeric ?t" by simp
    then have "sh_numeric sh' (sh_next_numeric sh) = sh_numeric ?t (sh_next_numeric sh)" using ih unused by blast
    ultimately have "settled sh sh' registry new' g"
      using ih d(2) renew(1,2) l bound [OF renew(1)]
      by (simp add: settled_def granted_def revoked_def update_conv' allocate_numeric_def revoke_numeric_def)
    then show ?thesis
      by (intro later [OF ih]) (simp_all add: update_conv' allocate_numeric_def revoke_numeric_def renew(1))
  next
    case fresh
    let ?t = "snd (allocate_numeric g sh)"
    have run: "numeric_loop gs ?t ?R ?N = (sh', registry', new')" using Cons.prems(1) unfolding fresh(2) .
    note ih = Cons.IH [OF run d(1) loop_ok_allocate [OF Cons.prems(3)]]
    have "sh_next_numeric sh < sh_next_numeric ?t" by simp
    then have "sh_numeric sh' (sh_next_numeric sh) = sh_numeric ?t (sh_next_numeric sh)" using ih unused by blast
    then have "settled sh sh' registry new' g"
      using ih d(2) fresh(1) by (simp add: settled_def granted_def update_conv' allocate_numeric_def)
    then show ?thesis by (intro later [OF ih]) (simp_all add: update_conv' allocate_numeric_def)
  qed
qed simp

lemma numeric_actions_distinct:
  "(\<forall>c \<in> set items. \<forall>a. numeric_action c = Some a \<longrightarrow> actors a items = 1)
   \<Longrightarrow> distinct (map g_action_id (List.map_filter number_input_grant items))"
proof (induction items)
  case (Cons c cs)
  have alone: "numeric_action d \<noteq> Some a" if "d \<in> set cs" "numeric_action c = Some a" for d a
  proof
    assume "numeric_action d = Some a"
    then have "actors a cs \<noteq> 0" using that(1) actors_zero numeric_action_of by blast
    moreover have "actors a (c # cs) = 1" using Cons.prems that(2) by (meson list.set_intros(1))
    ultimately show False using numeric_action_of [OF that(2)] by simp
  qed
  have "actors a cs = 1" if "d \<in> set cs" "numeric_action d = Some a" for d a
  proof -
    have "actors a cs \<noteq> 0" using that actors_zero numeric_action_of by blast
    moreover have "actors a (c # cs) = 1" using Cons.prems that by (meson list.set_intros(2))
    ultimately show ?thesis by (simp split: if_split_asm)
  qed
  then have tail: "distinct (map g_action_id (List.map_filter number_input_grant cs))" using Cons.IH by blast
  show ?case
  proof (cases "number_input_grant c")
    case (Some g)
    have "g_action_id h \<noteq> g_action_id g" if "d \<in> set cs" "number_input_grant d = Some h" for d h
      using alone [of d "g_action_id g"] that Some by (auto simp: numeric_action_def)
    then have "g_action_id g \<notin> set (map g_action_id (List.map_filter number_input_grant cs))"
      by (force simp: List.map_filter_def)
    then show ?thesis using Some tail by (simp add: List.map_filter_def)
  qed (use tail in \<open>simp add: List.map_filter_def\<close>)
qed (simp add: List.map_filter_def)

text \<open>
  C30. A new snapshot settles every numeric control. A control whose grant is unchanged keeps its lease, so
  a queued request for it stays valid; a control whose grant changed or that is gone loses its lease, which
  is revoked, so no request admitted for the old control can still be written; and every control of the
  snapshot has a live lease for exactly its grant.
\<close>

theorem numeric_leases_follow:
  assumes "validate_contributions X items = Ok ()" and "numeric_ok sh (en_numeric en)"
    and "replace_contributions items views (sh, en) = (sh', en')"
  shows "(\<forall>c \<in> set items. \<forall>g. number_input_grant c = Some g \<longrightarrow>
        (\<exists>r. map_of (en_numeric en') (g_action_id g) = Some r \<and> granted sh' r = Some g \<and> \<not> revoked sh' r))
    \<and> (\<forall>a r. map_of (en_numeric en) a = Some r \<longrightarrow>
        (if \<exists>c \<in> set items. number_input_grant c = granted sh r \<and> numeric_action c = Some a
         then map_of (en_numeric en') a = Some r else revoked sh' r))"
proof -
  let ?gs = "List.map_filter number_input_grant items"
  obtain s registry new where loop: "numeric_loop ?gs sh (en_numeric en) [] = (s, registry, new)"
    by (metis prod_cases3)
  have out: "sh' = revoke_numeric (map snd registry) s" "en_numeric en' = new"
    using assms(3) loop by (auto simp: replace_contributions_def)
  have d: "distinct (map g_action_id ?gs)"
    by (rule numeric_actions_distinct) (use assms(1) in \<open>simp add: validate_contributions_Ok\<close>)
  have start: "loop_ok sh (en_numeric en) []" using assms(2) by (simp add: loop_ok_def numeric_ok_def)
  have after: "loop_ok s registry new" using numeric_loop_ok [OF loop start] by (rule conjunct1)
  note settles = numeric_loop_settles [OF loop d start]
  have grants: "g \<in> set ?gs \<longleftrightarrow> (\<exists>c \<in> set items. number_input_grant c = Some g)" for g
    by (force simp: List.map_filter_def)
  have one: "g = h" if "g \<in> set ?gs" "h \<in> set ?gs" "g_action_id g = g_action_id h" for g h
    using d that by (metis distinct_map inj_onD)
  have live: "\<not> revoked sh' r \<and> granted sh' r = granted s r" if "map_of new a = Some r" for a r
  proof -
    have e: "(a, r) \<in> set new" using that by (rule map_of_SomeD)
    then have "r \<in> snd ` set new" by (rule image_eqI [rotated]) simp
    then have "r \<notin> set (map snd registry)" using after unfolding loop_ok_def by (simp, metis IntI empty_iff)
    moreover have "live_numeric s (a, r)" using after e unfolding loop_ok_def numeric_ok_iff by blast
    ultimately show ?thesis by (auto simp: out revoke_numeric_def revoked_def granted_def live_numeric_def)
  qed
  show ?thesis
  proof (intro conjI ballI allI impI)
    fix c g assume "c \<in> set items" "number_input_grant c = Some g"
    then have "g \<in> set ?gs" using grants by blast
    then obtain r where "map_of new (g_action_id g) = Some r" "granted s r = Some g"
      using settles by (auto simp: settled_def)
    then show "\<exists>r. map_of (en_numeric en') (g_action_id g) = Some r \<and> granted sh' r = Some g \<and> \<not> revoked sh' r"
      using live out by auto
  next
    fix a r assume r: "map_of (en_numeric en) a = Some r"
    obtain l where l: "sh_numeric sh r = Some l"
      using loop_ok_parts(5) [OF start r] by (auto simp: live_numeric_def)
    have still: "revoked sh' r" if "revoked s r"
      using that by (auto simp: out revoke_numeric_def revoked_def)
    show "if \<exists>c \<in> set items. number_input_grant c = granted sh r \<and> numeric_action c = Some a
      then map_of (en_numeric en') a = Some r else revoked sh' r"
    proof (cases "\<exists>g \<in> set ?gs. g_action_id g = a")
      case True
      then obtain g where g: "g \<in> set ?gs" "g_action_id g = a" by blast
      have "(\<exists>c \<in> set items. number_input_grant c = granted sh r \<and> numeric_action c = Some a) \<longleftrightarrow> granted sh r = Some g"
      proof
        assume "\<exists>c \<in> set items. number_input_grant c = granted sh r \<and> numeric_action c = Some a"
        then have "nl_grant l \<in> set ?gs" "g_action_id (nl_grant l) = a"
          unfolding grants using l by (auto simp: numeric_action_def granted_def)
        then show "granted sh r = Some g" using one [of "nl_grant l" g] g l by (simp add: granted_def)
      qed (use grants g in \<open>auto simp: numeric_action_def\<close>)
      moreover have "settled sh s (en_numeric en) new g" using settles g(1) by blast
      ultimately show ?thesis using r g(2) still out(2) by (auto simp: settled_def)
    next
      case False
      then have none: "\<not> (\<exists>c \<in> set items. number_input_grant c = granted sh r \<and> numeric_action c = Some a)"
        using grants by (auto simp: numeric_action_def)
      have "a \<notin> g_action_id ` set ?gs" using False by blast
      then have "map_of registry a = Some r" using settles r by simp
      then have e: "(a, r) \<in> set registry" by (rule map_of_SomeD)
      then have "r \<in> set (map snd registry)" by (auto intro: rev_image_eqI)
      moreover have "live_numeric s (a, r)" using after e unfolding loop_ok_def numeric_ok_iff by blast
      ultimately show ?thesis using none by (auto simp: out revoke_numeric_def revoked_def live_numeric_def)
    qed
  qed
qed

definition sample_numeric_item :: "string \<Rightarrow> dashboard_contribution" where
  "sample_numeric_item revision = CNumberInput ''n'' ''N'' (sample_input\<lparr>ni_input_revision := revision\<rparr>)"

text \<open>A control under a first revision, then under a second: the first lease ends.\<close>

theorem numeric_leases_follow_witness:
  "let (sh, en) = replace_contributions [sample_numeric_item ''r1''] [] (sample_shared, sample_entry);
       (sh', en') = replace_contributions [sample_numeric_item ''r2''] [] (sh, en)
   in map_of (en_numeric en) ''set'' = Some 0 \<and> revoked sh' 0"
proof -
  obtain sh en where first: "replace_contributions [sample_numeric_item ''r1''] [] (sample_shared, sample_entry) = (sh, en)"
    by (cases "replace_contributions [sample_numeric_item ''r1''] [] (sample_shared, sample_entry)")
  obtain sh' en' where second: "replace_contributions [sample_numeric_item ''r2''] [] (sh, en) = (sh', en')"
    by (cases "replace_contributions [sample_numeric_item ''r2''] [] (sh, en)")
  have v: "validate_contributions sample_ext [sample_numeric_item ''r2''] = Ok ()" by code_simp
  have reg: "en_numeric en = [(''set'', 0)]" and n: "sh_next_numeric sh = 1"
    and lease: "sh_numeric sh 0 = Some \<lparr>nl_grant = the (number_input_grant (sample_numeric_item ''r1'')), nl_revoked = False\<rparr>"
    using first by (auto simp: replace_contributions_def sample_numeric_item_def sample_input_def List.map_filter_def
        allocate_numeric_def sample_shared_def sample_entry_def new_lease_def revoke_numeric_def)
  have ok: "numeric_ok sh (en_numeric en)"
    using reg lease n by (simp add: numeric_ok_def sample_numeric_item_def sample_input_def)
  have "revoked sh' 0"
    using numeric_leases_follow [OF v ok second] reg lease
    by (auto simp: granted_def sample_numeric_item_def sample_input_def)
  then show ?thesis using first second reg by simp
qed

end
