(* ===== verification/Runs.thy ===== *)
theory Runs
  imports Numeric
begin

text \<open>
  A generation from the host's point of view: every arm of the select loop is a confined step of its entry,
  leaves the entry unfinished, and keeps the bounds on requests in flight and on the writer's channel.
\<close>

definition run_ok :: "generation_run \<Rightarrow> bool" where
  "run_ok gr \<longleftrightarrow> length (gr_pending gr) \<le> MAX_IN_FLIGHT \<and> distinct (map fst (gr_pending gr))
     \<and> length (pw_writer (gr_pipes gr)) \<le> PIPE_QUEUE_CAPACITY"

definition run_step :: "generation_run \<Rightarrow> generation_run \<Rightarrow> bool" where
  "run_step gr gr' \<longleftrightarrow> confined (gr_shared gr, gr_entry gr) (gr_shared gr', gr_entry gr')
     \<and> en_done (gr_entry gr') = en_done (gr_entry gr) \<and> (run_ok gr \<longrightarrow> run_ok gr')"

lemma run_step_refl [simp]: "run_step gr gr"
  by (simp add: run_step_def)

lemma run_step_trans: "run_step a b \<Longrightarrow> run_step b c \<Longrightarrow> run_step a c"
  using confined_trans unfolding run_step_def by blast

lemma run_step_local:
  assumes "gr_shared gr' = gr_shared gr" "gr_entry gr' = gr_entry gr" "run_ok gr \<Longrightarrow> run_ok gr'"
  shows "run_step gr gr'"
  using assms by (simp add: run_step_def)

lemma run_step_entry:
  assumes "\<And>se. confined se (fst (f se))" "\<And>se. en_done (snd (fst (f se))) = en_done (snd se)"
  shows "run_step gr (fst (on_entry f gr))"
proof -
  obtain sh en r where f: "f (gr_shared gr, gr_entry gr) = ((sh, en), r)" by (metis prod_cases3 surj_pair)
  then show ?thesis using assms [of "(gr_shared gr, gr_entry gr)"]
    by (simp add: on_entry_def run_step_def run_ok_def)
qed

lemma queue_done [simp]:
  "en_done (snd (fst (queue_notification now n se))) = en_done (snd se)"
  "en_done (snd (fst (queue_http_video X now grant i u title admission se))) = en_done (snd se)"
  "en_done (snd (replace_contributions items views se)) = en_done (snd se)"
  by (auto simp: queue_notification_def queue_http_video_def replace_contributions_def Let_def
      split: prod.splits option.splits)

lemma run_step_queues [simp]:
  "run_step gr (fst (on_entry (queue_notification now n) gr))"
  "run_step gr (fst (on_entry (queue_http_video X now grant i u title admission) gr))"
  "run_step gr (fst (on_entry (\<lambda>se. (replace_contributions items views se, ())) gr))"
  by (rule run_step_entry; simp add: confined_notification confined_video confined_replace)+

text \<open>Bookkeeping that leaves the entry alone.\<close>

lemma pipe_send_bound: "pipe_send msg p = Some p' \<Longrightarrow> length (pw_writer p') \<le> PIPE_QUEUE_CAPACITY"
  by (auto simp: pipe_send_def split: if_split_asm)

lemma pipes_send_bound: "pipes_send X msg p = Ok p' \<Longrightarrow> length (pw_writer p') \<le> PIPE_QUEUE_CAPACITY"
  "pipes_configure X c d p = Ok p' \<Longrightarrow> length (pw_writer p') \<le> PIPE_QUEUE_CAPACITY"
  by (auto simp: pipes_send_def pipes_configure_def result_simps split: if_split_asm dest: pipe_send_bound)

lemma forget_bound: "length (AList.delete i ps) \<le> length ps"
  by (simp add: AList.delete_eq)

lemma run_step_changed [simp]: "run_step gr (changed gr)"
  by (auto simp: run_step_def changed_def run_ok_def intro: confined_shared)

lemma run_step_reply [simp]: "run_step gr (reply_to i r gr)"
  by (rule run_step_local) (simp_all add: reply_to_def run_ok_def)

lemma run_step_forget [simp]: "run_step gr (forget i gr)"
  by (rule run_step_local)
    (auto simp: forget_def run_ok_def AList.distinct_delete intro: order_trans [OF forget_bound])

lemma run_step_send [simp]: "run_step gr (send_ignored X msg gr)"
  by (rule run_step_local)
    (auto simp: send_ignored_def run_ok_def split: sum.splits dest: pipes_send_bound)

lemma run_step_settle [simp]: "run_step gr (settle i answer gr)"
  by (auto simp: settle_def split: option.splits intro: run_step_trans [OF run_step_forget run_step_reply])

lemma run_step_expire [simp]: "run_step gr (expire X i gr)"
  unfolding expire_def
  by (rule run_step_trans [OF run_step_forget run_step_trans [OF run_step_send run_step_reply]])

lemma run_step_expire_pending [simp]: "run_step gr (expire_pending X now gone gr)"
proof -
  have "run_step gr (fold (expire X) is gr)" for "is" gr
    by (induction "is" arbitrary: gr) (auto intro: run_step_trans [OF run_step_expire])
  then show ?thesis by (simp add: expire_pending_def)
qed

lemma run_step_finish [simp]: "run_step gr (finish_run gr)"
  by (rule run_step_local) (simp_all add: finish_run_def run_ok_def)

lemma run_step_control [simp]: "run_step gr (handle_control X now c gr)"
proof (cases c)
  case (ControlCancel i)
  then show ?thesis
    by (auto intro: run_step_trans [OF run_step_forget run_step_trans [OF run_step_send run_step_reply]])
next
  case (ControlAction rq)
  have "run_step gr (gr\<lparr>gr_pipes := p, gr_pending := AList.update (rq_id rq) (rq_deadline rq) (gr_pending gr)\<rparr>)"
    if "action_refusal now rq gr = None" "pipe_send msg (gr_pipes gr) = Some p" for p msg
  proof (rule run_step_local)
    have "length (gr_pending gr) < MAX_IN_FLIGHT"
      using that(1) by (auto simp: action_refusal_def Let_def not_le split: if_split_asm)
    then have "length (AList.update (rq_id rq) (rq_deadline rq) (gr_pending gr)) \<le> MAX_IN_FLIGHT"
      using AList.update_keys [of "rq_id rq" "rq_deadline rq" "gr_pending gr"]
      by (metis Suc_leI length_append_singleton length_map less_imp_le_nat)
    then show "run_ok gr \<Longrightarrow> run_ok (gr\<lparr>gr_pipes := p, gr_pending := AList.update (rq_id rq) (rq_deadline rq) (gr_pending gr)\<rparr>)"
      using pipe_send_bound [OF that(2)] by (simp add: run_ok_def distinct_update)
  qed simp_all
  then show ?thesis using ControlAction by (auto split: option.splits)
qed

section \<open>Frames\<close>

lemma run_step_fst:
  assumes "on_entry f gr = (gr', r)" "run_step gr (fst (on_entry f gr))"
  shows "run_step gr gr'"
  using assms by simp

lemma run_step_video_frame: "run_step gr (fst (http_video_frame X now spec i u title kind c gr))"
proof (cases "sp_http_video spec")
  case (Some grant)
  obtain gr' notify where q: "on_entry (queue_http_video X now grant i u title
      \<lparr>ma_kind = kind, ma_cooldown_id = c, ma_live_preview = False\<rparr>) gr = (gr', notify)" by fastforce
  then have "run_step gr gr'" by (rule run_step_fst) simp
  then show ?thesis using Some q run_step_trans [OF _ run_step_queues(1)]
    by (auto simp: http_video_frame_def split: sum.splits)
qed (simp add: http_video_frame_def)

lemma run_step_preview: "run_step gr (fst (preview_frame X now grant i u title c gr))"
proof -
  obtain gr' notify where q: "on_entry (queue_http_video X now grant i u title
      \<lparr>ma_kind = Video, ma_cooldown_id = c, ma_live_preview = True\<rparr>) gr = (gr', notify)" by fastforce
  then have "run_step gr gr'" by (rule run_step_fst) simp
  then show ?thesis using q by (simp add: preview_frame_def)
qed

lemma run_step_notification: "run_step gr (fst (notification_frame now spec i title body view gr))"
proof (cases "live_view_request_for spec view (gr_entry gr)")
  case (Inr live)
  obtain gr' notify where q: "on_entry (queue_notification now \<lparr>dn_plugin_id = sp_plugin_id spec, dn_id = i,
      dn_title = title, dn_body = body, dn_live_view = live\<rparr>) gr = (gr', notify)" by fastforce
  then have "run_step gr gr'" by (rule run_step_fst) simp
  then show ?thesis using q Inr by (simp add: notification_frame_def)
qed (simp add: notification_frame_def)

lemma run_step_choices: "run_step gr (gr\<lparr>gr_entry := (gr_entry gr)\<lparr>en_choices := c\<rparr>\<rparr>)"
  by (auto simp: run_step_def run_ok_def intro: confined_entry)

lemma run_step_worker_frame: "run_step gr (fst (worker_frame X now spec m gr))"
proof (cases m)
  case (Event name payload)
  then show ?thesis by (auto simp: run_step_choices split: prod.splits)
qed (auto simp: run_step_video_frame run_step_preview run_step_notification http_live_frame_def mqtt_live_frame_def
    live_view_frame_def split: option.splits sum.splits)

lemma run_step_running: "run_step gr (running gr)"
proof -
  let ?en = "(gr_entry gr)\<lparr>en_snapshot := (en_snapshot (gr_entry gr))\<lparr>ps_state := Running, ps_last_error := None\<rparr>\<rparr>"
  have "confined (gr_shared gr, gr_entry gr) (gr_shared gr, ?en)"
    by (rule confined_entry) (simp_all add: numeric_refs_def entry_ok_def lease_ok_def queues_ok_def)
  then have "run_step gr (gr\<lparr>gr_startup := StartupDone, gr_entry := ?en\<rparr>)"
    by (simp add: run_step_def run_ok_def)
  then show ?thesis unfolding running_def by (rule run_step_trans) simp
qed

lemma run_step_startup: "run_step gr (fst (startup_frame X now spec m gr))"
proof -
  have "run_step gr (gr\<lparr>gr_pipes := p, gr_startup := AwaitConfiguration\<rparr>)"
    if "pipes_configure X c d (gr_pipes gr) = Ok p" for c d p
    using that by (intro run_step_local) (auto simp: run_ok_def dest: pipes_send_bound)
  then show ?thesis using run_step_running
    by (auto simp: startup_frame_def split: sum.splits startup_phase.splits option.splits)
qed

lemma run_step_running_frame: "run_step gr (fst (running_frame X now spec m gr))"
proof -
  obtain gr' r where f: "worker_frame X now spec m gr = (gr', r)" by fastforce
  then have "run_step gr gr'" using run_step_worker_frame [of gr X now spec m] by simp
  then show ?thesis using f run_step_trans [OF _ run_step_changed]
    by (auto simp: running_frame_def split: sum.splits)
qed

lemma run_step_handle_frame: "run_step gr (fst (handle_frame X now spec frame gr))"
  by (auto simp: handle_frame_def run_step_startup run_step_running_frame split: option.splits sum.splits)

theorem run_step_generation: "run_step gr (fst (generation_step X spec e gr))"
proof (cases e)
  case (GFrame now frame)
  have "run_step gr (gr\<lparr>gr_rate := r\<rparr>)" for r by (rule run_step_local) (simp_all add: run_ok_def)
  then show ?thesis using GFrame run_step_trans [OF _ run_step_handle_frame]
    by (auto simp: frame_arm_def Let_def)
next
  case (GControl now c)
  then show ?thesis by (cases c) auto
qed auto

lemma start_run_ok: "run_ok (fst (start_run X now spec (sh, en)))"
  "gr_shared (fst (start_run X now spec (sh, en))) = sh" "gr_entry (fst (start_run X now spec (sh, en))) = en"
  by (auto simp: start_run_def run_ok_def new_pipes_def Let_def split: sum.splits dest: pipes_send_bound)

end
