(* ===== verification/HostInvariant.thy ===== *)
theory HostInvariant
  imports Runs
begin

text \<open>
  The invariant of the whole plugin host: its registry, every entry with its supervisor, the separation of
  what entries own, and the leases that are active. A confined step of one entry keeps it.
\<close>

definition holds_process :: "phase \<Rightarrow> bool" where
  "holds_process p \<longleftrightarrow> (case p of Piping \<Rightarrow> True | Generating \<Rightarrow> True | Closing _ \<Rightarrow> True | _ \<Rightarrow> False)"

definition may_run :: "phase \<Rightarrow> bool" where
  "may_run p \<longleftrightarrow> (case p of Generating \<Rightarrow> True | Closing _ \<Rightarrow> True | _ \<Rightarrow> False)"

definition before_spawn :: "phase \<Rightarrow> bool" where
  "before_spawn p \<longleftrightarrow> p \<in> {Deciding, Spawning, BackingOff}"

definition phase_ok :: "shared \<Rightarrow> worker_entry \<Rightarrow> supervisor \<Rightarrow> bool" where
  "phase_ok sh en su \<longleftrightarrow>
     (\<forall>i. en_lease en = Some i \<longrightarrow> lease_active sh i \<longrightarrow> holds_process (su_phase su))
     \<and> (ps_state (en_snapshot en) = Running \<longrightarrow> may_run (su_phase su))
     \<and> (en_done en \<longleftrightarrow> su_phase su = Finished)
     \<and> su_restarts su \<le> MAX_RESTARTS
     \<and> su_spawned su \<le> unat (su_restarts su) + (if before_spawn (su_phase su) then 0 else 1)
     \<and> pred_option run_ok (su_run su)
     \<and> sp_plugin_id (su_spec su) = ps_plugin_id (en_snapshot en)"

definition registry_ok :: "host \<Rightarrow> bool" where
  "registry_ok h \<longleftrightarrow> distinct (map fst (ho_registry h)) \<and> distinct (map snd (ho_registry h))
     \<and> length (ho_registry h) \<le> MAX_WORKERS
     \<and> (\<forall>(p, r) \<in> set (ho_registry h). \<exists>en. ho_entries h r = Some en \<and> ps_plugin_id (en_snapshot en) = p)
     \<and> (\<forall>r en. ho_entries h r = Some en \<longrightarrow> r \<in> snd ` set (ho_registry h) \<or> en_done en)"

definition entries_ok :: "host \<Rightarrow> bool" where
  "entries_ok h \<longleftrightarrow> (\<forall>r en. ho_entries h r = Some en \<longrightarrow> r < ho_next h \<and> entry_ok (ho_shared h) en
     \<and> length (ho_commands h r) \<le> CONTROL_QUEUE_CAPACITY
     \<and> (\<exists>su. ho_supervisors h r = Some su \<and> phase_ok (ho_shared h) en su))"

text \<open>Different entries own different leases and different numeric leases.\<close>

definition apart :: "host \<Rightarrow> bool" where
  "apart h \<longleftrightarrow> (\<forall>r r' en en'. ho_entries h r = Some en \<longrightarrow> ho_entries h r' = Some en' \<longrightarrow> r \<noteq> r' \<longrightarrow>
     (\<forall>i. en_lease en = Some i \<longrightarrow> en_lease en' \<noteq> Some i) \<and> numeric_refs en \<inter> numeric_refs en' = {})"

definition active_ok :: "host \<Rightarrow> bool" where
  "active_ok h \<longleftrightarrow> (\<forall>i. lease_active (ho_shared h) i \<longrightarrow> (\<exists>r en. ho_entries h r = Some en
     \<and> en_lease en = Some i \<and> authorized (ho_shared h) en \<and> \<not> en_stop en))"

definition host_ok :: "host \<Rightarrow> bool" where
  "host_ok h \<longleftrightarrow> registry_ok h \<and> entries_ok h \<and> apart h \<and> active_ok h"

section \<open>Confined steps\<close>

lemma confinedD:
  assumes "confined (sh, en) (sh', en')" "entry_ok sh en"
  shows "entry_ok sh' en'" "sh_authority sh' = sh_authority sh" "sh_stopped sh' = sh_stopped sh"
    "en_epoch en' = en_epoch en" "en_lease en' = en_lease en"
    "ps_plugin_id (en_snapshot en') = ps_plugin_id (en_snapshot en)"
    "leases_shrink (en_lease en) sh sh'" "numeric_grows (numeric_refs en) sh sh' (numeric_refs en')"
    "\<And>i. en_lease en = Some i \<Longrightarrow> lease_active sh' i \<Longrightarrow> en_stop en' = en_stop en"
  using assms by (auto simp: confined_def)

lemma entry_ok_elsewhere:
  assumes "entry_ok sh en" "leases_shrink own sh sh'" "numeric_grows refs sh sh' refs'"
    and "\<And>i. en_lease en = Some i \<Longrightarrow> own \<noteq> Some i" and "numeric_refs en \<inter> refs = {}"
  shows "entry_ok sh' en"
proof -
  have lease: "sh_leases sh' i = sh_leases sh i \<and> lease_active sh' i = lease_active sh i" if "en_lease en = Some i" for i
    using assms(2) assms(4) [OF that] by (auto simp: leases_shrink_def lease_active_def)
  have "live_numeric sh' e" if "e \<in> set (en_numeric en)" for e
  proof -
    have "live_numeric sh e" using assms(1) that unfolding entry_ok_def numeric_ok_iff by blast
    moreover have "snd e \<notin> refs" using assms(5) that unfolding numeric_refs_def by (metis IntI empty_iff imageI)
    ultimately show ?thesis using assms(3) by (cases e) (auto simp: live_numeric_def numeric_grows_def)
  qed
  then have "numeric_ok sh' (en_numeric en)" using assms(1) unfolding entry_ok_def numeric_ok_iff by blast
  moreover have "lease_ok sh' en" using assms(1) lease by (auto simp: entry_ok_def lease_ok_def)
  moreover have "queues_ok sh' en" using assms(1) lease by (auto simp: entry_ok_def queues_ok_def)
  ultimately show ?thesis by (simp add: entry_ok_def)
qed

lemma phase_ok_elsewhere:
  assumes "phase_ok sh en su" "leases_shrink own sh sh'"
  shows "phase_ok sh' en su"
  using assms shrink_active [OF assms(2)] by (auto simp: phase_ok_def)

definition put :: "nat \<Rightarrow> shared \<Rightarrow> worker_entry \<Rightarrow> supervisor \<Rightarrow> control list \<Rightarrow> host \<Rightarrow> host" where
  "put r sh en su q h = h\<lparr>ho_shared := sh, ho_entries := (ho_entries h)(r \<mapsto> en),
     ho_supervisors := (ho_supervisors h)(r \<mapsto> su), ho_commands := (ho_commands h)(r := q)\<rparr>"

lemma put_simps [simp]:
  "ho_shared (put r sh en su q h) = sh" "ho_registry (put r sh en su q h) = ho_registry h"
  "ho_entries (put r sh en su q h) = (ho_entries h)(r \<mapsto> en)" "ho_next (put r sh en su q h) = ho_next h"
  "ho_supervisors (put r sh en su q h) = (ho_supervisors h)(r \<mapsto> su)"
  "ho_commands (put r sh en su q h) = (ho_commands h)(r := q)"
  by (simp_all add: put_def)

lemma host_ok_entry:
  assumes "host_ok h" "ho_entries h r = Some en"
  obtains su where "ho_supervisors h r = Some su" "entry_ok (ho_shared h) en" "phase_ok (ho_shared h) en su"
    "r < ho_next h" "length (ho_commands h r) \<le> CONTROL_QUEUE_CAPACITY"
  using assms by (auto simp: host_ok_def entries_ok_def)

lemma apartD:
  assumes "host_ok h" "ho_entries h r = Some en" "ho_entries h r' = Some en'" "r \<noteq> r'"
  shows "en_lease en = Some i \<Longrightarrow> en_lease en' \<noteq> Some i" "numeric_refs en \<inter> numeric_refs en' = {}"
  using assms unfolding host_ok_def apart_def by blast+

lemma numeric_refs_bound: "entry_ok sh en \<Longrightarrow> r \<in> numeric_refs en \<Longrightarrow> r < sh_next_numeric sh"
  by (auto simp: entry_ok_def numeric_ok_def numeric_refs_def)

lemma grown_apart:
  assumes "numeric_grows refs sh sh' refs'" "A \<inter> refs = {}" "\<And>r. r \<in> A \<Longrightarrow> r < sh_next_numeric sh"
  shows "A \<inter> refs' = {}"
proof -
  have "r \<notin> refs'" if "r \<in> A" for r
    using assms(1,2) assms(3) [OF that] that unfolding numeric_grows_def by (metis IntI empty_iff not_le)
  then show ?thesis by blast
qed

lemma registry_ok_put:
  assumes "registry_ok h" "ho_entries h r = Some en" "en_done en \<Longrightarrow> en_done en'"
    "ps_plugin_id (en_snapshot en') = ps_plugin_id (en_snapshot en)"
  shows "registry_ok (put r sh' en' su' q h)"
proof -
  have "\<exists>en2. ho_entries (put r sh' en' su' q h) r2 = Some en2 \<and> ps_plugin_id (en_snapshot en2) = p"
    if "ho_entries h r2 = Some en2" "ps_plugin_id (en_snapshot en2) = p" for r2 en2 p
    using that assms by (cases "r2 = r") auto
  then show ?thesis using assms unfolding registry_ok_def by (fastforce split: if_split_asm)
qed

theorem host_ok_put:
  assumes ok: "host_ok h" and en: "ho_entries h r = Some en"
    and step: "confined (ho_shared h, en) (sh', en')" and phase: "phase_ok sh' en' su'"
    and fin: "en_done en \<Longrightarrow> en_done en'" and q: "length q \<le> CONTROL_QUEUE_CAPACITY"
  shows "host_ok (put r sh' en' su' q h)"
proof -
  let ?h = "put r sh' en' su' q h"
  have e: "entry_ok (ho_shared h) en" "r < ho_next h" using host_ok_entry [OF ok en] by blast+
  note c = confinedD [OF step e(1)]
  have others: "entry_ok (ho_shared h) en2 \<and> r2 < ho_next h \<and> length (ho_commands h r2) \<le> CONTROL_QUEUE_CAPACITY
      \<and> (\<exists>su. ho_supervisors h r2 = Some su \<and> phase_ok (ho_shared h) en2 su)"
    if "ho_entries h r2 = Some en2" for r2 en2
    using host_ok_entry [OF ok that] by metis
  have kept: "entry_ok sh' en2" if "ho_entries h r2 = Some en2" "r2 \<noteq> r" for r2 en2
  proof (rule entry_ok_elsewhere [OF _ c(7,8)])
    show "entry_ok (ho_shared h) en2" using others that by blast
    show "en_lease en \<noteq> Some i" if "en_lease en2 = Some i" for i
      using apartD(1) [OF ok \<open>ho_entries h r2 = Some en2\<close> en \<open>r2 \<noteq> r\<close> that] .
    show "numeric_refs en2 \<inter> numeric_refs en = {}" by (rule apartD(2) [OF ok that(1) en that(2)])
  qed
  have "entries_ok ?h"
    unfolding entries_ok_def
  proof (intro allI impI)
    fix r2 en2 assume r2: "ho_entries ?h r2 = Some en2"
    show "r2 < ho_next ?h \<and> entry_ok (ho_shared ?h) en2 \<and> length (ho_commands ?h r2) \<le> CONTROL_QUEUE_CAPACITY
        \<and> (\<exists>su. ho_supervisors ?h r2 = Some su \<and> phase_ok (ho_shared ?h) en2 su)"
    proof (cases "r2 = r")
      case True
      then show ?thesis using r2 e(2) c(1) q phase by simp
    next
      case False
      then have r2': "ho_entries h r2 = Some en2" using r2 by simp
      then show ?thesis using False others [OF r2'] kept [OF r2' False] phase_ok_elsewhere [OF _ c(7)] by auto
    qed
  qed
  moreover have "apart ?h"
    unfolding apart_def
  proof (intro allI impI)
    fix r1 r2 en1 en2 assume h: "ho_entries ?h r1 = Some en1" "ho_entries ?h r2 = Some en2" "r1 \<noteq> r2"
    have moved: "(\<forall>i. en_lease en3 = Some i \<longrightarrow> en_lease en' \<noteq> Some i) \<and> numeric_refs en3 \<inter> numeric_refs en' = {}"
      if r3: "ho_entries h r3 = Some en3" "r3 \<noteq> r" for r3 en3
    proof
      show "\<forall>i. en_lease en3 = Some i \<longrightarrow> en_lease en' \<noteq> Some i" using apartD(1) [OF ok r3(1) en r3(2)] c(5) by simp
      show "numeric_refs en3 \<inter> numeric_refs en' = {}"
        by (rule grown_apart [OF c(8) apartD(2) [OF ok r3(1) en r3(2)]])
          (use numeric_refs_bound others r3(1) in blast)
    qed
    show "(\<forall>i. en_lease en1 = Some i \<longrightarrow> en_lease en2 \<noteq> Some i) \<and> numeric_refs en1 \<inter> numeric_refs en2 = {}"
    proof (cases "r1 = r")
      case True
      then have "en1 = en'" "ho_entries h r2 = Some en2" "r2 \<noteq> r" using h by auto
      then show ?thesis using moved [of r2 en2] by (metis Int_commute)
    next
      case False
      then have r1: "ho_entries h r1 = Some en1" using h by simp
      show ?thesis
      proof (cases "r2 = r")
        case True
        then show ?thesis using moved [OF r1 False] h(2) by simp
      next
        case r2: False
        then have "ho_entries h r2 = Some en2" using h by simp
        then show ?thesis using ok r1 h(3) unfolding host_ok_def apart_def by blast
      qed
    qed
  qed
  moreover have "active_ok ?h"
    unfolding active_ok_def
  proof (intro allI impI)
    fix i assume act: "lease_active (ho_shared ?h) i"
    then have "lease_active (ho_shared h) i" using shrink_active [OF c(7)] by simp
    then obtain r2 en2 where o: "ho_entries h r2 = Some en2" "en_lease en2 = Some i"
        "authorized (ho_shared h) en2" "\<not> en_stop en2"
      using ok unfolding host_ok_def active_ok_def by blast
    show "\<exists>r2 en2. ho_entries ?h r2 = Some en2 \<and> en_lease en2 = Some i \<and> authorized (ho_shared ?h) en2 \<and> \<not> en_stop en2"
    proof (cases "r2 = r")
      case True
      then have "en2 = en" using o(1) en by simp
      then show ?thesis using True o act c(2,4,5) c(9) [of i]
        by (intro exI [of _ r] exI [of _ en']) (simp add: authorized_def)
    next
      case False
      then show ?thesis using o c(2) by (intro exI [of _ r2] exI [of _ en2]) (simp add: authorized_def)
    qed
  qed
  moreover have "registry_ok ?h"
    using ok by (intro registry_ok_put [OF _ en fin c(6)]) (simp add: host_ok_def)
  ultimately show ?thesis by (simp add: host_ok_def)
qed

end
