(* ===== verification/HostSteps.thy ===== *)
theory HostSteps
  imports HostInvariant
begin

text \<open>
  Every operation of the plugin host keeps its invariant: the ones on a single entry through \<open>confined\<close>, and
  the ones that change authority, the registry or a lease, each by its own argument.
\<close>

section \<open>Steps outside the supervisors\<close>

text \<open>A step another task makes on an entry: confined, and it neither starts nor finishes the worker.\<close>

definition outside :: "(shared \<times> worker_entry \<Rightarrow> shared \<times> worker_entry) \<Rightarrow> bool" where
  "outside f \<longleftrightarrow> (\<forall>se. confined se (f se) \<and> en_done (snd (f se)) = en_done (snd se)
     \<and> (ps_state (en_snapshot (snd (f se))) = Running \<longrightarrow> ps_state (en_snapshot (snd se)) = Running))"

lemma phase_ok_outside:
  assumes "phase_ok sh en su" "outside f" "f (sh, en) = (sh', en')" "entry_ok sh en"
  shows "phase_ok sh' en' su"
proof -
  have f: "confined (sh, en) (sh', en')" "en_done en' = en_done en"
    "ps_state (en_snapshot en') = Running \<Longrightarrow> ps_state (en_snapshot en) = Running"
    using assms(2,3) unfolding outside_def by (metis snd_conv)+
  note c = confinedD [OF f(1) assms(4)]
  show ?thesis using assms(1) f(2,3) c(5,6) shrink_active [OF c(7)] by (auto simp: phase_ok_def)
qed

lemma with_entry_put:
  assumes "ho_entries h r = Some en" "ho_supervisors h r = Some su" "f (ho_shared h, en) = (sh', en')"
  shows "with_entry r f h = put r sh' en' su (ho_commands h r) h"
  using assms by (simp add: with_entry_def put_def fun_upd_idem)

theorem with_entry_ok:
  assumes "host_ok h" "outside f"
  shows "host_ok (with_entry r f h)"
proof (cases "ho_entries h r")
  case (Some en)
  obtain sh' en' where f: "f (ho_shared h, en) = (sh', en')" by fastforce
  obtain su where su: "ho_supervisors h r = Some su" "entry_ok (ho_shared h) en" "phase_ok (ho_shared h) en su"
    "length (ho_commands h r) \<le> CONTROL_QUEUE_CAPACITY" using host_ok_entry [OF assms(1) Some] by metis
  have "confined (ho_shared h, en) (sh', en')" "en_done en' = en_done en"
    using assms(2) f unfolding outside_def by (metis snd_conv)+
  then show ?thesis
    unfolding with_entry_put [where f = f, OF Some su(1) f]
    using phase_ok_outside [OF su(3) assms(2) f su(2)] su(4) by (intro host_ok_put [OF assms(1) Some]) simp_all
qed (use assms(1) in \<open>simp add: with_entry_def\<close>)

lemma outside_stop: "outside stop_entry"
proof -
  have "en_done (snd (stop_entry se)) = en_done (snd se) \<and> ps_state (en_snapshot (snd (stop_entry se))) = ps_state (en_snapshot (snd se))" for se
  proof (cases se)
    case (Pair sh en)
    obtain sh' en' where r: "revoke_generation (sh, en) = (sh', en')" by fastforce
    show ?thesis using revoke_generation_facts(4,6) [OF r] by (simp add: Pair stop_entry_def r)
  qed
  then show ?thesis by (simp add: outside_def confined_stop)
qed

lemma outside_pop: "outside (\<lambda>(sh, en). (sh, pop_notification en))"
proof -
  have "confined (sh, en) (sh, pop_notification en)" for sh en
    unfolding pop_notification_def
    by (rule confined_notification_queue(2)) (auto simp: queues_ok_def)
  then show ?thesis by (auto simp: outside_def pop_notification_def)
qed

lemma outside_drain: "outside (\<lambda>(sh, en). (sh, drain_videos en))"
proof -
  have "confined (sh, en) (sh, drain_videos en)" for sh en
    unfolding drain_videos_def by (rule confined_video_queue) (simp add: queues_ok_def)
  then show ?thesis by (auto simp: outside_def drain_videos_def)
qed

section \<open>Steps on the shared state, the channels and the writers\<close>

lemma host_ok_shared:
  assumes "host_ok h" "sh_leases sh = sh_leases (ho_shared h)" "sh_numeric sh = sh_numeric (ho_shared h)"
    "sh_next_numeric sh = sh_next_numeric (ho_shared h)"
    "\<And>en. authorized (ho_shared h) en \<Longrightarrow> authorized sh en"
  shows "host_ok (h\<lparr>ho_shared := sh\<rparr>)"
proof -
  have same: "entry_ok sh en = entry_ok (ho_shared h) en" "lease_active sh = lease_active (ho_shared h)" for en
    using entry_ok_shared [OF assms(2-4)] assms(2) by (auto simp: lease_active_def)
  have "phase_ok sh en su = phase_ok (ho_shared h) en su" for en su by (simp add: phase_ok_def same)
  then have "entries_ok (h\<lparr>ho_shared := sh\<rparr>)" using assms(1) same by (simp add: host_ok_def entries_ok_def)
  moreover have "active_ok (h\<lparr>ho_shared := sh\<rparr>)"
    using assms(1,5) same unfolding host_ok_def active_ok_def by (simp, blast)
  ultimately show ?thesis using assms(1) by (simp add: host_ok_def registry_ok_def apart_def)
qed

lemma host_ok_changed: "host_ok h \<Longrightarrow> host_ok (host_changed h)"
  unfolding host_changed_def by (rule host_ok_shared) (simp_all add: authorized_def)

lemma host_ok_enable: "host_ok h \<Longrightarrow> host_ok (enable h)"
  unfolding enable_def by (rule host_ok_shared) (simp_all add: authorized_def)

lemma host_ok_commands:
  assumes "host_ok h" "\<And>r. ho_entries h r \<noteq> None \<Longrightarrow> length (q r) \<le> CONTROL_QUEUE_CAPACITY"
  shows "host_ok (h\<lparr>ho_commands := q\<rparr>)"
proof -
  have "entries_ok h" using assms(1) by (simp add: host_ok_def)
  then have "entries_ok (h\<lparr>ho_commands := q\<rparr>)" using assms(2) unfolding entries_ok_def by auto
  then show ?thesis using assms(1) by (simp add: host_ok_def registry_ok_def apart_def active_ok_def)
qed

lemma host_ok_send: "host_ok h \<Longrightarrow> host_ok (fst (send_command r c h))"
proof -
  assume ok: "host_ok h"
  have "host_ok (h\<lparr>ho_commands := (ho_commands h)(r := ho_commands h r @ [c])\<rparr>)"
    if "\<not> CONTROL_QUEUE_CAPACITY \<le> length (ho_commands h r)"
    using ok that by (intro host_ok_commands) (auto elim: host_ok_entry [OF ok])
  then show ?thesis using ok by (auto simp: send_command_def split: option.splits)
qed

lemma host_ok_supervisors:
  assumes "host_ok h" "\<And>r en su. ho_entries h r = Some en \<Longrightarrow> ho_supervisors h r = Some su \<Longrightarrow>
      phase_ok (ho_shared h) en su \<Longrightarrow> \<exists>su'. s r = Some su' \<and> phase_ok (ho_shared h) en su'"
  shows "host_ok (h\<lparr>ho_supervisors := s\<rparr>)"
proof -
  have "entries_ok h" using assms(1) by (simp add: host_ok_def)
  then have "entries_ok (h\<lparr>ho_supervisors := s\<rparr>)" using assms(2) unfolding entries_ok_def by simp metis
  then show ?thesis using assms(1) by (simp add: host_ok_def registry_ok_def apart_def active_ok_def)
qed

lemma host_ok_writer: "host_ok h \<Longrightarrow> host_ok (writer_takes r ends h)"
proof (cases "ho_supervisors h r")
  case (Some su)
  assume ok: "host_ok h"
  have run: "run_ok (gr\<lparr>gr_pipes := \<lparr>pw_writer = tl (pw_writer (gr_pipes gr)), pw_open = b\<rparr>\<rparr>)" if "run_ok gr" for gr b
    using that by (auto simp: run_ok_def)
  show ?thesis unfolding writer_takes_def Some option.case
    by (rule host_ok_supervisors [OF ok]) (use Some run in \<open>auto simp: phase_ok_def option.pred_set\<close>)
qed (simp add: writer_takes_def)

section \<open>Delivery\<close>

lemma host_ok_dispatch: "host_ok h \<Longrightarrow> host_ok (fst (dispatch_one now r h))"
  using with_entry_ok [OF _ outside_pop] by (auto simp: dispatch_one_def split: option.splits list.splits)

lemma host_ok_take: "host_ok h \<Longrightarrow> host_ok (fst (take_videos now rs h))"
proof (induction rs arbitrary: h)
  case (Cons r rs)
  show ?case
  proof (cases "ho_entries h r")
    case (Some en)
    have "host_ok (with_entry r (\<lambda>(sh, en). (sh, drain_videos en)) h)"
      using with_entry_ok [OF Cons.prems outside_drain] .
    then show ?thesis using Some Cons.IH by (auto split: prod.splits) (metis fst_conv)
  qed (use Cons in simp)
qed simp

end
