(* ===== verification/HostAuthority.thy ===== *)
theory HostAuthority
  imports HostSteps
begin

text \<open>
  The steps that change what a worker may do: registration and removal, revocation of the session, and the
  spawn of a process with its lease.
\<close>

section \<open>The registry\<close>

lemma unused_ref: "host_ok h \<Longrightarrow> ho_entries h (ho_next h) = None"
  using host_ok_entry by (metis less_irrefl not_None_eq)

lemma registry_ref:
  assumes "host_ok h" "(p, r) \<in> set (ho_registry h)"
  obtains en where "ho_entries h r = Some en" "ps_plugin_id (en_snapshot en) = p"
  using assms unfolding host_ok_def registry_ok_def by blast

lemma registry_refs_bound: "host_ok h \<Longrightarrow> r \<in> snd ` set (ho_registry h) \<Longrightarrow> r < ho_next h"
  using registry_ref host_ok_entry by (metis imageE prod.collapse)

lemma new_entry_ok: "entry_ok sh (new_entry now p epoch)"
  by (simp add: entry_defs new_entry_def new_snapshot_def new_videos_def new_notifications_def)

lemma length_update: "length (AList.update k v al) = (if k \<in> fst ` set al then length al else Suc (length al))"
  using AList.update_keys [of k v al] by (metis length_append_singleton length_map list.set_map)

lemma host_ok_insert:
  assumes ok: "host_ok h" and plugin: "ps_plugin_id (en_snapshot en) = sp_plugin_id spec"
    and fresh: "entry_ok (ho_shared h) en" "en_lease en = None" "en_numeric en = []" "\<not> en_done en"
      "ps_state (en_snapshot en) = Starting"
    and room: "sp_plugin_id spec \<in> fst ` set (ho_registry h) \<or> length (ho_registry h) < MAX_WORKERS"
    and previous: "\<And>r old. map_of (ho_registry h) (sp_plugin_id spec) = Some r \<Longrightarrow> ho_entries h r = Some old \<Longrightarrow> en_done old"
  shows "host_ok (insert_entry spec en h)"
proof -
  let ?h = "insert_entry spec en h" and ?n = "ho_next h" and ?p = "sp_plugin_id spec"
  let ?reg = "AList.update ?p ?n (ho_registry h)"
  have reg: "registry_ok h" using ok by (simp add: host_ok_def)
  have none: "ho_entries h ?n = None" by (rule unused_ref [OF ok])
  have keys: "distinct (map fst (ho_registry h))" using reg by (simp add: registry_ok_def)
  have set: "set ?reg = insert (?p, ?n) {e \<in> set (ho_registry h). fst e \<noteq> ?p}" by (rule set_update_alist [OF keys])
  have n: "?n \<notin> snd ` set (ho_registry h)" using registry_refs_bound [OF ok] by blast
  have "\<exists>en2. ho_entries ?h r = Some en2 \<and> ps_plugin_id (en_snapshot en2) = p" if e: "(p, r) \<in> set ?reg" for p r
  proof (cases "(p, r) = (?p, ?n)")
    case True
    then show ?thesis using plugin by (simp add: insert_entry_def)
  next
    case False
    then have "(p, r) \<in> set (ho_registry h)" using e set by auto
    then obtain en2 where "ho_entries h r = Some en2" "ps_plugin_id (en_snapshot en2) = p"
      using registry_ref [OF ok] by metis
    then show ?thesis using none by (auto simp: insert_entry_def)
  qed
  moreover have "r \<in> snd ` set ?reg \<or> en_done en2" if r: "ho_entries ?h r = Some en2" for r en2
  proof (cases "r = ?n")
    case True
    then show ?thesis using set by (force intro: rev_image_eqI)
  next
    case False
    then have old: "ho_entries h r = Some en2" using r by (simp add: insert_entry_def)
    then consider "en_done en2" | p where "(p, r) \<in> set (ho_registry h)"
      using reg unfolding registry_ok_def by force
    then show ?thesis
    proof cases
      case (2 p)
      show ?thesis
      proof (cases "p = ?p")
        case True
        then have "map_of (ho_registry h) ?p = Some r" using 2 keys by simp
        then show ?thesis using previous old by blast
      next
        case False
        then have "(p, r) \<in> set ?reg" using 2 set by auto
        then show ?thesis by (auto intro: rev_image_eqI)
      qed
    qed simp
  qed
  moreover have "length ?reg \<le> MAX_WORKERS" using room reg by (auto simp: length_update registry_ok_def)
  moreover have "ho_registry ?h = ?reg" "distinct (map fst ?reg)" "distinct (map snd ?reg)"
    using reg n by (simp_all add: insert_entry_def registry_ok_def distinct_update distinct_snd_update)
  ultimately have "registry_ok ?h" unfolding registry_ok_def by fastforce
  moreover have "entries_ok ?h"
  proof -
    have "phase_ok (ho_shared h) en (new_supervisor spec)"
      using fresh plugin by (simp add: phase_ok_def new_supervisor_def before_spawn_def)
    then show ?thesis using ok fresh(1) none unfolding host_ok_def entries_ok_def
      by (auto simp: insert_entry_def less_Suc_eq)
  qed
  moreover have "apart ?h"
    using ok fresh(2,3) none by (auto simp: host_ok_def apart_def insert_entry_def numeric_refs_def)
  moreover have "active_ok ?h"
  proof -
    have "active_ok h" using ok by (simp add: host_ok_def)
    then show ?thesis using none unfolding active_ok_def
      by (simp add: insert_entry_def) (metis option.distinct(1))
  qed
  ultimately show ?thesis by (simp add: host_ok_def)
qed

theorem host_ok_register: "host_ok h \<Longrightarrow> host_ok (fst (register X now spec expected h))"
proof -
  assume ok: "host_ok h"
  let ?en = "new_entry now (sp_plugin_id spec) (authority_epoch h)"
  have sample: "entry_ok (ho_shared h) (?en\<lparr>en_snapshot := (en_snapshot ?en)\<lparr>ps_generation := g\<rparr>\<rparr>)" for g
    using new_entry_ok [of "ho_shared h" now "sp_plugin_id spec" "authority_epoch h"] by (simp add: entry_defs)
  show ?thesis
  proof (cases "find_entry (sp_plugin_id spec) h")
    case (Inl e)
    have "map_of (ho_registry h) (sp_plugin_id spec) = None"
    proof (rule ccontr)
      assume "map_of (ho_registry h) (sp_plugin_id spec) \<noteq> None"
      then obtain r where r: "map_of (ho_registry h) (sp_plugin_id spec) = Some r" by blast
      then obtain en where "ho_entries h r = Some en" using registry_ref [OF ok map_of_SomeD [OF r]] by metis
      then show False using Inl r by (simp add: find_entry_def)
    qed
    then have "host_ok (insert_entry spec ?en h)" if "length (ho_registry h) < MAX_WORKERS"
      using that by (intro host_ok_insert [OF ok _ new_entry_ok]) (simp_all add: new_entry_def new_snapshot_def)
    then show ?thesis using ok Inl host_ok_changed by (auto simp: register_def Let_def not_le)
  next
    case (Inr x)
    then obtain r old where x: "x = (r, old)" "map_of (ho_registry h) (sp_plugin_id spec) = Some r" "ho_entries h r = Some old"
      by (auto simp: find_entry_def split: option.split_asm)
    then have key: "sp_plugin_id spec \<in> fst ` set (ho_registry h)" by (metis image_eqI fst_conv map_of_SomeD)
    have "host_ok (insert_entry spec (?en\<lparr>en_snapshot := (en_snapshot ?en)\<lparr>ps_generation := g\<rparr>\<rparr>) h)" if "replaceable old" for g
      using that key x(2,3)
      by (intro host_ok_insert [OF ok _ sample]) (simp_all add: new_entry_def new_snapshot_def replaceable_def)
    then show ?thesis using ok Inr x(1) host_ok_changed by (auto simp: register_def Let_def)
  qed
qed

lemma host_ok_remove:
  assumes "host_ok h" "stopped_wait r h"
  shows "host_ok (fst (finish_remove plugin r h))"
proof (cases "map_of (ho_registry h) plugin = Some r")
  case True
  let ?h = "h\<lparr>ho_registry := AList.delete plugin (ho_registry h)\<rparr>"
  have reg: "registry_ok h" using assms(1) by (simp add: host_ok_def)
  have set: "set (AList.delete plugin (ho_registry h)) = {e \<in> set (ho_registry h). fst e \<noteq> plugin}"
    by (rule set_delete_alist)
  have "r2 \<in> snd ` set (AList.delete plugin (ho_registry h)) \<or> en_done en" if r2: "ho_entries h r2 = Some en" for r2 en
  proof (cases "r2 = r")
    case True
    then show ?thesis using assms(2) r2 by (simp add: stopped_wait_def)
  next
    case False
    consider "en_done en" | p where "(p, r2) \<in> set (ho_registry h)" using reg r2 unfolding registry_ok_def by force
    then show ?thesis
    proof cases
      case (2 p)
      have "map_of (ho_registry h) p = Some r2" using 2 reg by (simp add: registry_ok_def)
      then have "p \<noteq> plugin" using True False by auto
      then have "(p, r2) \<in> set (AList.delete plugin (ho_registry h))" using 2 set by simp
      then show ?thesis by (auto intro: rev_image_eqI)
    qed simp
  qed
  then have "registry_ok ?h"
    using reg set by (auto simp: registry_ok_def AList.distinct_delete distinct_delete
        intro: order_trans [OF forget_bound])
  then have "host_ok ?h" using assms(1) by (simp add: host_ok_def entries_ok_def apart_def active_ok_def)
  then show ?thesis using True host_ok_changed assms(1) by (auto simp: finish_remove_def split: sum.splits)
qed (use assms(1) in \<open>auto simp: finish_remove_def split: sum.splits option.splits\<close>)

section \<open>Revocation of the session\<close>

lemma outside_revoke_entry: "outside revoke_entry"
proof -
  have "confined se (revoke_entry se) \<and> en_done (snd (revoke_entry se)) = en_done (snd se)
    \<and> ps_state (en_snapshot (snd (revoke_entry se))) = Stopped" for se
  proof (cases se)
    case (Pair sh en)
    obtain sh' en' where r: "revoke_generation (sh, en) = (sh', en')" by fastforce
    note f = revoke_generation_facts [OF r]
    let ?s = "(en_snapshot en')\<lparr>ps_state := Stopped, ps_contributions := [], ps_presentation := []\<rparr>"
    let ?en = "en'\<lparr>en_stop := True, en_snapshot := ?s, en_notifications := (en_notifications en')\<lparr>ns_pending := []\<rparr>\<rparr>"
    have "entry_ok sh' ?en" if "entry_ok sh' en'"
      using that f(6,7) by (simp add: entry_ok_def lease_ok_def queues_ok_def)
    then have "confined (sh, en) (sh', ?en)"
      using confined_revoke [of "(sh, en)"] f by (simp add: r confined_def numeric_refs_def)
    then show ?thesis using f(4) by (simp add: Pair revoke_entry_def r)
  qed
  then show ?thesis by (simp add: outside_def)
qed

definition set_authority :: "authority \<Rightarrow> host \<Rightarrow> host" where
  "set_authority a h = h\<lparr>ho_shared := (ho_shared h)\<lparr>sh_authority := a\<rparr>\<rparr>"

lemma set_authority_parts [simp]:
  "registry_ok (set_authority a h) = registry_ok h" "apart (set_authority a h) = apart h"
  by (simp_all add: set_authority_def registry_ok_def apart_def)

text \<open>Revoking an entry does not read the authority, so the order of the two is immaterial.\<close>

lemma revoke_numeric_authority:
  "revoke_numeric rs (sh\<lparr>sh_authority := a\<rparr>) = (revoke_numeric rs sh)\<lparr>sh_authority := a\<rparr>"
  by (cases sh) (simp add: revoke_numeric_def cong: if_cong)

lemma revoke_lease_authority: "revoke_lease i (sh\<lparr>sh_authority := a\<rparr>) = (revoke_lease i sh)\<lparr>sh_authority := a\<rparr>"
  by (simp add: revoke_lease_def split: option.splits)

lemma revoke_entry_authority:
  "revoke_entry (sh\<lparr>sh_authority := a\<rparr>, en) =
     (case revoke_entry (sh, en) of (sh, en) \<Rightarrow> (sh\<lparr>sh_authority := a\<rparr>, en))"
  by (cases "en_lease en")
    (simp_all add: revoke_entry_def revoke_generation_def Let_def revoke_numeric_authority revoke_lease_authority)

lemma with_revoke_authority:
  "with_entry r revoke_entry (set_authority a h) = set_authority a (with_entry r revoke_entry h)"
  by (simp add: with_entry_def set_authority_def revoke_entry_authority split: option.splits prod.splits)

lemma fold_revoke_authority:
  "fold (\<lambda>r. with_entry r revoke_entry) rs (set_authority a h) = set_authority a (fold (\<lambda>r. with_entry r revoke_entry) rs h)"
  by (induction rs arbitrary: h) (simp_all add: with_revoke_authority)

text \<open>What one revocation leaves of every entry, and what all of them leave of the revoked ones.\<close>

definition lease_dead :: "host \<Rightarrow> nat \<Rightarrow> bool" where
  "lease_dead h r \<longleftrightarrow> (\<forall>en i. ho_entries h r = Some en \<longrightarrow> en_lease en = Some i \<longrightarrow> \<not> lease_active (ho_shared h) i)"

lemma revoke_one:
  assumes "host_ok h"
  shows "lease_dead (with_entry r revoke_entry h) r"
    and "lease_dead h r2 \<Longrightarrow> lease_dead (with_entry r revoke_entry h) r2"
    and "ho_registry (with_entry r revoke_entry h) = ho_registry h"
proof -
  show "ho_registry (with_entry r revoke_entry h) = ho_registry h"
    by (simp add: with_entry_def split: option.splits prod.splits)
  have "lease_dead (with_entry r revoke_entry h) r \<and> (lease_dead h r2 \<longrightarrow> lease_dead (with_entry r revoke_entry h) r2)"
  proof (cases "ho_entries h r")
    case (Some en)
    obtain sh' en' where g: "revoke_generation (ho_shared h, en) = (sh', en')" by fastforce
    note f = revoke_generation_facts [OF g]
    have w: "ho_shared (with_entry r revoke_entry h) = sh'"
      "ho_entries (with_entry r revoke_entry h) r2 = (if r2 = r then Some (snd (revoke_entry (ho_shared h, en))) else ho_entries h r2)" for r2
      using Some g by (simp_all add: with_entry_def revoke_entry_def)
    have "en_lease (snd (revoke_entry (ho_shared h, en))) = en_lease en" using f(1) by (simp add: revoke_entry_def g)
    then show ?thesis using w f(10) shrink_active [OF f(11)] by (auto simp: lease_dead_def)
  qed (simp add: with_entry_def lease_dead_def)
  then show "lease_dead (with_entry r revoke_entry h) r"
    "lease_dead h r2 \<Longrightarrow> lease_dead (with_entry r revoke_entry h) r2" by blast+
qed

lemma revoke_all:
  assumes "host_ok h"
  shows "host_ok (fold (\<lambda>r. with_entry r revoke_entry) rs h)
    \<and> ho_registry (fold (\<lambda>r. with_entry r revoke_entry) rs h) = ho_registry h
    \<and> (\<forall>r. r \<in> set rs \<or> lease_dead h r \<longrightarrow> lease_dead (fold (\<lambda>r. with_entry r revoke_entry) rs h) r)"
  using assms
proof (induction rs arbitrary: h)
  case (Cons r rs)
  let ?h = "with_entry r revoke_entry h"
  have "host_ok ?h" by (rule with_entry_ok [OF Cons.prems outside_revoke_entry])
  then show ?case using Cons.IH [of ?h] revoke_one [OF Cons.prems] by auto
qed simp

lemma unregistered_dead:
  assumes "host_ok h" "ho_entries h r = Some en" "en_lease en = Some i" "lease_active (ho_shared h) i"
  shows "r \<in> snd ` set (ho_registry h)"
proof (rule ccontr)
  assume "r \<notin> snd ` set (ho_registry h)"
  then have "en_done en" using assms(1,2) unfolding host_ok_def registry_ok_def by blast
  moreover obtain su where "phase_ok (ho_shared h) en su" using host_ok_entry [OF assms(1,2)] by metis
  ultimately show False using assms(3,4) by (auto simp: phase_ok_def holds_process_def)
qed

lemma revoke_epoch_ok:
  assumes "host_ok h" "revoke_epoch h = (h', epoch)"
  shows "host_ok h'" "\<not> lease_active (ho_shared h') i"
    "sh_authority (ho_shared h') = \<lparr>au_enabled = False, au_epoch = authority_epoch h + 1\<rparr>" "epoch = authority_epoch h + 1"
proof -
  let ?a = "\<lparr>au_enabled = False, au_epoch = authority_epoch h + 1\<rparr>"
  let ?f = "fold (\<lambda>r. with_entry r revoke_entry) (map snd (ho_registry h)) h"
  have h': "h' = host_changed (set_authority ?a ?f)" "epoch = authority_epoch h + 1"
    using assms(2) fold_revoke_authority [of "map snd (ho_registry h)" ?a h]
    by (auto simp: revoke_epoch_def Let_def set_authority_def)
  note all = revoke_all [OF assms(1), of "map snd (ho_registry h)"]
  have dead: "\<not> lease_active (ho_shared ?f) i" for i
  proof
    assume act: "lease_active (ho_shared ?f) i"
    then obtain r en where o: "ho_entries ?f r = Some en" "en_lease en = Some i"
      using all unfolding host_ok_def active_ok_def by blast
    then have "r \<in> set (map snd (ho_registry h))" using unregistered_dead [of ?f r en i] act all by simp
    then show False using all o act unfolding lease_dead_def by blast
  qed
  show "sh_authority (ho_shared h') = ?a" "epoch = authority_epoch h + 1"
    using h' by (simp_all add: host_changed_def set_authority_def)
  have same: "lease_active (ho_shared h') = lease_active (ho_shared ?f)"
    by (simp add: h' host_changed_def set_authority_def lease_active_def fun_eq_iff)
  then show "\<not> lease_active (ho_shared h') i" using dead by simp
  have "entries_ok (set_authority ?a ?f)"
  proof -
    have "entry_ok ((ho_shared ?f)\<lparr>sh_authority := ?a\<rparr>) en = entry_ok (ho_shared ?f) en" for en
      by (rule entry_ok_shared) simp_all
    moreover have "phase_ok ((ho_shared ?f)\<lparr>sh_authority := ?a\<rparr>) en su = phase_ok (ho_shared ?f) en su" for en su
      by (simp add: phase_ok_def lease_active_def)
    ultimately show ?thesis using all unfolding host_ok_def entries_ok_def by (simp add: set_authority_def)
  qed
  moreover have "active_ok (set_authority ?a ?f)"
    using dead by (simp add: active_ok_def set_authority_def lease_active_def)
  ultimately have "host_ok (set_authority ?a ?f)"
    using all unfolding host_ok_def set_authority_parts by blast
  then show "host_ok h'" unfolding h'(1) by (rule host_ok_changed)
qed

section \<open>A new process\<close>

lemma new_lease_simps [simp]:
  "sh_authority (new_lease i p e g sh) = sh_authority sh" "sh_numeric (new_lease i p e g sh) = sh_numeric sh"
  "sh_next_numeric (new_lease i p e g sh) = sh_next_numeric sh" "sh_stopped (new_lease i p e g sh) = sh_stopped sh"
  by (simp_all add: new_lease_def)

lemma new_lease_active [simp]: "lease_active (new_lease i p e g sh) j = (j = i \<or> lease_active sh j)"
  by (simp add: new_lease_def lease_active_def)

lemma new_lease_elsewhere:
  assumes "en_lease en \<noteq> Some i" "sh_leases sh i = None"
  shows "entry_ok (new_lease i p e g sh) en = entry_ok sh en"
    and "phase_ok (new_lease i p e g sh) en su = phase_ok sh en su"
proof -
  have "sh_leases (new_lease i p e g sh) j = sh_leases sh j" if "j \<noteq> i" for j using that by (simp add: new_lease_def)
  then show "entry_ok (new_lease i p e g sh) en = entry_ok sh en"
    using assms by (auto simp: entry_defs)
  show "phase_ok (new_lease i p e g sh) en su = phase_ok sh en su"
    using assms by (auto simp: phase_ok_def)
qed

text \<open>The entry as \<^verbatim>\<open>spawn_generation\<close> leaves it.\<close>

definition spawned_entry :: "32 word \<Rightarrow> string \<Rightarrow> worker_entry \<Rightarrow> worker_entry" where
  "spawned_entry restarts i en = en\<lparr>en_snapshot := (begin_generation restarts (en_snapshot en))\<lparr>ps_instance_id := Some i\<rparr>,
     en_lease := Some i, en_reaped := False\<rparr>"

definition spawned_shared :: "worker_spec \<Rightarrow> string \<Rightarrow> worker_entry \<Rightarrow> shared \<Rightarrow> shared" where
  "spawned_shared spec i en sh = new_lease i (sp_plugin_id spec) (en_epoch en) (ps_generation (en_snapshot en) + 1)
     (sh\<lparr>sh_changed := sh_changed sh + 1\<rparr>)"

lemma spawn_generation_cases:
  obtains
    (no) "spawn_generation spec restarts identity (sh, en) = ((sh, en), Ok False)"
  | (failed) "authorized sh en" "identity = None" "spawn_generation spec restarts identity (sh, en) =
      ((sh, en\<lparr>en_snapshot := begin_generation restarts (en_snapshot en)\<rparr>), Err ''worker_spawn_failed'')"
  | (spawned) i where "authorized sh en" "\<not> en_stop en" "identity = Some i"
      "spawn_generation spec restarts identity (sh, en) =
        ((spawned_shared spec i en sh, spawned_entry restarts i en), Ok True)"
proof (cases "authorized sh en \<and> \<not> en_stop en")
  case False
  then show thesis by (intro no) (auto simp: spawn_generation_def)
next
  case True
  then show thesis
  proof (cases identity)
    case None
    then show thesis using True by (intro failed) (simp_all add: spawn_generation_def Let_def)
  next
    case (Some i)
    then show thesis using True
      by (intro spawned [of i]) (simp_all add: spawn_generation_def spawned_entry_def spawned_shared_def begin_generation_def Let_def)
  qed
qed

lemma spawn_generation_spawned:
  assumes "authorized sh en" "\<not> en_stop en"
  shows "spawn_generation spec restarts (Some i) (sh, en) = ((spawned_shared spec i en sh, spawned_entry restarts i en), Ok True)"
  using assms by (cases rule: spawn_generation_cases [of spec restarts "Some i" sh en])
    (auto simp: spawn_generation_def Let_def)

lemma host_ok_spawn:
  assumes ok: "host_ok h" and en: "ho_entries h r = Some en" and su: "ho_supervisors h r = Some su"
    and phase: "su_phase su = Spawning" and fresh: "sh_leases (ho_shared h) i = None"
    and auth: "authorized (ho_shared h) en" "\<not> en_stop en" and q: "length q \<le> CONTROL_QUEUE_CAPACITY"
  shows "host_ok (put r (spawned_shared (su_spec su) i en (ho_shared h)) (spawned_entry (su_restarts su) i en)
    (su\<lparr>su_phase := Piping, su_spawned := su_spawned su + 1\<rparr>) q h)"
proof -
  let ?sh = "spawned_shared (su_spec su) i en (ho_shared h)" and ?en = "spawned_entry (su_restarts su) i en"
  let ?su = "su\<lparr>su_phase := Piping, su_spawned := su_spawned su + 1\<rparr>"
  let ?h = "put r ?sh ?en ?su q h"
  obtain su0 where "ho_supervisors h r = Some su0" "entry_ok (ho_shared h) en" "phase_ok (ho_shared h) en su0" "r < ho_next h"
    using host_ok_entry [OF ok en] by metis
  then have e: "entry_ok (ho_shared h) en" "r < ho_next h" and p: "phase_ok (ho_shared h) en su" using su by simp_all
  have dead: "\<not> lease_active (ho_shared h) j" if "en_lease en = Some j" for j
    using p that phase by (auto simp: phase_ok_def holds_process_def)
  have idle: "ps_state (en_snapshot en) \<noteq> Running" "\<not> en_done en"
    using p phase by (auto simp: phase_ok_def may_run_def)
  have "\<not> q \<in> set (vs_pending (en_videos en))" for q
    using e(1) dead unfolding entry_ok_def queues_ok_def by blast
  then have empty: "vs_pending (en_videos en) = []" "ns_pending (en_notifications en) = []"
    using e(1) idle(1) unfolding entry_ok_def queues_ok_def by (metis list.set_intros(1) neq_Nil_conv, blast)
  have shared: "entry_ok ?sh en2 = entry_ok (ho_shared h) en2" "phase_ok ?sh en2 su2 = phase_ok (ho_shared h) en2 su2"
    if "en_lease en2 \<noteq> Some i" for en2 su2
    using that fresh new_lease_elsewhere [of en2 i "(ho_shared h)\<lparr>sh_changed := sh_changed (ho_shared h) + 1\<rparr>"]
      entry_ok_shared [of "(ho_shared h)\<lparr>sh_changed := sh_changed (ho_shared h) + 1\<rparr>" "ho_shared h" en2]
    by (simp_all add: spawned_shared_def phase_ok_def lease_active_def)
  have own: "en_lease en2 \<noteq> Some i" if "ho_entries h r2 = Some en2" for r2 en2
  proof
    assume "en_lease en2 = Some i"
    moreover have "entry_ok (ho_shared h) en2" using host_ok_entry [OF ok that] by metis
    ultimately show False using fresh by (auto simp: entry_ok_def lease_ok_def)
  qed
  have spec: "sp_plugin_id (su_spec su) = ps_plugin_id (en_snapshot en)" using p by (simp add: phase_ok_def)
  have "numeric_ok ?sh (en_numeric en)" using e(1) by (simp add: entry_ok_def numeric_ok_def spawned_shared_def)
  then have "entry_ok ?sh ?en"
    using empty spec by (simp add: entry_ok_def lease_ok_def queues_ok_def spawned_entry_def spawned_shared_def
        begin_generation_def new_lease_def lease_active_def)
  moreover have "phase_ok ?sh ?en ?su"
    using p phase idle spec by (auto simp: phase_ok_def holds_process_def before_spawn_def spawned_entry_def begin_generation_def)
  ultimately have mine: "entry_ok ?sh ?en" "phase_ok ?sh ?en ?su" by blast+
  have "entries_ok ?h"
    unfolding entries_ok_def
  proof (intro allI impI)
    fix r2 en2 assume r2: "ho_entries ?h r2 = Some en2"
    show "r2 < ho_next ?h \<and> entry_ok (ho_shared ?h) en2 \<and> length (ho_commands ?h r2) \<le> CONTROL_QUEUE_CAPACITY
        \<and> (\<exists>su. ho_supervisors ?h r2 = Some su \<and> phase_ok (ho_shared ?h) en2 su)"
    proof (cases "r2 = r")
      case True
      then show ?thesis using r2 e(2) mine q by simp
    next
      case False
      then have o: "ho_entries h r2 = Some en2" using r2 by simp
      show ?thesis by (rule host_ok_entry [OF ok o]) (use False own [OF o] shared in simp)
    qed
  qed
  moreover have "apart ?h"
    unfolding apart_def
  proof (intro allI impI)
    fix r1 r2 en1 en2 assume h: "ho_entries ?h r1 = Some en1" "ho_entries ?h r2 = Some en2" "r1 \<noteq> r2"
    have refs: "numeric_refs ?en = numeric_refs en" by (simp add: spawned_entry_def numeric_refs_def)
    have lease: "en_lease ?en = Some i" by (simp add: spawned_entry_def)
    show "(\<forall>j. en_lease en1 = Some j \<longrightarrow> en_lease en2 \<noteq> Some j) \<and> numeric_refs en1 \<inter> numeric_refs en2 = {}"
    proof (cases "r1 = r")
      case True
      then have "en1 = ?en" "ho_entries h r2 = Some en2" "r2 \<noteq> r" using h by auto
      then show ?thesis using own [of r2 en2] apartD(2) [OF ok en, of r2 en2] refs lease by auto
    next
      case False
      then have r1: "ho_entries h r1 = Some en1" using h by simp
      show ?thesis
      proof (cases "r2 = r")
        case True
        then have "en2 = ?en" using h by simp
        then show ?thesis using own [OF r1] apartD(2) [OF ok r1 en False] refs lease by auto
      next
        case r2: False
        then have "ho_entries h r2 = Some en2" using h by simp
        then show ?thesis using apartD [OF ok r1 _ h(3)] by simp
      qed
    qed
  qed
  moreover have "active_ok ?h"
    unfolding active_ok_def
  proof (intro allI impI)
    fix j assume "lease_active (ho_shared ?h) j"
    then consider "j = i" | "lease_active (ho_shared h) j" 
      by (auto simp: spawned_shared_def new_lease_def lease_active_def split: if_split_asm)
    then show "\<exists>r2 en2. ho_entries ?h r2 = Some en2 \<and> en_lease en2 = Some j \<and> authorized (ho_shared ?h) en2 \<and> \<not> en_stop en2"
    proof cases
      case 1
      then show ?thesis using auth
        by (intro exI [of _ r] exI [of _ ?en]) (simp add: spawned_entry_def spawned_shared_def authorized_def)
    next
      case 2
      then obtain r2 en2 where o: "ho_entries h r2 = Some en2" "en_lease en2 = Some j" "authorized (ho_shared h) en2" "\<not> en_stop en2"
        using ok unfolding host_ok_def active_ok_def by blast
      then have "r2 \<noteq> r" using en dead 2 by auto
      then show ?thesis using o by (intro exI [of _ r2] exI [of _ en2]) (simp add: spawned_shared_def authorized_def)
    qed
  qed
  moreover have "registry_ok ?h"
    using ok idle(2) by (intro registry_ok_put [OF _ en]) (simp_all add: host_ok_def spawned_entry_def begin_generation_def)
  ultimately show ?thesis by (simp add: host_ok_def)
qed

end
