(* ===== verification/HostReachable.thy ===== *)
theory HostReachable
  imports HostAuthority
begin

text \<open>
  The supervisors' steps keep the host's invariant, and with them every step of the host; the step relation,
  the reachable hosts, and what the invariant says of them.
\<close>

section \<open>The supervisors\<close>

text \<open>A supervisor's step that ends up in an entry confined in the old one.\<close>

lemma host_ok_step:
  assumes ok: "host_ok h" and en: "ho_entries h r = Some en" and su: "ho_supervisors h r = Some su"
    and step: "confined (ho_shared h, en) se'" and fin: "en_done en \<Longrightarrow> en_done (snd se')"
    and q: "length q \<le> CONTROL_QUEUE_CAPACITY"
    and phase: "phase_ok (ho_shared h) en su \<Longrightarrow> entry_ok (ho_shared h) en \<Longrightarrow> phase_ok (fst se') (snd se') su'"
  shows "host_ok (put r (fst se') (snd se') su' q h)"
proof -
  obtain su0 where "ho_supervisors h r = Some su0" "entry_ok (ho_shared h) en" "phase_ok (ho_shared h) en su0"
    using host_ok_entry [OF ok en] by metis
  then show ?thesis using su step phase fin q by (intro host_ok_put [OF ok en]) simp_all
qed

lemma confined_phase:
  assumes "confined (sh, en) (sh', en')" "entry_ok sh en" "phase_ok sh en su"
  shows "\<And>i. en_lease en' = Some i \<Longrightarrow> lease_active sh' i \<Longrightarrow> holds_process (su_phase su)"
    "ps_plugin_id (en_snapshot en') = ps_plugin_id (en_snapshot en)"
  using confinedD(5-7) [OF assms(1,2)] assms(3) shrink_active by (auto simp: phase_ok_def)

text \<open>How the entry operations of a supervisor end: dead lease, no running state.\<close>

definition ended :: "shared \<times> worker_entry \<Rightarrow> bool" where
  "ended = (\<lambda>(sh, en). (\<forall>i. en_lease en = Some i \<longrightarrow> \<not> lease_active sh i) \<and> ps_state (en_snapshot en) \<noteq> Running)"

lemma revoke_dead: "revoke_generation se = (sh, en) \<Longrightarrow> en_lease en = Some i \<Longrightarrow> \<not> lease_active sh i"
  using revoke_generation_facts(1,10) by (metis surj_pair)

lemma update_ended:
  assumes "revoke_generation se = (sh, en)" "\<And>s. ps_state (f s) \<noteq> Running"
  shows "ended (update_entry f (sh, en))" "en_done (snd (update_entry f (sh, en))) = en_done en"
  using revoke_dead [OF assms(1)] assms(2) by (auto simp: ended_def update_entry_def Let_def lease_active_def)

lemma close_ended: "ended (close_generation out se)" "en_done (snd (close_generation out se)) = en_done (snd se)"
proof -
  obtain sh en where r: "revoke_generation se = (sh, en)" by fastforce
  show "ended (close_generation out se)" unfolding close_generation_def r by (rule update_ended(1) [OF r]) simp
  have "en_done en = en_done (snd se)" using revoke_generation_facts(4) r by (metis prod.collapse)
  then show "en_done (snd (close_generation out se)) = en_done (snd se)"
    unfolding close_generation_def r by (subst update_ended(2) [OF r]) simp_all
qed

lemma fail_ended: "ended (fail_entry code se)"
proof -
  obtain sh en where r: "revoke_generation se = (sh, en)" by fastforce
  show ?thesis unfolding fail_entry_def r by (rule update_ended(1) [OF r]) simp
qed

lemma ended_flags [simp]: "ended (set_done se) = ended se" "ended (set_reaped b se) = ended se"
  "en_done (snd (set_done se))" "en_done (snd (set_reaped b se)) = en_done (snd se)"
  by (cases se; simp add: ended_def set_done_def set_reaped_def)+

lemma confined_done: "confined se se' \<Longrightarrow> confined se (set_done se')"
  by (rule confined_trans [OF _ confined_flags(2)])

text \<open>Every failing path of \<^verbatim>\<open>supervise\<close> ends in the phase \<open>Finished\<close> with such an entry.\<close>

lemma phase_finished:
  assumes "phase_ok sh en su" "entry_ok sh en" "confined (sh, en) se'" "ended se'" "en_done (snd se')"
  shows "phase_ok (fst se') (snd se') (su\<lparr>su_phase := Finished, su_replies := rs\<rparr>)"
    "phase_ok (fst se') (snd se') (su\<lparr>su_phase := Finished\<rparr>)"
proof -
  obtain sh' en' where se': "se' = (sh', en')" by fastforce
  note c = confined_phase [OF assms(3) [unfolded se'] assms(2,1)]
  have "phase_ok sh' en' (su\<lparr>su_phase := Finished, su_replies := rs\<rparr>)" for rs
    using assms c by (auto simp: se' ended_def phase_ok_def before_spawn_def split: if_split_asm)
  then show "phase_ok (fst se') (snd se') (su\<lparr>su_phase := Finished, su_replies := rs\<rparr>)"
    "phase_ok (fst se') (snd se') (su\<lparr>su_phase := Finished\<rparr>)"
    using se' by (simp_all add: phase_ok_def)
qed

text \<open>A step that leaves the entry alone.\<close>

lemma phase_only:
  assumes "phase_ok sh en su" "su_spec su' = su_spec su" "su_restarts su' = su_restarts su"
    "su_run su' = su_run su" "su_spawned su' = su_spawned su" "\<not> en_done en" "su_phase su' \<noteq> Finished"
    "holds_process (su_phase su) \<Longrightarrow> holds_process (su_phase su')" "may_run (su_phase su) \<Longrightarrow> may_run (su_phase su')"
    "before_spawn (su_phase su') \<Longrightarrow> before_spawn (su_phase su)"
  shows "phase_ok sh en su'"
  using assms by (auto simp: phase_ok_def split: if_split_asm)

definition settles :: "shared \<times> worker_entry \<Rightarrow> supervisor \<times> (shared \<times> worker_entry) \<Rightarrow> bool" where
  "settles = (\<lambda>(sh, en) (su', se'). confined (sh, en) se' \<and> (en_done en \<longrightarrow> en_done (snd se')) \<and> phase_ok (fst se') (snd se') su')"

lemma settles_finished:
  assumes "phase_ok sh en su" "entry_ok sh en" "confined (sh, en) se'" "ended se'"
  shows "settles (sh, en) (su\<lparr>su_phase := Finished\<rparr>, set_done se')"
    "settles (sh, en) (su\<lparr>su_phase := Finished, su_replies := rs\<rparr>, set_done se')"
  using phase_finished [OF assms(1,2) confined_done [OF assms(3)]] assms confined_done [OF assms(3)]
  by (simp_all add: settles_def)

lemma settles_arm:
  assumes p: "phase_ok sh en su" "entry_ok sh en" "\<not> en_done en" "\<not> before_spawn (su_phase su)"
    and gr: "gr_shared gr = sh" "gr_entry gr = en" "run_ok gr" and step: "run_step gr (fst out)"
  shows "settles (sh, en) (end_arm out su)"
proof -
  obtain gr' o' where out: "out = (gr', o')" by fastforce
  define gr2 where "gr2 = (if o' = None then gr' else finish_run gr')"
  have step2: "run_step gr gr2"
    using step out run_step_trans [OF _ run_step_finish] by (simp add: gr2_def)
  then have c: "confined (sh, en) (gr_shared gr2, gr_entry gr2)" "en_done (gr_entry gr2) = en_done en" "run_ok gr2"
    using gr by (auto simp: run_step_def)
  note m = confined_phase [OF c(1) p(2,1)]
  have "phase_ok (gr_shared gr2) (gr_entry gr2) (su\<lparr>su_phase := ph, su_run := Some gr2, su_replies := rs\<rparr>)"
    if "ph = Generating \<or> (\<exists>x. ph = Closing x)" for ph rs
    using that p c(2,3) m by (auto simp: phase_ok_def holds_process_def may_run_def before_spawn_def)
  then show ?thesis using c out
    by (cases o') (simp_all add: settles_def end_arm_def attach_def gr2_def)
qed

lemma after_terminate_settles:
  assumes p: "phase_ok sh en su" "entry_ok sh en" "su_phase su = Terminating out"
  shows "settles (sh, en) (after_terminate reaped out su (sh, en))"
proof -
  let ?se = "set_reaped reaped (sh, en)"
  have c: "confined (sh, en) ?se" by (rule confined_flags)
  have idle: "\<not> en_done en" "ps_state (en_snapshot en) \<noteq> Running" "\<not> holds_process (su_phase su)"
    using p by (auto simp: phase_ok_def may_run_def holds_process_def)
  have fail: "settles (sh, en) (su\<lparr>su_phase := Finished\<rparr>, set_done (fail_entry code ?se))" for code
    using settles_finished(1) [OF p(1,2) confined_trans [OF c confined_fail] fail_ended] .
  have stay: "phase_ok sh (en\<lparr>en_reaped := reaped\<rparr>) (su\<lparr>su_phase := Settling\<rparr>)"
    using p(1) p(3) idle by (auto simp: phase_ok_def before_spawn_def holds_process_def may_run_def)
  have again: "phase_ok sh (en\<lparr>en_reaped := reaped\<rparr>) (su\<lparr>su_phase := BackingOff, su_restarts := su_restarts su + 1\<rparr>)"
    if less: "\<not> MAX_RESTARTS \<le> su_restarts su"
  proof -
    have n: "unat (su_restarts su) < 2" using less by (simp add: MAX_RESTARTS_def word_le_nat_alt not_le)
    then have "su_restarts su = 0 \<or> su_restarts su = 1" by (auto simp: word_unat_eq_iff)
    then have u: "unat (su_restarts su + 1) = unat (su_restarts su) + 1" by auto
    then have "su_restarts su + 1 \<le> MAX_RESTARTS" using n by (simp add: MAX_RESTARTS_def word_le_nat_alt)
    then show ?thesis using p(1,3) idle u by (auto simp: phase_ok_def before_spawn_def holds_process_def may_run_def)
  qed
  show ?thesis using fail stay again c idle(1)
    by (cases out) (auto simp: after_terminate_def settles_def set_reaped_def Let_def)
qed

lemma spawn_settles:
  assumes p: "phase_ok sh en su" "entry_ok sh en" "su_phase su = Spawning"
    and no: "\<nexists>i. identity = Some i \<and> authorized sh en \<and> \<not> en_stop en"
  shows "settles (sh, en) (case spawn_generation (su_spec su) (su_restarts su) identity (sh, en) of
      (se, Err code) \<Rightarrow> (su\<lparr>su_phase := Finished\<rparr>, set_done (fail_entry code se))
    | (se, Ok spawned) \<Rightarrow>
        if spawned then (su\<lparr>su_phase := Piping, su_spawned := su_spawned su + 1\<rparr>, se) else (su\<lparr>su_phase := Settling\<rparr>, se))"
proof -
  have idle: "\<not> en_done en" "ps_state (en_snapshot en) \<noteq> Running" "\<not> holds_process (su_phase su)"
    using p by (auto simp: phase_ok_def may_run_def holds_process_def)
  show ?thesis
  proof (cases rule: spawn_generation_cases [of "su_spec su" "su_restarts su" identity sh en])
    case no
    have "phase_ok sh en (su\<lparr>su_phase := Settling\<rparr>)"
      using p(1,3) idle by (auto simp: phase_ok_def before_spawn_def holds_process_def may_run_def)
    then show ?thesis using no idle(1) by (simp add: settles_def)
  next
    case failed
    let ?en = "en\<lparr>en_snapshot := begin_generation (su_restarts su) (en_snapshot en)\<rparr>"
    have "entry_ok sh ?en" if "entry_ok sh en"
      using that idle(2) by (auto simp: entry_ok_def lease_ok_def queues_ok_def begin_generation_def)
    then have c: "confined (sh, en) (sh, ?en)"
      by (intro confined_entry) (simp_all add: begin_generation_def numeric_refs_def)
    then have "settles (sh, en) (su\<lparr>su_phase := Finished\<rparr>, set_done (fail_entry ''worker_spawn_failed'' (sh, ?en)))"
      using settles_finished(1) [OF p(1,2) confined_trans [OF c confined_fail] fail_ended] by blast
    then show ?thesis using failed by simp
  next
    case (spawned i)
    then show ?thesis using assms(4) by blast
  qed
qed

lemma settle_settles:
  assumes p: "phase_ok sh en su" "entry_ok sh en" "su_phase su = Settling"
  shows "settles (sh, en) (su\<lparr>su_phase := Finished, su_replies := rs\<rparr>, set_done (settle_entry (sh, en)))"
proof -
  have "\<not> lease_active sh i" if "en_lease en = Some i" for i
    using p(1,3) that by (auto simp: phase_ok_def holds_process_def)
  then have "ended (settle_entry (sh, en))"
    by (simp add: ended_def settle_entry_def update_entry_def Let_def lease_active_def)
  then show ?thesis using settles_finished(2) [OF p(1,2) confined_settle] by blast
qed

lemma supervise_settles:
  assumes p: "phase_ok sh en su" "entry_ok sh en" and step: "supervise_step X ev su (sh, en) = Some out"
    and no: "\<not> (su_phase su = Spawning \<and> (\<exists>i. ev = SSpawn (Some i) \<and> authorized sh en \<and> \<not> en_stop en))"
  shows "settles (sh, en) out"
proof -
  have live: "\<not> en_done en" if "su_phase su \<noteq> Finished" using p(1) that by (simp add: phase_ok_def)
  have same: "settles (sh, en) (su', (sh, en))" if "phase_ok sh en su'" "\<not> en_done en" for su'
    using that by (simp add: settles_def)
  show ?thesis
  proof (cases "su_phase su")
    case Deciding
    have "phase_ok sh en (su\<lparr>su_phase := ph\<rparr>)" if "ph = Settling \<or> ph = Spawning" for ph
      using p(1) that Deciding by (auto simp: phase_ok_def before_spawn_def holds_process_def may_run_def)
    then show ?thesis using step Deciding live same
      by (cases ev) (auto simp: supervise_step_def)
  next
    case Spawning
    then show ?thesis using step no spawn_settles [OF p]
      by (cases ev) (auto simp: supervise_step_def)
  next
    case Piping
    then show ?thesis
    proof (cases ev)
      case (SPipes piped reaped now)
      show ?thesis
      proof (cases piped)
        case True
        have "settles (sh, en) (end_arm (start_run X now (su_spec su) (sh, en)) su)"
        proof (rule settles_arm [OF p])
          show "\<not> en_done en" using live Piping by simp
          show "\<not> before_spawn (su_phase su)" using Piping by (simp add: before_spawn_def)
          show "gr_shared (fst (start_run X now (su_spec su) (sh, en))) = sh" "gr_entry (fst (start_run X now (su_spec su) (sh, en))) = en"
            "run_ok (fst (start_run X now (su_spec su) (sh, en)))" by (rule start_run_ok)+
        qed simp
        then show ?thesis using step Piping SPipes True by (simp add: supervise_step_def)
      next
        case False
        have "confined (sh, en) (set_reaped reaped (revoke_generation (sh, en)))"
          by (rule confined_trans [OF confined_revoke confined_flags(1)])
        from settles_finished(1) [OF p confined_trans [OF this confined_fail] fail_ended]
        show ?thesis using step Piping SPipes False by (auto simp: supervise_step_def)
      qed
    qed (use step Piping in \<open>simp_all add: supervise_step_def\<close>)
  next
    case Generating
    then show ?thesis
    proof (cases ev)
      case (SEvent e)
      then obtain gr where gr: "su_run su = Some gr" and out: "out = end_arm (generation_step X (su_spec su) e (resume_run gr (sh, en))) su"
        using step Generating by (auto simp: supervise_step_def)
      have "run_ok gr" using p(1) gr by (simp add: phase_ok_def)
      then have "run_ok (resume_run gr (sh, en))" by (simp add: resume_run_def run_ok_def)
      then show ?thesis unfolding out
        by (intro settles_arm [OF p _ _ _ _ _ run_step_generation])
          (use live Generating in \<open>simp_all add: before_spawn_def resume_run_def\<close>)
    qed (use step Generating in \<open>simp_all add: supervise_step_def\<close>)
  next
    case (Closing o')
    have "phase_ok (fst (close_generation o' (sh, en))) (snd (close_generation o' (sh, en)))
        (su\<lparr>su_phase := Terminating o', su_run := None\<rparr>)"
    proof -
      obtain sh' en' where c: "close_generation o' (sh, en) = (sh', en')" by fastforce
      note m = confined_phase [OF confined_close [of "(sh, en)" o', unfolded c] p(2,1)]
      have "ended (sh', en')" "en_done en' = en_done en" using close_ended [of o' "(sh, en)"] by (simp_all add: c)
      then show ?thesis using p(1) m Closing live c by (auto simp: phase_ok_def ended_def before_spawn_def may_run_def)
    qed
    then show ?thesis using step Closing confined_close [of "(sh, en)" o'] close_ended(2) [of o' "(sh, en)"]
      by (cases ev) (auto simp: supervise_step_def settles_def)
  next
    case (Terminating o')
    then show ?thesis using step after_terminate_settles [OF p Terminating]
      by (cases ev) (auto simp: supervise_step_def)
  next
    case BackingOff
    have "phase_ok sh en (su\<lparr>su_phase := Deciding\<rparr>)" "phase_ok sh en (su\<lparr>su_replies := rs\<rparr>)" for rs
      using p(1) BackingOff by (auto simp: phase_ok_def before_spawn_def holds_process_def may_run_def)
    then show ?thesis using step BackingOff live same by (cases ev) (auto simp: supervise_step_def)
  next
    case Settling
    then show ?thesis using step settle_settles [OF p Settling] by (cases ev) (auto simp: supervise_step_def)
  qed (use step in \<open>cases ev; simp add: supervise_step_def\<close>)
qed

lemma event_commands_length: "event_commands ev q = Some q' \<Longrightarrow> length q' \<le> length q"
  by (induction ev q rule: event_commands.induct)
    (auto split: option.split_asm list.split_asm if_split_asm)

text \<open>The identity of a new process was never used; every other input is arbitrary.\<close>

definition fresh_identity :: "supervisor_event \<Rightarrow> host \<Rightarrow> bool" where
  "fresh_identity ev h \<longleftrightarrow> (\<forall>i. ev = SSpawn (Some i) \<longrightarrow> sh_leases (ho_shared h) i = None)"

theorem host_ok_supervise:
  assumes ok: "host_ok h" and step: "host_supervise X r ev h = Some h'" and fresh: "fresh_identity ev h"
  shows "host_ok h'"
proof -
  obtain en su q su' sh' en' where en: "ho_entries h r = Some en" "ho_supervisors h r = Some su"
    and q: "event_commands ev (ho_commands h r) = Some q"
    and s: "supervise_step X ev su (ho_shared h, en) = Some (su', (sh', en'))" and h': "h' = put r sh' en' su' q h"
    using step by (auto simp: host_supervise_def put_def split: option.split_asm)
  obtain su0 where "ho_supervisors h r = Some su0" "entry_ok (ho_shared h) en" "phase_ok (ho_shared h) en su0"
    "length (ho_commands h r) \<le> CONTROL_QUEUE_CAPACITY" using host_ok_entry [OF ok en(1)] by metis
  then have p: "phase_ok (ho_shared h) en su" "entry_ok (ho_shared h) en" and len: "length q \<le> CONTROL_QUEUE_CAPACITY"
    using en event_commands_length [OF q] by auto
  show ?thesis
  proof (cases "su_phase su = Spawning \<and> (\<exists>i. ev = SSpawn (Some i) \<and> authorized (ho_shared h) en \<and> \<not> en_stop en)")
    case True
    then obtain i where i: "su_phase su = Spawning" "ev = SSpawn (Some i)" "authorized (ho_shared h) en" "\<not> en_stop en"
      by blast
    note spawn_generation_spawned [OF i(3,4), of "su_spec su" "su_restarts su" i]
    then have "h' = put r (spawned_shared (su_spec su) i en (ho_shared h)) (spawned_entry (su_restarts su) i en)
        (su\<lparr>su_phase := Piping, su_spawned := su_spawned su + 1\<rparr>) q h"
      using s i h' by (simp add: supervise_step_def)
    then show ?thesis using host_ok_spawn [OF ok en i(1) _ i(3,4) len] fresh i(2) by (simp add: fresh_identity_def)
  next
    case False
    from supervise_settles [OF p s False] show ?thesis
      unfolding h' by (intro host_ok_put [OF ok en(1) _ _ _ len]) (simp_all add: settles_def)
  qed
qed

section \<open>The steps of the host\<close>

text \<open>
  Whatever the application, the workers, the operating system and the clock do, in any order: the operations of the
  application and the writers, and the steps of the supervisors.
\<close>

inductive calm_step :: "ext \<Rightarrow> host \<Rightarrow> host \<Rightarrow> bool" for X where
  register: "calm_step X h (fst (register X now spec expected h))"
| begin_stop: "calm_step X h (fst (begin_stop plugin h))"
| finish_remove: "stopped_wait r h \<Longrightarrow> calm_step X h (fst (finish_remove plugin r h))"
| revoke: "calm_step X h (fst (revoke_epoch h))"
| resume: "calm_step X h (resume h)"
| resume_in_epoch: "calm_step X h (fst (resume_in_epoch epoch h))"
| shutdown: "calm_step X h (h\<lparr>ho_shared := (ho_shared h)\<lparr>sh_stopped := True\<rparr>\<rparr>)"
| dispatch: "calm_step X h (fst (dispatch_one now r h))"
| take: "calm_step X h (fst (take_http_video_requests now h))"
| prepare: "calm_step X h (fst (prepare_action X plugin instance action params budget h))"
| enqueue: "calm_step X h (fst (enqueue_action r rid instance action params budget epoch since h))"
| cancel: "calm_step X h (cancel_on_drop r rid h)"
| pipe: "calm_step X h (writer_takes r ends h)"

inductive host_step :: "ext \<Rightarrow> host \<Rightarrow> host \<Rightarrow> bool" for X where
  calm: "calm_step X h h' \<Longrightarrow> host_step X h h'"
| supervise: "fresh_identity ev h \<Longrightarrow> host_supervise X r ev h = Some h' \<Longrightarrow> host_step X h h'"

inductive reachable :: "ext \<Rightarrow> host \<Rightarrow> bool" for X where
  start: "reachable X (new_host now)"
| step: "reachable X h \<Longrightarrow> host_step X h h' \<Longrightarrow> reachable X h'"

lemma host_ok_new: "host_ok (new_host now)"
  by (simp add: host_ok_def registry_ok_def entries_ok_def apart_def active_ok_def new_host_def lease_active_def)

lemma host_ok_stopped: "host_ok h \<Longrightarrow> host_ok (h\<lparr>ho_shared := (ho_shared h)\<lparr>sh_stopped := True\<rparr>\<rparr>)"
  by (rule host_ok_shared) (simp_all add: authorized_def)

lemma host_ok_prepare: "host_ok h \<Longrightarrow> host_ok (fst (prepare_action X plugin instance action params budget h))"
proof -
  assume ok: "host_ok h"
  have "host_ok (h\<lparr>ho_shared := (ho_shared h)\<lparr>sh_next_request := n\<rparr>\<rparr>)" for n
    by (rule host_ok_shared [OF ok]) (simp_all add: authorized_def)
  then show ?thesis using ok by (auto simp: prepare_action_def Let_def split: sum.splits)
qed

lemma calm_step_ok: "calm_step X h h' \<Longrightarrow> host_ok h \<Longrightarrow> host_ok h'"
proof (induction rule: calm_step.induct)
  case (revoke h)
  then show ?case using revoke_epoch_ok(1) by (metis prod.collapse)
qed (auto simp: host_ok_register host_ok_remove host_ok_enable host_ok_stopped host_ok_dispatch host_ok_prepare
    host_ok_send host_ok_writer with_entry_ok [OF _ outside_stop] begin_stop_def resume_def resume_in_epoch_def
    take_http_video_requests_def host_ok_take enqueue_action_def cancel_on_drop_def split: sum.splits option.splits)

lemma host_step_ok: "host_step X h h' \<Longrightarrow> host_ok h \<Longrightarrow> host_ok h'"
  using calm_step_ok host_ok_supervise by (auto elim!: host_step.cases)

lemma reachable_ok: "reachable X h \<Longrightarrow> host_ok h"
  by (induction rule: reachable.induct) (auto intro: host_ok_new host_step_ok)

end
