(* ===== verification/HostProperties.thy ===== *)
theory HostProperties
  imports HostReachable
begin

text \<open>
  What holds of every plugin host the step relation reaches: leases are active only under the current
  session, a revocation is final, and every queue, registry and restart budget is bounded.
\<close>

section \<open>Leases never come back\<close>

definition leases_evolve :: "host \<Rightarrow> host \<Rightarrow> bool" where
  "leases_evolve h h' \<longleftrightarrow> (\<forall>i. sh_leases (ho_shared h) i \<noteq> None \<longrightarrow>
     lease_le (sh_leases (ho_shared h) i) (sh_leases (ho_shared h') i))"

lemma leases_evolve_same [simp]: "sh_leases (ho_shared h') = sh_leases (ho_shared h) \<Longrightarrow> leases_evolve h h'"
  by (simp add: leases_evolve_def)

lemma leases_evolve_trans: "leases_evolve a b \<Longrightarrow> leases_evolve b c \<Longrightarrow> leases_evolve a c"
  unfolding leases_evolve_def by (metis lease_le.simps(3) lease_le_trans not_None_eq)

lemma with_entry_evolves:
  assumes "host_ok h" "outside f"
  shows "leases_evolve h (with_entry r f h)"
proof (cases "ho_entries h r")
  case (Some en)
  obtain sh' en' where f: "f (ho_shared h, en) = (sh', en')" by fastforce
  have "confined (ho_shared h, en) (sh', en')" using assms(2) f unfolding outside_def by metis
  moreover have "entry_ok (ho_shared h) en" using host_ok_entry [OF assms(1) Some] by metis
  ultimately have "leases_shrink (en_lease en) (ho_shared h) sh'" by (rule confinedD(7))
  then show ?thesis using Some f by (simp add: with_entry_def leases_evolve_def leases_shrink_def)
qed (simp add: with_entry_def)

lemma take_evolves: "host_ok h \<Longrightarrow> leases_evolve h (fst (take_videos now rs h))"
proof (induction rs arbitrary: h)
  case (Cons r rs)
  show ?case
  proof (cases "ho_entries h r")
    case (Some en)
    let ?h = "with_entry r (\<lambda>(sh, en). (sh, drain_videos en)) h"
    have "leases_evolve h ?h" "host_ok ?h" using Cons.prems with_entry_evolves with_entry_ok outside_drain by blast+
    then have "leases_evolve h (fst (take_videos now rs ?h))" using Cons.IH leases_evolve_trans by blast
    then show ?thesis using Some by (auto split: prod.splits)
  qed (use Cons in simp)
qed simp

lemma revoke_fold_evolves: "host_ok h \<Longrightarrow> leases_evolve h (fold (\<lambda>r. with_entry r revoke_entry) rs h)"
proof (induction rs arbitrary: h)
  case (Cons r rs)
  let ?h = "with_entry r revoke_entry h"
  have "leases_evolve h ?h" "host_ok ?h" using Cons.prems with_entry_evolves with_entry_ok outside_revoke_entry by blast+
  then have "leases_evolve h (fold (\<lambda>r. with_entry r revoke_entry) rs ?h)" using Cons.IH leases_evolve_trans by blast
  then show ?case by simp
qed simp

lemma revoke_evolves: "host_ok h \<Longrightarrow> leases_evolve h (fst (revoke_epoch h))"
  using revoke_fold_evolves [of h "map snd (ho_registry h)"] fold_revoke_authority [of "map snd (ho_registry h)" _ h]
  by (simp add: revoke_epoch_def Let_def host_changed_def set_authority_def leases_evolve_def)

lemma supervise_evolves:
  assumes ok: "host_ok h" and step: "host_supervise X r ev h = Some h'" and fresh: "fresh_identity ev h"
  shows "leases_evolve h h'"
proof -
  obtain en su q su' sh' en' where en: "ho_entries h r = Some en" "ho_supervisors h r = Some su"
    and s: "supervise_step X ev su (ho_shared h, en) = Some (su', (sh', en'))" and h': "h' = put r sh' en' su' q h"
    using step by (auto simp: host_supervise_def put_def split: option.split_asm)
  have p: "phase_ok (ho_shared h) en su" "entry_ok (ho_shared h) en"
    using host_ok_entry [OF ok en(1)] en(2) by (metis option.inject)+
  show ?thesis
  proof (cases "su_phase su = Spawning \<and> (\<exists>i. ev = SSpawn (Some i) \<and> authorized (ho_shared h) en \<and> \<not> en_stop en)")
    case True
    then obtain i where i: "su_phase su = Spawning" "ev = SSpawn (Some i)" "authorized (ho_shared h) en" "\<not> en_stop en"
      by blast
    then have "sh' = spawned_shared (su_spec su) i en (ho_shared h)"
      using s by (auto simp: supervise_step_def spawn_generation_def Let_def spawned_shared_def begin_generation_def)
    then show ?thesis using fresh i(2) h'
      by (auto simp: leases_evolve_def spawned_shared_def new_lease_def fresh_identity_def)
  next
    case False
    from supervise_settles [OF p s False] have "confined (ho_shared h, en) (sh', en')" by (simp add: settles_def)
    from confinedD(7) [OF this p(2)] show ?thesis by (simp add: h' leases_evolve_def leases_shrink_def)
  qed
qed

lemma calm_evolves: "calm_step X h h' \<Longrightarrow> host_ok h \<Longrightarrow> leases_evolve h h'"
  by (induction rule: calm_step.induct)
    (auto simp: revoke_evolves take_evolves with_entry_evolves [OF _ outside_stop] with_entry_evolves [OF _ outside_pop]
    register_def insert_entry_def host_changed_def begin_stop_def finish_remove_def resume_def resume_in_epoch_def
    enable_def dispatch_one_def take_http_video_requests_def prepare_action_def enqueue_action_def cancel_on_drop_def
    send_command_def writer_takes_def Let_def split: sum.splits option.splits list.splits)

lemma step_evolves: "host_step X h h' \<Longrightarrow> host_ok h \<Longrightarrow> leases_evolve h h'"
  using calm_evolves supervise_evolves by (auto elim!: host_step.cases)

text \<open>Runs from a given host.\<close>

inductive runs :: "ext \<Rightarrow> host \<Rightarrow> host \<Rightarrow> bool" for X where
  runs_refl: "runs X h h"
| runs_step: "runs X h h' \<Longrightarrow> host_step X h' h'' \<Longrightarrow> runs X h h''"

lemma runs_ok: "runs X h h' \<Longrightarrow> host_ok h \<Longrightarrow> host_ok h' \<and> leases_evolve h h'"
  by (induction rule: runs.induct) (auto intro: host_step_ok leases_evolve_trans step_evolves)

lemma evolved_dead:
  assumes "leases_evolve h h'" "sh_leases (ho_shared h) i \<noteq> None" "\<not> lease_active (ho_shared h) i"
  shows "\<not> lease_active (ho_shared h') i"
proof -
  obtain g where g: "sh_leases (ho_shared h) i = Some g" "\<not> gs_active g"
    using assms(2,3) by (auto simp: lease_active_def)
  have "lease_le (sh_leases (ho_shared h) i) (sh_leases (ho_shared h') i)"
    using assms(1,2) unfolding leases_evolve_def by blast
  then have "lease_le (Some g) (sh_leases (ho_shared h') i)" unfolding g(1) .
  then show ?thesis using g(2) by (auto elim!: lease_le_SomeE simp: lease_active_def)
qed

section \<open>Properties of reachable hosts\<close>

text \<open>
  C5. A lease is active only while it should be: in every reachable host, an active lease belongs to exactly
  one registered entry, that of its plugin; the host is enabled in the session the lease was issued in; the
  entry was not told to stop, and its supervisor is between spawning the process and closing its generation.
\<close>

theorem active_lease_current:
  assumes "reachable X h" and "lease_active (ho_shared h) i"
  shows "\<exists>p r en g su. (p, r) \<in> set (ho_registry h) \<and> ho_entries h r = Some en \<and> en_lease en = Some i
    \<and> sh_leases (ho_shared h) i = Some g \<and> gs_plugin_id g = p
    \<and> au_enabled (sh_authority (ho_shared h)) \<and> gs_epoch g = authority_epoch h \<and> \<not> en_stop en
    \<and> ho_supervisors h r = Some su \<and> holds_process (su_phase su)
    \<and> (\<forall>r' en'. ho_entries h r' = Some en' \<and> en_lease en' = Some i \<longrightarrow> r' = r)"
proof -
  have ok: "host_ok h" using assms(1) by (rule reachable_ok)
  obtain r en where o: "ho_entries h r = Some en" "en_lease en = Some i" "authorized (ho_shared h) en" "\<not> en_stop en"
    using ok assms(2) unfolding host_ok_def active_ok_def by blast
  obtain su where su: "ho_supervisors h r = Some su" "entry_ok (ho_shared h) en" "phase_ok (ho_shared h) en su"
    using host_ok_entry [OF ok o(1)] by metis
  obtain g where g: "sh_leases (ho_shared h) i = Some g" "gs_epoch g = en_epoch en" "gs_plugin_id g = ps_plugin_id (en_snapshot en)"
    using su(2) o(2) unfolding entry_ok_def lease_ok_def by blast
  obtain p where p: "(p, r) \<in> set (ho_registry h)"
    using unregistered_dead [OF ok o(1,2) assms(2)] by auto
  obtain en2 where "ho_entries h r = Some en2" "ps_plugin_id (en_snapshot en2) = p" using registry_ref [OF ok p] by metis
  then have name: "gs_plugin_id g = p" using o(1) g(3) by simp
  have only: "r' = r" if "ho_entries h r' = Some en'" "en_lease en' = Some i" for r' en'
    using apartD(1) [OF ok that(1) o(1)] that(2) o(2) by blast
  have epoch: "au_enabled (sh_authority (ho_shared h))" "gs_epoch g = authority_epoch h"
    using o(3) g(2) by (simp_all add: authorized_def authority_epoch_def)
  have "holds_process (su_phase su)" using su(3) o(2) assms(2) unfolding phase_ok_def by blast
  with p o g(1) name epoch su(1) only show ?thesis by blast
qed

text \<open>
  C4. Revocation is complete and final: after it no lease is active, the host is disabled under the next
  epoch, and no lease that existed then is ever active again, whatever happens later, even when the host is
  resumed, workers are registered again or the epoch recurs.
\<close>

theorem revocation_final:
  assumes "reachable X h" and "revoke_epoch h = (h1, epoch)" and "runs X h1 h2"
  shows "(\<forall>i. \<not> lease_active (ho_shared h1) i) \<and> \<not> au_enabled (sh_authority (ho_shared h1))
    \<and> authority_epoch h1 = epoch \<and> epoch = authority_epoch h + 1
    \<and> (\<forall>i. sh_leases (ho_shared h) i \<noteq> None \<longrightarrow> \<not> lease_active (ho_shared h2) i)"
proof -
  have ok: "host_ok h" using assms(1) by (rule reachable_ok)
  note r = revoke_epoch_ok [OF ok assms(2)]
  have "leases_evolve h h1" using revoke_evolves [OF ok] assms(2) by simp
  moreover have "leases_evolve h1 h2" using runs_ok [OF assms(3) r(1)] by blast
  ultimately have "\<not> lease_active (ho_shared h2) i" if "sh_leases (ho_shared h) i \<noteq> None" for i
    using r(2) that evolved_dead [of h1 h2 i] unfolding leases_evolve_def by (metis lease_le.simps(3) not_None_eq)
  then show ?thesis using r by (simp add: authority_epoch_def)
qed

text \<open>
  C25. Bounds of a reachable host: at most eight workers are registered under distinct names, and each entry
  has at most 4 media requests and 16 notifications queued, 32 controls in its channel, 16 actions in flight
  and 16 messages waiting for its pipe; every queued media request belongs to the entry's own active lease.
\<close>

theorem host_bounds:
  assumes "reachable X h"
  shows "length (ho_registry h) \<le> 8 \<and> distinct (map fst (ho_registry h))
    \<and> (\<forall>r en. ho_entries h r = Some en \<longrightarrow>
         length (vs_pending (en_videos en)) \<le> 4 \<and> length (ns_pending (en_notifications en)) \<le> 16
         \<and> length (ho_commands h r) \<le> 32
         \<and> (\<forall>q \<in> set (vs_pending (en_videos en)). en_lease en = Some (qv_lease q) \<and> lease_active (ho_shared h) (qv_lease q))
         \<and> (\<exists>su. ho_supervisors h r = Some su \<and> (\<forall>gr. su_run su = Some gr \<longrightarrow>
               length (gr_pending gr) \<le> 16 \<and> length (pw_writer (gr_pipes gr)) \<le> 16)))"
proof (intro conjI allI impI)
  have ok: "host_ok h" using assms by (rule reachable_ok)
  show "length (ho_registry h) \<le> 8" "distinct (map fst (ho_registry h))"
    using ok by (simp_all add: host_ok_def registry_ok_def MAX_WORKERS_def)
  fix r en assume en: "ho_entries h r = Some en"
  obtain su where su: "ho_supervisors h r = Some su" "entry_ok (ho_shared h) en" "phase_ok (ho_shared h) en su"
    "length (ho_commands h r) \<le> CONTROL_QUEUE_CAPACITY" using host_ok_entry [OF ok en] by metis
  show "length (vs_pending (en_videos en)) \<le> 4" "length (ns_pending (en_notifications en)) \<le> 16"
    using su(2) by (simp_all add: entry_ok_def queues_ok_def capacity_defs)
  show "length (ho_commands h r) \<le> 32" using su(4) by (simp add: CONTROL_QUEUE_CAPACITY_def)
  show "\<forall>q \<in> set (vs_pending (en_videos en)). en_lease en = Some (qv_lease q) \<and> lease_active (ho_shared h) (qv_lease q)"
    using su(2) by (simp add: entry_ok_def queues_ok_def)
  show "\<exists>su. ho_supervisors h r = Some su \<and> (\<forall>gr. su_run su = Some gr \<longrightarrow>
      length (gr_pending gr) \<le> 16 \<and> length (pw_writer (gr_pipes gr)) \<le> 16)"
    using su(1,3) by (auto simp: phase_ok_def run_ok_def PIPE_QUEUE_CAPACITY_def MAX_IN_FLIGHT_def)
qed

text \<open>
  C26. A registration starts a bounded number of processes: in every reachable host, a supervisor has counted
  at most two restarts and spawned at most three processes, and a finished one is marked done, so that its
  entry may be replaced.
\<close>

theorem restart_budget:
  assumes "reachable X h" and "ho_entries h r = Some en" and "ho_supervisors h r = Some su"
  shows "su_restarts su \<le> 2 \<and> su_spawned su \<le> 3 \<and> (su_phase su = Finished \<longleftrightarrow> en_done en)"
proof -
  have "phase_ok (ho_shared h) en su"
    using host_ok_entry [OF reachable_ok [OF assms(1)] assms(2)] assms(3) by (metis option.inject)
  then show ?thesis
    by (auto simp: phase_ok_def MAX_RESTARTS_def word_le_nat_alt split: if_split_asm)
qed

section \<open>A run of the host\<close>

definition sample_spec :: worker_spec where
  "sample_spec = \<lparr>sp_plugin_id = ''com.example'', sp_executable = ''/bin/x'', sp_args = [], sp_configuration = None,
     sp_desktop_notifications = False, sp_http_video = None, sp_live_view = None\<rparr>"

text \<open>A worker is registered and its process spawned under the identity \<open>i\<close>.\<close>

definition sample_worker :: worker_entry where
  "sample_worker = new_entry 0 ''com.example'' 0"

definition sample_registered :: host where
  "sample_registered = host_changed (insert_entry sample_spec sample_worker (new_host 0))"

definition sample_decided :: host where
  "sample_decided = put 0 (ho_shared sample_registered) sample_worker
     ((new_supervisor sample_spec)\<lparr>su_phase := Spawning\<rparr>) [] sample_registered"

definition sample_running :: host where
  "sample_running = put 0 (spawned_shared sample_spec ''i'' sample_worker (ho_shared sample_registered))
     (spawned_entry 0 ''i'' sample_worker)
     ((new_supervisor sample_spec)\<lparr>su_phase := Piping, su_spawned := 1\<rparr>) [] sample_decided"

lemma sample_spec_valid: "\<not> invalid_spec sample_ext sample_spec"
proof -
  have "invalid_spec sample_ext sample_spec = False" by code_simp
  then show ?thesis by simp
qed

lemma sample_register: "fst (register sample_ext 0 sample_spec None (new_host 0)) = sample_registered"
  using sample_spec_valid
  by (simp add: register_def new_host_def find_entry_def authority_epoch_def MAX_WORKERS_def Let_def
      sample_registered_def sample_worker_def sample_spec_def)

lemma sample_shared_simps [simp]:
  "sh_authority (ho_shared sample_registered) = \<lparr>au_enabled = True, au_epoch = 0\<rparr>"
  "sh_leases (ho_shared sample_registered) = (\<lambda>_. None)"
  "ho_entries sample_registered = (\<lambda>_. None)(0 \<mapsto> sample_worker)"
  "ho_supervisors sample_registered = (\<lambda>_. None)(0 \<mapsto> new_supervisor sample_spec)"
  "ho_commands sample_registered = (\<lambda>_. [])"
  by (simp_all add: sample_registered_def host_changed_def insert_entry_def new_host_def fun_upd_idem)

lemma sample_worker_simps [simp]: "en_stop sample_worker = False" "en_epoch sample_worker = 0"
  "authorized (ho_shared sample_registered) sample_worker"
  by (simp_all add: sample_worker_def new_entry_def authorized_def)

lemma sample_decide: "host_supervise sample_ext 0 SGo sample_registered = Some sample_decided"
  by (simp add: host_supervise_def supervise_step_def new_supervisor_def sample_decided_def put_def)

lemma sample_spawn: "host_supervise sample_ext 0 (SSpawn (Some ''i'')) sample_decided = Some sample_running"
proof -
  have "authorized (ho_shared sample_registered) sample_worker" "\<not> en_stop sample_worker" by simp_all
  note spawn_generation_spawned [OF this, of sample_spec 0 "''i''"]
  then show ?thesis
    by (simp add: host_supervise_def supervise_step_def new_supervisor_def sample_decided_def sample_running_def put_def)
qed

lemma sample_reachable: "reachable sample_ext sample_running"
proof -
  have "reachable sample_ext (fst (register sample_ext 0 sample_spec None (new_host 0)))"
    by (rule reachable.step [OF reachable.start host_step.calm [OF calm_step.register]])
  then have r: "reachable sample_ext sample_registered" unfolding sample_register .
  have d: "reachable sample_ext sample_decided"
    by (rule reachable.step [OF r host_step.supervise [OF _ sample_decide]]) (simp add: fresh_identity_def)
  have "fresh_identity (SSpawn (Some ''i'')) sample_decided" by (simp add: fresh_identity_def sample_decided_def)
  then show ?thesis by (rule reachable.step [OF d host_step.supervise [OF _ sample_spawn]])
qed

lemma sample_active: "lease_active (ho_shared sample_running) ''i''"
  by (simp add: sample_running_def spawned_shared_def)

theorem active_lease_current_witness:
  "\<exists>r en. ho_entries sample_running r = Some en \<and> en_lease en = Some ''i'' \<and> \<not> en_stop en"
  using active_lease_current [OF sample_reachable, of "''i''"] sample_active by blast

theorem revocation_final_witness: "\<not> lease_active (ho_shared (fst (revoke_epoch sample_running))) ''i''"
proof -
  obtain h1 e where r: "revoke_epoch sample_running = (h1, e)" by fastforce
  from revocation_final [OF sample_reachable r runs_refl] show ?thesis by (simp add: r)
qed

theorem host_bounds_witness: "length (ho_registry sample_running) \<le> 8"
  using host_bounds [OF sample_reachable] by blast

theorem restart_budget_witness: "\<exists>su. ho_supervisors sample_running 0 = Some su \<and> su_spawned su = 1 \<and> su_spawned su \<le> 3"
proof -
  have "ho_entries sample_running 0 = Some (spawned_entry 0 ''i'' sample_worker)"
    "ho_supervisors sample_running 0 = Some ((new_supervisor sample_spec)\<lparr>su_phase := Piping, su_spawned := 1\<rparr>)"
    by (simp_all add: sample_running_def)
  from this(2) restart_budget [OF sample_reachable this] show ?thesis by simp
qed

end
