(* ===== verification/Replies.thy ===== *)
theory Replies
  imports HostProperties "HOL-Library.Multiset"
begin

text \<open>
  Every caller gets one answer. The loop of \<^verbatim>\<open>run_generation\<close> is run over a list of events, each with the
  host's state as the other tasks left it; the ledger of a generation holds the identifiers of the requests
  it has answered and of those still pending, and only a request received from a caller adds to it.
\<close>

fun generation_loop :: "ext \<Rightarrow> worker_spec \<Rightarrow> ((shared \<times> worker_entry) \<times> generation_event) list \<Rightarrow> generation_run
    \<Rightarrow> generation_run \<times> outcome option" where
  "generation_loop X spec [] gr = (gr, None)"
| "generation_loop X spec (((sh, en), e) # es) gr =
     (case generation_step X spec e (gr\<lparr>gr_shared := sh, gr_entry := en\<rparr>) of
        (gr, None) \<Rightarrow> generation_loop X spec es gr
      | (gr, Some out) \<Rightarrow> (gr, Some out))"

fun received_id :: "generation_event \<Rightarrow> string option" where
  "received_id (GControl now (Some (ControlAction rq))) = Some (rq_id rq)" | "received_id _ = None"

definition received_ids :: "('s \<times> generation_event) list \<Rightarrow> string list" where
  "received_ids es = List.map_filter received_id (map snd es)"

lemma received_ids_simps [simp]: "received_ids [] = []"
  "received_ids ((s, e) # es) = (case received_id e of None \<Rightarrow> received_ids es | Some i \<Rightarrow> i # received_ids es)"
  "received_ids (es @ fs) = received_ids es @ received_ids fs"
  by (simp_all add: received_ids_def List.map_filter_def split: option.splits)

section \<open>The ledger\<close>

definition ledger :: "generation_run \<Rightarrow> string multiset" where
  "ledger gr = mset (map fst (gr_replies gr)) + mset (map fst (gr_pending gr))"

definition books :: "generation_run \<Rightarrow> generation_run \<Rightarrow> bool" where
  "books gr gr' \<longleftrightarrow> (distinct (map fst (gr_pending gr)) \<longrightarrow>
     distinct (map fst (gr_pending gr')) \<and> ledger gr' = ledger gr)"

lemma books_refl [simp]: "books gr gr"
  by (simp add: books_def)

lemma books_trans: "books a b \<Longrightarrow> books b c \<Longrightarrow> books a c"
  by (simp add: books_def)

lemma books_local:
  assumes "gr_pending gr' = gr_pending gr" "gr_replies gr' = gr_replies gr"
  shows "books gr gr'"
  using assms by (simp add: books_def ledger_def)

lemma mset_delete_key:
  assumes "distinct (map fst ps)" "map_of ps i = Some d"
  shows "mset (map fst ps) = add_mset i (mset (map fst (AList.delete i ps)))"
  using assms
proof (induction ps)
  case (Cons p ps)
  obtain k v where p: "p = (k, v)" by fastforce
  show ?case
  proof (cases "k = i")
    case True
    then have "AList.delete i ps = ps" using Cons.prems(1) p by (simp add: AList.delete_idem)
    then show ?thesis using True p by simp
  qed (use Cons p in simp)
qed simp

lemma books_answer:
  assumes "map_of (gr_pending gr) i = Some d" "gr_pending gr' = gr_pending (forget i gr)" "gr_replies gr' = gr_replies gr"
  shows "books gr (reply_to i r gr')"
  using assms mset_delete_key [OF _ assms(1)]
  by (simp add: books_def ledger_def reply_to_def forget_def AList.distinct_delete)

lemma send_ignored_books [simp]:
  "gr_pending (send_ignored X msg gr) = gr_pending gr" "gr_replies (send_ignored X msg gr) = gr_replies gr"
  by (simp_all add: send_ignored_def split: sum.splits)

lemma forget_replies [simp]: "gr_replies (forget i gr) = gr_replies gr"
  by (simp add: forget_def)

lemma books_settle [simp]: "books gr (settle i answer gr)"
  by (auto simp: settle_def intro: books_answer split: option.splits)

lemma books_expire: "map_of (gr_pending gr) i = Some d \<Longrightarrow> books gr (expire X i gr)"
  unfolding expire_def by (rule books_answer) simp_all

lemma expire_pending_of: "gr_pending (expire X i gr) = AList.delete i (gr_pending gr)"
  by (simp add: expire_def reply_to_def forget_def)

lemma books_expire_all:
  assumes "distinct is" "set is \<subseteq> fst ` set (gr_pending gr)"
  shows "books gr (fold (expire X) is gr)"
  using assms
proof (induction "is" arbitrary: gr)
  case (Cons i "is")
  then obtain d where d: "map_of (gr_pending gr) i = Some d"
    by (metis list.set_intros(1) map_of_eq_None_iff not_None_eq subsetD)
  have "set is \<subseteq> fst ` set (gr_pending (expire X i gr))"
  proof
    fix x assume x: "x \<in> set is"
    then obtain b where "(x, b) \<in> set (gr_pending gr)" using Cons.prems(2) by auto
    moreover have "x \<noteq> i" using x Cons.prems(1) by auto
    ultimately have "(x, b) \<in> set (gr_pending (expire X i gr))" by (simp add: expire_pending_of AList.delete_eq)
    then show "x \<in> fst ` set (gr_pending (expire X i gr))" by force
  qed
  then have "books (expire X i gr) (fold (expire X) is (expire X i gr))" using Cons by simp
  with books_expire [OF d] show ?case by (auto intro: books_trans)
qed simp

lemma books_expire_pending [simp]: "books gr (expire_pending X now gone gr)"
proof (cases "distinct (map fst (gr_pending gr))")
  case True
  then show ?thesis unfolding expire_pending_def
    by (intro books_expire_all) (auto simp: distinct_map_filter intro: image_eqI)
qed (simp add: books_def)

section \<open>Frames and controls\<close>

lemma on_entry_books: "on_entry f gr = (gr', r) \<Longrightarrow> books gr gr'"
  by (rule books_local) (auto simp: on_entry_def split: prod.splits)

lemma books_changed [simp]: "books gr (changed gr)"
  by (rule books_local) (simp_all add: changed_def)

lemma books_on_entry [simp]: "books gr (fst (on_entry f gr))"
  by (rule on_entry_books [of f gr _ "snd (on_entry f gr)"]) simp

lemma books_video_frame: "books gr (fst (http_video_frame X now spec i u title kind c gr))"
  by (auto simp: http_video_frame_def split: option.splits sum.splits prod.splits
      intro: books_trans [OF on_entry_books] on_entry_books)

lemma books_preview: "books gr (fst (preview_frame X now grant i u title c gr))"
  by (auto simp: preview_frame_def split: prod.splits intro: on_entry_books)

lemma books_notification: "books gr (fst (notification_frame now spec i title body view gr))"
  by (auto simp: notification_frame_def split: sum.splits prod.splits intro: on_entry_books)

lemma books_worker_frame: "books gr (fst (worker_frame X now spec m gr))"
proof (cases m)
  case (Event name payload)
  then show ?thesis by (auto simp: split: prod.splits intro!: books_local)
qed (auto simp: books_video_frame books_preview books_notification http_live_frame_def mqtt_live_frame_def
    live_view_frame_def split: option.splits sum.splits)

lemma books_running_frame: "books gr (fst (running_frame X now spec m gr))"
proof -
  obtain gr' r where f: "worker_frame X now spec m gr = (gr', r)" by fastforce
  then have "books gr gr'" using books_worker_frame [of gr X now spec m] by simp
  then show ?thesis using f books_trans [OF _ books_changed]
    by (auto simp: running_frame_def split: sum.splits)
qed

lemma books_startup: "books gr (fst (startup_frame X now spec m gr))"
  by (auto simp: startup_frame_def running_def changed_def intro!: books_local
      split: sum.splits startup_phase.splits option.splits)

lemma books_frame_arm: "books gr (fst (frame_arm X now spec frame gr))"
proof -
  have "books gr (gr\<lparr>gr_rate := r\<rparr>)" for r by (rule books_local) simp_all
  moreover have "books gr (fst (handle_frame X now spec frame gr))" for gr
    by (auto simp: handle_frame_def books_startup books_running_frame split: option.splits sum.splits)
  ultimately show ?thesis using books_trans by (simp add: frame_arm_def Let_def) blast
qed

lemma books_cancel: "books gr (handle_control X now (ControlCancel i) gr)"
  by (auto intro: books_answer)

lemma books_step: "received_id e = None \<Longrightarrow> books gr (fst (generation_step X spec e gr))"
  by (cases "(X, spec, e, gr)" rule: generation_step.cases)
    (auto simp: books_frame_arm books_cancel simp del: handle_control.simps elim: received_id.elims
      split: control.splits)

lemma update_fresh: "k \<notin> fst ` set ps \<Longrightarrow> AList.update k v ps = ps @ [(k, v)]"
  by (induction ps) auto

text \<open>A request received from a caller is answered at once or becomes pending.\<close>

lemma handle_action_ledger:
  assumes "distinct (map fst (gr_pending gr))" "rq_id rq \<notin># ledger gr"
  shows "distinct (map fst (gr_pending (handle_control X now (ControlAction rq) gr)))
    \<and> ledger (handle_control X now (ControlAction rq) gr) = add_mset (rq_id rq) (ledger gr)"
proof -
  have "rq_id rq \<notin> fst ` set (gr_pending gr)" using assms(2) by (auto simp: ledger_def)
  then have "AList.update (rq_id rq) d (gr_pending gr) = gr_pending gr @ [(rq_id rq, d)]" for d
    by (rule update_fresh)
  then show ?thesis using assms \<open>rq_id rq \<notin> fst ` set (gr_pending gr)\<close>
    by (auto simp: ledger_def reply_to_def split: option.splits)
qed

lemma ledger_swap [simp]: "ledger (gr\<lparr>gr_shared := sh, gr_entry := en\<rparr>) = ledger gr"
  by (simp add: ledger_def)

lemma generation_loop_ledger:
  assumes "generation_loop X spec es gr = (gr', None)" "distinct (received_ids es)"
    and "distinct (map fst (gr_pending gr))" "set (received_ids es) \<inter> set_mset (ledger gr) = {}"
  shows "distinct (map fst (gr_pending gr')) \<and> ledger gr' = ledger gr + mset (received_ids es)"
  using assms
proof (induction es arbitrary: gr)
  case (Cons p es)
  obtain sh en e where p: "p = ((sh, en), e)" by (metis surj_pair)
  let ?gr = "gr\<lparr>gr_shared := sh, gr_entry := en\<rparr>"
  obtain gr1 where s: "generation_step X spec e ?gr = (gr1, None)" "generation_loop X spec es gr1 = (gr', None)"
    using Cons.prems(1) p by (auto split: prod.splits option.splits)
  show ?case
  proof (cases "received_id e")
    case None
    from books_step [OF this, of ?gr X spec] have "distinct (map fst (gr_pending gr1)) \<and> ledger gr1 = ledger gr"
      using s(1) Cons.prems(3) by (simp add: books_def)
    with Cons.IH [OF s(2)] Cons.prems None p show ?thesis by simp
  next
    case (Some i)
    then obtain now rq where e: "e = GControl now (Some (ControlAction rq))" "i = rq_id rq"
      by (auto elim: received_id.elims)
    have "distinct (map fst (gr_pending gr1)) \<and> ledger gr1 = add_mset i (ledger gr)"
      using handle_action_ledger [of ?gr rq X now] s(1) Cons.prems(3,4) e Some p
      by (simp del: handle_control.simps)
    with Cons.IH [OF s(2)] Cons.prems Some p show ?thesis by simp
  qed
qed simp

lemma expired_gone:
  assumes "(i, d) \<in> set (gr_pending (expire_pending X now gone gr))"
  shows "now < d \<and> i \<notin> gone"
proof -
  have f: "gr_pending (fold (expire X) is gr) = filter (\<lambda>(k, _). k \<notin> set is) (gr_pending gr)" for "is" gr
    by (induction "is" arbitrary: gr) (auto simp: expire_pending_of AList.delete_eq intro!: filter_cong)
  show ?thesis using assms by (auto simp: expire_pending_def f image_iff)
qed

text \<open>
  C6. Every request a generation receives is answered exactly once: whatever the worker sends and the other
  tasks do, when an event ends the generation its answers are the requests it received, each one time. No
  request outlives its deadline by a tick: after a tick the pending ones have time left and a caller waiting.
\<close>

theorem answered_once:
  assumes "start_run X now spec se = (gr0, None)" and "generation_loop X spec es gr0 = (gr, None)"
    and "distinct (received_ids es)"
    and "generation_step X spec e (gr\<lparr>gr_shared := sh, gr_entry := en\<rparr>) = (gr', Some out)"
  shows "mset (map fst (gr_replies (finish_run gr'))) = mset (received_ids es)
    \<and> (\<forall>later gone i d. (i, d) \<in> set (gr_pending (expire_pending X later gone gr)) \<longrightarrow> later < d \<and> i \<notin> gone)"
proof (intro conjI allI impI)
  have "gr_pending gr0 = []" "gr_replies gr0 = []"
    using assms(1) by (auto simp: start_run_def Let_def split: prod.splits sum.splits)
  then have g: "distinct (map fst (gr_pending gr))" "ledger gr = mset (received_ids es)"
    using generation_loop_ledger [OF assms(2,3)] by (simp_all add: ledger_def)
  have "received_id e = None" using assms(4) by (cases e rule: received_id.cases) (auto simp del: handle_control.simps)
  from books_step [OF this, of "gr\<lparr>gr_shared := sh, gr_entry := en\<rparr>" X spec]
  have "ledger gr' = mset (received_ids es)" using g assms(4) by (simp add: books_def)
  then show "mset (map fst (gr_replies (finish_run gr'))) = mset (received_ids es)"
    by (simp add: ledger_def finish_run_def comp_def case_prod_unfold)
qed (use expired_gone in blast)+

section \<open>A generation\<close>

text \<open>The worker says it is ready, shows a button, is asked to press it twice, and is stopped.\<close>

definition sample_se :: "shared \<times> worker_entry" where
  "sample_se = (ho_shared sample_registered, sample_worker)"

definition sample_shown :: "shared \<times> worker_entry" where
  "sample_shown = (fst sample_se, (snd sample_se)\<lparr>en_snapshot := (en_snapshot (snd sample_se))\<lparr>ps_state := Running,
     ps_contributions := [CAction ''c'' ''Press'' None ''press'' ''Go'' (JObject [])]\<rparr>\<rparr>)"

definition sample_press :: "string \<Rightarrow> generation_event" where
  "sample_press i = GControl 1 (Some (ControlAction \<lparr>rq_id = i, rq_generation = 0, rq_action = ''press'',
     rq_params = JObject [], rq_numeric = None, rq_deadline = 9, rq_worker_deadline = 9\<rparr>))"

definition sample_events :: "((shared \<times> worker_entry) \<times> generation_event) list" where
  "sample_events = [(sample_se, GFrame 0 (Some (Ok (Ready 1 HOST_API_VERSION ''com.example'')))),
     (sample_shown, sample_press ''1''), (sample_se, sample_press ''2'')]"

definition sample_start :: generation_run where
  "sample_start = fst (start_run sample_ext 0 sample_spec sample_se)"

lemma sample_starts: "start_run sample_ext 0 sample_spec sample_se = (sample_start, None)"
proof -
  have "snd (start_run sample_ext 0 sample_spec sample_se) = None" by code_simp
  then show ?thesis by (simp add: sample_start_def prod_eq_iff)
qed

lemma sample_loop:
  "snd (generation_loop sample_ext sample_spec sample_events sample_start) = None"
  "gr_pending (fst (generation_loop sample_ext sample_spec sample_events sample_start)) = [(''1'', 9)]"
  by code_simp+

theorem answered_once_witness:
  "\<exists>gr. gr_pending gr = [(''1'', 9)] \<and> mset (map fst (gr_replies (finish_run gr))) = {#''1'', ''2''#}"
proof -
  let ?gr = "fst (generation_loop sample_ext sample_spec sample_events sample_start)"
  have l: "generation_loop sample_ext sample_spec sample_events sample_start = (?gr, None)"
    using sample_loop(1) by (simp add: prod_eq_iff)
  have i: "received_ids sample_events = [''1'', ''2'']"
    by (simp add: sample_events_def sample_press_def)
  obtain sh en where se: "sample_se = (sh, en)" by fastforce
  have "generation_step sample_ext sample_spec GStop (?gr\<lparr>gr_shared := sh, gr_entry := en\<rparr>)
      = (?gr\<lparr>gr_shared := sh, gr_entry := en\<rparr>, Some OutStopped)" by simp
  from answered_once [OF sample_starts l _ this] sample_loop(2)
  have "gr_pending (?gr\<lparr>gr_shared := sh, gr_entry := en\<rparr>) = [(''1'', 9)]
    \<and> mset (map fst (gr_replies (finish_run (?gr\<lparr>gr_shared := sh, gr_entry := en\<rparr>)))) = {#''1'', ''2''#}"
    by (simp add: i)
  then show ?thesis by blast
qed

end
