(* ===== verification/Floats.thy ===== *)
theory Floats
  imports Json "HOL-Library.Log_Nat"
begin

text \<open>
  What the dashboard code uses of numbers. A finite \<^verbatim>\<open>f64\<close> is the rational it denotes, \<^verbatim>\<open>Infinite True\<close> is
  negative; arithmetic is exact and then rounded to the nearest double, ties to even, as IEEE 754 has it.
  Casts to integers truncate and saturate. Parsing of numbers follows \<^verbatim>\<open>str::parse\<close>.
\<close>

section \<open>Rounding\<close>

definition pow2 :: "int \<Rightarrow> rat" where
  "pow2 k = 2 powi k"

definition round_half_even :: "rat \<Rightarrow> int" where
  "round_half_even x = (let n = \<lfloor>x\<rfloor>; d = x - of_int n
     in if d < 1 / 2 \<or> (d = 1 / 2 \<and> even n) then n else n + 1)"

text \<open>The largest \<open>k\<close> with \<open>2\<^sup>k \<le> x\<close>, for positive \<open>x\<close>.\<close>

definition ilog2 :: "rat \<Rightarrow> int" where
  "ilog2 x = (case quotient_of x of (a, b) \<Rightarrow>
     let l = bitlen a - bitlen b in if pow2 l \<le> x then l else l - 1)"

definition round64 :: "rat \<Rightarrow> f64" where
  "round64 x = (if x = 0 then Finite 0
     else let e = max (ilog2 \<bar>x\<bar> - 52) (- 1074);
              v = of_int (round_half_even (\<bar>x\<bar> / pow2 e)) * pow2 e
          in if 2 ^ 1024 \<le> v then Infinite (x < 0) else Finite (if x < 0 then - v else v))"

section \<open>Arithmetic and comparison\<close>

fun f64_neg :: "f64 \<Rightarrow> f64" where
  "f64_neg (Finite x) = Finite (- x)" | "f64_neg (Infinite s) = Infinite (\<not> s)" | "f64_neg NaN = NaN"

fun f64_add :: "f64 \<Rightarrow> f64 \<Rightarrow> f64" where
  "f64_add (Finite x) (Finite y) = round64 (x + y)"
| "f64_add (Infinite s) (Infinite t) = (if s = t then Infinite s else NaN)"
| "f64_add (Infinite s) (Finite y) = Infinite s"
| "f64_add (Finite x) (Infinite t) = Infinite t"
| "f64_add _ _ = NaN"

definition f64_sub :: "f64 \<Rightarrow> f64 \<Rightarrow> f64" where "f64_sub x y = f64_add x (f64_neg y)"

fun f64_mul :: "f64 \<Rightarrow> f64 \<Rightarrow> f64" where
  "f64_mul (Finite x) (Finite y) = round64 (x * y)"
| "f64_mul (Infinite s) (Infinite t) = Infinite (s \<noteq> t)"
| "f64_mul (Infinite s) (Finite y) = (if y = 0 then NaN else Infinite (s \<noteq> (y < 0)))"
| "f64_mul (Finite x) (Infinite t) = (if x = 0 then NaN else Infinite (t \<noteq> (x < 0)))"
| "f64_mul _ _ = NaN"

text \<open>Division by a positive finite number, the only one the sources have.\<close>

fun f64_div_pos :: "f64 \<Rightarrow> rat \<Rightarrow> f64" where
  "f64_div_pos (Finite x) y = round64 (x / y)"
| "f64_div_pos (Infinite s) y = Infinite s"
| "f64_div_pos NaN y = NaN"

fun f64_less :: "f64 \<Rightarrow> f64 \<Rightarrow> bool" where
  "f64_less (Finite x) (Finite y) \<longleftrightarrow> x < y"
| "f64_less (Finite x) (Infinite t) \<longleftrightarrow> \<not> t"
| "f64_less (Infinite s) (Finite y) \<longleftrightarrow> s"
| "f64_less (Infinite s) (Infinite t) \<longleftrightarrow> s \<and> \<not> t"
| "f64_less _ _ \<longleftrightarrow> False"

fun f64_eq :: "f64 \<Rightarrow> f64 \<Rightarrow> bool" where
  "f64_eq NaN y \<longleftrightarrow> False" | "f64_eq x y \<longleftrightarrow> x = y"

definition f64_le :: "f64 \<Rightarrow> f64 \<Rightarrow> bool" where "f64_le x y \<longleftrightarrow> f64_less x y \<or> f64_eq x y"

definition f64_sum :: "f64 list \<Rightarrow> f64" where "f64_sum xs = foldl f64_add (Finite 0) xs"

text \<open>\<^verbatim>\<open>clamp\<close> to a finite range and \<^verbatim>\<open>round\<close>, half away from zero; neither changes a NaN.\<close>

definition f64_clamp :: "rat \<Rightarrow> rat \<Rightarrow> f64 \<Rightarrow> f64" where
  "f64_clamp lo hi x = (if f64_less x (Finite lo) then Finite lo
     else if f64_less (Finite hi) x then Finite hi else x)"

fun f64_round :: "f64 \<Rightarrow> f64" where
  "f64_round (Finite x) = Finite (of_int (if x < 0 then - \<lfloor>\<bar>x\<bar> + 1 / 2\<rfloor> else \<lfloor>x + 1 / 2\<rfloor>))"
| "f64_round x = x"

text \<open>\<^verbatim>\<open>x as uN\<close>: towards zero, saturating, and 0 for NaN.\<close>

fun to_unsigned :: "nat \<Rightarrow> f64 \<Rightarrow> nat" where
  "to_unsigned m (Finite x) = min m (nat \<lfloor>x\<rfloor>)"
| "to_unsigned m (Infinite s) = (if s then 0 else m)"
| "to_unsigned m NaN = 0"

definition u32_max :: nat where "u32_max = 2 ^ 32 - 1"

text \<open>\<^verbatim>\<open>x as i64\<close>.\<close>

fun to_i64 :: "f64 \<Rightarrow> int" where
  "to_i64 (Finite x) = max i64_min (min i64_max (if x < 0 then - \<lfloor>- x\<rfloor> else \<lfloor>x\<rfloor>))"
| "to_i64 (Infinite s) = (if s then i64_min else i64_max)"
| "to_i64 NaN = 0"

section \<open>Numbers in JSON and text\<close>

fun as_u64 :: "json \<Rightarrow> nat option" where
  "as_u64 (JNumber (NInt n)) = (if 0 \<le> n \<and> n \<le> int u64_max then Some (nat n) else None)"
| "as_u64 _ = None"

fun as_f64 :: "json \<Rightarrow> f64 option" where
  "as_f64 (JNumber (NInt n)) = Some (round64 (of_int n))"
| "as_f64 (JNumber (NFloat x)) = Some x"
| "as_f64 _ = None"

text \<open>Decimal digits, and \<^verbatim>\<open>parse::<u32>\<close>: an optional plus sign and digits whose value fits.\<close>

definition digits_value :: "string \<Rightarrow> nat" where
  "digits_value ds = foldl (\<lambda>n d. 10 * n + (byte d - 48)) 0 ds"

definition all_digits :: "string \<Rightarrow> bool" where
  "all_digits s \<longleftrightarrow> s \<noteq> [] \<and> list_all is_ascii_digit s"

definition parse_unsigned :: "nat \<Rightarrow> string \<Rightarrow> nat option" where
  "parse_unsigned m s = (let ds = (case s of c # cs \<Rightarrow> if c = CHR ''+'' then cs else s | [] \<Rightarrow> [])
     in if all_digits ds \<and> digits_value ds \<le> m then Some (digits_value ds) else None)"

definition parse_u32 :: "string \<Rightarrow> nat option" where "parse_u32 = parse_unsigned u32_max"

text \<open>\<^verbatim>\<open>parse::<i64>\<close>.\<close>

definition parse_i64 :: "string \<Rightarrow> int option" where
  "parse_i64 s = (case s of
       c # cs \<Rightarrow> if c = CHR ''-'' then
           (if all_digits cs \<and> digits_value cs \<le> 2 ^ 63 then Some (- int (digits_value cs)) else None)
         else map_option int (parse_unsigned (2 ^ 63 - 1) s)
     | [] \<Rightarrow> None)"

text \<open>\<^verbatim>\<open>parse::<f64>\<close>: sign, then a special value or digits with an optional fraction and exponent.\<close>

definition split_sign :: "string \<Rightarrow> bool \<times> string" where
  "split_sign s = (case s of
       c # cs \<Rightarrow> if c = CHR ''-'' then (True, cs) else if c = CHR ''+'' then (False, cs) else (False, s)
     | [] \<Rightarrow> (False, []))"

definition parse_exponent :: "string \<Rightarrow> int option" where
  "parse_exponent s = (case s of
       [] \<Rightarrow> Some 0
     | c # cs \<Rightarrow> if c = CHR ''e'' \<or> c = CHR ''E'' then
           (case split_sign cs of (negative, ds) \<Rightarrow>
              if all_digits ds then Some (if negative then - int (digits_value ds) else int (digits_value ds)) else None)
         else None)"

definition power10 :: "int \<Rightarrow> rat" where
  "power10 k = (if 0 \<le> k then 10 ^ nat k else 1 / 10 ^ nat (- k))"

definition parse_decimal :: "string \<Rightarrow> rat option" where
  "parse_decimal s =
     (let whole = takeWhile is_ascii_digit s; rest = dropWhile is_ascii_digit s;
          point = rest \<noteq> [] \<and> hd rest = CHR ''.'';
          frac = (if point then takeWhile is_ascii_digit (tl rest) else []);
          rest = (if point then dropWhile is_ascii_digit (tl rest) else rest)
      in if whole @ frac = [] then None
         else map_option (\<lambda>e. of_nat (digits_value (whole @ frac)) * power10 (e - int (length frac)))
           (parse_exponent rest))"

definition parse_f64 :: "string \<Rightarrow> f64 option" where
  "parse_f64 s = (case split_sign s of (negative, body) \<Rightarrow>
     let low = to_ascii_lowercase body
     in if low = ''nan'' then Some NaN
        else if low = ''inf'' \<or> low = ''infinity'' then Some (Infinite negative)
        else map_option (\<lambda>x. round64 (if negative then - x else x)) (parse_decimal body))"

section \<open>Numbers as text\<close>

definition show_int :: "int \<Rightarrow> string" where
  "show_int n = (if n < 0 then ''-'' @ decimal (nat (- n)) else decimal (nat n))"

text \<open>The digits of a fixed-point number with \<open>p\<close> fraction digits, \<^verbatim>\<open>{:.p}\<close>, ties to even.\<close>

definition point_before :: "nat \<Rightarrow> string \<Rightarrow> string" where
  "point_before p ds = (if p = 0 then ds
     else let s = replicate (p + 1 - length ds) CHR ''0'' @ ds
       in take (length s - p) s @ ''.'' @ drop (length s - p) s)"

fun f64_fixed :: "nat \<Rightarrow> f64 \<Rightarrow> string" where
  "f64_fixed p (Finite x) = (if x < 0 then ''-'' else []) @ point_before p (decimal (nat (round_half_even (\<bar>x\<bar> * 10 ^ p))))"
| "f64_fixed p (Infinite s) = (if s then ''-inf'' else ''inf'')"
| "f64_fixed p NaN = ''NaN''"

text \<open>\<^verbatim>\<open>{}\<close>: the shortest digits that round to the number, the closest of these, without an exponent.\<close>

definition ilog10 :: "rat \<Rightarrow> int" where
  "ilog10 x = (case find (\<lambda>k. power10 k \<le> x) (rev [- 324..308]) of Some k \<Rightarrow> k | None \<Rightarrow> - 324)"

definition decimal_candidates :: "rat \<Rightarrow> nat \<Rightarrow> (nat \<times> int) list" where
  "decimal_candidates x n = (let k = ilog10 x - int n + 1; m = nat \<lfloor>x / power10 k\<rfloor>;
       near = (if x - of_nat m * power10 k \<le> of_nat (m + 1) * power10 k - x then [m, m + 1] else [m + 1, m])
     in map (\<lambda>c. (c, k)) (filter (\<lambda>c. round64 (of_nat c * power10 k) = Finite x) near))"

definition shortest_digits :: "rat \<Rightarrow> nat \<times> int" where
  "shortest_digits x = (case concat (map (decimal_candidates x) [1..<18]) of [] \<Rightarrow> (0, 0) | d # _ \<Rightarrow> d)"

fun f64_display :: "f64 \<Rightarrow> string" where
  "f64_display (Finite x) = (if x < 0 then ''-'' else []) @
     (if x = 0 then ''0'' else case shortest_digits \<bar>x\<bar> of (d, k) \<Rightarrow>
        if 0 \<le> k then decimal d @ replicate (nat k) CHR ''0'' else point_before (nat (- k)) (decimal d))"
| "f64_display (Infinite s) = (if s then ''-inf'' else ''inf'')"
| "f64_display NaN = ''NaN''"

section \<open>Facts\<close>

lemma pow2_pos [simp]: "0 < pow2 k"
  by (simp add: pow2_def)

lemma pow2_add: "pow2 (i + j) = pow2 i * pow2 j"
  by (simp add: pow2_def power_int_add)

lemma pow2_mono: "i \<le> j \<Longrightarrow> pow2 i \<le> pow2 j"
  by (simp add: pow2_def power_int_increasing)

lemma bitlen_pow2: "0 < n \<Longrightarrow> pow2 (bitlen n - 1) \<le> of_int n \<and> of_int n < pow2 (bitlen n)"
proof -
  assume n: "0 < n"
  then have "1 \<le> bitlen n" using bitlen_ge_iff_power [of 1 n] by simp
  moreover have "2 ^ nat (bitlen n - 1) \<le> n" "n < 2 ^ nat (bitlen n)" using bitlen_bounds [OF n] by simp_all
  then have "(of_int (2 ^ nat (bitlen n - 1)) :: rat) \<le> of_int n" "(of_int n :: rat) < of_int (2 ^ nat (bitlen n))"
    by (simp_all only: of_int_le_iff of_int_less_iff)
  ultimately show ?thesis by (simp add: pow2_def power_int_def)
qed

lemma ilog2_bounds:
  assumes "0 < x"
  shows "pow2 (ilog2 x) \<le> x \<and> x < pow2 (ilog2 x + 1)"
proof -
  obtain a b where q: "quotient_of x = (a, b)" by fastforce
  have b: "0 < b" and x: "x = of_int a / of_int b" using quotient_of_denom_pos [OF q] quotient_of_div [OF q] by simp_all
  then have a: "0 < a" using assms by (simp add: zero_less_divide_iff)
  let ?l = "bitlen a - bitlen b"
  note A = bitlen_pow2 [OF a] note B = bitlen_pow2 [OF b]
  have "pow2 (?l - 1) * of_int b \<le> pow2 (?l - 1) * pow2 (bitlen b)" using B by (intro mult_left_mono) (simp_all add: less_imp_le)
  also have "\<dots> = pow2 (bitlen a - 1)" by (simp flip: pow2_add)
  finally have "pow2 (?l - 1) * of_int b \<le> of_int a" using A by simp
  then have low: "pow2 (?l - 1) \<le> x" using b by (simp add: x pos_le_divide_eq)
  have "pow2 (bitlen a) = pow2 (?l + 1) * pow2 (bitlen b - 1)" by (simp flip: pow2_add)
  also have "\<dots> \<le> pow2 (?l + 1) * of_int b" using B less_imp_le [OF pow2_pos] by (intro mult_left_mono) simp_all
  finally have "of_int a < pow2 (?l + 1) * of_int b" using A by simp
  then have "x < pow2 (?l + 1)" using b by (simp add: x pos_divide_less_eq)
  then show ?thesis using low by (simp add: ilog2_def q Let_def)
qed

lemma ilog2_eqI: "pow2 k \<le> x \<Longrightarrow> x < pow2 (k + 1) \<Longrightarrow> ilog2 x = k"
proof -
  assume k: "pow2 k \<le> x" "x < pow2 (k + 1)"
  have "0 < x" using k(1) pow2_pos [of k] by linarith
  note l = ilog2_bounds [OF this]
  have "\<not> ilog2 x < k" using l k pow2_mono [of "ilog2 x + 1" k] by (auto simp: not_le)
  moreover have "\<not> k < ilog2 x" using l k pow2_mono [of "k + 1" "ilog2 x"] by auto
  ultimately show ?thesis by simp
qed

lemma round_half_even_int [simp]: "round_half_even (of_int n) = n"
  by (simp add: round_half_even_def Let_def)

text \<open>An integer of at most 53 bits, scaled by a power of two in range, is a double and rounds to itself.\<close>

lemma round64_exact:
  assumes "0 < m" "m < 2 ^ 53" "-1074 \<le> e" "e \<le> 971"
  shows "round64 (of_int m * pow2 e) = Finite (of_int m * pow2 e)"
proof -
  let ?x = "of_int m * pow2 e"
  have x: "0 < ?x" using assms(1) by simp
  define k where "k = max (ilog2 ?x - 52) (- 1074)"
  have m: "(of_int m :: rat) < pow2 53"
    using assms(2) of_int_less_iff [of m "2 ^ 53", where ?'a = rat] by (simp add: pow2_def power_int_def)
  then have "?x < pow2 (53 + e)" by (simp add: pow2_add)
  then have "\<not> pow2 (53 + e) \<le> pow2 (ilog2 ?x)" using ilog2_bounds [OF x] by linarith
  then have "ilog2 ?x < 53 + e" using pow2_mono [of "53 + e" "ilog2 ?x"] by linarith
  then have "k \<le> e" using assms(3) by (simp add: k_def)
  then obtain d where d: "e = k + int d" using zle_iff_zadd by blast
  have "pow2 (int d) = 2 ^ d" by (simp add: pow2_def)
  then have e: "pow2 e = pow2 k * 2 ^ d" by (simp add: d pow2_add)
  have "?x / pow2 k = of_int (m * 2 ^ d)" using pow2_pos [of k, THEN less_imp_neq] by (simp add: e)
  then have r: "round_half_even (?x / pow2 k) = m * 2 ^ d" by (simp only: round_half_even_int)
  have v: "of_int (m * 2 ^ d) * pow2 k = ?x" by (simp add: e)
  have "?x < pow2 53 * pow2 e" using m by simp
  also have "\<dots> \<le> pow2 1024" using assms(4) pow2_mono [of "53 + e" 1024] by (simp add: pow2_add)
  finally have "\<not> 2 ^ 1024 \<le> ?x" by (simp add: pow2_def power_int_def not_le)
  then show ?thesis using x r v by (simp only: round64_def Let_def abs_of_pos k_def [symmetric]) simp
qed

lemma round64_zero [simp]: "round64 0 = Finite 0"
  by (simp add: round64_def)

lemma f64_eq_refl [simp]: "f64_eq (Finite x) (Finite x)"
  by simp

lemma f64_eq_iff: "f64_eq x y \<longleftrightarrow> x = y \<and> x \<noteq> NaN"
  by (cases x) auto

lemma f64_less_irrefl [simp]: "\<not> f64_less x x"
  by (cases x) auto

lemma f64_clamp_bounds:
  assumes "lo \<le> hi" "x \<noteq> NaN"
  shows "\<exists>r. f64_clamp lo hi x = Finite r \<and> lo \<le> r \<and> r \<le> hi"
  using assms by (cases x) (auto simp: f64_clamp_def)

lemma parse_unsigned_bound: "parse_unsigned m s = Some n \<Longrightarrow> n \<le> m"
  by (auto simp: parse_unsigned_def Let_def split: if_split_asm list.split_asm)

lemma as_u64_Some: "as_u64 v = Some n \<longleftrightarrow> v = JNumber (NInt (int n)) \<and> n \<le> u64_max"
  by (cases v rule: as_u64.cases) (auto simp: u64_max_def)

end
