(* ===== verification/InverterControl.thy ===== *)
theory InverterControl
  imports Floats Wire
begin

text \<open>
  Commands the inverter-control daemon accepts, \<^verbatim>\<open>src-tauri/src/inverter_control.rs\<close>: the flags and
  ESS modes it knows, the envelope of an ESS selection and of a tariff change, observed booleans, and the
  preparation of a toggle. A payload is a JSON value; an object is the list of its members in key order.
\<close>

definition ESS_MODES :: "string list" where
  "ESS_MODES = [''off'', ''on'', ''optimized_with_battery_life'', ''optimized_without_battery_life'',
     ''keep_batteries_charged'', ''external_control'']"

definition FLAG_KEYS :: "string list" where
  "FLAG_KEYS = [''only_charging'', ''no_feed'', ''house_support'', ''charge_battery'', ''do_not_supply_charger'',
     ''set_limit_to_ev_charger'', ''minimize_charging'']"

definition request_id_ok :: "string \<Rightarrow> bool" where
  "request_id_ok i \<longleftrightarrow> i \<noteq> [] \<and> length i \<le> 128
     \<and> list_all (\<lambda>b. is_ascii_alphanumeric b \<or> b \<in> set ''._:-'') i"

text \<open>\<^verbatim>\<open>body.get(key).and_then(..).is_some_and(..)\<close>\<close>

definition member_str :: "string \<Rightarrow> json \<Rightarrow> string option" where
  "member_str k v = Option.bind (jget k v) as_str"

definition object_size :: "json \<Rightarrow> nat option" where
  "object_size v = map_option length (as_object v)"

definition validate_ess_selection :: "json \<Rightarrow> unit res" where
  "validate_ess_selection body =
     (if object_size body = Some 2
        \<and> (case member_str ''mode'' body of None \<Rightarrow> False | Some mode \<Rightarrow> mode \<in> set ESS_MODES)
        \<and> (case member_str ''request_id'' body of None \<Rightarrow> False | Some i \<Rightarrow> request_id_ok i)
      then Ok () else Err ''Invalid ESS mode selection'')"

definition flag_key :: "string \<Rightarrow> string option" where
  "flag_key entity = (let t = trim entity; key = unwrap_or t (strip_prefix ''input_boolean.'' t)
     in if key \<in> set FLAG_KEYS then Some key else None)"

definition is_flag :: "string \<Rightarrow> bool" where "is_flag entity \<longleftrightarrow> flag_key entity \<noteq> None"

definition revision_ok :: "string \<Rightarrow> bool" where
  "revision_ok r \<longleftrightarrow> length r = 64
     \<and> list_all (\<lambda>b. (is_ascii_digit b \<or> (CHR ''a'' \<le> b \<and> b \<le> CHR ''f'') \<or> (CHR ''A'' \<le> b \<and> b \<le> CHR ''F''))
         \<and> \<not> is_ascii_uppercase b) r"

text \<open>The length of \<^verbatim>\<open>body.to_string()\<close> is the serialiser's.\<close>

definition validate_tariff_command :: "ext \<Rightarrow> json \<Rightarrow> unit res" where
  "validate_tariff_command X body =
     (if object_size body = Some 3
        \<and> (case member_str ''request_id'' body of None \<Rightarrow> False | Some i \<Rightarrow> request_id_ok i)
        \<and> (case member_str ''revision'' body of None \<Rightarrow> False | Some r \<Rightarrow> revision_ok r)
        \<and> (case jget ''plan'' body of None \<Rightarrow> False | Some plan \<Rightarrow> is_null plan \<or> is_object plan)
        \<and> (case enc_json X body of Err _ \<Rightarrow> False | Ok text \<Rightarrow> length text \<le> 100000)
      then Ok () else Err ''Invalid controller tariff command'')"

definition control_bool :: "json \<Rightarrow> bool option" where
  "control_bool v = (case v of
       JBool b \<Rightarrow> Some b
     | JNumber _ \<Rightarrow> (case as_f64 v of
           Some x \<Rightarrow> if f64_eq x (Finite 0) then Some False else if f64_eq x (Finite 1) then Some True else None
         | None \<Rightarrow> None)
     | JString s \<Rightarrow> (let t = to_ascii_lowercase (trim s)
         in if t \<in> {''true'', ''on'', ''1''} then Some True
            else if t \<in> {''false'', ''off'', ''0''} then Some False else None)
     | _ \<Rightarrow> None)"

text \<open>\<^verbatim>\<open>Map::insert\<close> on a map ordered by key.\<close>

definition object_insert :: "string \<Rightarrow> json \<Rightarrow> (string \<times> json) list \<Rightarrow> (string \<times> json) list" where
  "object_insert k v fs = (if map_of fs k = None then insort_key fst (k, v) fs else AList.update k v fs)"

definition prepare_command :: "string \<Rightarrow> json \<Rightarrow> (string \<Rightarrow> bool option) \<Rightarrow> json" where
  "prepare_command action payload current =
     (if action \<noteq> ''toggle'' then payload
      else case Option.bind (member_str ''entity'' payload) flag_key of
          None \<Rightarrow> payload
        | Some key \<Rightarrow> (case payload of
              JObject fs \<Rightarrow>
                (let fs = object_insert ''entity'' (JString key) fs
                 in if map_of fs ''state'' \<noteq> None then JObject fs
                    else JObject (object_insert ''state''
                      (JString (if unwrap_or False (current key) then ''off'' else ''on'')) fs))
            | _ \<Rightarrow> payload))"

section \<open>Facts\<close>

lemma object_insert_map: "map_of (object_insert k v fs) = (map_of fs)(k \<mapsto> v)"
proof (cases "map_of fs k = None")
  case True
  have "map_of (insort_key fst (k, v) gs) = (map_of gs)(k \<mapsto> v)" if "map_of gs k = None" for gs
    using that by (induction gs) (auto split: if_splits)
  then show ?thesis using True by (simp add: object_insert_def)
next
  case False
  then show ?thesis by (simp add: object_insert_def update_conv' del: not_None_eq)
qed

lemma FLAG_KEYS_plain: "key \<in> set FLAG_KEYS \<Longrightarrow> flag_key key = Some key"
proof -
  have "list_all (\<lambda>key. flag_key key = Some key) FLAG_KEYS" by code_simp
  then show "key \<in> set FLAG_KEYS \<Longrightarrow> flag_key key = Some key" by (simp add: list_all_iff)
qed

lemma flag_key_canonical: "flag_key e = Some key \<Longrightarrow> key \<in> set FLAG_KEYS \<and> flag_key key = Some key"
proof -
  assume "flag_key e = Some key"
  then have "key \<in> set FLAG_KEYS" by (auto simp: flag_key_def Let_def split: if_split_asm)
  then show ?thesis using FLAG_KEYS_plain by blast
qed

lemma ess_selection_Ok: "validate_ess_selection body = Ok u \<longleftrightarrow>
  (\<exists>fs mode i. body = JObject fs \<and> length fs = 2 \<and> map_of fs ''mode'' = Some (JString mode) \<and> mode \<in> set ESS_MODES
     \<and> map_of fs ''request_id'' = Some (JString i) \<and> request_id_ok i)"
  by (auto simp: validate_ess_selection_def object_size_def member_str_def jget_def result_simps bind_eq_Some_conv
      split: option.split_asm)

lemma json_str_bind: "Option.bind (jget k v) as_str = Some s \<longleftrightarrow> jget k v = Some (JString s)"
  by (auto simp: bind_eq_Some_conv result_simps)

text \<open>
  C36. A prepared toggle of a controller flag is absolute and canonical: it names the bare key and carries
  an explicit state, the caller's if there is one, otherwise the opposite of the last observed value; it is
  a fixed point of the preparation, so a repeated delivery never toggles twice. Everything else passes unchanged.
\<close>

theorem toggle_absolute:
  "(\<forall>fs e key. action = ''toggle'' \<and> payload = JObject fs \<and> map_of fs ''entity'' = Some (JString e) \<and> flag_key e = Some key
      \<longrightarrow> (\<exists>gs. prepare_command action payload current = JObject gs
        \<and> map_of gs = (map_of fs)(''entity'' \<mapsto> JString key, ''state'' \<mapsto>
            (case map_of fs ''state'' of Some v \<Rightarrow> v
             | None \<Rightarrow> JString (if current key = Some True then ''off'' else ''on'')))
        \<and> key \<in> set FLAG_KEYS
        \<and> (\<forall>later. \<exists>hs. prepare_command action (JObject gs) later = JObject hs \<and> map_of hs = map_of gs)))
   \<and> (action \<noteq> ''toggle'' \<or> Option.bind (member_str ''entity'' payload) flag_key = None
      \<longrightarrow> prepare_command action payload current = payload)"
proof (intro conjI allI impI)
  fix fs e key
  assume a: "action = ''toggle'' \<and> payload = JObject fs \<and> map_of fs ''entity'' = Some (JString e) \<and> flag_key e = Some key"
  then have key: "key \<in> set FLAG_KEYS" "flag_key key = Some key" using flag_key_canonical by blast+
  let ?p = "prepare_command action payload current"
  let ?state = "case map_of fs ''state'' of Some v \<Rightarrow> v | None \<Rightarrow> JString (if current key = Some True then ''off'' else ''on'')"
  have step: "\<exists>hs. prepare_command ''toggle'' (JObject gs) c = JObject hs \<and> map_of hs = (map_of gs)(''entity'' \<mapsto> JString k,
      ''state'' \<mapsto> (case map_of gs ''state'' of Some v \<Rightarrow> v | None \<Rightarrow> JString (if c k = Some True then ''off'' else ''on'')))"
    if "map_of gs ''entity'' = Some (JString x)" "flag_key x = Some k" for gs x k c
    using that by (cases "c k") (auto simp: prepare_command_def member_str_def jget_def object_insert_map unwrap_or_def
        fun_upd_twist Let_def split: option.splits)
  obtain gs where gs: "?p = JObject gs" "map_of gs = (map_of fs)(''entity'' \<mapsto> JString key, ''state'' \<mapsto> ?state)"
    using step [of fs e key current] a by auto
  have again: "\<exists>hs. prepare_command action (JObject gs) later = JObject hs \<and> map_of hs = map_of gs" for later
    using step [of gs key key later] gs(2) key(2) a by (auto simp: fun_upd_twist fun_upd_idem_iff)
  then show "\<exists>gs. ?p = JObject gs \<and> map_of gs = (map_of fs)(''entity'' \<mapsto> JString key, ''state'' \<mapsto> ?state)
      \<and> key \<in> set FLAG_KEYS \<and> (\<forall>later. \<exists>hs. prepare_command action (JObject gs) later = JObject hs \<and> map_of hs = map_of gs)"
    using gs key(1) by blast
qed (auto simp: prepare_command_def)

theorem toggle_absolute_witness:
  "\<exists>gs. prepare_command ''toggle'' (JObject [(''entity'', JString '' input_boolean.no_feed'')]) (\<lambda>_. Some True) = JObject gs
    \<and> map_of gs ''entity'' = Some (JString ''no_feed'') \<and> map_of gs ''state'' = Some (JString ''off'')"
proof -
  have "flag_key '' input_boolean.no_feed'' = Some ''no_feed''" by code_simp
  then show ?thesis
    using toggle_absolute [of "''toggle''" "JObject [(''entity'', JString '' input_boolean.no_feed'')]" "\<lambda>_. Some True"]
    by fastforce
qed

end
