(* ===== verification/Telemetry.thy ===== *)
theory Telemetry
  imports InverterControl
begin

text \<open>
  The dashboard's data, \<^verbatim>\<open>src-tauri/src/mqtt.rs\<close>: devices, the state every transport fills, and the
  conversions both transports share. Structures of the daemon that the application only passes on (its
  interface configuration, daily statistics, solar forecast) are kept as the JSON they serialise to.
\<close>

record discovered_instance =
  di_instance :: nat
  di_kind :: string
  di_name :: "string option"

record override_status =
  ov_value :: "int option"
  ov_last_error :: "string option"
  ov_request_id :: "string option"

record grid_backup =
  gb_enabled :: bool
  gb_available :: bool
  gb_service :: "string option"
  gb_device_instance :: "nat option"
  gb_name :: "string option"
  gb_power :: "f64 option"
  gb_measurement_time :: "f64 option"
  gb_age_seconds :: "f64 option"

record ess_mode =
  em_selected :: "string option"
  em_vebus_mode :: "nat option"
  em_selection_supported :: "bool option"
  em_request_id :: "string option"
  em_error :: "string option"
  em_mode_name :: "string option"
  em_is_external :: "bool option"

record mppt_charger =
  mc_name :: "string option"
  mc_serial :: "string option"
  mc_instance :: "nat option"
  mc_pv_voltage :: "f64 option"
  mc_current :: "f64 option"
  mc_power :: "f64 option"

record pv_inverter =
  pi_name :: "string option"
  pi_serial :: "string option"
  pi_instance :: "nat option"
  pi_voltage :: "f64 option"
  pi_current :: "f64 option"
  pi_power :: "f64 option"

record battery =
  ba_name :: "string option"
  ba_serial :: "string option"
  ba_instance :: "nat option"
  ba_soc :: "f64 option"
  ba_voltage :: "f64 option"
  ba_current :: "f64 option"
  ba_power :: "f64 option"
  ba_state :: "string option"
  ba_time_to_go :: "string option"
  ba_max_cell_voltage :: "f64 option"
  ba_max_voltage_cell_id :: "string option"
  ba_min_cell_voltage :: "f64 option"
  ba_min_voltage_cell_id :: "string option"

text \<open>
  \<^verbatim>\<open>InverterState\<close>, in groups: what only inverter-control knows, and what is measured. The appliance
  fields, which nothing here reads or writes, are left out.
\<close>

record controller =
  ct_grid_backup :: "grid_backup option"
  ct_grid_using_backup :: "bool option"
  ct_grid_backup_observed_at :: "f64 option"
  ct_setpoint_override :: "override_status option"
  ct_version :: "string option"
  ct_dashboard_version :: "string option"
  ct_latest_version :: "string option"
  ct_uptime :: "nat option"
  ct_ha_connected :: "bool option"
  ct_ha_direct_connected :: "bool option"
  ct_dry_run :: "bool option"
  ct_ess_mode :: "ess_mode option"
  ct_ess_mode_observed_at :: "f64 option"
  ct_booleans :: "(string \<rightharpoonup> bool) option"
  ct_features :: "(string \<rightharpoonup> bool) option"
  ct_ui_config :: "json option"
  ct_daily_stats :: "json option"
  ct_solar_forecast :: "json option"

record water_ev =
  we_discovered :: "discovered_instance list option"
  we_water_level :: "f64 option"
  we_water_valve :: "bool option"
  we_pump_switch :: "bool option"
  we_water_pump_mode :: "nat option"
  we_water_valve_mode :: "nat option"
  we_ev_power :: "f64 option"
  we_car_soc :: "f64 option"
  we_ev_charging_power :: "f64 option"
  we_car_charging_power :: "f64 option"
  we_ev_present :: bool
  we_evcharger_present :: bool

record inverter_state =
  iv_gateway_snapshot :: "bool option"
  iv_cached_snapshot :: "bool option"
  iv_controller :: controller
  iv_water_ev :: water_ev
  iv_gt :: "f64 option"
  iv_g1 :: "f64 option"
  iv_g2 :: "f64 option"
  iv_grid_l1_available :: "bool option"
  iv_grid_l2_available :: "bool option"
  iv_tt :: "f64 option"
  iv_t1 :: "f64 option"
  iv_t2 :: "f64 option"
  iv_solar_total :: "f64 option"
  iv_mppt_total :: "f64 option"
  iv_battery_soc :: "f64 option"
  iv_battery_power :: "f64 option"
  iv_battery_voltage :: "f64 option"
  iv_battery_current :: "f64 option"
  iv_setpoint :: "f64 option"
  iv_inverter_state :: "string option"
  iv_mppt_individual :: "f64 list option"
  iv_mppt_chargers :: "mppt_charger list option"
  iv_pv_inverters :: "pv_inverter list option"
  iv_pv_inverter_individual :: "f64 list option"
  iv_batteries :: "battery list option"
  iv_loads :: "(string \<rightharpoonup> f64) option"
  iv_load_names :: "(string \<rightharpoonup> string) option"

section \<open>Defaults\<close>

definition default_controller :: controller where
  "default_controller = \<lparr>ct_grid_backup = None, ct_grid_using_backup = None, ct_grid_backup_observed_at = None,
     ct_setpoint_override = None, ct_version = None, ct_dashboard_version = None, ct_latest_version = None,
     ct_uptime = None, ct_ha_connected = None, ct_ha_direct_connected = None, ct_dry_run = None, ct_ess_mode = None,
     ct_ess_mode_observed_at = None, ct_booleans = None, ct_features = None, ct_ui_config = None,
     ct_daily_stats = None, ct_solar_forecast = None\<rparr>"

definition default_water_ev :: water_ev where
  "default_water_ev = \<lparr>we_discovered = None, we_water_level = None, we_water_valve = None, we_pump_switch = None,
     we_water_pump_mode = None, we_water_valve_mode = None, we_ev_power = None, we_car_soc = None,
     we_ev_charging_power = None, we_car_charging_power = None, we_ev_present = False, we_evcharger_present = False\<rparr>"

definition default_state :: inverter_state where
  "default_state = \<lparr>iv_gateway_snapshot = None, iv_cached_snapshot = None, iv_controller = default_controller,
     iv_water_ev = default_water_ev, iv_gt = None, iv_g1 = None, iv_g2 = None, iv_grid_l1_available = None,
     iv_grid_l2_available = None, iv_tt = None, iv_t1 = None, iv_t2 = None, iv_solar_total = None,
     iv_mppt_total = None, iv_battery_soc = None, iv_battery_power = None, iv_battery_voltage = None,
     iv_battery_current = None, iv_setpoint = None, iv_inverter_state = None, iv_mppt_individual = None,
     iv_mppt_chargers = None, iv_pv_inverters = None, iv_pv_inverter_individual = None, iv_batteries = None,
     iv_loads = None, iv_load_names = None\<rparr>"

section \<open>Conversions\<close>

definition V_MIN :: rat where "V_MIN = 40"
definition V_MAX :: f64 where "V_MAX = round64 (544 / 10)"

text \<open>\<^verbatim>\<open>V_MAX - V_MIN\<close> is a positive finite number.\<close>

definition voltage_range :: rat where
  "voltage_range = (case f64_sub V_MAX (Finite V_MIN) of Finite r \<Rightarrow> r | _ \<Rightarrow> 0)"

definition voltage_soc :: "f64 \<Rightarrow> f64" where
  "voltage_soc voltage = f64_round (f64_clamp 0 100
     (f64_mul (f64_div_pos (f64_sub voltage (Finite V_MIN)) voltage_range) (Finite 100)))"

definition inverter_state_name :: "nat \<Rightarrow> string" where
  "inverter_state_name code =
     (if code < 12 then [''Off'', ''Low Power'', ''Fault'', ''Bulk'', ''Absorption'', ''Float'', ''Storage'', ''Equalize'',
        ''Passthru'', ''Inverting'', ''Power assist'', ''Power supply''] ! code
      else if code = 252 then ''External control'' else ''? ('' @ decimal code @ '')'')"

definition two_digits :: "nat \<Rightarrow> string" where
  "two_digits n = (if n < 10 then ''0'' else []) @ decimal n"

definition format_time_to_go :: "f64 \<Rightarrow> string option" where
  "format_time_to_go secs = (let s = to_unsigned u64_max secs in
     if s = 0 \<or> 86400 * 14 \<le> s then None
     else let h = s div 3600; m = (s mod 3600) div 60
       in Some (if 0 < h then decimal h @ ''h '' @ two_digits m @ ''m'' else decimal m @ ''m''))"

definition state_from_current :: "f64 \<Rightarrow> string" where
  "state_from_current amps = (if f64_less (Finite (1 / 2)) amps then ''Charging''
     else if f64_less amps (Finite (- 1 / 2)) then ''Discharging'' else ''Idle'')"

definition moving :: "string option \<Rightarrow> bool" where
  "moving s \<longleftrightarrow> s \<in> {Some ''Charging'', Some ''Discharging''}"

text \<open>
  \<^verbatim>\<open>to_lowercase().contains("shunt")\<close>; no character outside ASCII has one of these letters as its
  lowercase.
\<close>

definition is_shunt :: "string option \<Rightarrow> bool" where
  "is_shunt name \<longleftrightarrow> contains_str ''shunt'' (to_ascii_lowercase (unwrap_or [] name))"

definition coerce_bool :: "json \<Rightarrow> bool" where
  "coerce_bool v = (case v of
       JBool b \<Rightarrow> b
     | JString s \<Rightarrow> to_ascii_lowercase s \<in> {''true'', ''1'', ''on'', ''online''}
     | JNumber _ \<Rightarrow> \<not> f64_eq (unwrap_or (Finite 0) (as_f64 v)) (Finite 0)
     | _ \<Rightarrow> False)"

text \<open>The sum of the phases that are present.\<close>

definition phases :: "f64 option \<Rightarrow> f64 option \<Rightarrow> f64 option" where
  "phases a b = (case (a, b) of
       (Some x, Some y) \<Rightarrow> Some (f64_add x y) | (Some x, None) \<Rightarrow> Some x | (None, Some y) \<Rightarrow> Some y | _ \<Rightarrow> None)"

section \<open>Facts\<close>

lemma V_MAX_value: "V_MAX = Finite (7656119366529843 / 140737488355328)"
proof -
  have "ilog2 (272 / 5) = 5" by (rule ilog2_eqI) (simp_all add: pow2_def power_int_def power_divide)
  moreover have "\<lfloor>272 / 5 / pow2 (- 47)\<rfloor> = (7656119366529843 :: int)"
    by (rule floor_unique) (simp_all add: pow2_def power_int_def power_divide)
  ultimately show ?thesis
    by (simp add: V_MAX_def round64_def round_half_even_def Let_def) (simp add: pow2_def power_int_def power_divide)
qed

lemma voltage_range_pos: "0 < voltage_range"
proof -
  have "f64_sub V_MAX (Finite V_MIN) = round64 (of_int 2026619832316723 * pow2 (- 47))"
    by (simp add: V_MAX_value f64_sub_def V_MIN_def pow2_def power_int_def power_divide)
  also have "\<dots> = Finite (of_int 2026619832316723 * pow2 (- 47))" by (rule round64_exact) simp_all
  finally show ?thesis by (simp add: voltage_range_def)
qed

text \<open>A battery percentage is a whole number between 0 and 100.\<close>

lemma voltage_soc_range:
  assumes "voltage \<noteq> NaN"
  shows "\<exists>n. voltage_soc voltage = Finite (of_int n) \<and> 0 \<le> n \<and> n \<le> 100"
proof -
  have d: "f64_div_pos y voltage_range \<noteq> NaN" if "y \<noteq> NaN" for y
    using that by (cases y) (auto simp: round64_def Let_def)
  have m: "f64_mul y (Finite 100) \<noteq> NaN" if "y \<noteq> NaN" for y
    using that by (cases y) (auto simp: round64_def Let_def)
  have s: "f64_sub voltage (Finite V_MIN) \<noteq> NaN"
    using assms by (cases voltage) (auto simp: f64_sub_def round64_def Let_def)
  obtain r where r: "f64_clamp 0 100 (f64_mul (f64_div_pos (f64_sub voltage (Finite V_MIN)) voltage_range) (Finite 100)) = Finite r"
    "0 \<le> r" "r \<le> 100" using f64_clamp_bounds [OF _ m [OF d [OF s]], of 0 100] by auto
  have "0 \<le> \<lfloor>r + 1 / 2\<rfloor>" "\<lfloor>r + 1 / 2\<rfloor> \<le> 100"
    using r(2,3) by (simp_all add: floor_le_iff)
  then show ?thesis using r by (intro exI [of _ "\<lfloor>r + 1 / 2\<rfloor>"]) (simp add: voltage_soc_def)
qed

end
