(* ===== verification/Gateway.thy ===== *)
theory Gateway
  imports Telemetry
begin

text \<open>
  The inverter gateway's snapshot and its mapping into the dashboard state, \<^verbatim>\<open>src-tauri/src/gateway.rs\<close>.
  A snapshot is a set of maps from Cerbo paths to JSON values, keyed \<^verbatim>\<open><instance>/<path>\<close>. The decoding of
  the daemon's structures by serde and the host clock are parameters.
\<close>

type_synonym paths = "(string \<times> json) list"

record snapshot =
  gw_inverter :: "paths option"
  gw_capabilities :: paths
  gw_system :: paths
  gw_vebus :: paths
  gw_battery :: paths
  gw_solarcharger :: paths
  gw_pvinverter :: paths
  gw_tank :: paths
  gw_pump :: paths
  gw_ev :: paths
  gw_evcharger :: paths
  gw_acload :: paths
  gw_platform :: paths
  gw_settings :: paths

definition empty_snapshot :: snapshot where
  "empty_snapshot = \<lparr>gw_inverter = None, gw_capabilities = [], gw_system = [], gw_vebus = [], gw_battery = [],
     gw_solarcharger = [], gw_pvinverter = [], gw_tank = [], gw_pump = [], gw_ev = [], gw_evcharger = [],
     gw_acload = [], gw_platform = [], gw_settings = []\<rparr>"

text \<open>\<^verbatim>\<open>serde_json::from_value\<close> at the daemon's types.\<close>

record daemon =
  dm_ess_mode :: "json \<Rightarrow> ess_mode option"
  dm_ui_config :: "json \<Rightarrow> json option"
  dm_features :: "json \<Rightarrow> (string \<rightharpoonup> bool) option"
  dm_version :: "json \<Rightarrow> string option"
  dm_uptime :: "json \<Rightarrow> nat option"
  dm_daily_stats :: "json \<Rightarrow> json option"
  dm_solar_forecast :: "json \<Rightarrow> json option"
  dm_grid_backup :: "json \<Rightarrow> grid_backup option"

record instances =
  gi_water_tank :: "nat option"
  gi_water_pump :: "nat option"
  gi_water_valve :: "nat option"
  gi_ev :: "nat option"
  gi_evcharger :: "nat option"

definition default_instances :: instances where
  "default_instances = \<lparr>gi_water_tank = None, gi_water_pump = None, gi_water_valve = None, gi_ev = None,
     gi_evcharger = None\<rparr>"

section \<open>Paths\<close>

definition path_instance :: "string \<Rightarrow> nat option" where
  "path_instance path = parse_u32 (hd (split_on (\<lambda>c. c = CHR ''/'') path))"

text \<open>\<^verbatim>\<open>sort_unstable\<close> and \<^verbatim>\<open>dedup\<close>.\<close>

definition sorted_instances :: "nat list \<Rightarrow> nat list" where
  "sorted_instances ids = remdups_adj (sort ids)"

definition device_instances :: "paths \<Rightarrow> nat list" where
  "device_instances m = sorted_instances
     (List.map_filter (\<lambda>(path, _). path_instance path) (filter (\<lambda>(_, v). \<not> is_null v) m))"

definition key_instances :: "paths \<Rightarrow> nat list" where
  "key_instances m = sorted_instances (List.map_filter (\<lambda>(path, _). path_instance path) m)"

definition leaf :: "paths \<Rightarrow> nat \<Rightarrow> string \<Rightarrow> json option" where
  "leaf m i path = map_of m (decimal i @ ''/'' @ path)"

fun num :: "json \<Rightarrow> f64 option" where
  "num (JNumber n) = as_f64 (JNumber n)"
| "num (JString s) = (case parse_f64 s of None \<Rightarrow> None | Some x \<Rightarrow> if is_finite x then Some x else None)"
| "num (JBool b) = Some (Finite (if b then 1 else 0))"
| "num _ = None"

definition path_num :: "paths \<Rightarrow> string \<Rightarrow> f64 option" where
  "path_num m path = Option.bind (map_of m path) num"

definition leaf_num :: "paths \<Rightarrow> nat \<Rightarrow> string \<Rightarrow> f64 option" where
  "leaf_num m i path = Option.bind (leaf m i path) num"

definition device_connected :: "paths \<Rightarrow> nat \<Rightarrow> bool" where
  "device_connected m i = (case leaf m i ''Connected'' of None \<Rightarrow> True
     | Some v \<Rightarrow> (case num v of None \<Rightarrow> False | Some x \<Rightarrow> f64_eq x (Finite 1)))"

definition water_device_connected :: "paths \<Rightarrow> nat \<Rightarrow> bool" where
  "water_device_connected m i = (case leaf m i ''Connected'' of None \<Rightarrow> True | Some v \<Rightarrow> as_u64 v = Some 1)"

definition mode :: "paths \<Rightarrow> nat \<Rightarrow> nat option" where
  "mode m i = (case Option.bind (leaf m i ''Mode'') as_u64 of None \<Rightarrow> None | Some v \<Rightarrow> if v \<le> 2 then Some v else None)"

definition capable :: "snapshot \<Rightarrow> string \<Rightarrow> bool" where
  "capable snap name \<longleftrightarrow> Option.bind (map_of (gw_capabilities snap) name) as_bool = Some True"

section \<open>Instances\<close>

definition or_else :: "'a option \<Rightarrow> 'a option \<Rightarrow> 'a option" where
  "or_else a b = (case a of None \<Rightarrow> b | Some x \<Rightarrow> Some x)"

definition ui_choice :: "snapshot \<Rightarrow> string \<Rightarrow> string \<Rightarrow> nat option" where
  "ui_choice snap section key =
     (case Option.bind (Option.bind (Option.bind (Option.bind (gw_inverter snap) (\<lambda>c. map_of c ''ui_config''))
        (jget section)) (jget key)) as_u64 of
        None \<Rightarrow> None | Some v \<Rightarrow> if v \<le> u32_max then Some v else None)"

definition snapshot_instances :: "snapshot \<Rightarrow> instances \<Rightarrow> instances" where
  "snapshot_instances snap c = \<lparr>
     gi_water_tank = or_else (gi_water_tank c) (or_else (ui_choice snap ''water'' ''tank_instance'')
       (case device_instances (gw_tank snap) of [] \<Rightarrow> None | i # _ \<Rightarrow> Some i)),
     gi_water_pump = or_else (gi_water_pump c) (or_else (ui_choice snap ''water'' ''pump_instance'') (Some 1)),
     gi_water_valve = or_else (gi_water_valve c) (or_else (ui_choice snap ''water'' ''valve_instance'') (Some 2)),
     gi_ev = or_else (gi_ev c) (or_else (ui_choice snap ''ev'' ''instance'') (Some 22)),
     gi_evcharger = or_else (gi_evcharger c) (or_else (ui_choice snap ''ev'' ''evcharger_instance'') (Some 40))\<rparr>"

section \<open>Water and vehicles\<close>

text \<open>A trimmed non-empty name, the custom one first.\<close>

definition discovery_name :: "paths \<Rightarrow> nat \<Rightarrow> string option" where
  "discovery_name m i = (let text = (\<lambda>path. case Option.bind (leaf m i path) as_str of None \<Rightarrow> None
       | Some s \<Rightarrow> if trim s = [] then None else Some (trim s))
     in or_else (text ''CustomName'') (text ''ProductName''))"

definition discover :: "string \<Rightarrow> paths \<Rightarrow> discovered_instance list" where
  "discover kind m = map (\<lambda>i. \<lparr>di_instance = i, di_kind = kind, di_name = discovery_name m i\<rparr>) (device_instances m)"

text \<open>One of pump and valve: shown only if connected, in a known mode, and controllable.\<close>

definition water_device :: "snapshot \<Rightarrow> nat option \<Rightarrow> bool \<Rightarrow> water_ev \<Rightarrow> water_ev" where
  "water_device snap instance valve w = (case instance of
       None \<Rightarrow> w
     | Some i \<Rightarrow>
         if \<not> water_device_connected (gw_pump snap) i then w
         else case mode (gw_pump snap) i of
             None \<Rightarrow> w
           | Some current \<Rightarrow>
               if \<not> capable snap ''water_mode'' then w
               else
                 let v = (case leaf_num (gw_pump snap) i ''State'' of None \<Rightarrow> None
                   | Some x \<Rightarrow> if f64_eq x (Finite 0) \<or> f64_eq x (Finite 1) then Some (f64_eq x (Finite 1)) else None)
                 in if valve then w\<lparr>we_water_valve := v, we_water_valve_mode := Some current\<rparr>
                    else w\<lparr>we_pump_switch := v, we_water_pump_mode := Some current\<rparr>)"

definition map_tank :: "snapshot \<Rightarrow> nat option \<Rightarrow> water_ev \<Rightarrow> water_ev" where
  "map_tank snap instance w = (case instance of None \<Rightarrow> w
     | Some i \<Rightarrow> if water_device_connected (gw_tank snap) i
         then w\<lparr>we_water_level := leaf_num (gw_tank snap) i ''Level''\<rparr> else w)"

definition map_ev :: "snapshot \<Rightarrow> nat option \<Rightarrow> water_ev \<Rightarrow> water_ev" where
  "map_ev snap instance w = (case instance of None \<Rightarrow> w
     | Some i \<Rightarrow> if device_connected (gw_ev snap) i
         then w\<lparr>we_ev_present := i \<in> set (device_instances (gw_ev snap)),
           we_car_soc := leaf_num (gw_ev snap) i ''Soc'',
           we_car_charging_power := leaf_num (gw_ev snap) i ''Ac/Power''\<rparr> else w)"

definition map_evcharger :: "snapshot \<Rightarrow> nat option \<Rightarrow> water_ev \<Rightarrow> water_ev" where
  "map_evcharger snap instance w = (case instance of None \<Rightarrow> w
     | Some i \<Rightarrow> if device_connected (gw_evcharger snap) i
         then
           let power = leaf_num (gw_evcharger snap) i ''Ac/Power'';
               w = w\<lparr>we_evcharger_present := i \<in> set (device_instances (gw_evcharger snap)),
                 we_ev_charging_power := power, we_ev_power := power\<rparr>
           in if we_car_soc w = None \<and> gw_ev snap = []
              then w\<lparr>we_car_soc := leaf_num (gw_evcharger snap) i ''Soc''\<rparr> else w
         else w)"

definition map_water_ev :: "snapshot \<Rightarrow> instances \<Rightarrow> water_ev \<Rightarrow> water_ev" where
  "map_water_ev snap configured w =
     (let selected = snapshot_instances snap configured;
          w = w\<lparr>we_discovered := Some (discover ''tank'' (gw_tank snap) @ discover ''pump'' (gw_pump snap)
            @ discover ''ev'' (gw_ev snap) @ discover ''evcharger'' (gw_evcharger snap))\<rparr>;
          w = map_tank snap (gi_water_tank selected) w;
          w = water_device snap (gi_water_pump selected) False w;
          w = water_device snap (gi_water_valve selected) True w;
          w = map_ev snap (gi_ev selected) w
      in map_evcharger snap (gi_evcharger selected) w)"

section \<open>The controller\<close>

definition bool_value :: "json \<Rightarrow> bool option" where
  "bool_value v = (case v of
       JBool b \<Rightarrow> Some b
     | JNumber _ \<Rightarrow> if as_i64 v = Some 0 then Some False else if as_i64 v = Some 1 then Some True else None
     | JString s \<Rightarrow> (let t = to_ascii_lowercase s
         in if t \<in> {''true'', ''1'', ''on'', ''online''} then Some True
            else if t \<in> {''false'', ''0'', ''off'', ''offline''} then Some False else None)
     | _ \<Rightarrow> None)"

definition OVERRIDE_UNAVAILABLE :: string where
  "OVERRIDE_UNAVAILABLE = ''Current Setpoint Override status is unavailable; wait for fresh IGW telemetry''"

definition override_text :: "(string \<times> json) list \<Rightarrow> string \<Rightarrow> string option res" where
  "override_text status key = (case map_of status key of
       Some JNull \<Rightarrow> Ok None | Some (JString s) \<Rightarrow> Ok (Some s) | _ \<Rightarrow> Err OVERRIDE_UNAVAILABLE)"

definition override_value :: "(string \<times> json) list \<Rightarrow> int option res" where
  "override_value status = (case map_of status ''value'' of
       None \<Rightarrow> Err OVERRIDE_UNAVAILABLE
     | Some v \<Rightarrow> if is_null v then Ok None
         else (case as_i64 v of
             Some n \<Rightarrow> if - (2 ^ 31) \<le> n \<and> n \<le> 2 ^ 31 - 1 then Ok (Some n) else Err OVERRIDE_UNAVAILABLE
           | None \<Rightarrow> Err OVERRIDE_UNAVAILABLE))"

definition snapshot_override_status :: "snapshot \<Rightarrow> override_status res" where
  "snapshot_override_status snap =
     (if \<not> capable snap ''setpoint_override''
      then Err ''This IGW does not support Setpoint Override; update the gateway first''
      else rbind (ok_or OVERRIDE_UNAVAILABLE
          (Option.bind (Option.bind (gw_inverter snap) (\<lambda>c. map_of c ''setpoint_override'')) as_object)) (\<lambda>status.
        rbind (override_value status) (\<lambda>v.
        rbind (override_text status ''last_error'') (\<lambda>e.
        rbind (override_text status ''request_id'') (\<lambda>i.
          Ok \<lparr>ov_value = v, ov_last_error = e, ov_request_id = i\<rparr>)))))"

text \<open>\<^verbatim>\<open>timestamp_millis() as f64 / 1000.0\<close>\<close>

definition clock_seconds :: "int \<Rightarrow> f64" where
  "clock_seconds now = f64_div_pos (round64 (of_int now)) 1000"

definition controller_booleans :: "(string \<times> json) list \<Rightarrow> (string \<rightharpoonup> bool)" where
  "controller_booleans c = (case Option.bind (map_of c ''booleans'') as_object of
       None \<Rightarrow> Map.empty
     | Some flags \<Rightarrow> (\<lambda>k. Option.bind (map_of flags k) bool_value))"

definition map_controller :: "daemon \<Rightarrow> int \<Rightarrow> snapshot \<Rightarrow> controller \<Rightarrow> controller" where
  "map_controller D now snap ct =
     (let ct = ct\<lparr>ct_booleans := Some Map.empty, ct_grid_using_backup := Some False\<rparr>
      in case gw_inverter snap of
          None \<Rightarrow> ct
        | Some c \<Rightarrow>
            let field = (\<lambda>name. unwrap_or JNull (map_of c name));
                ess = dm_ess_mode D (field ''ess_mode'');
                backup = dm_grid_backup D (field ''grid_backup'')
            in ct\<lparr>ct_booleans := Some (controller_booleans c),
              ct_dry_run := Option.bind (map_of c ''dry_run'') bool_value,
              ct_ess_mode := ess,
              ct_ess_mode_observed_at := map_option (\<lambda>_. clock_seconds now) ess,
              ct_ui_config := dm_ui_config D (field ''ui_config''),
              ct_features := dm_features D (field ''features''),
              ct_version := dm_version D (field ''version''),
              ct_uptime := dm_uptime D (field ''uptime''),
              ct_ha_connected := Option.bind (map_of c ''ha_connected'') bool_value,
              ct_daily_stats := dm_daily_stats D (field ''daily_stats''),
              ct_solar_forecast := dm_solar_forecast D (field ''solar_forecast''),
              ct_setpoint_override := ok_option (snapshot_override_status snap),
              ct_grid_backup := backup,
              ct_grid_using_backup := Some (unwrap_or False (Option.bind (map_of c ''grid_using_backup'') bool_value)),
              ct_grid_backup_observed_at := Option.bind (Option.bind backup gb_measurement_time)
                (\<lambda>t. if is_finite t then Some t else None)\<rparr>)"

section \<open>Measurements\<close>

text \<open>A null reading invalidates a phase, an absent path says nothing about it.\<close>

definition phase_available :: "paths \<Rightarrow> string \<Rightarrow> bool option" where
  "phase_available m path = (case map_of m path of None \<Rightarrow> None
     | Some v \<Rightarrow> if is_null v \<or> num v \<noteq> None then Some (num v \<noteq> None) else None)"

definition map_grid :: "paths \<Rightarrow> inverter_state \<Rightarrow> inverter_state" where
  "map_grid sys st =
     (let g1 = path_num sys ''0/Ac/Grid/L1/Power''; g2 = path_num sys ''0/Ac/Grid/L2/Power'';
          t1 = path_num sys ''0/Ac/Consumption/L1/Power''; t2 = path_num sys ''0/Ac/Consumption/L2/Power''
      in st\<lparr>iv_g1 := g1, iv_g2 := g2,
        iv_grid_l1_available := phase_available sys ''0/Ac/Grid/L1/Power'',
        iv_grid_l2_available := phase_available sys ''0/Ac/Grid/L2/Power'',
        iv_gt := phases g1 g2, iv_t1 := t1, iv_t2 := t2, iv_tt := phases t1 t2\<rparr>)"

text \<open>The first instance that has a reading: the loops' \<^verbatim>\<open>if x.is_none()\<close>.\<close>

fun first_some :: "('a \<Rightarrow> 'b option) \<Rightarrow> 'a list \<Rightarrow> 'b option" where
  "first_some f [] = None"
| "first_some f (x # xs) = (case f x of None \<Rightarrow> first_some f xs | Some y \<Rightarrow> Some y)"

definition map_vebus :: "paths \<Rightarrow> inverter_state \<Rightarrow> inverter_state" where
  "map_vebus m st = st\<lparr>
     iv_setpoint := first_some (\<lambda>i. leaf_num m i ''Hub4/L1/AcPowerSetpoint'') (key_instances m),
     iv_inverter_state := first_some (\<lambda>i. map_option (\<lambda>code. inverter_state_name (to_unsigned u32_max code))
       (leaf_num m i ''State'')) (key_instances m)\<rparr>"

definition non_empty :: "string option \<Rightarrow> string option" where
  "non_empty s = (if s = Some [] then None else s)"

definition leaf_str :: "paths \<Rightarrow> nat \<Rightarrow> string \<Rightarrow> string option" where
  "leaf_str m i path = Option.bind (leaf m i path) as_str"

definition device_name :: "paths \<Rightarrow> nat \<Rightarrow> string option" where
  "device_name m i = or_else (non_empty (leaf_str m i ''CustomName'')) (leaf_str m i ''ProductName'')"

definition charger_power :: "paths \<Rightarrow> nat \<Rightarrow> f64 option" where
  "charger_power m i = or_else (leaf_num m i ''Yield/Power'') (leaf_num m i ''Dc/0/Power'')"

definition read_charger :: "paths \<Rightarrow> nat \<Rightarrow> mppt_charger option" where
  "read_charger m i =
     (let power = charger_power m i; current = leaf_num m i ''Dc/0/Current''; name = device_name m i
      in if power \<noteq> None \<or> current \<noteq> None \<or> name \<noteq> None
         then Some \<lparr>mc_name = name, mc_serial = non_empty (leaf_str m i ''Serial''), mc_instance = Some i,
           mc_pv_voltage = leaf_num m i ''Pv/V'', mc_current = current, mc_power = power\<rparr>
         else None)"

definition read_pv :: "paths \<Rightarrow> nat \<Rightarrow> pv_inverter option" where
  "read_pv m i = map_option (\<lambda>p. \<lparr>pi_name = device_name m i, pi_serial = None, pi_instance = Some i,
       pi_voltage = leaf_num m i ''Ac/L1/Voltage'', pi_current = leaf_num m i ''Ac/L1/Current'', pi_power = Some p\<rparr>)
     (or_else (leaf_num m i ''Ac/Power'') (leaf_num m i ''Ac/L1/Power''))"

definition map_solar :: "snapshot \<Rightarrow> inverter_state \<Rightarrow> inverter_state" where
  "map_solar snap st =
     (let mppts = List.map_filter (read_charger (gw_solarcharger snap)) (key_instances (gw_solarcharger snap));
          mppt_powers = List.map_filter mc_power mppts;
          mppt_total = f64_sum mppt_powers;
          pvs = List.map_filter (read_pv (gw_pvinverter snap)) (key_instances (gw_pvinverter snap));
          pv_powers = List.map_filter pi_power pvs;
          st = (if mppts = [] then st else st\<lparr>iv_mppt_chargers := Some mppts, iv_mppt_individual := Some mppt_powers,
            iv_mppt_total := Some mppt_total\<rparr>);
          st = (if pvs = [] then st else st\<lparr>iv_pv_inverters := Some pvs, iv_pv_inverter_individual := Some pv_powers\<rparr>)
      in if mppts = [] \<and> pvs = [] then st else st\<lparr>iv_solar_total := Some (f64_add mppt_total (f64_sum pv_powers))\<rparr>)"

definition read_battery :: "paths \<Rightarrow> nat \<Rightarrow> battery option" where
  "read_battery m i =
     (let voltage = leaf_num m i ''Dc/0/Voltage''; current = leaf_num m i ''Dc/0/Current'';
          power = leaf_num m i ''Dc/0/Power''; name = device_name m i
      in if voltage \<noteq> None \<or> power \<noteq> None \<or> current \<noteq> None \<or> name \<noteq> None
         then
           let bat_state = map_option state_from_current current
           in Some \<lparr>ba_name = name, ba_serial = non_empty (leaf_str m i ''Serial''), ba_instance = Some i,
             ba_soc = leaf_num m i ''Soc'', ba_voltage = voltage, ba_current = current, ba_power = power,
             ba_state = bat_state,
             ba_time_to_go = (if moving bat_state then Option.bind (leaf_num m i ''TimeToGo'') format_time_to_go else None),
             ba_max_cell_voltage = leaf_num m i ''System/MaxCellVoltage'',
             ba_max_voltage_cell_id = leaf_str m i ''System/MaxVoltageCellId'',
             ba_min_cell_voltage = leaf_num m i ''System/MinCellVoltage'',
             ba_min_voltage_cell_id = leaf_str m i ''System/MinVoltageCellId''\<rparr>
         else None)"

definition find_shunt :: "battery list \<Rightarrow> battery option" where
  "find_shunt bs = find (\<lambda>b. is_shunt (ba_name b)) bs"

definition system_battery :: "paths \<Rightarrow> inverter_state \<Rightarrow> inverter_state" where
  "system_battery sys st =
     (let v = path_num sys ''0/Dc/Battery/Voltage''
      in st\<lparr>iv_battery_voltage := v, iv_battery_current := path_num sys ''0/Dc/Battery/Current'',
        iv_battery_power := path_num sys ''0/Dc/Battery/Power'', iv_battery_soc := map_option voltage_soc v\<rparr>)"

definition map_batteries :: "snapshot \<Rightarrow> inverter_state \<Rightarrow> inverter_state" where
  "map_batteries snap st =
     (let bats = List.map_filter (read_battery (gw_battery snap)) (key_instances (gw_battery snap))
      in if bats = [] then system_battery (gw_system snap) st
         else (case find_shunt bats of
             Some shunt \<Rightarrow> st\<lparr>iv_battery_voltage := ba_voltage shunt,
               iv_battery_current := Some (unwrap_or (Finite 0) (ba_current shunt)),
               iv_battery_power := Some (unwrap_or (Finite 0) (ba_power shunt)),
               iv_battery_soc := map_option voltage_soc (ba_voltage shunt)\<rparr>
           | None \<Rightarrow> system_battery (gw_system snap) st)\<lparr>iv_batteries := Some bats\<rparr>)"

definition load_num :: "json \<Rightarrow> f64 option" where
  "load_num v = (case v of JBool _ \<Rightarrow> None | _ \<Rightarrow> num v)"

definition load_power :: "paths \<Rightarrow> nat \<Rightarrow> f64 option" where
  "load_power m i = first_some (\<lambda>path. Option.bind (leaf m i path) load_num) [''Ac/Power'', ''Ac/L1/Power'']"

definition map_load :: "paths \<Rightarrow> nat \<Rightarrow> (string \<rightharpoonup> f64) \<times> (string \<rightharpoonup> string) \<Rightarrow> (string \<rightharpoonup> f64) \<times> (string \<rightharpoonup> string)" where
  "map_load m i = (\<lambda>(loads, names).
     if \<not> device_connected m i then (loads, names)
     else case load_power m i of
         None \<Rightarrow> (loads, names)
       | Some p \<Rightarrow> (loads(decimal i \<mapsto> p),
           case device_name m i of None \<Rightarrow> names | Some n \<Rightarrow> names(decimal i \<mapsto> n)))"

definition map_loads :: "paths \<Rightarrow> inverter_state \<Rightarrow> inverter_state" where
  "map_loads m st = (case fold (map_load m) (key_instances m) (Map.empty, Map.empty) of
     (loads, names) \<Rightarrow> st\<lparr>iv_loads := Some loads, iv_load_names := Some names\<rparr>)"

definition snapshot_to_state_with_instances :: "daemon \<Rightarrow> int \<Rightarrow> snapshot \<Rightarrow> instances \<Rightarrow> inverter_state" where
  "snapshot_to_state_with_instances D now snap instances =
     (let st = default_state\<lparr>iv_gateway_snapshot := Some True, iv_cached_snapshot := Some False\<rparr>;
          st = map_grid (gw_system snap) st;
          st = map_vebus (gw_vebus snap) st;
          st = map_solar snap st;
          st = map_batteries snap st;
          st = map_loads (gw_acload snap) st;
          st = st\<lparr>iv_water_ev := map_water_ev snap instances (iv_water_ev st)\<rparr>
      in st\<lparr>iv_controller := map_controller D now snap (iv_controller st)\<rparr>)"

definition snapshot_to_state :: "daemon \<Rightarrow> int \<Rightarrow> snapshot \<Rightarrow> inverter_state" where
  "snapshot_to_state D now snap = snapshot_to_state_with_instances D now snap default_instances"

end
