(* ===== verification/GatewayNotifications.thy ===== *)
theory GatewayNotifications
  imports Gateway
begin

text \<open>
  The Cerbo's notification slots and their banners: the slot of \<^verbatim>\<open>mqtt.rs\<close>, and the tracker of
  \<^verbatim>\<open>gateway/notifications.rs\<close> that turns successive snapshots into changes of what is shown. The text of a
  JSON value and of a timestamp are the serialiser's and the calendar's.
\<close>

record notification =
  mn_id :: string
  mn_level :: string
  mn_title :: string
  mn_body :: string
  mn_source :: string
  mn_ts :: string

record slot =
  sl_platform_instance :: nat
  sl_slot :: nat
  sl_description :: "string option"
  sl_device_name :: "string option"
  sl_service :: "string option"
  sl_date_time :: "int option"
  sl_type :: "int option"
  sl_active :: "bool option"
  sl_acknowledged :: "bool option"
  sl_silenced :: "bool option"
  sl_user_dismissed :: bool

text \<open>\<^verbatim>\<open>Value::to_string\<close>, and \<^verbatim>\<open>timestamp_opt(secs, 0).single()\<close> as RFC 3339.\<close>

record texts =
  tx_json :: "json \<Rightarrow> string"
  tx_rfc3339 :: "int \<Rightarrow> string option"

section \<open>Fields\<close>

definition trim_matches :: "char \<Rightarrow> string \<Rightarrow> string" where
  "trim_matches c s = trim_end_matches c (dropWhile (\<lambda>d. d = c) s)"

definition as_i64_wrapping :: "nat \<Rightarrow> int" where
  "as_i64_wrapping n = sint (of_nat n :: 64 word)"

definition json_value_bool :: "json \<Rightarrow> bool option" where
  "json_value_bool v = Option.bind (jget ''value'' v) (\<lambda>x.
     or_else (as_bool x) (or_else (map_option (\<lambda>n. n \<noteq> 0) (as_u64 x)) (or_else (map_option (\<lambda>n. n \<noteq> 0) (as_i64 x))
       (map_option (\<lambda>s. trim s = ''1'' \<or> to_ascii_lowercase (trim s) = ''true'') (as_str x)))))"

definition json_value_i64 :: "json \<Rightarrow> int option" where
  "json_value_i64 v = Option.bind (jget ''value'' v) (\<lambda>x.
     or_else (as_i64 x) (or_else (map_option as_i64_wrapping (as_u64 x)) (or_else (map_option to_i64 (as_f64 x))
       (Option.bind (as_str x) (\<lambda>s. parse_i64 (trim s))))))"

definition json_value_string :: "texts \<Rightarrow> json \<Rightarrow> string option" where
  "json_value_string T v = Option.bind (jget ''value'' v) (\<lambda>x.
     if is_null x then None
     else case as_str x of
         Some s \<Rightarrow> if trim s = [] then None else Some (trim s)
       | None \<Rightarrow> Some (trim_matches CHR 0x22 (tx_json T x)))"

definition apply_field :: "texts \<Rightarrow> string \<Rightarrow> json \<Rightarrow> slot \<Rightarrow> slot" where
  "apply_field T field v s =
     (if field = ''Description'' then s\<lparr>sl_description := json_value_string T v\<rparr>
      else if field = ''DeviceName'' then s\<lparr>sl_device_name := json_value_string T v\<rparr>
      else if field = ''Service'' then s\<lparr>sl_service := json_value_string T v\<rparr>
      else if field = ''DateTime'' then
        (let moment = json_value_i64 v;
             s = (if moment \<noteq> None \<and> moment \<noteq> sl_date_time s then s\<lparr>sl_user_dismissed := False\<rparr> else s)
         in s\<lparr>sl_date_time := moment\<rparr>)
      else if field = ''Type'' then s\<lparr>sl_type := json_value_i64 v\<rparr>
      else if field = ''Active'' then
        (let s = s\<lparr>sl_active := json_value_bool v\<rparr>
         in if sl_active s = Some False then s\<lparr>sl_user_dismissed := False\<rparr> else s)
      else if field = ''Acknowledged'' then s\<lparr>sl_acknowledged := json_value_bool v\<rparr>
      else if field = ''Silenced'' then s\<lparr>sl_silenced := json_value_bool v\<rparr>
      else s)"

definition new_slot :: "nat \<Rightarrow> nat \<Rightarrow> slot" where
  "new_slot i k = \<lparr>sl_platform_instance = i, sl_slot = k, sl_description = None, sl_device_name = None,
     sl_service = None, sl_date_time = None, sl_type = None, sl_active = None, sl_acknowledged = None,
     sl_silenced = None, sl_user_dismissed = False\<rparr>"

definition from_gateway_fields :: "texts \<Rightarrow> nat \<Rightarrow> nat \<Rightarrow> (string \<times> json) list \<Rightarrow> slot" where
  "from_gateway_fields T i k fs =
     fold (\<lambda>(field, v). apply_field T field (JObject [(''value'', v)])) fs (new_slot i k)"

section \<open>Banners\<close>

definition banner :: "nat \<Rightarrow> nat \<Rightarrow> string" where
  "banner i k = ''victron-platform-'' @ decimal i @ ''-'' @ decimal k"

definition banner_id :: "slot \<Rightarrow> string" where
  "banner_id s = banner (sl_platform_instance s) (sl_slot s)"

definition level :: "slot \<Rightarrow> string" where
  "level s = (let t = unwrap_or 1 (sl_type s) in if t = 0 then ''warning'' else if t = 2 then ''info'' else ''alarm'')"

definition should_show :: "slot \<Rightarrow> bool" where
  "should_show s \<longleftrightarrow> \<not> (sl_user_dismissed s \<or> unwrap_or False (sl_acknowledged s))
     \<and> trim (unwrap_or [] (sl_description s)) \<noteq> []"

definition to_notification :: "texts \<Rightarrow> slot \<Rightarrow> notification option" where
  "to_notification T s =
     (if \<not> should_show s then None
      else
        let filled = (\<lambda>t. case t of None \<Rightarrow> None | Some x \<Rightarrow> if trim x = [] then None else Some x)
        in Some \<lparr>mn_id = banner_id s, mn_level = level s, mn_title = trim (unwrap_or ''Alarm'' (sl_description s)),
          mn_body = trim (unwrap_or [] (or_else (filled (sl_device_name s)) (filled (sl_service s)))),
          mn_source = ''victron'',
          mn_ts = unwrap_or [] (Option.bind (sl_date_time s) (\<lambda>t. if 0 < t then tx_rfc3339 T t else None))\<rparr>)"

section \<open>The tracker\<close>

definition slot_path :: "string \<Rightarrow> (nat \<times> nat \<times> string) option" where
  "slot_path path = (case split_on (\<lambda>c. c = CHR ''/'') path of
       [i, n, k, field] \<Rightarrow> (case (parse_u32 i, parse_u32 k) of
           (Some i, Some k) \<Rightarrow> if n = ''Notifications'' \<and> k \<le> 20 then Some (i, k, field) else None
         | _ \<Rightarrow> None)
     | _ \<Rightarrow> None)"

definition add_field :: "string \<times> json \<Rightarrow> ((nat \<times> nat) \<times> (string \<times> json) list) list
    \<Rightarrow> ((nat \<times> nat) \<times> (string \<times> json) list) list" where
  "add_field = (\<lambda>(path, v) slots. case slot_path path of
       None \<Rightarrow> slots
     | Some (i, k, field) \<Rightarrow>
         AList.update (i, k) (AList.update field v (unwrap_or [] (map_of slots (i, k)))) slots)"

text \<open>A slot without an acknowledgement status or a valid time is incomplete.\<close>

definition complete_slot :: "texts \<Rightarrow> (string \<times> json) list \<Rightarrow> bool" where
  "complete_slot T fs \<longleftrightarrow>
     (case map_of fs ''Acknowledged'' of None \<Rightarrow> False
        | Some v \<Rightarrow> as_bool v \<noteq> None \<or> as_i64 v = Some 0 \<or> as_i64 v = Some 1)
     \<and> (case map_of fs ''DateTime'' of None \<Rightarrow> False
        | Some v \<Rightarrow> (case as_i64 v of None \<Rightarrow> False | Some t \<Rightarrow> 0 < t \<and> tx_rfc3339 T t \<noteq> None))"

definition slot_notification :: "texts \<Rightarrow> (nat \<times> nat) \<times> (string \<times> json) list \<Rightarrow> notification option" where
  "slot_notification T = (\<lambda>((i, k), fs).
     if complete_slot T fs then to_notification T (from_gateway_fields T i k fs) else None)"

definition shown :: "texts \<Rightarrow> paths \<Rightarrow> (string \<times> notification) list" where
  "shown T platform = fold (\<lambda>n. AList.update (mn_id n) n)
     (List.map_filter (slot_notification T) (fold add_field platform [])) []"

record changes =
  ch_upsert :: "notification list"
  ch_clear :: "string list"

text \<open>The tracker is what it last showed.\<close>

definition update_notifications :: "texts \<Rightarrow> (string \<times> notification) list \<Rightarrow> paths
    \<Rightarrow> (string \<times> notification) list \<times> changes" where
  "update_notifications T visible platform =
     (let new = shown T platform;
          upsert = map snd (filter (\<lambda>(i, n). map_of visible i \<noteq> Some n) new);
          clear = filter (\<lambda>i. map_of new i = None) (map fst visible)
      in (new, \<lparr>ch_upsert = sort_key mn_ts (sort_key mn_id upsert), ch_clear = sort clear\<rparr>))"

section \<open>What the user interface sees\<close>

definition replay :: "changes \<Rightarrow> (string \<rightharpoonup> notification) \<Rightarrow> (string \<rightharpoonup> notification)" where
  "replay c ui = fold (\<lambda>i ui. ui(i := None)) (ch_clear c) (fold (\<lambda>n ui. ui(mn_id n \<mapsto> n)) (ch_upsert c) ui)"

fun polled :: "texts \<Rightarrow> paths list \<Rightarrow> (string \<times> notification) list \<times> (string \<rightharpoonup> notification)" where
  "polled T [] = ([], Map.empty)"
| "polled T (p # ps) = (case polled T ps of (visible, ui) \<Rightarrow>
     (case update_notifications T visible p of (visible, c) \<Rightarrow> (visible, replay c ui)))"

lemma fold_upserts_other: "x \<notin> f ` set ns \<Longrightarrow> fold (\<lambda>n m. m(f n \<mapsto> n)) ns m x = m x"
  by (induction ns arbitrary: m) auto

lemma fold_upserts: "distinct (map f ns) \<Longrightarrow> n \<in> set ns \<Longrightarrow> fold (\<lambda>n m. m(f n \<mapsto> n)) ns m (f n) = Some n"
proof (induction ns arbitrary: m)
  case (Cons k ns)
  then show ?case using fold_upserts_other [of "f k" f ns "m(f k \<mapsto> k)"]
    by (cases "n = k") (simp_all del: fun_upd_apply, simp)
qed simp

lemma distinct_map_sort: "distinct (map f (sort_key k xs)) \<longleftrightarrow> distinct (map f xs)"
  by (simp add: distinct_map)

lemma set_update_cases: "p \<in> set (AList.update k x v) \<Longrightarrow> p = (k, x) \<or> p \<in> set v"
  by (induction v) (auto split: if_split_asm)

lemma fold_clears: "fold (\<lambda>i m. m(i := None)) is m x = (if x \<in> set is then None else m x)"
  by (induction "is" arbitrary: m) auto

definition tracked :: "(string \<times> notification) list \<Rightarrow> bool" where
  "tracked v \<longleftrightarrow> distinct (map fst v) \<and> (\<forall>(i, n) \<in> set v. mn_id n = i)"

lemma tracked_update: "tracked v \<Longrightarrow> tracked (AList.update (mn_id n) n v)"
  by (auto simp: tracked_def distinct_update dest: set_update_cases)

lemma tracked_shown: "tracked (shown T platform)"
proof -
  have "tracked v \<Longrightarrow> tracked (fold (\<lambda>n. AList.update (mn_id n) n) ns v)" for ns v
    by (induction ns arbitrary: v) (auto intro: tracked_update)
  moreover have "tracked []" by (simp add: tracked_def)
  ultimately show ?thesis unfolding shown_def by blast
qed

lemma replay_update:
  assumes "tracked visible" "update_notifications T visible platform = (new, c)"
  shows "replay c (map_of visible) = map_of new"
proof
  fix x
  have new: "new = shown T platform" "tracked new"
    using assms(2) tracked_shown by (auto simp: update_notifications_def Let_def)
  have c: "c = \<lparr>ch_upsert = sort_key mn_ts (sort_key mn_id (map snd (filter (\<lambda>(i, n). map_of visible i \<noteq> Some n) new))),
      ch_clear = sort (filter (\<lambda>i. map_of new i = None) (map fst visible))\<rparr>"
    using assms(2) by (auto simp: update_notifications_def Let_def)
  have up: "n \<in> set (ch_upsert c) \<longleftrightarrow> (\<exists>i. (i, n) \<in> set new \<and> map_of visible i \<noteq> Some n)" for n
    by (force simp: c)
  have cl: "i \<in> set (ch_clear c) \<longleftrightarrow> i \<in> fst ` set visible \<and> map_of new i = None" for i
    by (simp add: c)
  have id: "mn_id n = i" if "(i, n) \<in> set new" for i n using that new(2) by (auto simp: tracked_def)
  have "map mn_id (map snd (filter q new)) = map fst (filter q new)" for q using id by (auto intro!: map_cong)
  then have "distinct (map mn_id (map snd (filter q new)))" for q
    using new(2) by (simp add: tracked_def distinct_map_filter del: map_map)
  then have d: "distinct (map mn_id (ch_upsert c))"
    by (simp only: c changes.simps distinct_map_sort)
  show "replay c (map_of visible) x = map_of new x"
  proof (cases "map_of new x")
    case None
    then have "x \<notin> fst ` set new" by (simp add: map_of_eq_None_iff)
    then have "x \<notin> mn_id ` set (ch_upsert c)" using id by (force simp: up)
    then have "fold (\<lambda>n ui. ui(mn_id n \<mapsto> n)) (ch_upsert c) (map_of visible) x = map_of visible x"
      by (rule fold_upserts_other)
    then show ?thesis using None map_of_eq_None_iff [of visible x] by (auto simp: replay_def fold_clears cl)
  next
    case (Some n)
    then have n: "(x, n) \<in> set new" by (rule map_of_SomeD)
    have "fold (\<lambda>n ui. ui(mn_id n \<mapsto> n)) (ch_upsert c) (map_of visible) x = Some n"
    proof (cases "map_of visible x = Some n")
      case True
      have "x \<notin> mn_id ` set (ch_upsert c)"
      proof
        assume "x \<in> mn_id ` set (ch_upsert c)"
        then obtain i m where m: "(i, m) \<in> set new" "map_of visible i \<noteq> Some m" "x = mn_id m" by (auto simp: up)
        then have "map_of new x = Some m" using id [OF m(1)] new(2) by (simp add: tracked_def)
        then show False using Some True m id [OF m(1)] by simp
      qed
      then show ?thesis using True fold_upserts_other [of x mn_id "ch_upsert c"] by simp
    next
      case False
      then have "n \<in> set (ch_upsert c)" using n up by blast
      then show ?thesis using fold_upserts [OF d, of n] id [OF n] by simp
    qed
    then show ?thesis using Some by (simp add: replay_def fold_clears cl)
  qed
qed

lemma polled_tracks: "tracked (fst (polled T ps)) \<and> snd (polled T ps) = map_of (fst (polled T ps))"
proof (induction ps)
  case (Cons p ps)
  obtain v ui new c where v: "polled T ps = (v, ui)" "update_notifications T v p = (new, c)" by fastforce
  then have "new = shown T p" by (auto simp: update_notifications_def Let_def)
  then show ?case using Cons v replay_update [of v T p new c] tracked_shown by simp
qed (simp add: tracked_def)

lemma to_notification_shown:
  assumes "to_notification T s = Some n"
  shows "mn_id n = banner_id s \<and> sl_acknowledged s \<noteq> Some True \<and> mn_title n \<noteq> []"
proof -
  have w: "should_show s" and n: "mn_id n = banner_id s" "mn_title n = trim (unwrap_or ''Alarm'' (sl_description s))"
    using assms by (auto simp: to_notification_def Let_def split: if_split_asm)
  have "trim [] = []" by (simp add: trim_def strip_def)
  then have "sl_acknowledged s \<noteq> Some True" "sl_description s \<noteq> None"
    using w by (cases "sl_description s"; auto simp: should_show_def)+
  then show ?thesis using w n by (auto simp: should_show_def)
qed

lemma shown_slot:
  assumes "map_of (shown T platform) i = Some n"
  shows "\<exists>k j fs. ((k, j), fs) \<in> set (fold add_field platform []) \<and> complete_slot T fs
    \<and> to_notification T (from_gateway_fields T k j fs) = Some n"
proof -
  have "(i, n) \<in> set (fold (\<lambda>n. AList.update (mn_id n) n) ns v) \<Longrightarrow> n \<in> set ns \<or> (i, n) \<in> set v" for ns v
  proof (induction ns arbitrary: v)
    case (Cons m ns)
    from Cons.IH [of "AList.update (mn_id m) m v"] Cons.prems show ?case
      by (auto dest: set_update_cases)
  qed simp
  from this [of "List.map_filter (slot_notification T) (fold add_field platform [])" "[]"] assms
  have "n \<in> set (List.map_filter (slot_notification T) (fold add_field platform []))"
    by (auto simp: shown_def dest: map_of_SomeD)
  then obtain p where "p \<in> set (fold add_field platform [])" "slot_notification T p = Some n"
    by (auto simp: List.map_filter_def)
  moreover obtain k j fs where "p = ((k, j), fs)" by (metis prod.exhaust)
  ultimately have "((k, j), fs) \<in> set (fold add_field platform [])" "complete_slot T fs"
    "to_notification T (from_gateway_fields T k j fs) = Some n"
    by (simp_all add: slot_notification_def split: if_split_asm)
  then show ?thesis by blast
qed

text \<open>
  C33. Replaying the changes of successive gateway polls keeps the user interface's banners equal to the last
  snapshot's outstanding notifications: nothing is missed, nothing stale stays, polling the same snapshot
  again changes nothing, and every banner belongs to a complete slot that is not acknowledged.
\<close>

theorem banners_replay:
  "snd (polled T (p # ps)) = map_of (shown T p)
   \<and> snd (update_notifications T (fst (polled T (p # ps))) p) = \<lparr>ch_upsert = [], ch_clear = []\<rparr>
   \<and> (\<forall>i n. snd (polled T (p # ps)) i = Some n \<longrightarrow> mn_id n = i \<and> mn_title n \<noteq> []
        \<and> (\<exists>k j fs. ((k, j), fs) \<in> set (fold add_field p []) \<and> i = banner k j \<and> complete_slot T fs
             \<and> sl_acknowledged (from_gateway_fields T k j fs) \<noteq> Some True))"
proof (intro conjI allI impI)
  have f: "fst (polled T (p # ps)) = shown T p"
    by (auto simp: update_notifications_def Let_def split: prod.splits)
  then show ui: "snd (polled T (p # ps)) = map_of (shown T p)" using polled_tracks [of T "p # ps"] by simp
  have "map_of (shown T p) i = Some n" if "(i, n) \<in> set (shown T p)" for i n
    using that tracked_shown [of T p] by (simp add: tracked_def)
  then have "filter (\<lambda>(i, n). map_of (shown T p) i \<noteq> Some n) (shown T p) = []"
    by (auto simp: filter_empty_conv)
  moreover have "filter (\<lambda>i. map_of (shown T p) i = None) (map fst (shown T p)) = []"
    by (auto simp: filter_empty_conv map_of_eq_None_iff)
  ultimately show "snd (update_notifications T (fst (polled T (p # ps))) p) = \<lparr>ch_upsert = [], ch_clear = []\<rparr>"
    unfolding f by (simp add: update_notifications_def Let_def)
  fix i n assume "snd (polled T (p # ps)) i = Some n"
  then have m: "map_of (shown T p) i = Some n" using ui by simp
  then show id: "mn_id n = i" using tracked_shown [of T p] by (auto simp: tracked_def dest: map_of_SomeD)
  from shown_slot [OF m] obtain k j fs where s: "((k, j), fs) \<in> set (fold add_field p [])" "complete_slot T fs"
    "to_notification T (from_gateway_fields T k j fs) = Some n" by blast
  have "sl_platform_instance (fold (\<lambda>(f, v). apply_field T f (JObject [(''value'', v)])) fs s) = sl_platform_instance s
      \<and> sl_slot (fold (\<lambda>(f, v). apply_field T f (JObject [(''value'', v)])) fs s) = sl_slot s" for s fs
    by (induction fs arbitrary: s) (auto simp: apply_field_def Let_def)
  then have "banner_id (from_gateway_fields T k j fs) = banner k j"
    by (simp add: banner_id_def from_gateway_fields_def new_slot_def)
  then show "mn_title n \<noteq> []"
    "\<exists>k j fs. ((k, j), fs) \<in> set (fold add_field p []) \<and> i = banner k j \<and> complete_slot T fs
       \<and> sl_acknowledged (from_gateway_fields T k j fs) \<noteq> Some True"
    using to_notification_shown [OF s(3)] s(1,2) id by auto
qed

text \<open>One slot of one platform, described and unacknowledged.\<close>

definition sample_texts :: texts where
  "sample_texts = \<lparr>tx_json = (\<lambda>_. []), tx_rfc3339 = (\<lambda>t. if t < 4000000000 then Some ''2023'' else None)\<rparr>"

definition sample_platform :: paths where
  "sample_platform = [(''0/Notifications/1/Description'', JString ''Low battery''), (''0/Notifications/2/Type'', JNull),
     (''0/Notifications/1/DateTime'', JNumber (NInt 1700000000)), (''0/Notifications/1/Acknowledged'', JBool False)]"

lemma to_notification_Some:
  "should_show s \<Longrightarrow> \<exists>n. to_notification T s = Some n \<and> mn_id n = banner_id s
     \<and> mn_title n = trim (unwrap_or ''Alarm'' (sl_description s))"
  by (simp add: to_notification_def Let_def)

lemma sample_slots: "fold add_field sample_platform [] =
  [((0, 1), [(''Description'', JString ''Low battery''), (''DateTime'', JNumber (NInt 1700000000)),
     (''Acknowledged'', JBool False)]), ((0, 2), [(''Type'', JNull)])]"
  by code_simp

lemma sample_trim: "trim ''Low battery'' = ''Low battery''" "banner 0 (Suc 0) = ''victron-platform-0-1''" by code_simp+

theorem banners_replay_witness:
  "\<exists>n. snd (polled sample_texts [sample_platform]) ''victron-platform-0-1'' = Some n \<and> mn_title n = ''Low battery''
     \<and> mn_id n = ''victron-platform-0-1''"
proof -
  let ?f = "[(''Description'', JString ''Low battery''), (''DateTime'', JNumber (NInt 1700000000)), (''Acknowledged'', JBool False)]"
  have "should_show (from_gateway_fields sample_texts 0 1 ?f)"
    "sl_description (from_gateway_fields sample_texts 0 1 ?f) = Some ''Low battery''"
    "banner_id (from_gateway_fields sample_texts 0 1 ?f) = ''victron-platform-0-1''"
    by (simp_all add: from_gateway_fields_def apply_field_def new_slot_def json_value_string_def json_value_bool_def
        jget_def or_else_def sample_trim should_show_def is_null_def banner_id_def Let_def)
  then obtain n where n: "to_notification sample_texts (from_gateway_fields sample_texts 0 1 ?f) = Some n"
    "mn_title n = ''Low battery''" "mn_id n = ''victron-platform-0-1''"
    using to_notification_Some [of "from_gateway_fields sample_texts 0 1 ?f" sample_texts] by (auto simp: sample_trim)
  have "complete_slot sample_texts ?f" "\<not> complete_slot sample_texts [(''Type'', JNull)]" by code_simp+
  then have "map_of (shown sample_texts sample_platform) ''victron-platform-0-1'' = Some n"
    using n by (simp add: shown_def sample_slots List.map_filter_def slot_notification_def)
  then show ?thesis using banners_replay [of sample_texts sample_platform "[]"] n(2,3) by metis
qed

end
