(* ===== verification/GatewayClient.thy ===== *)
theory GatewayClient
  imports GatewayNotifications
begin

text \<open>
  The polling client of \<^verbatim>\<open>src-tauri/src/gateway.rs\<close>: what each answer of the gateway does to the cached
  dashboard state, to the shown notifications and to the events the user interface receives.
\<close>

datatype ui_event =
    UiOverride "override_status option"
  | UiConnection bool
  | UiNotification notification
  | UiClear string
  | UiState inverter_state

record client =
  cl_state :: inverter_state
  cl_visible :: "(string \<times> notification) list"
  cl_connected :: bool \<comment> \<open>\<^verbatim>\<open>connected_emitted\<close>\<close>
  cl_events :: "ui_event list"

definition emit :: "ui_event list \<Rightarrow> client \<Rightarrow> client" where
  "emit es c = c\<lparr>cl_events := cl_events c @ es\<rparr>"

section \<open>After a failed poll\<close>

definition invalidate_controller :: "controller \<Rightarrow> controller" where
  "invalidate_controller ct = ct\<lparr>ct_booleans := Some Map.empty, ct_dry_run := None, ct_ess_mode := None,
     ct_ess_mode_observed_at := None, ct_ui_config := None, ct_features := None, ct_grid_backup := None,
     ct_grid_using_backup := Some False, ct_grid_backup_observed_at := None, ct_setpoint_override := None\<rparr>"

definition invalidate_water_ev :: "water_ev \<Rightarrow> water_ev" where
  "invalidate_water_ev w = w\<lparr>we_water_level := None, we_pump_switch := None, we_water_valve := None,
     we_water_pump_mode := None, we_water_valve_mode := None, we_car_soc := None, we_car_charging_power := None,
     we_ev_charging_power := None, we_ev_power := None, we_ev_present := False, we_evcharger_present := False\<rparr>"

definition invalidate_gateway_controls :: "inverter_state \<Rightarrow> inverter_state" where
  "invalidate_gateway_controls st = st\<lparr>iv_gateway_snapshot := Some True, iv_cached_snapshot := Some True,
     iv_controller := invalidate_controller (iv_controller st),
     iv_water_ev := invalidate_water_ev (iv_water_ev st)\<rparr>"

section \<open>Time to go\<close>

definition same_battery :: "battery \<Rightarrow> battery \<Rightarrow> bool" where
  "same_battery bat p \<longleftrightarrow> (ba_serial p \<noteq> None \<and> ba_serial p = ba_serial bat)
     \<or> (ba_instance p \<noteq> None \<and> ba_instance p = ba_instance bat)
     \<or> (ba_name p \<noteq> None \<and> unwrap_or [] (ba_name p) \<noteq> [] \<and> ba_name p = ba_name bat)"

definition keep_time_to_go :: "battery list \<Rightarrow> battery \<Rightarrow> battery" where
  "keep_time_to_go prev bat =
     (if ba_time_to_go bat \<noteq> None \<or> ba_state bat = Some ''Idle'' then bat
      else case find (same_battery bat) prev of
          None \<Rightarrow> bat
        | Some p \<Rightarrow> if ba_time_to_go p \<noteq> None then bat\<lparr>ba_time_to_go := ba_time_to_go p\<rparr> else bat)"

definition preserve_battery_time_to_go :: "inverter_state \<Rightarrow> inverter_state \<Rightarrow> inverter_state" where
  "preserve_battery_time_to_go prev st = (case (iv_batteries st, iv_batteries prev) of
       (Some bats, Some old) \<Rightarrow> st\<lparr>iv_batteries := Some (map (keep_time_to_go old) bats)\<rparr>
     | _ \<Rightarrow> st)"

section \<open>The poll loop\<close>

definition new_client :: client where
  "new_client = \<lparr>cl_state = default_state, cl_visible = [], cl_connected = False, cl_events = [UiOverride None]\<rparr>"

definition poll_ok :: "daemon \<Rightarrow> texts \<Rightarrow> instances \<Rightarrow> int \<Rightarrow> snapshot \<Rightarrow> client \<Rightarrow> client" where
  "poll_ok D T instances now snap c =
     (case update_notifications T (cl_visible c) (gw_platform snap) of (visible, ch) \<Rightarrow>
        let mapped = preserve_battery_time_to_go (cl_state c) (snapshot_to_state_with_instances D now snap instances)
        in emit (map UiNotification (ch_upsert ch) @ map UiClear (ch_clear ch)
             @ (if cl_connected c then [] else [UiConnection True])
             @ [UiOverride (ct_setpoint_override (iv_controller mapped)), UiState mapped])
           (c\<lparr>cl_state := mapped, cl_visible := visible, cl_connected := True\<rparr>))"

definition poll_failed :: "client \<Rightarrow> client" where
  "poll_failed c =
     (let st = invalidate_gateway_controls (cl_state c)
      in emit ([UiOverride None, UiState st] @ (if cl_connected c then [UiConnection False] else []))
         (c\<lparr>cl_state := st, cl_connected := False\<rparr>))"

definition poll :: "daemon \<Rightarrow> texts \<Rightarrow> instances \<Rightarrow> int \<times> snapshot res \<Rightarrow> client \<Rightarrow> client" where
  "poll D T instances = (\<lambda>(now, answer) c. case answer of
       Ok snap \<Rightarrow> poll_ok D T instances now snap c
     | Err _ \<Rightarrow> poll_failed c)"

text \<open>The task from its start over some answers; when it is stopped it says so.\<close>

definition client_run :: "daemon \<Rightarrow> texts \<Rightarrow> instances \<Rightarrow> (int \<times> snapshot res) list \<Rightarrow> client" where
  "client_run D T instances answers = fold (poll D T instances) answers new_client"

definition client_end :: "client \<Rightarrow> client" where
  "client_end = emit [UiOverride None, UiConnection False]"

section \<open>What the user interface knows\<close>

definition latest :: "(ui_event \<Rightarrow> 'a option) \<Rightarrow> 'a \<Rightarrow> ui_event list \<Rightarrow> 'a" where
  "latest f d es = foldl (\<lambda>x e. unwrap_or x (f e)) d es"

fun connection_of :: "ui_event \<Rightarrow> bool option" where
  "connection_of (UiConnection b) = Some b" | "connection_of _ = None"

fun override_of :: "ui_event \<Rightarrow> override_status option option" where
  "override_of (UiOverride o') = Some o'" | "override_of _ = None"

fun state_of :: "ui_event \<Rightarrow> inverter_state option option" where
  "state_of (UiState st) = Some (Some st)" | "state_of _ = None"

text \<open>
  No control of the state can be operated, and nothing is known of the tank, the pump, the valve and the
  vehicles: nothing that a command is checked against, and no reading that would be taken for a live one.
\<close>

definition no_controls :: "inverter_state \<Rightarrow> bool" where
  "no_controls st \<longleftrightarrow> (let ct = iv_controller st; w = iv_water_ev st in
     ct_booleans ct \<in> {None, Some Map.empty} \<and> ct_dry_run ct = None
     \<and> ct_ess_mode ct = None \<and> ct_ess_mode_observed_at ct = None \<and> ct_ui_config ct = None \<and> ct_features ct = None
     \<and> ct_grid_backup ct = None \<and> ct_grid_using_backup ct \<in> {None, Some False} \<and> ct_grid_backup_observed_at ct = None
     \<and> ct_setpoint_override ct = None
     \<and> we_water_level w = None \<and> we_pump_switch w = None \<and> we_water_valve w = None
     \<and> we_water_pump_mode w = None \<and> we_water_valve_mode w = None
     \<and> we_car_soc w = None \<and> we_car_charging_power w = None \<and> we_ev_charging_power w = None \<and> we_ev_power w = None
     \<and> \<not> we_ev_present w \<and> \<not> we_evcharger_present w)"

text \<open>What a failed poll leaves as it was: every measurement, the list of devices and the daemon's statistics.\<close>

definition measurements :: "inverter_state \<Rightarrow> inverter_state" where
  "measurements st = st\<lparr>iv_gateway_snapshot := None, iv_cached_snapshot := None,
     iv_controller := default_controller, iv_water_ev := default_water_ev\<rparr>"

definition kept_controller :: "controller \<Rightarrow> controller" where
  "kept_controller ct = default_controller\<lparr>ct_version := ct_version ct, ct_dashboard_version := ct_dashboard_version ct,
     ct_latest_version := ct_latest_version ct, ct_uptime := ct_uptime ct, ct_ha_connected := ct_ha_connected ct,
     ct_ha_direct_connected := ct_ha_direct_connected ct, ct_daily_stats := ct_daily_stats ct,
     ct_solar_forecast := ct_solar_forecast ct\<rparr>"

definition unaffected :: "inverter_state \<Rightarrow> inverter_state \<times> controller \<times> discovered_instance list option" where
  "unaffected st = (measurements st, kept_controller (iv_controller st), we_discovered (iv_water_ev st))"

lemma latest_append [simp]: "latest f d (es @ fs) = latest f (latest f d es) fs"
  by (simp add: latest_def)

lemma latest_simps [simp]: "latest f d [] = d" "latest f d (e # es) = latest f (unwrap_or d (f e)) es"
  by (simp_all add: latest_def)

lemma latest_silent: "(\<And>e. e \<in> set es \<Longrightarrow> f e = None) \<Longrightarrow> latest f d es = d"
  by (induction es) auto

lemma latest_banners [simp]:
  "latest connection_of d (map UiNotification ns) = d" "latest connection_of d (map UiClear is) = d"
  "latest override_of o' (map UiNotification ns) = o'" "latest override_of o' (map UiClear is) = o'"
  "latest state_of s (map UiNotification ns) = s" "latest state_of s (map UiClear is) = s"
  by (rule latest_silent; auto)+

definition in_step :: "client \<Rightarrow> bool" where
  "in_step c \<longleftrightarrow> latest connection_of False (cl_events c) = cl_connected c
     \<and> latest override_of None (cl_events c) = ct_setpoint_override (iv_controller (cl_state c))
     \<and> (cl_connected c \<or> no_controls (cl_state c))"

lemma no_controls_invalidated: "no_controls (invalidate_gateway_controls st)"
  by (simp add: no_controls_def invalidate_gateway_controls_def invalidate_controller_def invalidate_water_ev_def Let_def)

lemma unaffected_invalidated: "unaffected (invalidate_gateway_controls st) = unaffected st"
  by (simp add: unaffected_def measurements_def kept_controller_def invalidate_gateway_controls_def
      invalidate_controller_def invalidate_water_ev_def)

lemma in_step_new: "in_step new_client"
  by (simp add: in_step_def new_client_def no_controls_def default_state_def default_controller_def
      default_water_ev_def Let_def)

lemma in_step_poll: "in_step c \<Longrightarrow> in_step (poll D T instances a c)"
proof (cases a)
  case (Pair now answer)
  assume "in_step c"
  then show ?thesis using Pair no_controls_invalidated
    by (cases answer) (auto simp: poll_def poll_ok_def poll_failed_def in_step_def emit_def Let_def
        invalidate_gateway_controls_def invalidate_controller_def split: prod.splits)
qed

lemma in_step_run: "in_step (client_run D T instances answers)"
proof -
  have "in_step c \<Longrightarrow> in_step (fold (poll D T instances) as c)" for as c
    by (induction as arbitrary: c) (auto intro: in_step_poll)
  then show ?thesis by (simp add: client_run_def in_step_new)
qed

text \<open>
  C10. A gateway that stops answering leaves no operable control: whatever was polled before, after a failed
  poll the interface has been told that the connection is down and the override unknown, and the state it
  was last sent, which is the cached one, marks itself as a cached snapshot of the gateway and holds no flag, mode, configuration, feature,
  grid backup or override and no reading of tank, pump, valve or vehicle. Everything else stays exactly as it was,
  the measured powers and the batteries included, which are then readings of the cache, and so do the
  banners. While polls succeed the interface knows the connection is up and which override holds.
\<close>

theorem failed_poll_clears_controls:
  "let before = client_run D T instances answers;
       c = client_run D T instances (answers @ [(now, Err e)]);
       d = client_run D T instances (answers @ [(now, Ok snap)])
   in latest state_of None (cl_events c) = Some (cl_state c) \<and> no_controls (cl_state c)
      \<and> iv_cached_snapshot (cl_state c) = Some True \<and> iv_gateway_snapshot (cl_state c) = Some True
      \<and> unaffected (cl_state c) = unaffected (cl_state before)
      \<and> \<not> latest connection_of False (cl_events c) \<and> latest override_of None (cl_events c) = None
      \<and> latest connection_of False (cl_events d)
      \<and> latest override_of None (cl_events d) = ct_setpoint_override (iv_controller (cl_state d))
      \<and> cl_visible c = cl_visible before"
proof -
  let ?b = "client_run D T instances answers" and ?c = "client_run D T instances (answers @ [(now, Err e)])"
    and ?d = "client_run D T instances (answers @ [(now, Ok snap)])"
  have c: "?c = poll_failed ?b" and d: "?d = poll_ok D T instances now snap ?b"
    by (simp_all add: client_run_def poll_def)
  have "latest state_of None (cl_events ?c) = Some (cl_state ?c)" "iv_cached_snapshot (cl_state ?c) = Some True"
    "iv_gateway_snapshot (cl_state ?c) = Some True" "unaffected (cl_state ?c) = unaffected (cl_state ?b)"
    "\<not> cl_connected ?c" "cl_visible ?c = cl_visible ?b" "no_controls (cl_state ?c)"
    unfolding c using no_controls_invalidated unaffected_invalidated
    by (simp_all add: poll_failed_def emit_def Let_def) (simp_all add: invalidate_gateway_controls_def)
  moreover have "cl_connected ?d" unfolding d by (simp add: poll_ok_def emit_def Let_def split: prod.splits)
  moreover have "in_step ?c" "in_step ?d" by (rule in_step_run)+
  moreover have "ct_setpoint_override (iv_controller (cl_state ?c)) = None"
    using \<open>no_controls (cl_state ?c)\<close> by (simp add: no_controls_def Let_def)
  ultimately show ?thesis unfolding in_step_def Let_def by simp
qed

text \<open>A poll that shows the controller out of its dry run, and one that fails.\<close>

definition idle_daemon :: daemon where
  "idle_daemon = \<lparr>dm_ess_mode = (\<lambda>_. None), dm_ui_config = (\<lambda>_. None), dm_features = (\<lambda>_. None), dm_version = (\<lambda>_. None),
     dm_uptime = (\<lambda>_. None), dm_daily_stats = (\<lambda>_. None), dm_solar_forecast = (\<lambda>_. None), dm_grid_backup = (\<lambda>_. None)\<rparr>"

definition wet_run :: "(int \<times> snapshot res) list" where
  "wet_run = [(0, Ok (empty_snapshot\<lparr>gw_inverter := Some [(''dry_run'', JBool False)]\<rparr>))]"

lemma preserved_controller [simp]: "iv_controller (preserve_battery_time_to_go prev st) = iv_controller st"
  by (simp add: preserve_battery_time_to_go_def split: option.splits)

theorem failed_poll_clears_controls_witness:
  "ct_dry_run (iv_controller (cl_state (client_run idle_daemon sample_texts default_instances wet_run))) = Some False
   \<and> ct_dry_run (iv_controller (cl_state
       (client_run idle_daemon sample_texts default_instances (wet_run @ [(1, Err ''timeout'')])))) = None"
proof -
  have "ct_dry_run (iv_controller (cl_state (client_run idle_daemon sample_texts default_instances wet_run))) = Some False"
    by (simp add: client_run_def wet_run_def poll_def poll_ok_def emit_def snapshot_to_state_with_instances_def
        map_controller_def bool_value_def Let_def split: prod.splits)
  moreover have "no_controls (cl_state
      (client_run idle_daemon sample_texts default_instances (wet_run @ [(1, Err ''timeout'')])))"
    using failed_poll_clears_controls [of idle_daemon sample_texts default_instances wet_run 1 "''timeout''" empty_snapshot]
    unfolding Let_def by blast
  ultimately show ?thesis by (simp add: no_controls_def Let_def)
qed

end
