(* ===== verification/GatewayActions.thy ===== *)
theory GatewayActions
  imports GatewayClient Samples
begin

text \<open>
  Commands through the gateway, \<^verbatim>\<open>src-tauri/src/gateway_actions.rs\<close>: the allowlisted actions, what each
  checks in a fresh snapshot before its single POST, and the setpoint override with its acknowledgement.
  The answer of the one snapshot read, the answer of the POST and the times at which awaits end are inputs.
\<close>

section \<open>Actions\<close>

datatype action =
    Toggle string "bool option"
  | DryRun bool
  | EssMode
  | SelectEssMode json
  | ElectricityTariff json
  | WaterMode "nat option" bool nat \<comment> \<open>instance, valve, mode\<close>

definition WATER_INVALID :: string where
  "WATER_INVALID = ''Water control requires pump or valve and an integer mode (0, 1 or 2)''"

definition water_payload :: "json \<Rightarrow> (string \<times> nat) res" where
  "water_payload payload = (case as_object payload of
       None \<Rightarrow> Err WATER_INVALID
     | Some fs \<Rightarrow>
         if length fs \<noteq> 2 then Err WATER_INVALID
         else case Option.bind (map_of fs ''which'') as_str of
             None \<Rightarrow> Err WATER_INVALID
           | Some which \<Rightarrow>
               if which \<notin> {''pump'', ''valve''} then Err WATER_INVALID
               else case Option.bind (map_of fs ''mode'') as_u64 of
                   None \<Rightarrow> Err WATER_INVALID
                 | Some m \<Rightarrow> if m \<le> 2 then Ok (which, m) else Err WATER_INVALID)"

definition INVALID :: string where "INVALID = ''Invalid gateway control payload''"

definition parse_toggle :: "(string \<times> json) list \<Rightarrow> action res" where
  "parse_toggle fs =
     (if length fs \<noteq> (if map_of fs ''state'' = None then 1 else 2) then Err INVALID
      else case Option.bind (Option.bind (map_of fs ''entity'') as_str) flag_key of
          None \<Rightarrow> Err ''Only inverter-control flags can be changed through IGW''
        | Some entity \<Rightarrow> (case map_of fs ''state'' of
              None \<Rightarrow> Ok (Toggle entity None)
            | Some v \<Rightarrow> rbind (ok_or INVALID (control_bool v)) (\<lambda>b. Ok (Toggle entity (Some b)))))"

definition parse_action :: "ext \<Rightarrow> string \<Rightarrow> json \<Rightarrow> instances \<Rightarrow> action res" where
  "parse_action X action payload water = (case as_object payload of
       None \<Rightarrow> Err INVALID
     | Some fs \<Rightarrow>
         if action = ''toggle'' then parse_toggle fs
         else if action = ''dry_run'' \<and> length fs = 1 then
           map_sum id DryRun (ok_or INVALID (Option.bind (map_of fs ''value'') as_bool))
         else if action = ''ess_mode'' \<and> fs = [] then Ok EssMode
         else if action = ''set_ess_mode'' then
           rbind (validate_ess_selection payload) (\<lambda>_. Ok (SelectEssMode payload))
         else if action = ''electricity_tariff'' then
           rbind (validate_tariff_command X payload) (\<lambda>_. Ok (ElectricityTariff payload))
         else if action = ''water_mode'' then
           rbind (water_payload payload) (\<lambda>(which, m).
             Ok (WaterMode (if which = ''valve'' then gi_water_valve water else gi_water_pump water) (which = ''valve'') m))
         else if action \<in> {''dry_run'', ''ess_mode''} then Err INVALID
         else Err ''This control is not supported through IGW; use its configured device connection'')"

text \<open>The command a request becomes, given what the snapshot read would answer.\<close>

definition toggle_body :: "string \<Rightarrow> bool \<Rightarrow> json" where
  "toggle_body entity enabled = JObject [(''entity'', JString entity), (''state'', JString (if enabled then ''on'' else ''off''))]"

definition ess_selectable :: "snapshot \<Rightarrow> bool" where
  "ess_selectable snap \<longleftrightarrow> Option.bind (Option.bind (Option.bind (gw_inverter snap) (\<lambda>c. map_of c ''ess_mode''))
     (jget ''selection_supported'')) as_bool = Some True"

definition tariff_writable :: "snapshot \<Rightarrow> bool" where
  "tariff_writable snap \<longleftrightarrow> Option.bind (Option.bind (Option.bind (Option.bind (gw_inverter snap)
     (\<lambda>c. map_of c ''ui_config'')) (jget ''electricity_tariff_status'')) (jget ''writable'')) as_bool = Some True"

definition water_selected :: "snapshot \<Rightarrow> nat option \<Rightarrow> bool \<Rightarrow> nat option" where
  "water_selected snap instance valve =
     (let selected = snapshot_instances snap (default_instances\<lparr>
        gi_water_pump := (if valve then None else instance), gi_water_valve := (if valve then instance else None)\<rparr>)
      in if valve then gi_water_valve selected else gi_water_pump selected)"

definition water_available :: "snapshot \<Rightarrow> nat \<Rightarrow> bool" where
  "water_available snap i \<longleftrightarrow>
     (case leaf (gw_pump snap) i ''Connected'' of None \<Rightarrow> True | Some v \<Rightarrow> as_u64 v = Some 1)
     \<and> (case Option.bind (leaf (gw_pump snap) i ''Mode'') as_u64 of None \<Rightarrow> False | Some m \<Rightarrow> m \<le> 2)"

definition water_body :: "nat \<Rightarrow> nat \<Rightarrow> json" where
  "water_body i m = JObject [(''instance'', JNumber (NInt (int i))), (''mode'', JNumber (NInt (int m)))]"

fun action_command :: "daemon \<Rightarrow> int \<Rightarrow> snapshot res \<Rightarrow> action \<Rightarrow> (string \<times> json) res" where
  "action_command D now answer (Toggle entity (Some b)) = Ok (''toggle'', toggle_body entity b)"
| "action_command D now answer (Toggle entity None) = rbind answer (\<lambda>snap.
     case Option.bind (ct_booleans (iv_controller (snapshot_to_state D now snap))) (\<lambda>flags. flags entity) of
       None \<Rightarrow> Err ''Current inverter-control flag state is unavailable; wait for fresh IGW telemetry''
     | Some b \<Rightarrow> Ok (''toggle'', toggle_body entity (\<not> b)))"
| "action_command D now answer (DryRun b) = Ok (''dry_run'', JObject [(''value'', JBool b)])"
| "action_command D now answer EssMode = Ok (''ess_mode'', JObject [])"
| "action_command D now answer (SelectEssMode body) = rbind answer (\<lambda>snap.
     if \<not> capable snap ''set_ess_mode'' then Err ''Update inverter-gateway to select an ESS mode''
     else if \<not> ess_selectable snap then Err ''Update inverter-control or wait for fresh ESS telemetry''
     else Ok (''set_ess_mode'', body))"
| "action_command D now answer (ElectricityTariff body) = rbind answer (\<lambda>snap.
     if \<not> capable snap ''electricity_tariff'' then Err ''Update inverter-gateway to edit the controller tariff''
     else if \<not> tariff_writable snap then Err ''The controller does not support tariff editing or is unavailable''
     else Ok (''electricity_tariff'', body))"
| "action_command D now answer (WaterMode instance valve m) = rbind answer (\<lambda>snap.
     if \<not> capable snap ''water_mode'' then Err ''This IGW does not advertise Water control support''
     else case water_selected snap instance valve of
         None \<Rightarrow> Err ''Water instance is unavailable''
       | Some i \<Rightarrow> if \<not> water_available snap i
           then Err ''Selected Water device is unavailable; wait for fresh IGW telemetry''
           else Ok (''water_mode'', water_body i m))"

text \<open>What is posted, and the answer to the caller.\<close>

definition execute_with :: "daemon \<Rightarrow> int \<Rightarrow> action \<Rightarrow> snapshot res \<Rightarrow> (string \<times> json \<Rightarrow> unit res)
    \<Rightarrow> (string \<times> json) list \<times> unit res" where
  "execute_with D now request answer post = (case action_command D now answer request of
       Err e \<Rightarrow> ([], Err e)
     | Ok command \<Rightarrow> ([command], post command))"

definition perform :: "ext \<Rightarrow> daemon \<Rightarrow> int \<Rightarrow> string \<Rightarrow> json \<Rightarrow> instances \<Rightarrow> snapshot res \<Rightarrow> (string \<times> json \<Rightarrow> unit res)
    \<Rightarrow> (string \<times> json) list \<times> unit res" where
  "perform X D now action payload water answer post = (case parse_action X action payload water of
       Err e \<Rightarrow> ([], Err e)
     | Ok request \<Rightarrow> execute_with D now request answer post)"

section \<open>What may be posted\<close>

definition chosen_water :: "instances \<Rightarrow> snapshot \<Rightarrow> string \<Rightarrow> nat" where
  "chosen_water water snap which =
     (if which = ''valve''
      then unwrap_or 2 (or_else (gi_water_valve water) (ui_choice snap ''water'' ''valve_instance''))
      else unwrap_or 1 (or_else (gi_water_pump water) (ui_choice snap ''water'' ''pump_instance'')))"

text \<open>
  A declarative description of the commands the user interface may cause, by the action and payload it sent
  and the snapshot read for it.
\<close>

definition command_allowed :: "ext \<Rightarrow> instances \<Rightarrow> snapshot res \<Rightarrow> string \<Rightarrow> (string \<times> json) list \<Rightarrow> json \<Rightarrow> bool" where
  "command_allowed X water answer name fs body \<longleftrightarrow>
     (name = ''toggle'' \<and> (\<exists>e key b. map_of fs ''entity'' = Some (JString e) \<and> flag_key e = Some key \<and> key \<in> set FLAG_KEYS
        \<and> body = toggle_body key b
        \<and> (case map_of fs ''state'' of Some v \<Rightarrow> control_bool v = Some b
           | None \<Rightarrow> (\<exists>snap c. answer = Ok snap \<and> gw_inverter snap = Some c \<and> controller_booleans c key = Some (\<not> b)))))
   \<or> (name = ''dry_run'' \<and> (\<exists>b. map_of fs ''value'' = Some (JBool b) \<and> body = JObject [(''value'', JBool b)]))
   \<or> (name = ''ess_mode'' \<and> fs = [] \<and> body = JObject [])
   \<or> (\<exists>snap. answer = Ok snap \<and> capable snap name \<and>
        (name = ''set_ess_mode'' \<and> body = JObject fs \<and> validate_ess_selection body = Ok () \<and> ess_selectable snap
       \<or> name = ''electricity_tariff'' \<and> body = JObject fs \<and> validate_tariff_command X body = Ok () \<and> tariff_writable snap
       \<or> name = ''water_mode'' \<and> (\<exists>which m. map_of fs ''which'' = Some (JString which) \<and> which \<in> {''pump'', ''valve''}
            \<and> m \<le> 2 \<and> map_of fs ''mode'' = Some (JNumber (NInt (int m)))
            \<and> body = water_body (chosen_water water snap which) m \<and> water_available snap (chosen_water water snap which))))"

lemma parse_toggle_Ok: "parse_toggle fs = Ok a \<Longrightarrow>
  \<exists>e key s. map_of fs ''entity'' = Some (JString e) \<and> flag_key e = Some key \<and> a = Toggle key s
    \<and> (case map_of fs ''state'' of None \<Rightarrow> s = None | Some v \<Rightarrow> \<exists>b. control_bool v = Some b \<and> s = Some b)"
  by (auto simp: parse_toggle_def result_simps bind_eq_Some_conv split: if_split_asm option.split_asm)

lemma water_payload_Ok: "water_payload payload = Ok (which, m) \<Longrightarrow> \<exists>fs. payload = JObject fs
  \<and> map_of fs ''which'' = Some (JString which) \<and> which \<in> {''pump'', ''valve''} \<and> m \<le> 2
  \<and> map_of fs ''mode'' = Some (JNumber (NInt (int m)))"
  by (auto simp: water_payload_def result_simps bind_eq_Some_conv as_u64_Some split: if_split_asm option.split_asm)

lemma water_selected_chosen:
  "water_selected snap (if which = ''valve'' then gi_water_valve water else gi_water_pump water) (which = ''valve'')
    = Some (chosen_water water snap which)"
  by (simp add: water_selected_def chosen_water_def snapshot_instances_def default_instances_def or_else_def
      unwrap_or_def split: option.splits)

lemma snapshot_booleans: "ct_booleans (iv_controller (snapshot_to_state D now snap)) =
  Some (case gw_inverter snap of None \<Rightarrow> Map.empty | Some c \<Rightarrow> controller_booleans c)"
  by (simp add: snapshot_to_state_def snapshot_to_state_with_instances_def map_controller_def Let_def split: option.splits)

lemma toggle_posts:
  assumes "parse_toggle fs = Ok request" "action_command D now answer request = Ok (name, body)"
  shows "command_allowed X water answer name fs body"
proof -
  from parse_toggle_Ok [OF assms(1)] obtain e key s where k: "map_of fs ''entity'' = Some (JString e)"
    "flag_key e = Some key" "request = Toggle key s"
    and s: "case map_of fs ''state'' of None \<Rightarrow> s = None | Some v \<Rightarrow> \<exists>b. control_bool v = Some b \<and> s = Some b" by blast
  note key = flag_key_canonical [OF k(2), THEN conjunct1]
  show ?thesis
  proof (cases s)
    case None
    then have st: "map_of fs ''state'' = None" using s by (auto split: option.splits)
    obtain snap c b where "answer = Ok snap" "gw_inverter snap = Some c" "controller_booleans c key = Some b"
      "name = ''toggle''" "body = toggle_body key (\<not> b)"
      using assms(2) k(3) None
      by (auto simp: result_simps snapshot_booleans split: option.split_asm)
    then show ?thesis using k key st unfolding command_allowed_def by (intro disjI1) auto
  next
    case (Some b)
    then obtain v where "map_of fs ''state'' = Some v" "control_bool v = Some b" using s by (auto split: option.splits)
    then show ?thesis using assms(2) k key Some unfolding command_allowed_def by (intro disjI1) auto
  qed
qed

text \<open>What each request parses to.\<close>

lemma parse_dry_run: "parse_action X ''dry_run'' (JObject fs) water = Ok request \<Longrightarrow>
  \<exists>b. map_of fs ''value'' = Some (JBool b) \<and> request = DryRun b"
  by (cases "Option.bind (map_of fs ''value'') as_bool")
    (auto simp: parse_action_def ok_or_def bind_eq_Some_conv as_bool_Some split: if_split_asm)

lemma parse_ess_mode: "parse_action X ''ess_mode'' (JObject fs) water = Ok request \<Longrightarrow> fs = [] \<and> request = EssMode"
  by (simp add: parse_action_def split: if_split_asm)

lemma parse_set_ess: "parse_action X ''set_ess_mode'' (JObject fs) water = Ok request \<Longrightarrow>
  validate_ess_selection (JObject fs) = Ok () \<and> request = SelectEssMode (JObject fs)"
  by (simp add: parse_action_def rbind_Ok)

lemma parse_tariff: "parse_action X ''electricity_tariff'' (JObject fs) water = Ok request \<Longrightarrow>
  validate_tariff_command X (JObject fs) = Ok () \<and> request = ElectricityTariff (JObject fs)"
  by (simp add: parse_action_def rbind_Ok)

lemma parse_water: "parse_action X ''water_mode'' (JObject fs) water = Ok request \<Longrightarrow>
  \<exists>which m. water_payload (JObject fs) = Ok (which, m) \<and> request = WaterMode
     (if which = ''valve'' then gi_water_valve water else gi_water_pump water) (which = ''valve'') m"
proof -
  assume p: "parse_action X ''water_mode'' (JObject fs) water = Ok request"
  have "parse_action X ''water_mode'' (JObject fs) water = rbind (water_payload (JObject fs)) (\<lambda>(which, m). Ok (WaterMode
     (if which = ''valve'' then gi_water_valve water else gi_water_pump water) (which = ''valve'') m))"
    by (simp add: parse_action_def)
  from trans [OF sym [OF this] p] obtain c where c: "water_payload (JObject fs) = Ok c" "(case c of (which, m) \<Rightarrow> Ok (WaterMode
     (if which = ''valve'' then gi_water_valve water else gi_water_pump water) (which = ''valve'') m)) = (Ok request :: action res)"
    unfolding rbind_Ok by (elim exE conjE) (rule that, assumption+)
  obtain which m where w: "c = (which, m)" by (cases c)
  have "request = WaterMode (if which = ''valve'' then gi_water_valve water else gi_water_pump water) (which = ''valve'') m"
    using c(2) unfolding w prod.case sum.inject by (rule sym)
  with c(1) show ?thesis unfolding w by (intro exI conjI)
qed

lemma parse_names: "parse_action X action (JObject fs) water = Ok request \<Longrightarrow>
  action \<in> {''toggle'', ''dry_run'', ''ess_mode'', ''set_ess_mode'', ''electricity_tariff'', ''water_mode''}"
  by (rule ccontr) (simp add: parse_action_def)

text \<open>The three commands that need a snapshot.\<close>

lemma allowed_ess:
  "capable snap ''set_ess_mode'' \<Longrightarrow> ess_selectable snap \<Longrightarrow> validate_ess_selection (JObject fs) = Ok ()
    \<Longrightarrow> command_allowed X water (Ok snap) ''set_ess_mode'' fs (JObject fs)"
  by (simp add: command_allowed_def)

lemma allowed_tariff:
  "capable snap ''electricity_tariff'' \<Longrightarrow> tariff_writable snap \<Longrightarrow> validate_tariff_command X (JObject fs) = Ok ()
    \<Longrightarrow> command_allowed X water (Ok snap) ''electricity_tariff'' fs (JObject fs)"
  by (simp add: command_allowed_def)

lemma allowed_water:
  assumes "capable snap ''water_mode''" "water_available snap (chosen_water water snap which)"
    and "water_payload (JObject fs) = Ok (which, m)"
  shows "command_allowed X water (Ok snap) ''water_mode'' fs (water_body (chosen_water water snap which) m)"
  using assms(1,2) water_payload_Ok [OF assms(3)] by (auto simp: command_allowed_def)

lemma water_posts:
  assumes "action_command D now answer (WaterMode
      (if which = ''valve'' then gi_water_valve water else gi_water_pump water) (which = ''valve'') m) = Ok (name, body)"
    and "water_payload (JObject fs) = Ok (which, m)"
  shows "name = ''water_mode'' \<and> command_allowed X water answer name fs body"
proof -
  from assms(1) obtain snap where snap: "answer = Ok snap" by (cases answer) simp_all
  have "capable snap ''water_mode''" "water_available snap (chosen_water water snap which)"
      "name = ''water_mode''" "body = water_body (chosen_water water snap which) m"
    using assms(1) unfolding snap action_command.simps rbind.simps water_selected_chosen option.case
    by (simp_all split: if_split_asm)
  then show ?thesis using allowed_water [OF _ _ assms(2)] snap by simp
qed

lemma posts_of_request:
  assumes "parse_action X action (JObject fs) water = Ok request"
    and "action_command D now answer request = Ok (name, body)"
  shows "name = action \<and> command_allowed X water answer name fs body"
proof -
  note act = assms(2)
  have "action = ''toggle'' \<or> action = ''dry_run'' \<or> action = ''ess_mode'' \<or> action = ''set_ess_mode''
      \<or> action = ''electricity_tariff'' \<or> action = ''water_mode''"
    using parse_names [OF assms(1)] by simp
  then show ?thesis
  proof (elim disjE)
    assume a: "action = ''toggle''"
    then have t: "parse_toggle fs = Ok request" using assms(1) by (simp add: parse_action_def)
    have "name = ''toggle''"
      using parse_toggle_Ok [OF t] act by (auto simp: result_simps split: option.split_asm)
    then show ?thesis using toggle_posts [OF t act] a by simp
  next
    assume a: "action = ''dry_run''"
    show ?thesis using parse_dry_run [OF assms(1) [unfolded a]] act by (auto simp: a command_allowed_def)
  next
    assume a: "action = ''ess_mode''"
    show ?thesis using parse_ess_mode [OF assms(1) [unfolded a]] act by (auto simp: a command_allowed_def)
  next
    assume a: "action = ''set_ess_mode''"
    show ?thesis using parse_set_ess [OF assms(1) [unfolded a]] act allowed_ess
      by (cases answer) (auto simp: a split: if_split_asm)
  next
    assume a: "action = ''electricity_tariff''"
    show ?thesis using parse_tariff [OF assms(1) [unfolded a]] act allowed_tariff
      by (cases answer) (auto simp: a split: if_split_asm)
  next
    assume a: "action = ''water_mode''"
    show ?thesis using parse_water [OF assms(1) [unfolded a]] act water_posts a by metis
  qed
qed

text \<open>
  C3. The gateway receives nothing the interface was not allowed to cause: an action leads to at most one
  POST, and that one is a toggle of a known controller flag to a definite state (the one asked for, else the
  opposite of what a fresh snapshot reports), a dry-run or cycle request, or a mode, tariff or water command
  that the fresh snapshot supports, on the chosen water device and no other.
\<close>

theorem gateway_commands_allowed:
  assumes "perform X D now action payload water answer post = (posts, result)"
  shows "posts = [] \<and> (\<exists>e. result = Err e)
    \<or> (\<exists>fs body. payload = JObject fs \<and> posts = [(action, body)] \<and> result = post (action, body)
         \<and> command_allowed X water answer action fs body)"
proof (cases "parse_action X action payload water")
  case (Inl e)
  then show ?thesis using assms by (auto simp: perform_def)
next
  case (Inr request)
  then obtain fs where fs: "payload = JObject fs"
    by (auto simp: parse_action_def result_simps split: option.split_asm)
  show ?thesis
  proof (cases "action_command D now answer request")
    case (Inl e)
    then show ?thesis using assms \<open>parse_action X action payload water = Inr request\<close>
      by (auto simp: perform_def execute_with_def)
  next
    case (Inr command)
    obtain name body where c: "command = (name, body)" by fastforce
    have p: "posts = [(name, body)]" "result = post (name, body)"
      using assms Inr c \<open>parse_action X action payload water = Inr request\<close> by (auto simp: perform_def execute_with_def)
    have ok: "name = action \<and> command_allowed X water answer name fs body"
      using posts_of_request \<open>parse_action X action payload water = Inr request\<close> Inr c fs by blast
    from ok have "name = action" "command_allowed X water answer action fs body" by auto
    then show ?thesis using p fs by simp
  qed
qed

definition sample_daemon :: daemon where
  "sample_daemon = \<lparr>dm_ess_mode = (\<lambda>_. None), dm_ui_config = (\<lambda>_. None), dm_features = (\<lambda>_. None), dm_version = (\<lambda>_. None),
     dm_uptime = (\<lambda>_. None), dm_daily_stats = (\<lambda>_. None), dm_solar_forecast = (\<lambda>_. None), dm_grid_backup = (\<lambda>_. None)\<rparr>"

text \<open>A toggle without a state, answered from the snapshot.\<close>

theorem gateway_commands_allowed_witness:
  "\<exists>posts. perform sample_ext sample_daemon 0 ''toggle'' (JObject [(''entity'', JString ''no_feed'')]) default_instances
       (Ok (empty_snapshot\<lparr>gw_inverter := Some [(''booleans'', JObject [(''no_feed'', JBool True)])]\<rparr>)) (\<lambda>_. Ok ())
       = (posts, Ok ())
     \<and> (\<exists>body. posts = [(''toggle'', body)]) \<and> posts = [(''toggle'', toggle_body ''no_feed'' False)]"
proof -
  let ?snap = "empty_snapshot\<lparr>gw_inverter := Some [(''booleans'', JObject [(''no_feed'', JBool True)])]\<rparr>"
  have "flag_key ''no_feed'' = Some ''no_feed''" by code_simp
  then have p: "perform sample_ext sample_daemon 0 ''toggle'' (JObject [(''entity'', JString ''no_feed'')]) default_instances (Ok ?snap) (\<lambda>_. Ok ())
      = ([(''toggle'', toggle_body ''no_feed'' False)], Ok ())"
    by (simp add: perform_def parse_action_def parse_toggle_def execute_with_def snapshot_booleans controller_booleans_def
        bool_value_def)
  from gateway_commands_allowed [OF p] show ?thesis using p by auto
qed

section \<open>The setpoint override\<close>

definition OVERRIDE_DEADLINE :: nat where "OVERRIDE_DEADLINE = seconds 5"
definition OVERRIDE_POLL_INTERVAL :: nat where "OVERRIDE_POLL_INTERVAL = milliseconds 100"

definition OVERRIDE_UNCONFIRMED :: string where
  "OVERRIDE_UNCONFIRMED = ''Cerbo has not confirmed the override. Check its connection and current status before trying again.''"

definition GATEWAY_CHANGED :: string where
  "GATEWAY_CHANGED = ''Gateway connection changed; retry the action on the current connection''"

text \<open>How an awaited future ends: with a value at some time, or by the timeout around it.\<close>

datatype 'a await = Ready nat "'a res" | TimedOutAt nat

fun over :: "'a await \<Rightarrow> nat" where "over (Ready t r) = t" | "over (TimedOutAt t) = t"

definition before_deadline :: "nat \<Rightarrow> nat \<Rightarrow> 'a await \<Rightarrow> nat \<times> 'a res" where
  "before_deadline deadline now aw =
     (if deadline \<le> now then (now, Err OVERRIDE_UNCONFIRMED)
      else case aw of Ready t r \<Rightarrow> (t, r) | TimedOutAt t \<Rightarrow> (t, Err OVERRIDE_UNCONFIRMED))"

definition ensure_active :: "bool \<Rightarrow> unit res" where "ensure_active stopped = reject stopped GATEWAY_CHANGED"

definition get_setpoint_override :: "nat \<Rightarrow> bool \<Rightarrow> snapshot await \<Rightarrow> bool \<Rightarrow> override_status res" where
  "get_setpoint_override start stopped answer stopped_later =
     rbind (ensure_active stopped) (\<lambda>_.
     rbind (snd (before_deadline (start + OVERRIDE_DEADLINE) start answer)) (\<lambda>snap.
     rbind (ensure_active stopped_later) (\<lambda>_. snapshot_override_status snap)))"

text \<open>One round of the loop: the read, the sleep, and whether the connection was stopped after each.\<close>

record round =
  rd_read :: "snapshot await"
  rd_stopped :: bool
  rd_sleep :: "unit await"
  rd_stopped_later :: bool

definition acknowledged :: "int option \<Rightarrow> override_status \<Rightarrow> override_status res" where
  "acknowledged v status = (case ov_last_error status of
       Some e \<Rightarrow> Err e
     | None \<Rightarrow> if ov_value status \<noteq> v
         then Err ''Cerbo acknowledged a different override value; check its current status'' else Ok status)"

fun override_loop :: "nat \<Rightarrow> int option \<Rightarrow> string \<Rightarrow> nat \<Rightarrow> round list \<Rightarrow> override_status res option" where
  "override_loop deadline v i now [] = None"
| "override_loop deadline v i now (r # rs) =
     (case before_deadline deadline now (rd_read r) of
        (now, Err e) \<Rightarrow> Some (Err e)
      | (now, Ok snap) \<Rightarrow>
          (case rbind (ensure_active (rd_stopped r)) (\<lambda>_. snapshot_override_status snap) of
             Err e \<Rightarrow> Some (Err e)
           | Ok status \<Rightarrow>
               if ov_request_id status = Some i then Some (acknowledged v status)
               else (case before_deadline deadline now (rd_sleep r) of
                   (now, Err e) \<Rightarrow> Some (Err e)
                 | (now, Ok _) \<Rightarrow>
                     (case ensure_active (rd_stopped_later r) of
                        Err e \<Rightarrow> Some (Err e)
                      | Ok _ \<Rightarrow> override_loop deadline v i now rs))))"

definition override_body :: "int option \<Rightarrow> string \<Rightarrow> json" where
  "override_body v i = JObject [(''request_id'', JString i),
     (''value'', case v of None \<Rightarrow> JNull | Some n \<Rightarrow> JNumber (NInt n))]"

text \<open>What the connection does from \<open>start\<close> on: the first read, the POST, the rounds.\<close>

record exchange =
  ex_start :: nat
  ex_stopped :: bool
  ex_initial :: "snapshot await"
  ex_stopped_initial :: bool
  ex_post :: "unit await"
  ex_stopped_post :: bool
  ex_rounds :: "round list"

definition set_override_with :: "int option \<Rightarrow> string \<Rightarrow> exchange \<Rightarrow> json list \<times> override_status res option" where
  "set_override_with v i ex =
     (let deadline = ex_start ex + OVERRIDE_DEADLINE
      in case ensure_active (ex_stopped ex) of
          Err e \<Rightarrow> ([], Some (Err e))
        | Ok _ \<Rightarrow>
          (case before_deadline deadline (ex_start ex) (ex_initial ex) of
             (now, Err e) \<Rightarrow> ([], Some (Err e))
           | (now, Ok snap) \<Rightarrow>
               (case rbind (ensure_active (ex_stopped_initial ex)) (\<lambda>_. snapshot_override_status snap) of
                  Err e \<Rightarrow> ([], Some (Err e))
                | Ok _ \<Rightarrow>
                    if deadline \<le> now then ([], Some (Err OVERRIDE_UNCONFIRMED))
                    else ([override_body v i],
                      case before_deadline deadline now (ex_post ex) of
                        (now, Err e) \<Rightarrow> Some (Err e)
                      | (now, Ok _) \<Rightarrow>
                          (case ensure_active (ex_stopped_post ex) of
                             Err e \<Rightarrow> Some (Err e)
                           | Ok _ \<Rightarrow> override_loop deadline v i now (ex_rounds ex))))))"

lemma override_loop_Ok:
  assumes "override_loop deadline v i now rs = Some (Ok status)"
  shows "ov_value status = v \<and> ov_request_id status = Some i \<and> ov_last_error status = None
    \<and> (\<exists>r \<in> set rs. \<exists>t snap. rd_read r = Ready t (Ok snap) \<and> \<not> rd_stopped r \<and> snapshot_override_status snap = Ok status)"
  using assms
proof (induction rs arbitrary: now)
  case (Cons r rs)
  obtain t snap st where r: "before_deadline deadline now (rd_read r) = (t, Ok snap)" "\<not> rd_stopped r"
    "snapshot_override_status snap = Ok st"
    using Cons.prems by (auto simp: ensure_active_def reject_def split: prod.splits sum.splits if_splits)
  then have read: "rd_read r = Ready t (Ok snap)"
    by (auto simp: before_deadline_def split: if_split_asm await.split_asm)
  show ?case
  proof (cases "ov_request_id st = Some i")
    case True
    then have "acknowledged v st = Ok status" using Cons.prems r by (simp add: ensure_active_def)
    then have "st = status" "ov_value status = v" "ov_last_error status = None"
      by (auto simp: acknowledged_def split: option.split_asm if_split_asm)
    then show ?thesis using True r read by auto
  next
    case False
    then obtain u where "override_loop deadline v i u rs = Some (Ok status)"
      using Cons.prems r by (auto simp: ensure_active_def split: prod.splits sum.splits)
    from Cons.IH [OF this] show ?thesis by auto
  qed
qed simp

text \<open>
  C9. An override is sent at most once and confirmed only by the controller: at most one POST is made, only
  after a snapshot that supports it and before the deadline, and the caller is told of success only if a
  later snapshot, read on a live connection, carries this request's identifier, the requested value and no error.
\<close>

theorem override_confirmed:
  assumes "set_override_with v i ex = (posts, result)"
  shows "(posts = [] \<or> posts = [override_body v i])
    \<and> (posts \<noteq> [] \<longrightarrow> (\<exists>t snap s. ex_initial ex = Ready t (Ok snap) \<and> t < ex_start ex + OVERRIDE_DEADLINE
         \<and> snapshot_override_status snap = Ok s \<and> \<not> ex_stopped_initial ex))
    \<and> (\<forall>status. result = Some (Ok status) \<longrightarrow> posts = [override_body v i]
         \<and> ov_value status = v \<and> ov_request_id status = Some i \<and> ov_last_error status = None
         \<and> (\<exists>r \<in> set (ex_rounds ex). \<exists>t snap. rd_read r = Ready t (Ok snap) \<and> \<not> rd_stopped r
              \<and> snapshot_override_status snap = Ok status))"
proof -
  let ?d = "ex_start ex + OVERRIDE_DEADLINE"
  have init: "before_deadline ?d (ex_start ex) (ex_initial ex) = (t, Ok snap) \<longleftrightarrow> ex_initial ex = Ready t (Ok snap)" for t snap
    by (auto simp: before_deadline_def OVERRIDE_DEADLINE_def seconds_def milliseconds_def split: await.splits)
  consider "posts = []" "\<nexists>s. result = Some (Ok s)"
    | t snap s where "posts = [override_body v i]" "ex_initial ex = Ready t (Ok snap)" "t < ?d"
      "snapshot_override_status snap = Ok s" "\<not> ex_stopped_initial ex"
      "\<And>status. result = Some (Ok status) \<Longrightarrow> \<exists>u. override_loop ?d v i u (ex_rounds ex) = Some (Ok status)"
    using assms
    by (auto simp: set_override_with_def ensure_active_def reject_def init Let_def split: prod.splits sum.splits if_splits)
  then show ?thesis
  proof cases
    case 1
    then show ?thesis by simp
  next
    case (2 t snap s)
    then have "ov_value status = v \<and> ov_request_id status = Some i \<and> ov_last_error status = None
      \<and> (\<exists>r \<in> set (ex_rounds ex). \<exists>t snap. rd_read r = Ready t (Ok snap) \<and> \<not> rd_stopped r
              \<and> snapshot_override_status snap = Ok status)" if "result = Some (Ok status)" for status
      using override_loop_Ok that by blast
    then show ?thesis using 2 by auto
  qed
qed

text \<open>An acknowledged clear: one round, whose snapshot carries the identifier.\<close>

definition idle_snapshot :: "string \<Rightarrow> snapshot" where
  "idle_snapshot i = empty_snapshot\<lparr>gw_capabilities := [(''setpoint_override'', JBool True)],
     gw_inverter := Some [(''setpoint_override'', JObject [(''value'', JNull), (''last_error'', JNull), (''request_id'', JString i)])]\<rparr>"

definition sample_exchange :: exchange where
  "sample_exchange = \<lparr>ex_start = 0, ex_stopped = False, ex_initial = Ready 1 (Ok (idle_snapshot ''r0'')),
     ex_stopped_initial = False, ex_post = Ready 2 (Ok ()), ex_stopped_post = False,
     ex_rounds = [\<lparr>rd_read = Ready 3 (Ok (idle_snapshot ''r1'')), rd_stopped = False, rd_sleep = TimedOutAt 3,
        rd_stopped_later = False\<rparr>]\<rparr>"

lemma sample_exchange_result: "set_override_with None ''r1'' sample_exchange = ([override_body None ''r1''],
  Some (Ok \<lparr>ov_value = None, ov_last_error = None, ov_request_id = Some ''r1''\<rparr>))"
  by code_simp

theorem override_confirmed_witness:
  "\<exists>posts status. set_override_with None ''r1'' sample_exchange = (posts, Some (Ok status))
     \<and> posts = [override_body None ''r1''] \<and> ov_request_id status = Some ''r1''"
  using override_confirmed [OF sample_exchange_result] sample_exchange_result by auto

text \<open>Rounds whose clock does not run backwards and whose completed sleeps last the poll interval.\<close>

fun paced :: "nat \<Rightarrow> round list \<Rightarrow> bool" where
  "paced now [] = True"
| "paced now (r # rs) \<longleftrightarrow> now \<le> over (rd_read r)
     \<and> (case rd_sleep r of Ready t _ \<Rightarrow> over (rd_read r) + OVERRIDE_POLL_INTERVAL \<le> t \<and> paced t rs
        | TimedOutAt t \<Rightarrow> True)"

lemma before_deadline_Ok: "before_deadline deadline now aw = (t, Ok x) \<longleftrightarrow> now < deadline \<and> aw = Ready t (Ok x)"
  by (auto simp: before_deadline_def split: await.splits)

lemma override_loop_returns:
  assumes "paced now rs" "deadline \<le> now + n * OVERRIDE_POLL_INTERVAL" "n < length rs"
  shows "override_loop deadline v i now rs \<noteq> None"
  using assms
proof (induction rs arbitrary: now n)
  case (Cons r rs)
  obtain t x where read: "before_deadline deadline now (rd_read r) = (t, x)" by fastforce
  show ?case
  proof (cases "\<exists>snap st u y. x = Ok snap \<and> rd_sleep r = Ready u (Ok y) \<and> \<not> rd_stopped r \<and> \<not> rd_stopped_later r
      \<and> snapshot_override_status snap = Ok st \<and> ov_request_id st \<noteq> Some i \<and> t < deadline")
    case True
    then obtain snap st u y where o: "x = Ok snap" "rd_sleep r = Ready u (Ok y)" "\<not> rd_stopped r" "\<not> rd_stopped_later r"
      "snapshot_override_status snap = Ok st" "ov_request_id st \<noteq> Some i" "t < deadline" by blast
    have next_round: "override_loop deadline v i now (r # rs) = override_loop deadline v i u rs"
      using o read by (simp add: ensure_active_def reject_def before_deadline_def)
    have now: "now < deadline" "rd_read r = Ready t (Ok snap)"
      using read o(1) by (simp_all add: before_deadline_Ok)
    then obtain k where k: "n = Suc k" using Cons.prems(2) by (cases n) auto
    have u: "now + OVERRIDE_POLL_INTERVAL \<le> u" "paced u rs" using Cons.prems(1) o(2) now(2) by auto
    then have "override_loop deadline v i u rs \<noteq> None"
      using Cons.IH [of u k] Cons.prems(2,3) k by auto
    then show ?thesis using next_round by simp
  next
    case False
    then show ?thesis using read
      by (auto simp: ensure_active_def reject_def before_deadline_Ok split: prod.splits sum.splits)
  qed
qed simp

text \<open>
  C27. The override always answers: if time does not run backwards and each completed sleep lasts the poll
  interval, then whatever the gateway answers the wait ends within fifty-one rounds.
\<close>

theorem override_terminates:
  assumes "ex_start ex \<le> over (ex_initial ex)" "over (ex_initial ex) \<le> over (ex_post ex)"
    and "paced (over (ex_post ex)) (ex_rounds ex)" "50 < length (ex_rounds ex)"
  shows "\<exists>answer. snd (set_override_with v i ex) = Some answer"
proof -
  have loop: "override_loop (ex_start ex + OVERRIDE_DEADLINE) v i t (ex_rounds ex) \<noteq> None"
    if "before_deadline (ex_start ex + OVERRIDE_DEADLINE) s (ex_post ex) = (t, Ok u)" for s t u
    using override_loop_returns [of t "ex_rounds ex" "ex_start ex + OVERRIDE_DEADLINE" 50] that assms
    by (auto simp: before_deadline_Ok OVERRIDE_DEADLINE_def OVERRIDE_POLL_INTERVAL_def seconds_def milliseconds_def)
  have "snd (set_override_with v i ex) \<noteq> None"
    using loop by (auto simp: set_override_with_def Let_def split: prod.splits sum.splits)
  then show ?thesis by blast
qed

definition endless_exchange :: exchange where
  "endless_exchange = sample_exchange\<lparr>ex_rounds := map (\<lambda>k. \<lparr>rd_read = Ready (2 + k * OVERRIDE_POLL_INTERVAL)
     (Ok (idle_snapshot ''r0'')), rd_stopped = False, rd_sleep = Ready (2 + (k + 1) * OVERRIDE_POLL_INTERVAL) (Ok ()),
     rd_stopped_later = False\<rparr>) [0..<51]\<rparr>"

lemma endless_paced: "paced (2 + k * OVERRIDE_POLL_INTERVAL) (map (\<lambda>k. \<lparr>rd_read = Ready (2 + k * OVERRIDE_POLL_INTERVAL)
     (Ok (idle_snapshot ''r0'')), rd_stopped = False, rd_sleep = Ready (2 + (k + 1) * OVERRIDE_POLL_INTERVAL) (Ok ()),
     rd_stopped_later = False\<rparr>) [k..<k + n])"
proof (induction n arbitrary: k)
  case (Suc n)
  then show ?case using Suc.IH [of "Suc k"] by (simp add: upt_conv_Cons del: upt_Suc)
qed simp

theorem override_terminates_witness:
  "50 < length (ex_rounds endless_exchange) \<and> (\<exists>answer. snd (set_override_with None ''r1'' endless_exchange) = Some answer)"
proof -
  have "paced (over (ex_post endless_exchange)) (ex_rounds endless_exchange)"
    using endless_paced [of 0 51] by (simp add: endless_exchange_def sample_exchange_def)
  then show ?thesis
    using override_terminates [of endless_exchange None "''r1''"]
    by (simp add: endless_exchange_def sample_exchange_def)
qed

end
