(* ===== verification/Cerbo.thy ===== *)
theory Cerbo
  imports GatewayNotifications
begin

text \<open>
  Devices discovered on the Cerbo's broker: the maps of \<^verbatim>\<open>src-tauri/src/mqtt.rs\<close> and the decoding of topics
  and payloads in \<^verbatim>\<open>src-tauri/src/mqtt/cerbo.rs\<close>. A \<^verbatim>\<open>BTreeMap\<close> is the list of its entries in the order of
  their instances; the parser of JSON text and Unicode's case tables are parameters.
\<close>

section \<open>Devices\<close>

record vebus =
  vb_l1_power :: "f64 option"
  vb_l2_power :: "f64 option"
  vb_ac_power :: "f64 option"
  vb_setpoint :: "f64 option"
  vb_inverter_state :: "string option"

record system_totals =
  sy_g1 :: "f64 option"
  sy_g2 :: "f64 option"
  sy_g1_seen :: bool
  sy_g2_seen :: bool
  sy_t1 :: "f64 option"
  sy_t2 :: "f64 option"

record ac_load =
  al_power :: "f64 option"
  al_custom_name :: "string option"
  al_product_name :: "string option"

record named_device =
  nd_custom_name :: "string option"
  nd_product_name :: "string option"

definition default_battery :: battery where
  "default_battery = \<lparr>ba_name = None, ba_serial = None, ba_instance = None, ba_soc = None, ba_voltage = None,
     ba_current = None, ba_power = None, ba_state = None, ba_time_to_go = None, ba_max_cell_voltage = None,
     ba_max_voltage_cell_id = None, ba_min_cell_voltage = None, ba_min_voltage_cell_id = None\<rparr>"

definition default_charger :: mppt_charger where
  "default_charger = \<lparr>mc_name = None, mc_serial = None, mc_instance = None, mc_pv_voltage = None, mc_current = None,
     mc_power = None\<rparr>"

definition default_pv :: pv_inverter where
  "default_pv = \<lparr>pi_name = None, pi_serial = None, pi_instance = None, pi_voltage = None, pi_current = None,
     pi_power = None\<rparr>"

definition default_vebus :: vebus where
  "default_vebus = \<lparr>vb_l1_power = None, vb_l2_power = None, vb_ac_power = None, vb_setpoint = None,
     vb_inverter_state = None\<rparr>"

definition default_system :: system_totals where
  "default_system = \<lparr>sy_g1 = None, sy_g2 = None, sy_g1_seen = False, sy_g2_seen = False, sy_t1 = None, sy_t2 = None\<rparr>"

definition default_load :: ac_load where
  "default_load = \<lparr>al_power = None, al_custom_name = None, al_product_name = None\<rparr>"

definition default_named :: named_device where
  "default_named = \<lparr>nd_custom_name = None, nd_product_name = None\<rparr>"

definition filled_name :: "string option \<Rightarrow> string option \<Rightarrow> string option" where
  "filled_name custom product = or_else (non_empty custom) (non_empty product)"

definition load_display_name :: "ac_load \<Rightarrow> string option" where
  "load_display_name a = filled_name (al_custom_name a) (al_product_name a)"

definition named_display_name :: "named_device \<Rightarrow> string option" where
  "named_display_name n = filled_name (nd_custom_name n) (nd_product_name n)"

text \<open>\<^verbatim>\<open>TrackedEntry\<close>: a device and when it was last heard of.\<close>

record 'a sighting =
  sg_data :: 'a
  sg_seen :: nat

type_synonym 'a devices = "(nat \<times> 'a sighting) list"

text \<open>\<^verbatim>\<open>entry(inst).or_default()\<close>, then \<^verbatim>\<open>touch\<close> and a change of the data.\<close>

fun sight :: "'a \<Rightarrow> nat \<Rightarrow> nat \<Rightarrow> ('a \<Rightarrow> 'a) \<Rightarrow> 'a devices \<Rightarrow> 'a devices" where
  "sight d now i f [] = [(i, \<lparr>sg_data = f d, sg_seen = now\<rparr>)]"
| "sight d now i f ((j, e) # es) =
     (if i = j then (j, \<lparr>sg_data = f (sg_data e), sg_seen = now\<rparr>) # es
      else if i < j then (i, \<lparr>sg_data = f d, sg_seen = now\<rparr>) # (j, e) # es
      else (j, e) # sight d now i f es)"

record cerbo_devices =
  cd_batteries :: "battery devices"
  cd_chargers :: "mppt_charger devices"
  cd_pv_inverters :: "pv_inverter devices"
  cd_vebus :: "vebus devices"
  cd_system :: "system_totals devices"
  cd_acloads :: "ac_load devices"
  cd_tanks :: "named_device devices"
  cd_pumps :: "named_device devices"
  cd_evs :: "named_device devices"
  cd_evchargers :: "named_device devices"

definition no_devices :: cerbo_devices where
  "no_devices = \<lparr>cd_batteries = [], cd_chargers = [], cd_pv_inverters = [], cd_vebus = [], cd_system = [],
     cd_acloads = [], cd_tanks = [], cd_pumps = [], cd_evs = [], cd_evchargers = []\<rparr>"

definition DEVICE_TTL :: nat where "DEVICE_TTL = seconds 120"

definition retain_fresh :: "nat \<Rightarrow> 'a devices \<Rightarrow> 'a devices" where
  "retain_fresh now es = filter (\<lambda>(_, e). now - sg_seen e < DEVICE_TTL) es"

definition sweep_stale :: "nat \<Rightarrow> cerbo_devices \<Rightarrow> cerbo_devices" where
  "sweep_stale now d = \<lparr>cd_batteries = retain_fresh now (cd_batteries d), cd_chargers = retain_fresh now (cd_chargers d),
     cd_pv_inverters = retain_fresh now (cd_pv_inverters d), cd_vebus = retain_fresh now (cd_vebus d),
     cd_system = retain_fresh now (cd_system d), cd_acloads = retain_fresh now (cd_acloads d),
     cd_tanks = retain_fresh now (cd_tanks d), cd_pumps = retain_fresh now (cd_pumps d),
     cd_evs = retain_fresh now (cd_evs d), cd_evchargers = retain_fresh now (cd_evchargers d)\<rparr>"

text \<open>The data in the order of the map.\<close>

definition data_of :: "'a devices \<Rightarrow> 'a list" where "data_of es = map (sg_data \<circ> snd) es"

definition has_shunt :: "cerbo_devices \<Rightarrow> bool" where
  "has_shunt d \<longleftrightarrow> list_ex (\<lambda>b. is_shunt (ba_name b)) (data_of (cd_batteries d))"

definition owns_vebus_mode :: "cerbo_devices \<Rightarrow> bool" where
  "owns_vebus_mode d \<longleftrightarrow> list_ex (\<lambda>v. vb_setpoint v \<noteq> None \<or> vb_inverter_state v \<noteq> None) (data_of (cd_vebus d))"

definition owns_chargers :: "cerbo_devices \<Rightarrow> bool" where "owns_chargers d \<longleftrightarrow> cd_chargers d \<noteq> []"
definition owns_pv :: "cerbo_devices \<Rightarrow> bool" where "owns_pv d \<longleftrightarrow> cd_pv_inverters d \<noteq> []"
definition owns_batteries :: "cerbo_devices \<Rightarrow> bool" where "owns_batteries d \<longleftrightarrow> cd_batteries d \<noteq> []"
definition owns_solar :: "cerbo_devices \<Rightarrow> bool" where "owns_solar d \<longleftrightarrow> owns_chargers d \<or> owns_pv d"

section \<open>Topics\<close>

definition slashes :: "string \<Rightarrow> string list" where "slashes = split_on (\<lambda>c. c = CHR ''/'')"

definition parse_water_topic :: "string \<Rightarrow> (string \<times> nat \<times> string) option" where
  "parse_water_topic topic = (case map_option slashes (strip_prefix ''N/'' topic) of
       Some (_ # kind # i # path # _) \<Rightarrow> (case parse_u32 i of
           None \<Rightarrow> None
         | Some inst \<Rightarrow>
             if (kind = ''tank'' \<and> path \<in> {''Level'', ''CustomName'', ''ProductName''})
               \<or> (kind = ''pump'' \<and> path \<in> {''State'', ''Mode'', ''CustomName'', ''ProductName''})
             then Some (kind, inst, path) else None)
     | _ \<Rightarrow> None)"

text \<open>\<^verbatim>\<open>Ac/Power\<close> is one path although it holds a slash.\<close>

definition joined_path :: "string \<Rightarrow> string list \<Rightarrow> string option" where
  "joined_path p1 rest = (case rest of [] \<Rightarrow> Some p1
     | p2 # _ \<Rightarrow> if p1 = ''Ac'' \<and> p2 = ''Power'' then Some ''Ac/Power'' else None)"

definition parse_ev_topic :: "string \<Rightarrow> (string \<times> nat \<times> string) option" where
  "parse_ev_topic topic = (case map_option slashes (strip_prefix ''N/'' topic) of
       Some (_ # kind # i # p1 # rest) \<Rightarrow> (case (parse_u32 i, joined_path p1 rest) of
           (Some inst, Some path) \<Rightarrow>
             if kind \<in> {''ev'', ''evcharger''} \<and> path \<in> {''Soc'', ''Ac/Power'', ''CustomName'', ''ProductName''}
             then Some (kind, inst, path) else None
         | _ \<Rightarrow> None)
     | _ \<Rightarrow> None)"

definition parse_acload_topic :: "string \<Rightarrow> (nat \<times> string) option" where
  "parse_acload_topic topic = (case map_option slashes (strip_prefix ''N/'' topic) of
       Some (_ # kind # i # p1 # rest) \<Rightarrow> (case (parse_u32 i, joined_path p1 rest) of
           (Some inst, Some path) \<Rightarrow>
             if kind = ''acload'' \<and> path \<in> {''Ac/Power'', ''CustomName'', ''ProductName''} then Some (inst, path) else None
         | _ \<Rightarrow> None)
     | _ \<Rightarrow> None)"

definition parse_device_topic :: "string \<Rightarrow> (string \<times> nat \<times> string) option" where
  "parse_device_topic topic = (case Option.bind (strip_prefix ''N/'' topic) (split_once ''/'') of
       None \<Rightarrow> None
     | Some (portal, rest) \<Rightarrow>
         if portal = [] then None
         else case split_once ''/'' rest of
             None \<Rightarrow> None
           | Some (kind, rest) \<Rightarrow>
               if kind \<notin> {''battery'', ''solarcharger'', ''pvinverter'', ''vebus'', ''system''} then None
               else case split_once ''/'' rest of
                   None \<Rightarrow> None
                 | Some (i, path) \<Rightarrow> map_option (\<lambda>inst. (kind, inst, path)) (parse_u32 i))"

section \<open>Payloads\<close>

record native =
  nt_texts :: texts
  nt_value :: "string \<Rightarrow> json option" \<comment> \<open>\<^verbatim>\<open>serde_json::from_str::<Value>\<close>\<close>
  nt_lower :: "string \<Rightarrow> string" \<comment> \<open>\<^verbatim>\<open>str::to_lowercase\<close>\<close>
  nt_upper :: "nat \<Rightarrow> bool" \<comment> \<open>\<^verbatim>\<open>char::is_uppercase\<close>\<close>

definition envelope :: "native \<Rightarrow> string \<Rightarrow> json option" where
  "envelope N payload = Option.bind (nt_value N payload) (jget ''value'')"

definition parse_cerbo_value :: "native \<Rightarrow> string \<Rightarrow> f64 option" where
  "parse_cerbo_value N payload = Option.bind (envelope N payload) as_f64"

definition parse_cerbo_grid_sample :: "native \<Rightarrow> string \<Rightarrow> f64 option option" where
  "parse_cerbo_grid_sample N payload = (case envelope N payload of
       None \<Rightarrow> None
     | Some v \<Rightarrow> if is_null v then Some None else map_option Some (as_f64 v))"

definition parse_cerbo_name :: "native \<Rightarrow> string \<Rightarrow> string option" where
  "parse_cerbo_name N payload = non_empty (Some (unwrap_or (trim payload) (Option.bind (envelope N payload) as_str)))"

text \<open>A number without a fraction is printed as an integer.\<close>

definition nearly_whole :: "f64 \<Rightarrow> bool" where
  "nearly_whole x = (case x of Finite q \<Rightarrow> \<bar>\<bar>q\<bar> - of_int \<lfloor>\<bar>q\<bar>\<rfloor>\<bar> < 1 / 2 ^ 52 | _ \<Rightarrow> False)"

definition parse_cerbo_cell_id :: "native \<Rightarrow> string \<Rightarrow> string option" where
  "parse_cerbo_cell_id N payload = (case envelope N payload of
       None \<Rightarrow> None
     | Some v \<Rightarrow>
         if is_null v then None
         else case as_str v of
             Some s \<Rightarrow> non_empty (Some (trim s))
           | None \<Rightarrow> (case or_else (as_i64 v) (map_option as_i64_wrapping (as_u64 v)) of
                 Some n \<Rightarrow> Some (show_int n)
               | None \<Rightarrow> map_option (\<lambda>x. if nearly_whole x then show_int (to_i64 x) else f64_display x) (as_f64 v)))"

section \<open>Messages\<close>

text \<open>An entry is created and touched for any path; the flag says whether the path was known.\<close>

definition battery_field :: "native \<Rightarrow> nat \<Rightarrow> string \<Rightarrow> string \<Rightarrow> battery \<Rightarrow> battery \<times> bool" where
  "battery_field N inst path payload b =
     (let val = parse_cerbo_value N payload; b = (if ba_instance b = None then b\<lparr>ba_instance := Some inst\<rparr> else b)
      in if path = ''Soc'' then (b\<lparr>ba_soc := val\<rparr>, True)
         else if path = ''Dc/0/Voltage'' then (b\<lparr>ba_voltage := val\<rparr>, True)
         else if path = ''Dc/0/Current'' then
           (let b = b\<lparr>ba_current := val\<rparr>
            in (case val of None \<Rightarrow> b | Some a \<Rightarrow> b\<lparr>ba_state := Some (state_from_current a)\<rparr>, True))
         else if path = ''Dc/0/Power'' then (b\<lparr>ba_power := val\<rparr>, True)
         else if path = ''ProductName'' then (b\<lparr>ba_name := parse_cerbo_name N payload\<rparr>, True)
         else if path = ''CustomName'' then
           (case parse_cerbo_name N payload of None \<Rightarrow> b | Some n \<Rightarrow> b\<lparr>ba_name := Some n\<rparr>, True)
         else if path = ''Serial'' then (b\<lparr>ba_serial := parse_cerbo_name N payload\<rparr>, True)
         else if path = ''TimeToGo'' then (b\<lparr>ba_time_to_go := Option.bind val format_time_to_go\<rparr>, True)
         else if path = ''System/MaxCellVoltage'' then (b\<lparr>ba_max_cell_voltage := val\<rparr>, True)
         else if path = ''System/MinCellVoltage'' then (b\<lparr>ba_min_cell_voltage := val\<rparr>, True)
         else if path = ''System/MaxVoltageCellId'' then (b\<lparr>ba_max_voltage_cell_id := parse_cerbo_cell_id N payload\<rparr>, True)
         else if path = ''System/MinVoltageCellId'' then (b\<lparr>ba_min_voltage_cell_id := parse_cerbo_cell_id N payload\<rparr>, True)
         else (b, False))"

definition charger_field :: "native \<Rightarrow> string \<Rightarrow> string \<Rightarrow> mppt_charger \<Rightarrow> mppt_charger \<times> bool" where
  "charger_field N path payload m =
     (let val = parse_cerbo_value N payload
      in if path = ''Pv/V'' then (m\<lparr>mc_pv_voltage := val\<rparr>, True)
         else if path = ''Dc/0/Current'' then (m\<lparr>mc_current := val\<rparr>, True)
         else if path = ''Yield/Power'' then (m\<lparr>mc_power := val\<rparr>, True)
         else if path = ''ProductName'' then (m\<lparr>mc_name := parse_cerbo_name N payload\<rparr>, True)
         else if path = ''Serial'' then (m\<lparr>mc_serial := parse_cerbo_name N payload\<rparr>, True)
         else (m, False))"

definition pv_field :: "native \<Rightarrow> nat \<Rightarrow> string \<Rightarrow> string \<Rightarrow> pv_inverter \<Rightarrow> pv_inverter \<times> bool" where
  "pv_field N inst path payload p =
     (let val = parse_cerbo_value N payload; p = (if pi_instance p = None then p\<lparr>pi_instance := Some inst\<rparr> else p)
      in if path \<in> {''Ac/Power'', ''Ac/L1/Power'', ''Ac/L2/Power''} then (p\<lparr>pi_power := val\<rparr>, True)
         else if path \<in> {''Ac/L1/Voltage'', ''Ac/L2/Voltage''} then (p\<lparr>pi_voltage := val\<rparr>, True)
         else if path \<in> {''Ac/L1/Current'', ''Ac/L2/Current''} then (p\<lparr>pi_current := val\<rparr>, True)
         else if path = ''ProductName'' then (p\<lparr>pi_name := parse_cerbo_name N payload\<rparr>, True)
         else if path = ''Serial'' then (p\<lparr>pi_serial := parse_cerbo_name N payload\<rparr>, True)
         else (p, False))"

definition vebus_field :: "native \<Rightarrow> string \<Rightarrow> string \<Rightarrow> vebus \<Rightarrow> vebus \<times> bool" where
  "vebus_field N path payload v =
     (let val = parse_cerbo_value N payload
      in if path \<in> {''Ac/L1/Power'', ''Ac/ActiveIn/L1/Power''} then (v\<lparr>vb_l1_power := val\<rparr>, True)
         else if path \<in> {''Ac/L2/Power'', ''Ac/ActiveIn/L2/Power''} then (v\<lparr>vb_l2_power := val\<rparr>, True)
         else if path \<in> {''Ac/Out/P'', ''Ac/Power''} then (v\<lparr>vb_ac_power := val\<rparr>, True)
         else if path = ''Hub4/L1/AcPowerSetpoint'' then (v\<lparr>vb_setpoint := val\<rparr>, True)
         else if path = ''State'' then
           (case val of None \<Rightarrow> v
              | Some code \<Rightarrow> v\<lparr>vb_inverter_state := Some (inverter_state_name (to_unsigned u32_max code))\<rparr>, True)
         else (v, False))"

definition system_field :: "native \<Rightarrow> string \<Rightarrow> string \<Rightarrow> system_totals \<Rightarrow> system_totals \<times> bool" where
  "system_field N path payload s =
     (let val = parse_cerbo_value N payload
      in if path = ''Ac/Grid/L1/Power'' then (case parse_cerbo_grid_sample N payload of
             None \<Rightarrow> (s, False) | Some sample \<Rightarrow> (s\<lparr>sy_g1 := sample, sy_g1_seen := True\<rparr>, True))
         else if path = ''Ac/Grid/L2/Power'' then (case parse_cerbo_grid_sample N payload of
             None \<Rightarrow> (s, False) | Some sample \<Rightarrow> (s\<lparr>sy_g2 := sample, sy_g2_seen := True\<rparr>, True))
         else if path = ''Ac/Consumption/L1/Power'' then (s\<lparr>sy_t1 := val\<rparr>, True)
         else if path = ''Ac/Consumption/L2/Power'' then (s\<lparr>sy_t2 := val\<rparr>, True)
         else (s, False))"

text \<open>The result of a field is decided on the entry before the change.\<close>

definition sighted :: "'a \<Rightarrow> nat \<Rightarrow> 'a devices \<Rightarrow> 'a" where
  "sighted d i es = (case map_of es i of None \<Rightarrow> d | Some e \<Rightarrow> sg_data e)"

definition apply_device_message :: "native \<Rightarrow> nat \<Rightarrow> string \<Rightarrow> nat \<Rightarrow> string \<Rightarrow> string \<Rightarrow> cerbo_devices \<Rightarrow> cerbo_devices \<times> bool" where
  "apply_device_message N now kind inst path payload d =
     (if kind = ''battery'' then let f = battery_field N inst path payload in
        (d\<lparr>cd_batteries := sight default_battery now inst (fst \<circ> f) (cd_batteries d)\<rparr>,
         snd (f (sighted default_battery inst (cd_batteries d))))
      else if kind = ''solarcharger'' then let f = charger_field N path payload in
        (d\<lparr>cd_chargers := sight default_charger now inst (fst \<circ> f) (cd_chargers d)\<rparr>,
         snd (f (sighted default_charger inst (cd_chargers d))))
      else if kind = ''pvinverter'' then let f = pv_field N inst path payload in
        (d\<lparr>cd_pv_inverters := sight default_pv now inst (fst \<circ> f) (cd_pv_inverters d)\<rparr>,
         snd (f (sighted default_pv inst (cd_pv_inverters d))))
      else if kind = ''vebus'' then let f = vebus_field N path payload in
        (d\<lparr>cd_vebus := sight default_vebus now inst (fst \<circ> f) (cd_vebus d)\<rparr>,
         snd (f (sighted default_vebus inst (cd_vebus d))))
      else if kind = ''system'' then let f = system_field N path payload in
        (d\<lparr>cd_system := sight default_system now inst (fst \<circ> f) (cd_system d)\<rparr>,
         snd (f (sighted default_system inst (cd_system d))))
      else (d, False))"

definition load_field :: "native \<Rightarrow> string \<Rightarrow> string \<Rightarrow> ac_load \<Rightarrow> ac_load" where
  "load_field N path payload a =
     (if path = ''Ac/Power'' then a\<lparr>al_power := parse_cerbo_value N payload\<rparr>
      else if path = ''CustomName'' then
        (case parse_cerbo_name N payload of None \<Rightarrow> a | Some n \<Rightarrow> a\<lparr>al_custom_name := Some n\<rparr>)
      else if path = ''ProductName'' then
        (case parse_cerbo_name N payload of None \<Rightarrow> a | Some n \<Rightarrow> a\<lparr>al_product_name := Some n\<rparr>)
      else a)"

definition apply_acload_message :: "native \<Rightarrow> nat \<Rightarrow> nat \<Rightarrow> string \<Rightarrow> string \<Rightarrow> cerbo_devices \<Rightarrow> cerbo_devices \<times> bool" where
  "apply_acload_message N now inst path payload d =
     (d\<lparr>cd_acloads := sight default_load now inst (load_field N path payload) (cd_acloads d)\<rparr>,
      path \<in> {''Ac/Power'', ''CustomName'', ''ProductName''})"

definition named_field :: "native \<Rightarrow> string \<Rightarrow> string \<Rightarrow> named_device \<Rightarrow> named_device" where
  "named_field N path payload n =
     (if path = ''CustomName'' then
        (case parse_cerbo_name N payload of None \<Rightarrow> n | Some s \<Rightarrow> n\<lparr>nd_custom_name := Some s\<rparr>)
      else if path = ''ProductName'' then
        (case parse_cerbo_name N payload of None \<Rightarrow> n | Some s \<Rightarrow> n\<lparr>nd_product_name := Some s\<rparr>)
      else n)"

definition apply_named_discovery :: "native \<Rightarrow> nat \<Rightarrow> string \<Rightarrow> nat \<Rightarrow> string \<Rightarrow> string \<Rightarrow> cerbo_devices \<Rightarrow> cerbo_devices" where
  "apply_named_discovery N now kind inst path payload d =
     (let see = sight default_named now inst (named_field N path payload)
      in if kind = ''tank'' then d\<lparr>cd_tanks := see (cd_tanks d)\<rparr>
         else if kind = ''pump'' then d\<lparr>cd_pumps := see (cd_pumps d)\<rparr>
         else if kind = ''ev'' then d\<lparr>cd_evs := see (cd_evs d)\<rparr>
         else if kind = ''evcharger'' then d\<lparr>cd_evchargers := see (cd_evchargers d)\<rparr>
         else d)"

definition resolve_active_instance :: "nat option \<Rightarrow> named_device devices \<Rightarrow> nat option" where
  "resolve_active_instance preferred discovered =
     (case preferred of
        Some p \<Rightarrow> if discovered = [] \<or> p \<in> fst ` set discovered then Some p else Some (fst (hd discovered))
      | None \<Rightarrow> (case discovered of [] \<Rightarrow> None | (i, _) # _ \<Rightarrow> Some i))"

end
