(* ===== verification/Overlay.thy ===== *)
theory Overlay
  imports Cerbo
begin

text \<open>
  What the discovered devices say about the dashboard state, \<^verbatim>\<open>apply_cerbo_to_state\<close> of
  \<^verbatim>\<open>src-tauri/src/mqtt/cerbo.rs\<close>, and the cache of vehicle readings with its throttle.
\<close>

section \<open>Names\<close>

definition is_char_boundary :: "string \<Rightarrow> nat \<Rightarrow> bool" where
  "is_char_boundary s i \<longleftrightarrow> i = 0 \<or> i = length s \<or> (i < length s \<and> \<not> (128 \<le> byte (s ! i) \<and> byte (s ! i) < 192))"

definition middle_dot :: string where "middle_dot = [CHR 0x20, CHR 0xC2, CHR 0xB7, CHR 0x20]"

definition name_tail :: "string option \<Rightarrow> nat \<Rightarrow> string" where
  "name_tail serial inst = (case serial of
       Some s \<Rightarrow> if 4 \<le> length s \<and> is_char_boundary s (length s - 4) then drop (length s - 4) s else CHR ''#'' # decimal inst
     | None \<Rightarrow> CHR ''#'' # decimal inst)"

text \<open>The trait \<^verbatim>\<open>DeviceIdentity\<close> as its three operations.\<close>

definition disambiguate_names :: "('a \<Rightarrow> string option) \<Rightarrow> (string \<Rightarrow> 'a \<Rightarrow> 'a) \<Rightarrow> ('a \<Rightarrow> string option) \<Rightarrow> nat list
    \<Rightarrow> 'a list \<Rightarrow> 'a list" where
  "disambiguate_names name set_name serial instances items =
     (let names = List.map_filter name items
      in map (\<lambda>(x, inst). case name x of
             None \<Rightarrow> x
           | Some n \<Rightarrow> if count_list names n \<le> 1 then x
               else set_name (n @ middle_dot @ name_tail (serial x) inst) x) (zip items instances)
         @ drop (length instances) items)"

definition name_battery :: "string \<Rightarrow> battery \<Rightarrow> battery" where "name_battery n b = b\<lparr>ba_name := Some n\<rparr>"
definition name_charger :: "string \<Rightarrow> mppt_charger \<Rightarrow> mppt_charger" where "name_charger n m = m\<lparr>mc_name := Some n\<rparr>"
definition name_pv :: "string \<Rightarrow> pv_inverter \<Rightarrow> pv_inverter" where "name_pv n p = p\<lparr>pi_name := Some n\<rparr>"

definition listed_batteries :: "battery devices \<Rightarrow> battery list \<Rightarrow> battery list" where
  "listed_batteries es bs = disambiguate_names ba_name name_battery ba_serial (map fst es) bs"

definition listed_chargers :: "mppt_charger devices \<Rightarrow> mppt_charger list" where
  "listed_chargers es = disambiguate_names mc_name name_charger mc_serial (map fst es) (data_of es)"

definition listed_pv :: "pv_inverter devices \<Rightarrow> pv_inverter list" where
  "listed_pv es = disambiguate_names pi_name name_pv pi_serial (map fst es) (data_of es)"

section \<open>The overlay\<close>

text \<open>Time to go is shown only while the battery moves; the shunt alone speaks for the bank.\<close>

definition hide_time_to_go :: "battery \<Rightarrow> battery" where
  "hide_time_to_go b = (if moving (ba_state b) then b else b\<lparr>ba_time_to_go := None\<rparr>)"

definition overlay_bank :: "battery option \<Rightarrow> inverter_state \<Rightarrow> inverter_state" where
  "overlay_bank shunt st = (case shunt of None \<Rightarrow> st
     | Some b \<Rightarrow> st\<lparr>iv_battery_soc := or_else (map_option voltage_soc (ba_voltage b)) (iv_battery_soc st),
         iv_battery_voltage := or_else (ba_voltage b) (iv_battery_voltage st),
         iv_battery_current := Some (unwrap_or (Finite 0) (ba_current b)),
         iv_battery_power := Some (unwrap_or (Finite 0) (ba_power b))\<rparr>)"

definition overlay_batteries :: "cerbo_devices \<Rightarrow> inverter_state \<Rightarrow> inverter_state" where
  "overlay_batteries d st = (if cd_batteries d = [] then st
     else let bs = map hide_time_to_go (data_of (cd_batteries d))
       in (overlay_bank (find_shunt bs) st)\<lparr>iv_batteries := Some (listed_batteries (cd_batteries d) bs)\<rparr>)"

definition charger_total :: "cerbo_devices \<Rightarrow> f64" where
  "charger_total d = f64_sum (List.map_filter mc_power (data_of (cd_chargers d)))"

definition pv_sum :: "cerbo_devices \<Rightarrow> f64" where
  "pv_sum d = f64_sum (List.map_filter pi_power (data_of (cd_pv_inverters d)))"

definition overlay_chargers :: "cerbo_devices \<Rightarrow> inverter_state \<Rightarrow> inverter_state" where
  "overlay_chargers d st = (if cd_chargers d = [] then st
     else st\<lparr>iv_mppt_total := Some (charger_total d), iv_mppt_chargers := Some (listed_chargers (cd_chargers d))\<rparr>)"

definition overlay_pv :: "cerbo_devices \<Rightarrow> inverter_state \<Rightarrow> inverter_state" where
  "overlay_pv d st = (if cd_pv_inverters d = [] then st
     else st\<lparr>iv_pv_inverters := Some (listed_pv (cd_pv_inverters d))\<rparr>)"

definition overlay_solar :: "cerbo_devices \<Rightarrow> inverter_state \<Rightarrow> inverter_state" where
  "overlay_solar d st = (if \<not> owns_solar d then st
     else
       let mppt = (if owns_chargers d then charger_total d
             else unwrap_or (Finite 0) (or_else (iv_mppt_total st) (map_option f64_sum (iv_mppt_individual st))));
           pv = (if owns_pv d then pv_sum d
             else case iv_pv_inverters st of
                 Some invs \<Rightarrow> f64_sum (List.map_filter pi_power invs)
               | None \<Rightarrow> unwrap_or (Finite 0) (map_option f64_sum (iv_pv_inverter_individual st)))
       in st\<lparr>iv_solar_total := Some (f64_add mppt pv)\<rparr>)"

definition overlay_grid :: "system_totals \<Rightarrow> inverter_state \<Rightarrow> inverter_state" where
  "overlay_grid s st =
     (let st = (if sy_g1_seen s then st\<lparr>iv_g1 := sy_g1 s, iv_grid_l1_available := Some (sy_g1 s \<noteq> None)\<rparr> else st)
      in if sy_g2_seen s then st\<lparr>iv_g2 := sy_g2 s, iv_grid_l2_available := Some (sy_g2 s \<noteq> None)\<rparr> else st)"

definition overlay_consumption :: "system_totals \<Rightarrow> inverter_state \<Rightarrow> inverter_state" where
  "overlay_consumption s st =
     (let st = st\<lparr>iv_t1 := or_else (sy_t1 s) (iv_t1 st), iv_t2 := or_else (sy_t2 s) (iv_t2 st)\<rparr>
      in st\<lparr>iv_tt := or_else (phases (iv_t1 st) (iv_t2 st)) (iv_tt st)\<rparr>)"

definition overlay_system :: "cerbo_devices \<Rightarrow> inverter_state \<Rightarrow> inverter_state" where
  "overlay_system d st = (case cd_system d of [] \<Rightarrow> st
     | (_, e) # _ \<Rightarrow> overlay_consumption (sg_data e) (overlay_grid (sg_data e) st))"

text \<open>Phases the meter has not filled come from the inverter, unless the meter said they are invalid.\<close>

definition vebus_l1 :: "vebus \<Rightarrow> inverter_state \<Rightarrow> inverter_state" where
  "vebus_l1 v st = (if iv_g1 st = None \<and> iv_grid_l1_available st \<noteq> Some False \<and> vb_l1_power v \<noteq> None
     then st\<lparr>iv_g1 := vb_l1_power v, iv_grid_l1_available := Some True\<rparr> else st)"

definition vebus_l2 :: "vebus \<Rightarrow> inverter_state \<Rightarrow> inverter_state" where
  "vebus_l2 v st = (if iv_g2 st = None \<and> iv_grid_l2_available st \<noteq> Some False \<and> vb_l2_power v \<noteq> None
     then st\<lparr>iv_g2 := vb_l2_power v, iv_grid_l2_available := Some True\<rparr> else st)"

definition vebus_total :: "vebus \<Rightarrow> inverter_state \<Rightarrow> inverter_state" where
  "vebus_total v st = (if iv_gt st \<noteq> None then st
     else case (iv_g1 st, iv_g2 st) of
         (Some g1, Some g2) \<Rightarrow> st\<lparr>iv_gt := Some (f64_add g1 g2)\<rparr>
       | _ \<Rightarrow> (case vb_ac_power v of None \<Rightarrow> st | Some p \<Rightarrow> st\<lparr>iv_gt := Some p\<rparr>))"

definition vebus_mode :: "vebus \<Rightarrow> inverter_state \<Rightarrow> inverter_state" where
  "vebus_mode v st = st\<lparr>iv_setpoint := or_else (vb_setpoint v) (iv_setpoint st),
     iv_inverter_state := or_else (vb_inverter_state v) (iv_inverter_state st)\<rparr>"

definition overlay_vebus :: "cerbo_devices \<Rightarrow> inverter_state \<Rightarrow> inverter_state" where
  "overlay_vebus d st = (case cd_vebus d of [] \<Rightarrow> st
     | (_, e) # _ \<Rightarrow> vebus_mode (sg_data e) (vebus_total (sg_data e) (vebus_l2 (sg_data e) (vebus_l1 (sg_data e) st))))"

definition overlay_grid_total :: "inverter_state \<Rightarrow> inverter_state" where
  "overlay_grid_total st = (if iv_grid_l1_available st \<noteq> None \<or> iv_grid_l2_available st \<noteq> None
     then st\<lparr>iv_gt := phases (iv_g1 st) (iv_g2 st)\<rparr> else st)"

definition keyed :: "('a \<Rightarrow> 'b option) \<Rightarrow> 'a devices \<Rightarrow> (string \<rightharpoonup> 'b)" where
  "keyed f es = fold (\<lambda>(i, e) m. case f (sg_data e) of None \<Rightarrow> m | Some y \<Rightarrow> m(decimal i \<mapsto> y)) es Map.empty"

definition overlay_loads :: "cerbo_devices \<Rightarrow> inverter_state \<Rightarrow> inverter_state" where
  "overlay_loads d st = (if cd_acloads d = [] then st
     else st\<lparr>iv_loads := Some (keyed al_power (cd_acloads d)),
       iv_load_names := Some (unwrap_or Map.empty (iv_load_names st) ++ keyed load_display_name (cd_acloads d))\<rparr>)"

definition inventory :: "string \<Rightarrow> named_device devices \<Rightarrow> discovered_instance list" where
  "inventory kind es = map (\<lambda>(i, e). \<lparr>di_instance = i, di_kind = kind, di_name = named_display_name (sg_data e)\<rparr>) es"

definition discovered_devices :: "cerbo_devices \<Rightarrow> discovered_instance list" where
  "discovered_devices d = inventory ''tank'' (cd_tanks d) @ inventory ''pump'' (cd_pumps d)
     @ inventory ''ev'' (cd_evs d) @ inventory ''evcharger'' (cd_evchargers d)"

definition overlay_discovered :: "cerbo_devices \<Rightarrow> inverter_state \<Rightarrow> inverter_state" where
  "overlay_discovered d st = (if discovered_devices d = [] then st
     else st\<lparr>iv_water_ev := (iv_water_ev st)\<lparr>we_discovered := Some (discovered_devices d)\<rparr>\<rparr>)"

definition apply_cerbo_to_state :: "cerbo_devices \<Rightarrow> inverter_state \<Rightarrow> inverter_state" where
  "apply_cerbo_to_state d st =
     (let st = overlay_batteries d st;
          st = overlay_chargers d st;
          st = overlay_pv d st;
          st = overlay_solar d st;
          st = overlay_system d st;
          st = overlay_vebus d st;
          st = overlay_grid_total st;
          st = overlay_loads d st
      in overlay_discovered d st)"

section \<open>What each step leaves alone\<close>

lemma overlay_batteries_frame [simp]:
  "iv_gateway_snapshot (overlay_batteries d st) = iv_gateway_snapshot st"
  "iv_cached_snapshot (overlay_batteries d st) = iv_cached_snapshot st"
  "iv_controller (overlay_batteries d st) = iv_controller st" "iv_water_ev (overlay_batteries d st) = iv_water_ev st"
  "iv_gt (overlay_batteries d st) = iv_gt st" "iv_g1 (overlay_batteries d st) = iv_g1 st"
  "iv_g2 (overlay_batteries d st) = iv_g2 st"
  "iv_grid_l1_available (overlay_batteries d st) = iv_grid_l1_available st"
  "iv_grid_l2_available (overlay_batteries d st) = iv_grid_l2_available st"
  "iv_tt (overlay_batteries d st) = iv_tt st" "iv_t1 (overlay_batteries d st) = iv_t1 st"
  "iv_t2 (overlay_batteries d st) = iv_t2 st" "iv_solar_total (overlay_batteries d st) = iv_solar_total st"
  "iv_mppt_total (overlay_batteries d st) = iv_mppt_total st" "iv_setpoint (overlay_batteries d st) = iv_setpoint st"
  "iv_inverter_state (overlay_batteries d st) = iv_inverter_state st"
  "iv_mppt_individual (overlay_batteries d st) = iv_mppt_individual st"
  "iv_mppt_chargers (overlay_batteries d st) = iv_mppt_chargers st"
  "iv_pv_inverters (overlay_batteries d st) = iv_pv_inverters st"
  "iv_pv_inverter_individual (overlay_batteries d st) = iv_pv_inverter_individual st"
  "iv_loads (overlay_batteries d st) = iv_loads st" "iv_load_names (overlay_batteries d st) = iv_load_names st"
  by (simp_all add: overlay_batteries_def overlay_bank_def Let_def split: option.split)

lemma overlay_chargers_frame [simp]:
  "iv_gateway_snapshot (overlay_chargers d st) = iv_gateway_snapshot st"
  "iv_cached_snapshot (overlay_chargers d st) = iv_cached_snapshot st"
  "iv_controller (overlay_chargers d st) = iv_controller st" "iv_water_ev (overlay_chargers d st) = iv_water_ev st"
  "iv_gt (overlay_chargers d st) = iv_gt st" "iv_g1 (overlay_chargers d st) = iv_g1 st"
  "iv_g2 (overlay_chargers d st) = iv_g2 st" "iv_grid_l1_available (overlay_chargers d st) = iv_grid_l1_available st"
  "iv_grid_l2_available (overlay_chargers d st) = iv_grid_l2_available st" "iv_tt (overlay_chargers d st) = iv_tt st"
  "iv_t1 (overlay_chargers d st) = iv_t1 st" "iv_t2 (overlay_chargers d st) = iv_t2 st"
  "iv_solar_total (overlay_chargers d st) = iv_solar_total st"
  "iv_battery_soc (overlay_chargers d st) = iv_battery_soc st"
  "iv_battery_power (overlay_chargers d st) = iv_battery_power st"
  "iv_battery_voltage (overlay_chargers d st) = iv_battery_voltage st"
  "iv_battery_current (overlay_chargers d st) = iv_battery_current st"
  "iv_setpoint (overlay_chargers d st) = iv_setpoint st"
  "iv_inverter_state (overlay_chargers d st) = iv_inverter_state st"
  "iv_mppt_individual (overlay_chargers d st) = iv_mppt_individual st"
  "iv_pv_inverters (overlay_chargers d st) = iv_pv_inverters st"
  "iv_pv_inverter_individual (overlay_chargers d st) = iv_pv_inverter_individual st"
  "iv_batteries (overlay_chargers d st) = iv_batteries st" "iv_loads (overlay_chargers d st) = iv_loads st"
  "iv_load_names (overlay_chargers d st) = iv_load_names st"
  by (simp_all add: overlay_chargers_def)

lemma overlay_pv_frame [simp]:
  "iv_gateway_snapshot (overlay_pv d st) = iv_gateway_snapshot st"
  "iv_cached_snapshot (overlay_pv d st) = iv_cached_snapshot st" "iv_controller (overlay_pv d st) = iv_controller st"
  "iv_water_ev (overlay_pv d st) = iv_water_ev st" "iv_gt (overlay_pv d st) = iv_gt st"
  "iv_g1 (overlay_pv d st) = iv_g1 st" "iv_g2 (overlay_pv d st) = iv_g2 st"
  "iv_grid_l1_available (overlay_pv d st) = iv_grid_l1_available st"
  "iv_grid_l2_available (overlay_pv d st) = iv_grid_l2_available st" "iv_tt (overlay_pv d st) = iv_tt st"
  "iv_t1 (overlay_pv d st) = iv_t1 st" "iv_t2 (overlay_pv d st) = iv_t2 st"
  "iv_solar_total (overlay_pv d st) = iv_solar_total st" "iv_mppt_total (overlay_pv d st) = iv_mppt_total st"
  "iv_battery_soc (overlay_pv d st) = iv_battery_soc st" "iv_battery_power (overlay_pv d st) = iv_battery_power st"
  "iv_battery_voltage (overlay_pv d st) = iv_battery_voltage st"
  "iv_battery_current (overlay_pv d st) = iv_battery_current st" "iv_setpoint (overlay_pv d st) = iv_setpoint st"
  "iv_inverter_state (overlay_pv d st) = iv_inverter_state st"
  "iv_mppt_individual (overlay_pv d st) = iv_mppt_individual st"
  "iv_mppt_chargers (overlay_pv d st) = iv_mppt_chargers st"
  "iv_pv_inverter_individual (overlay_pv d st) = iv_pv_inverter_individual st"
  "iv_batteries (overlay_pv d st) = iv_batteries st" "iv_loads (overlay_pv d st) = iv_loads st"
  "iv_load_names (overlay_pv d st) = iv_load_names st"
  by (simp_all add: overlay_pv_def)

lemma overlay_solar_frame [simp]:
  "iv_gateway_snapshot (overlay_solar d st) = iv_gateway_snapshot st"
  "iv_cached_snapshot (overlay_solar d st) = iv_cached_snapshot st"
  "iv_controller (overlay_solar d st) = iv_controller st" "iv_water_ev (overlay_solar d st) = iv_water_ev st"
  "iv_gt (overlay_solar d st) = iv_gt st" "iv_g1 (overlay_solar d st) = iv_g1 st"
  "iv_g2 (overlay_solar d st) = iv_g2 st" "iv_grid_l1_available (overlay_solar d st) = iv_grid_l1_available st"
  "iv_grid_l2_available (overlay_solar d st) = iv_grid_l2_available st" "iv_tt (overlay_solar d st) = iv_tt st"
  "iv_t1 (overlay_solar d st) = iv_t1 st" "iv_t2 (overlay_solar d st) = iv_t2 st"
  "iv_mppt_total (overlay_solar d st) = iv_mppt_total st" "iv_battery_soc (overlay_solar d st) = iv_battery_soc st"
  "iv_battery_power (overlay_solar d st) = iv_battery_power st"
  "iv_battery_voltage (overlay_solar d st) = iv_battery_voltage st"
  "iv_battery_current (overlay_solar d st) = iv_battery_current st"
  "iv_setpoint (overlay_solar d st) = iv_setpoint st" "iv_inverter_state (overlay_solar d st) = iv_inverter_state st"
  "iv_mppt_individual (overlay_solar d st) = iv_mppt_individual st"
  "iv_mppt_chargers (overlay_solar d st) = iv_mppt_chargers st"
  "iv_pv_inverters (overlay_solar d st) = iv_pv_inverters st"
  "iv_pv_inverter_individual (overlay_solar d st) = iv_pv_inverter_individual st"
  "iv_batteries (overlay_solar d st) = iv_batteries st" "iv_loads (overlay_solar d st) = iv_loads st"
  "iv_load_names (overlay_solar d st) = iv_load_names st"
  by (simp_all add: overlay_solar_def Let_def)

lemma overlay_system_frame [simp]:
  "iv_gateway_snapshot (overlay_system d st) = iv_gateway_snapshot st"
  "iv_cached_snapshot (overlay_system d st) = iv_cached_snapshot st"
  "iv_controller (overlay_system d st) = iv_controller st" "iv_water_ev (overlay_system d st) = iv_water_ev st"
  "iv_gt (overlay_system d st) = iv_gt st" "iv_solar_total (overlay_system d st) = iv_solar_total st"
  "iv_mppt_total (overlay_system d st) = iv_mppt_total st" "iv_battery_soc (overlay_system d st) = iv_battery_soc st"
  "iv_battery_power (overlay_system d st) = iv_battery_power st"
  "iv_battery_voltage (overlay_system d st) = iv_battery_voltage st"
  "iv_battery_current (overlay_system d st) = iv_battery_current st"
  "iv_setpoint (overlay_system d st) = iv_setpoint st"
  "iv_inverter_state (overlay_system d st) = iv_inverter_state st"
  "iv_mppt_individual (overlay_system d st) = iv_mppt_individual st"
  "iv_mppt_chargers (overlay_system d st) = iv_mppt_chargers st"
  "iv_pv_inverters (overlay_system d st) = iv_pv_inverters st"
  "iv_pv_inverter_individual (overlay_system d st) = iv_pv_inverter_individual st"
  "iv_batteries (overlay_system d st) = iv_batteries st" "iv_loads (overlay_system d st) = iv_loads st"
  "iv_load_names (overlay_system d st) = iv_load_names st"
  by (simp_all add: overlay_system_def overlay_consumption_def overlay_grid_def Let_def split: list.split)

lemma overlay_vebus_frame [simp]:
  "iv_gateway_snapshot (overlay_vebus d st) = iv_gateway_snapshot st"
  "iv_cached_snapshot (overlay_vebus d st) = iv_cached_snapshot st"
  "iv_controller (overlay_vebus d st) = iv_controller st" "iv_water_ev (overlay_vebus d st) = iv_water_ev st"
  "iv_tt (overlay_vebus d st) = iv_tt st" "iv_t1 (overlay_vebus d st) = iv_t1 st"
  "iv_t2 (overlay_vebus d st) = iv_t2 st" "iv_solar_total (overlay_vebus d st) = iv_solar_total st"
  "iv_mppt_total (overlay_vebus d st) = iv_mppt_total st" "iv_battery_soc (overlay_vebus d st) = iv_battery_soc st"
  "iv_battery_power (overlay_vebus d st) = iv_battery_power st"
  "iv_battery_voltage (overlay_vebus d st) = iv_battery_voltage st"
  "iv_battery_current (overlay_vebus d st) = iv_battery_current st"
  "iv_mppt_individual (overlay_vebus d st) = iv_mppt_individual st"
  "iv_mppt_chargers (overlay_vebus d st) = iv_mppt_chargers st"
  "iv_pv_inverters (overlay_vebus d st) = iv_pv_inverters st"
  "iv_pv_inverter_individual (overlay_vebus d st) = iv_pv_inverter_individual st"
  "iv_batteries (overlay_vebus d st) = iv_batteries st" "iv_loads (overlay_vebus d st) = iv_loads st"
  "iv_load_names (overlay_vebus d st) = iv_load_names st"
  by (simp_all add: overlay_vebus_def vebus_mode_def vebus_total_def vebus_l1_def vebus_l2_def Let_def split: list.split option.split)

lemma overlay_grid_total_frame [simp]:
  "iv_gateway_snapshot (overlay_grid_total st) = iv_gateway_snapshot st"
  "iv_cached_snapshot (overlay_grid_total st) = iv_cached_snapshot st"
  "iv_controller (overlay_grid_total st) = iv_controller st" "iv_water_ev (overlay_grid_total st) = iv_water_ev st"
  "iv_g1 (overlay_grid_total st) = iv_g1 st" "iv_g2 (overlay_grid_total st) = iv_g2 st"
  "iv_grid_l1_available (overlay_grid_total st) = iv_grid_l1_available st"
  "iv_grid_l2_available (overlay_grid_total st) = iv_grid_l2_available st" "iv_tt (overlay_grid_total st) = iv_tt st"
  "iv_t1 (overlay_grid_total st) = iv_t1 st" "iv_t2 (overlay_grid_total st) = iv_t2 st"
  "iv_solar_total (overlay_grid_total st) = iv_solar_total st"
  "iv_mppt_total (overlay_grid_total st) = iv_mppt_total st"
  "iv_battery_soc (overlay_grid_total st) = iv_battery_soc st"
  "iv_battery_power (overlay_grid_total st) = iv_battery_power st"
  "iv_battery_voltage (overlay_grid_total st) = iv_battery_voltage st"
  "iv_battery_current (overlay_grid_total st) = iv_battery_current st"
  "iv_setpoint (overlay_grid_total st) = iv_setpoint st"
  "iv_inverter_state (overlay_grid_total st) = iv_inverter_state st"
  "iv_mppt_individual (overlay_grid_total st) = iv_mppt_individual st"
  "iv_mppt_chargers (overlay_grid_total st) = iv_mppt_chargers st"
  "iv_pv_inverters (overlay_grid_total st) = iv_pv_inverters st"
  "iv_pv_inverter_individual (overlay_grid_total st) = iv_pv_inverter_individual st"
  "iv_batteries (overlay_grid_total st) = iv_batteries st" "iv_loads (overlay_grid_total st) = iv_loads st"
  "iv_load_names (overlay_grid_total st) = iv_load_names st"
  by (simp_all add: overlay_grid_total_def)

lemma overlay_loads_frame [simp]:
  "iv_gateway_snapshot (overlay_loads d st) = iv_gateway_snapshot st"
  "iv_cached_snapshot (overlay_loads d st) = iv_cached_snapshot st"
  "iv_controller (overlay_loads d st) = iv_controller st" "iv_water_ev (overlay_loads d st) = iv_water_ev st"
  "iv_gt (overlay_loads d st) = iv_gt st" "iv_g1 (overlay_loads d st) = iv_g1 st"
  "iv_g2 (overlay_loads d st) = iv_g2 st" "iv_grid_l1_available (overlay_loads d st) = iv_grid_l1_available st"
  "iv_grid_l2_available (overlay_loads d st) = iv_grid_l2_available st" "iv_tt (overlay_loads d st) = iv_tt st"
  "iv_t1 (overlay_loads d st) = iv_t1 st" "iv_t2 (overlay_loads d st) = iv_t2 st"
  "iv_solar_total (overlay_loads d st) = iv_solar_total st" "iv_mppt_total (overlay_loads d st) = iv_mppt_total st"
  "iv_battery_soc (overlay_loads d st) = iv_battery_soc st"
  "iv_battery_power (overlay_loads d st) = iv_battery_power st"
  "iv_battery_voltage (overlay_loads d st) = iv_battery_voltage st"
  "iv_battery_current (overlay_loads d st) = iv_battery_current st"
  "iv_setpoint (overlay_loads d st) = iv_setpoint st" "iv_inverter_state (overlay_loads d st) = iv_inverter_state st"
  "iv_mppt_individual (overlay_loads d st) = iv_mppt_individual st"
  "iv_mppt_chargers (overlay_loads d st) = iv_mppt_chargers st"
  "iv_pv_inverters (overlay_loads d st) = iv_pv_inverters st"
  "iv_pv_inverter_individual (overlay_loads d st) = iv_pv_inverter_individual st"
  "iv_batteries (overlay_loads d st) = iv_batteries st"
  by (simp_all add: overlay_loads_def)

lemma overlay_discovered_frame [simp]:
  "iv_gateway_snapshot (overlay_discovered d st) = iv_gateway_snapshot st"
  "iv_cached_snapshot (overlay_discovered d st) = iv_cached_snapshot st"
  "iv_controller (overlay_discovered d st) = iv_controller st" "iv_gt (overlay_discovered d st) = iv_gt st"
  "iv_g1 (overlay_discovered d st) = iv_g1 st" "iv_g2 (overlay_discovered d st) = iv_g2 st"
  "iv_grid_l1_available (overlay_discovered d st) = iv_grid_l1_available st"
  "iv_grid_l2_available (overlay_discovered d st) = iv_grid_l2_available st"
  "iv_tt (overlay_discovered d st) = iv_tt st" "iv_t1 (overlay_discovered d st) = iv_t1 st"
  "iv_t2 (overlay_discovered d st) = iv_t2 st" "iv_solar_total (overlay_discovered d st) = iv_solar_total st"
  "iv_mppt_total (overlay_discovered d st) = iv_mppt_total st"
  "iv_battery_soc (overlay_discovered d st) = iv_battery_soc st"
  "iv_battery_power (overlay_discovered d st) = iv_battery_power st"
  "iv_battery_voltage (overlay_discovered d st) = iv_battery_voltage st"
  "iv_battery_current (overlay_discovered d st) = iv_battery_current st"
  "iv_setpoint (overlay_discovered d st) = iv_setpoint st"
  "iv_inverter_state (overlay_discovered d st) = iv_inverter_state st"
  "iv_mppt_individual (overlay_discovered d st) = iv_mppt_individual st"
  "iv_mppt_chargers (overlay_discovered d st) = iv_mppt_chargers st"
  "iv_pv_inverters (overlay_discovered d st) = iv_pv_inverters st"
  "iv_pv_inverter_individual (overlay_discovered d st) = iv_pv_inverter_individual st"
  "iv_batteries (overlay_discovered d st) = iv_batteries st" "iv_loads (overlay_discovered d st) = iv_loads st"
  "iv_load_names (overlay_discovered d st) = iv_load_names st"
  by (simp_all add: overlay_discovered_def)

lemma overlay_discovered_rest [simp]:
  "we_water_level (iv_water_ev (overlay_discovered d st)) = we_water_level (iv_water_ev st)"
  "we_car_soc (iv_water_ev (overlay_discovered d st)) = we_car_soc (iv_water_ev st)"
  "we_car_charging_power (iv_water_ev (overlay_discovered d st)) = we_car_charging_power (iv_water_ev st)"
  "we_ev_charging_power (iv_water_ev (overlay_discovered d st)) = we_ev_charging_power (iv_water_ev st)"
  "we_ev_present (iv_water_ev (overlay_discovered d st)) = we_ev_present (iv_water_ev st)"
  "we_evcharger_present (iv_water_ev (overlay_discovered d st)) = we_evcharger_present (iv_water_ev st)"
  by (simp_all add: overlay_discovered_def)

section \<open>Grid and consumption\<close>

text \<open>The readings of the grid, which no step outside the meter and the inverter touches.\<close>

definition grid_view where
  "grid_view st = (iv_g1 st, iv_g2 st, iv_grid_l1_available st, iv_grid_l2_available st, iv_t1 st, iv_t2 st, iv_tt st, iv_gt st)"

lemma grid_view_system:
  "grid_view (overlay_grid s st) = (case grid_view st of (g1, g2, a1, a2, t1, t2, tt, gt) \<Rightarrow>
     (if sy_g1_seen s then sy_g1 s else g1, if sy_g2_seen s then sy_g2 s else g2,
      if sy_g1_seen s then Some (sy_g1 s \<noteq> None) else a1, if sy_g2_seen s then Some (sy_g2 s \<noteq> None) else a2, t1, t2, tt, gt))"
  "grid_view (overlay_consumption s st) = (case grid_view st of (g1, g2, a1, a2, t1, t2, tt, gt) \<Rightarrow>
     let t1 = or_else (sy_t1 s) t1; t2 = or_else (sy_t2 s) t2 in (g1, g2, a1, a2, t1, t2, or_else (phases t1 t2) tt, gt))"
  by (simp_all add: grid_view_def overlay_grid_def overlay_consumption_def Let_def)

lemma grid_view_phases:
  "grid_view (vebus_l1 v st) = (case grid_view st of (g1, g2, a1, a2, t1, t2, tt, gt) \<Rightarrow>
     if g1 = None \<and> a1 \<noteq> Some False \<and> vb_l1_power v \<noteq> None then (vb_l1_power v, g2, Some True, a2, t1, t2, tt, gt)
     else (g1, g2, a1, a2, t1, t2, tt, gt))"
  "grid_view (vebus_l2 v st) = (case grid_view st of (g1, g2, a1, a2, t1, t2, tt, gt) \<Rightarrow>
     if g2 = None \<and> a2 \<noteq> Some False \<and> vb_l2_power v \<noteq> None then (g1, vb_l2_power v, a1, Some True, t1, t2, tt, gt)
     else (g1, g2, a1, a2, t1, t2, tt, gt))"
  by (simp_all add: grid_view_def vebus_l1_def vebus_l2_def)

lemma grid_view_vebus:
  "grid_view (vebus_total v st) = (case grid_view st of (g1, g2, a1, a2, t1, t2, tt, gt) \<Rightarrow>
     (g1, g2, a1, a2, t1, t2, tt, if gt \<noteq> None then gt
       else if g1 \<noteq> None \<and> g2 \<noteq> None then phases g1 g2 else vb_ac_power v))"
  "grid_view (vebus_mode v st) = grid_view st"
  "grid_view (overlay_grid_total st) = (case grid_view st of (g1, g2, a1, a2, t1, t2, tt, gt) \<Rightarrow>
     (g1, g2, a1, a2, t1, t2, tt, if a1 \<noteq> None \<or> a2 \<noteq> None then phases g1 g2 else gt))"
  by (cases "iv_gt st"; cases "iv_g1 st"; cases "iv_g2 st"; cases "vb_ac_power v";
      simp add: grid_view_def vebus_total_def phases_def)
    (simp_all add: grid_view_def vebus_mode_def overlay_grid_total_def)

lemmas grid_view_steps = grid_view_system grid_view_phases grid_view_vebus

lemma grid_view_cong:
  assumes "grid_view st = grid_view st'"
  shows "grid_view (overlay_system d st) = grid_view (overlay_system d st')"
    and "grid_view (overlay_vebus d st) = grid_view (overlay_vebus d st')"
    and "grid_view (overlay_grid_total st) = grid_view (overlay_grid_total st')"
  using assms
  by (simp_all add: overlay_system_def overlay_vebus_def grid_view_steps split: list.split)

lemma grid_view_frame [simp]:
  "grid_view (overlay_batteries d st) = grid_view st" "grid_view (overlay_chargers d st) = grid_view st"
  "grid_view (overlay_pv d st) = grid_view st" "grid_view (overlay_solar d st) = grid_view st"
  "grid_view (overlay_loads d st) = grid_view st" "grid_view (overlay_discovered d st) = grid_view st"
  by (simp_all add: grid_view_def)

lemma apply_cerbo_grid:
  "grid_view (apply_cerbo_to_state d st) = grid_view (overlay_grid_total (overlay_vebus d (overlay_system d st)))"
  by (simp add: apply_cerbo_to_state_def Let_def) (intro grid_view_cong, simp)

section \<open>The vehicle cache\<close>

datatype ev_field = CarSoc | CarChargingPower | EvChargingPower

record ev_cache =
  ec_car_soc :: "(f64 \<times> nat) option"
  ec_car_charging_power :: "(f64 \<times> nat) option"
  ec_ev_charging_power :: "(f64 \<times> nat) option"
  ec_ev_present :: bool
  ec_evcharger_present :: bool

definition new_ev_cache :: ev_cache where
  "new_ev_cache = \<lparr>ec_car_soc = None, ec_car_charging_power = None, ec_ev_charging_power = None,
     ec_ev_present = False, ec_evcharger_present = False\<rparr>"

definition EV_CACHE_TTL :: nat where "EV_CACHE_TTL = seconds 8"

fun cached :: "ev_field \<Rightarrow> ev_cache \<Rightarrow> (f64 \<times> nat) option" where
  "cached CarSoc c = ec_car_soc c"
| "cached CarChargingPower c = ec_car_charging_power c"
| "cached EvChargingPower c = ec_ev_charging_power c"

fun cache_slot :: "ev_field \<Rightarrow> (f64 \<times> nat) option \<Rightarrow> ev_cache \<Rightarrow> ev_cache" where
  "cache_slot CarSoc s c = c\<lparr>ec_car_soc := s\<rparr>"
| "cache_slot CarChargingPower s c = c\<lparr>ec_car_charging_power := s\<rparr>"
| "cache_slot EvChargingPower s c = c\<lparr>ec_ev_charging_power := s\<rparr>"

definition cache_update :: "nat \<Rightarrow> ev_field \<Rightarrow> f64 \<Rightarrow> ev_cache \<Rightarrow> ev_cache \<times> bool" where
  "cache_update now field v c =
     (if field = CarSoc \<and> f64_less v (Finite 0) \<and> cached CarSoc c \<noteq> None then (c, False)
      else case cached field c of
          Some (_, prev) \<Rightarrow> if now - prev < EV_CACHE_TTL then (c, False) else (cache_slot field (Some (v, now)) c, True)
        | None \<Rightarrow> (cache_slot field (Some (v, now)) c, True))"

definition set_presence :: "string \<Rightarrow> ev_cache \<Rightarrow> ev_cache" where
  "set_presence kind c = (if kind = ''ev'' then c\<lparr>ec_ev_present := True\<rparr>
     else if kind = ''evcharger'' then c\<lparr>ec_evcharger_present := True\<rparr> else c)"

fun show_ev :: "ev_field \<Rightarrow> f64 option \<Rightarrow> water_ev \<Rightarrow> water_ev" where
  "show_ev CarSoc v w = w\<lparr>we_car_soc := v\<rparr>"
| "show_ev CarChargingPower v w = w\<lparr>we_car_charging_power := v\<rparr>"
| "show_ev EvChargingPower v w = w\<lparr>we_ev_charging_power := v\<rparr>"

definition restore_field :: "ev_cache \<Rightarrow> ev_field \<Rightarrow> water_ev \<Rightarrow> water_ev" where
  "restore_field c field w = (case cached field c of None \<Rightarrow> w | Some (v, _) \<Rightarrow> show_ev field (Some v) w)"

definition restore_into :: "ev_cache \<Rightarrow> water_ev \<Rightarrow> water_ev" where
  "restore_into c w =
     (let w = w\<lparr>we_ev_present := ec_ev_present c \<or> we_ev_present w,
          we_evcharger_present := ec_evcharger_present c \<or> we_evcharger_present w\<rparr>
      in restore_field c EvChargingPower (restore_field c CarChargingPower (restore_field c CarSoc w)))"

definition ev_field_of :: "string \<Rightarrow> string \<Rightarrow> ev_field option" where
  "ev_field_of kind path =
     (if kind \<in> {''ev'', ''evcharger''} \<and> path = ''Soc'' then Some CarSoc
      else if kind = ''ev'' \<and> path = ''Ac/Power'' then Some CarChargingPower
      else if kind = ''evcharger'' \<and> path = ''Ac/Power'' then Some EvChargingPower
      else None)"

text \<open>A throttled sample shows the cached value again.\<close>

definition apply_ev_message :: "nat \<Rightarrow> string \<Rightarrow> nat \<Rightarrow> string \<Rightarrow> f64 \<Rightarrow> (nat option \<times> nat option) option
    \<Rightarrow> water_ev \<Rightarrow> ev_cache \<Rightarrow> water_ev \<times> ev_cache \<times> ev_field option" where
  "apply_ev_message now kind inst path v instances w c =
     (let matched = (kind = ''ev'' \<and> Option.bind instances fst = Some inst)
            \<or> (kind = ''evcharger'' \<and> Option.bind instances snd = Some inst)
      in if \<not> matched then (w, c, None)
         else
           let c = set_presence kind c
           in case ev_field_of kind path of
               None \<Rightarrow> (w, c, None)
             | Some field \<Rightarrow> (case cache_update now field v c of
                   (c, True) \<Rightarrow> (show_ev field (Some v) w, c, Some field)
                 | (c, False) \<Rightarrow> (case cached field c of
                       Some (u, _) \<Rightarrow> (show_ev field (Some u) w, c, Some field)
                     | None \<Rightarrow> (w, c, None))))"

end
