(* ===== verification/Daemon.thy ===== *)
theory Daemon
  imports Overlay InverterControl
begin

text \<open>
  What the inverter-control daemon's \<^verbatim>\<open>inverter/state\<close> message does, \<^verbatim>\<open>process_state_update\<close> of
  \<^verbatim>\<open>src-tauri/src/mqtt.rs\<close>: the merge, the overlay of discovered devices, the local alerts; and the
  coalescing of state events in \<^verbatim>\<open>mqtt/lifecycle.rs\<close>. Clocks, the visibility of the window and the
  iteration order of the load map come from a moment of the environment.
\<close>

section \<open>The payload\<close>

record raw_state =
  rw_ess_mode_retained :: bool
  rw_grid_backup :: "grid_backup option option"
  rw_grid_using_backup :: "bool option"
  rw_gt :: "f64 option"
  rw_g1 :: "f64 option"
  rw_g2 :: "f64 option"
  rw_tt :: "f64 option"
  rw_t1 :: "f64 option"
  rw_t2 :: "f64 option"
  rw_solar_total :: "f64 option"
  rw_battery_soc :: "f64 option"
  rw_battery_power :: "f64 option"
  rw_battery_voltage :: "f64 option"
  rw_battery_current :: "f64 option"
  rw_bp :: "f64 option"
  rw_bv :: "f64 option"
  rw_bc :: "f64 option"
  rw_setpoint :: "f64 option"
  rw_inverter_state :: "string option"
  rw_version :: "string option"
  rw_dashboard_version :: "string option"
  rw_uptime :: "nat option"
  rw_ha_connected :: "bool option"
  rw_ha_direct_connected :: "bool option"
  rw_dry_run :: "json option"
  rw_ess_mode :: "ess_mode option"
  rw_booleans :: "(string \<times> json) list option"
  rw_features :: "(string \<rightharpoonup> bool) option"
  rw_mppt_individual :: "f64 list option"
  rw_mppt_chargers :: "mppt_charger list option"
  rw_pv_inverters :: "pv_inverter list option"
  rw_pv_inverter_individual :: "f64 list option"
  rw_batteries :: "battery list option"
  rw_loads :: "(string \<rightharpoonup> f64) option"
  rw_ui_config :: "json option"
  rw_daily_stats :: "json option"
  rw_solar_forecast :: "json option"
  rw_latest_version :: "string option"

definition resolve_short_battery_keys :: "raw_state \<Rightarrow> raw_state" where
  "resolve_short_battery_keys raw = raw\<lparr>rw_battery_power := or_else (rw_battery_power raw) (rw_bp raw),
     rw_battery_voltage := or_else (rw_battery_voltage raw) (rw_bv raw),
     rw_battery_current := or_else (rw_battery_current raw) (rw_bc raw)\<rparr>"

text \<open>The surroundings of one event: the monotonic and the wall clock, its text, the window, the map order.\<close>

record moment =
  mt_now :: nat
  mt_millis :: int
  mt_text :: string
  mt_hidden :: bool
  mt_loads :: "string list"

section \<open>The merge\<close>

definition merge_backup :: "int \<Rightarrow> raw_state \<Rightarrow> controller \<Rightarrow> controller" where
  "merge_backup millis raw ct =
     (let ct = (case rw_grid_backup raw of None \<Rightarrow> ct
          | Some backup \<Rightarrow>
              (if backup = None then ct\<lparr>ct_grid_using_backup := Some False\<rparr> else ct)
                \<lparr>ct_grid_backup := backup, ct_grid_backup_observed_at := Some (clock_seconds millis)\<rparr>)
      in ct\<lparr>ct_grid_using_backup := or_else (rw_grid_using_backup raw) (ct_grid_using_backup ct)\<rparr>)"

definition merge_ess :: "int \<Rightarrow> raw_state \<Rightarrow> controller \<Rightarrow> controller" where
  "merge_ess millis raw ct = (case rw_ess_mode raw of None \<Rightarrow> ct
     | Some m \<Rightarrow> ct\<lparr>ct_ess_mode := Some m,
         ct_ess_mode_observed_at := (if rw_ess_mode_retained raw then None else Some (clock_seconds millis))\<rparr>)"

text \<open>Flags by their canonical key; a later entry for the same key wins.\<close>

definition daemon_flags :: "(string \<times> json) list \<Rightarrow> (string \<rightharpoonup> bool)" where
  "daemon_flags fs = map_of (rev (List.map_filter
     (\<lambda>(k, v). map_option (\<lambda>b. (unwrap_or k (flag_key k), b)) (control_bool v)) fs))"

definition merge_controller :: "int \<Rightarrow> raw_state \<Rightarrow> controller \<Rightarrow> controller" where
  "merge_controller millis raw ct =
     (let ct = merge_backup millis raw ct;
          ct = ct\<lparr>ct_version := or_else (rw_version raw) (ct_version ct),
            ct_dashboard_version := or_else (rw_dashboard_version raw) (ct_dashboard_version ct),
            ct_uptime := or_else (rw_uptime raw) (ct_uptime ct),
            ct_ha_connected := or_else (rw_ha_connected raw) (ct_ha_connected ct),
            ct_ha_direct_connected := or_else (rw_ha_direct_connected raw) (ct_ha_direct_connected ct)\<rparr>;
          ct = merge_ess millis raw ct
      in ct\<lparr>ct_ui_config := or_else (rw_ui_config raw) (ct_ui_config ct),
        ct_daily_stats := or_else (rw_daily_stats raw) (ct_daily_stats ct),
        ct_solar_forecast := or_else (rw_solar_forecast raw) (ct_solar_forecast ct),
        ct_latest_version := or_else (rw_latest_version raw) (ct_latest_version ct),
        ct_dry_run := or_else (map_option coerce_bool (rw_dry_run raw)) (ct_dry_run ct),
        ct_booleans := or_else (map_option daemon_flags (rw_booleans raw)) (ct_booleans ct),
        ct_features := or_else (rw_features raw) (ct_features ct)\<rparr>)"

text \<open>A field is taken from the payload unless a discovered device owns it.\<close>

definition merge_unless :: "bool \<Rightarrow> 'a option \<Rightarrow> 'a option \<Rightarrow> 'a option" where
  "merge_unless owned incoming current = (if owned then current else or_else incoming current)"

definition merge_live :: "cerbo_devices \<Rightarrow> raw_state \<Rightarrow> inverter_state \<Rightarrow> inverter_state" where
  "merge_live d raw st =
     (let st = st\<lparr>iv_solar_total := merge_unless (owns_solar d) (rw_solar_total raw) (iv_solar_total st),
            iv_battery_power := merge_unless (has_shunt d) (rw_battery_power raw) (iv_battery_power st),
            iv_battery_voltage := merge_unless (has_shunt d) (rw_battery_voltage raw) (iv_battery_voltage st),
            iv_battery_current := merge_unless (has_shunt d) (rw_battery_current raw) (iv_battery_current st),
            iv_setpoint := merge_unless (owns_vebus_mode d) (rw_setpoint raw) (iv_setpoint st),
            iv_inverter_state := merge_unless (owns_vebus_mode d) (rw_inverter_state raw) (iv_inverter_state st),
            iv_mppt_individual := merge_unless (owns_chargers d) (rw_mppt_individual raw) (iv_mppt_individual st),
            iv_mppt_chargers := merge_unless (owns_chargers d) (rw_mppt_chargers raw) (iv_mppt_chargers st),
            iv_pv_inverters := merge_unless (owns_pv d) (rw_pv_inverters raw) (iv_pv_inverters st),
            iv_pv_inverter_individual := merge_unless (owns_pv d) (rw_pv_inverter_individual raw)
              (iv_pv_inverter_individual st),
            iv_batteries := merge_unless (owns_batteries d) (rw_batteries raw) (iv_batteries st),
            iv_loads := merge_unless (cd_acloads d \<noteq> []) (rw_loads raw) (iv_loads st)\<rparr>
      in if owns_chargers d then st else st\<lparr>iv_mppt_total := map_option f64_sum (iv_mppt_individual st)\<rparr>)"

definition merged_state :: "moment \<Rightarrow> cerbo_devices \<Rightarrow> raw_state \<Rightarrow> inverter_state \<Rightarrow> inverter_state" where
  "merged_state mt d raw st =
     (let st = merge_live d raw st;
          st = st\<lparr>iv_controller := merge_controller (mt_millis mt) raw (iv_controller st)\<rparr>
      in apply_cerbo_to_state d st)"

section \<open>Alerts\<close>

definition THRESHOLD_LOAD_W :: f64 where "THRESHOLD_LOAD_W = Finite 1500"
definition THRESHOLD_CONSUMPTION_W :: f64 where "THRESHOLD_CONSUMPTION_W = Finite 1500"
definition THRESHOLD_WATER_CM :: f64 where "THRESHOLD_WATER_CM = Finite 23"
definition THRESHOLD_SOLAR_W :: f64 where "THRESHOLD_SOLAR_W = Finite 3000"
definition NOTIFICATION_COOLDOWN :: nat where "NOTIFICATION_COOLDOWN = seconds 300"

definition fmt_watts :: "f64 \<Rightarrow> string" where
  "fmt_watts v = (if f64_le (Finite 1000) v then f64_fixed 1 (f64_div_pos v 1000) @ ''kW'' else f64_fixed 0 v @ ''W'')"

record alert =
  at_triggered :: bool
  at_last_alert :: "nat option"
  at_last_value :: "f64 option"

definition new_alert :: alert where
  "new_alert = \<lparr>at_triggered = False, at_last_alert = None, at_last_value = None\<rparr>"

definition should_alert :: "nat \<Rightarrow> alert \<Rightarrow> alert \<times> bool" where
  "should_alert now a = (case at_last_alert a of
       None \<Rightarrow> (a\<lparr>at_triggered := True, at_last_alert := Some now\<rparr>, True)
     | Some before \<Rightarrow> if NOTIFICATION_COOLDOWN < now - before then (a\<lparr>at_last_alert := Some now\<rparr>, True) else (a, False))"

fun f64_abs :: "f64 \<Rightarrow> f64" where
  "f64_abs (Finite x) = Finite \<bar>x\<bar>" | "f64_abs (Infinite s) = Infinite False" | "f64_abs NaN = NaN"

definition should_alert_value :: "f64 \<Rightarrow> alert \<Rightarrow> alert \<times> bool" where
  "should_alert_value v a = (case at_last_value a of
       None \<Rightarrow> (a\<lparr>at_triggered := True, at_last_value := Some v\<rparr>, True)
     | Some before \<Rightarrow>
         if f64_less (Finite (1 / 2 ^ 52)) (f64_abs (f64_sub before v))
         then (a\<lparr>at_triggered := True, at_last_value := Some v\<rparr>, True) else (a, False))"

definition check_resolved :: "alert \<Rightarrow> alert" where
  "check_resolved a = (if at_triggered a then new_alert else a)"

record alerts =
  ls_high_consumption :: alert
  ls_low_water :: alert
  ls_high_solar :: alert
  ls_high_load :: "string \<rightharpoonup> alert"

definition no_alerts :: alerts where
  "no_alerts = \<lparr>ls_high_consumption = new_alert, ls_low_water = new_alert, ls_high_solar = new_alert,
     ls_high_load = Map.empty\<rparr>"

datatype desk_event =
    DkState inverter_state
  | DkOverride override_status
  | DkNotification notification
  | DkClear string
  | DkAlert string string \<comment> \<open>the operating system's banner and the \<^verbatim>\<open>notification\<close> event\<close>
  | DkNative string string \<comment> \<open>the banner alone\<close>

definition system_banner :: "moment \<Rightarrow> string \<Rightarrow> string \<Rightarrow> string \<Rightarrow> desk_event" where
  "system_banner mt i title body = DkNotification \<lparr>mn_id = i, mn_level = ''alarm'', mn_title = title, mn_body = body,
     mn_source = ''system'', mn_ts = mt_text mt\<rparr>"

text \<open>One reading against its threshold: the banner of each raised alert, then its title and body.\<close>

type_synonym raised = "(string \<times> string \<times> string) list" \<comment> \<open>identifier, title, body\<close>

definition load_alert :: "moment \<Rightarrow> inverter_state \<Rightarrow> string \<Rightarrow> f64 \<Rightarrow> (string \<rightharpoonup> alert) \<times> raised \<Rightarrow> (string \<rightharpoonup> alert) \<times> raised" where
  "load_alert mt st name watts = (\<lambda>(high, out).
     if \<not> f64_less THRESHOLD_LOAD_W watts then (high, out)
     else case should_alert (mt_now mt) (unwrap_or new_alert (high name)) of
         (a, raise) \<Rightarrow> (high(name \<mapsto> a),
           if raise then out @ [(''high-load'', ''High Load'',
               unwrap_or name (Option.bind (iv_load_names st) (\<lambda>m. m name)) @ '': '' @ fmt_watts watts)]
           else out))"

definition load_alerts :: "moment \<Rightarrow> inverter_state \<Rightarrow> alerts \<Rightarrow> alerts \<times> raised" where
  "load_alerts mt st al = (case iv_loads st of None \<Rightarrow> (al, [])
     | Some loads \<Rightarrow>
         (case fold (\<lambda>name acc. case loads name of None \<Rightarrow> acc | Some p \<Rightarrow> load_alert mt st name p acc) (mt_loads mt)
             (ls_high_load al, []) of
           (high, out) \<Rightarrow> (al\<lparr>ls_high_load := (\<lambda>name. case loads name of
               Some p \<Rightarrow> if f64_less THRESHOLD_LOAD_W p then high name else None
             | None \<Rightarrow> None)\<rparr>, out)))"

definition threshold_alert :: "nat \<Rightarrow> f64 \<Rightarrow> string \<times> string \<times> string \<Rightarrow> f64 option \<Rightarrow> alert \<Rightarrow> alert \<times> raised" where
  "threshold_alert now threshold message reading a = (case reading of None \<Rightarrow> (a, [])
     | Some v \<Rightarrow> if f64_less threshold v
         then (case should_alert now a of (a, raise) \<Rightarrow> (a, if raise then [message] else []))
         else (check_resolved a, []))"

definition water_alert :: "f64 option \<Rightarrow> alert \<Rightarrow> alert \<times> raised" where
  "water_alert reading a = (case reading of None \<Rightarrow> (a, [])
     | Some v \<Rightarrow> if f64_less v THRESHOLD_WATER_CM
         then (case should_alert_value v a of (a, raise) \<Rightarrow>
           (a, if raise then [(''low-water'', ''Low Water'', ''Water level: '' @ f64_display v @ '' cm'')] else []))
         else (check_resolved a, []))"

definition raise_alerts :: "moment \<Rightarrow> inverter_state \<Rightarrow> alerts \<Rightarrow> alerts \<times> raised" where
  "raise_alerts mt st al =
     (case load_alerts mt st al of (al, out1) \<Rightarrow>
        (case threshold_alert (mt_now mt) THRESHOLD_CONSUMPTION_W (''high-consumption'', ''High Consumption'',
            ''Consumption: '' @ fmt_watts (unwrap_or NaN (iv_tt st))) (iv_tt st) (ls_high_consumption al) of (hc, out2) \<Rightarrow>
          (case water_alert (we_water_level (iv_water_ev st)) (ls_low_water al) of (lw, out3) \<Rightarrow>
            (case threshold_alert (mt_now mt) THRESHOLD_SOLAR_W (''high-solar'', ''High Solar'',
                ''Solar: '' @ fmt_watts (unwrap_or NaN (iv_solar_total st))) (iv_solar_total st) (ls_high_solar al) of (hs, out4) \<Rightarrow>
              (al\<lparr>ls_high_consumption := hc, ls_low_water := lw, ls_high_solar := hs\<rparr>, out1 @ out2 @ out3 @ out4)))))"

definition alert_events :: "moment \<Rightarrow> raised \<Rightarrow> desk_event list" where
  "alert_events mt out = map (\<lambda>(i, title, body). system_banner mt i title body) out
     @ map (\<lambda>(_, title, body). DkAlert title body) out"

section \<open>Coalescing state events\<close>

definition EMIT_INTERVAL :: nat where "EMIT_INTERVAL = milliseconds 500"

record emitter =
  er_active :: bool
  er_last_emit :: "nat option"
  er_pending :: "inverter_state option"
  er_flush_scheduled :: bool

definition new_emitter :: "bool \<Rightarrow> emitter" where
  "new_emitter active = \<lparr>er_active = active, er_last_emit = None, er_pending = None, er_flush_scheduled = False\<rparr>"

definition emitter_stop :: "emitter \<Rightarrow> emitter" where
  "emitter_stop er = er\<lparr>er_active := False, er_pending := None\<rparr>"

text \<open>Whether the snapshot is sent now, and the delay of a flush it schedules.\<close>

definition queue_state :: "inverter_state \<Rightarrow> bool \<Rightarrow> nat \<Rightarrow> emitter \<Rightarrow> emitter \<times> bool \<times> nat option" where
  "queue_state snapshot force now er =
     (if \<not> er_active er then (er, False, None)
      else
        let early = (case er_last_emit er of None \<Rightarrow> None | Some t \<Rightarrow> if now - t < EMIT_INTERVAL then Some (now - t) else None)
        in case (force, early) of
            (False, Some elapsed) \<Rightarrow>
              (let er = er\<lparr>er_pending := Some snapshot\<rparr>
               in if er_flush_scheduled er then (er, False, None)
                  else (er\<lparr>er_flush_scheduled := True\<rparr>, False, Some (EMIT_INTERVAL - elapsed)))
          | _ \<Rightarrow> (er\<lparr>er_last_emit := Some now, er_pending := None\<rparr>, True, None))"

definition emit_state :: "bool \<Rightarrow> moment \<Rightarrow> inverter_state \<Rightarrow> bool \<Rightarrow> emitter \<Rightarrow> emitter \<times> desk_event list \<times> nat option" where
  "emit_state app mt snapshot force er =
     (if mt_hidden mt then (er\<lparr>er_pending := None\<rparr>, [], None)
      else if \<not> app then (er, [], None)
      else case queue_state snapshot force (mt_now mt) er of
          (er, now, delay) \<Rightarrow> (er, if now \<and> er_active er then [DkState snapshot] else [], delay))"

text \<open>The scheduled flush, when its delay is over.\<close>

definition take_pending :: "nat \<Rightarrow> emitter \<Rightarrow> emitter \<times> inverter_state option" where
  "take_pending now er =
     (let er = er\<lparr>er_flush_scheduled := False\<rparr>
      in if \<not> er_active er then (er, None)
         else (er\<lparr>er_pending := None, er_last_emit := (if er_pending er \<noteq> None then Some now else er_last_emit er)\<rparr>,
           er_pending er))"

definition flush_state :: "moment \<Rightarrow> emitter \<Rightarrow> emitter \<times> desk_event list" where
  "flush_state mt er = (case take_pending (mt_now mt) er of
       (er, None) \<Rightarrow> (er, [])
     | (er, Some snapshot) \<Rightarrow> (er, if mt_hidden mt \<or> \<not> er_active er then [] else [DkState snapshot]))"

end
