(* ===== verification/Alarms.thy ===== *)
theory Alarms
  imports Daemon
begin

text \<open>
  Alarm banners of \<^verbatim>\<open>src-tauri/src/mqtt.rs\<close>: the notification slots of the Venus platform, the raw alarm
  topics that stand in for them, and the detail of battery cells both are enriched with. A panic of the
  source is the value \<open>None\<close>.
\<close>

section \<open>Cell details\<close>

definition voltage_cell_alarm_kind :: "native \<Rightarrow> string \<Rightarrow> string option" where
  "voltage_cell_alarm_kind N description =
     (let d = nt_lower N description
      in if \<not> (contains_str ''voltage'' d \<or> contains_str ''cell'' d) then None
         else if contains_str ''high'' d then Some ''high''
         else if contains_str ''low'' d then Some ''low''
         else None)"

definition format_cell_detail :: "string option \<Rightarrow> f64 option \<Rightarrow> string option" where
  "format_cell_detail cell_id voltage =
     (case (non_empty (map_option trim cell_id), voltage) of
        (Some i, Some v) \<Rightarrow> Some (''cell '' @ i @ middle_dot @ f64_fixed 2 v @ ''V'')
      | (None, Some v) \<Rightarrow> Some (f64_fixed 2 v @ ''V'')
      | (Some i, None) \<Rightarrow> Some (''cell '' @ i)
      | _ \<Rightarrow> None)"

definition battery_cell_detail_for_alarm :: "battery \<Rightarrow> string \<Rightarrow> string option" where
  "battery_cell_detail_for_alarm b kind =
     (if kind = ''high'' then format_cell_detail (ba_max_voltage_cell_id b) (ba_max_cell_voltage b)
      else if kind = ''low'' then format_cell_detail (ba_min_voltage_cell_id b) (ba_min_cell_voltage b)
      else None)"

section \<open>Platform slots\<close>

definition named_battery :: "native \<Rightarrow> battery devices \<Rightarrow> string option \<Rightarrow> battery option" where
  "named_battery N es label = Option.bind (non_empty (map_option trim label)) (\<lambda>dn.
     find (\<lambda>b. map_option (nt_lower N) (ba_name b) = Some (nt_lower N dn)) (data_of es))"

definition service_battery :: "battery devices \<Rightarrow> string option \<Rightarrow> battery option" where
  "service_battery es service = Option.bind service (\<lambda>svc.
     map_option (sg_data \<circ> snd) (find (\<lambda>(i, _). contains_str (decimal i) svc) es))"

definition has_cells :: "battery \<Rightarrow> bool" where
  "has_cells b \<longleftrightarrow> ba_max_cell_voltage b \<noteq> None \<or> ba_min_cell_voltage b \<noteq> None
     \<or> ba_max_voltage_cell_id b \<noteq> None \<or> ba_min_voltage_cell_id b \<noteq> None"

definition only_battery :: "battery devices \<Rightarrow> battery option" where
  "only_battery es = (case filter has_cells (data_of es) of [b] \<Rightarrow> Some b
     | _ \<Rightarrow> (case data_of es of [b] \<Rightarrow> Some b | _ \<Rightarrow> None))"

definition find_battery_for_platform_notif :: "native \<Rightarrow> cerbo_devices \<Rightarrow> slot \<Rightarrow> battery option" where
  "find_battery_for_platform_notif N d s =
     or_else (named_battery N (cd_batteries d) (sl_device_name s))
       (or_else (service_battery (cd_batteries d) (sl_service s)) (only_battery (cd_batteries d)))"

definition enrich_platform_notification_body :: "native \<Rightarrow> slot \<Rightarrow> cerbo_devices \<Rightarrow> notification \<Rightarrow> notification" where
  "enrich_platform_notification_body N s d n =
     (case Option.bind (sl_description s) (voltage_cell_alarm_kind N) of
        None \<Rightarrow> n
      | Some kind \<Rightarrow>
          (case Option.bind (find_battery_for_platform_notif N d s) (\<lambda>b. battery_cell_detail_for_alarm b kind) of
             None \<Rightarrow> n
           | Some detail \<Rightarrow>
               if trim (mn_body n) = [] then n\<lparr>mn_body := detail\<rparr>
               else if \<not> contains_str detail (mn_body n) then n\<lparr>mn_body := trim (mn_body n) @ middle_dot @ detail\<rparr>
               else n))"

definition parse_platform_notif_topic :: "string \<Rightarrow> (nat \<times> nat \<times> string) option" where
  "parse_platform_notif_topic topic = (case slashes topic of
       n # _ # p # i # ns # k # field # _ \<Rightarrow>
         if n \<noteq> ''N'' \<or> p \<noteq> ''platform'' \<or> ns \<noteq> ''Notifications'' then None
         else (case (parse_u32 i, parse_u32 k) of
             (Some inst, Some slot) \<Rightarrow> if 20 < slot then None else Some (inst, slot, field)
           | _ \<Rightarrow> None)
     | _ \<Rightarrow> None)"

text \<open>The table of slots is keyed by the slot number alone.\<close>

definition touched_slot :: "nat \<Rightarrow> nat \<Rightarrow> (nat \<times> slot) list \<Rightarrow> slot" where
  "touched_slot inst k slots = (unwrap_or (new_slot inst k) (map_of slots k))\<lparr>sl_platform_instance := inst, sl_slot := k\<rparr>"

definition slot_banner :: "native \<Rightarrow> cerbo_devices \<Rightarrow> slot \<Rightarrow> notification option" where
  "slot_banner N d s = map_option (enrich_platform_notification_body N s d) (to_notification (nt_texts N) s)"

definition platform_message :: "native \<Rightarrow> bool \<Rightarrow> cerbo_devices \<Rightarrow> string \<Rightarrow> string \<Rightarrow> (nat \<times> slot) list \<times> bool
    \<Rightarrow> ((nat \<times> slot) list \<times> bool) \<times> desk_event list" where
  "platform_message N app d topic payload = (\<lambda>(slots, seen).
     case parse_platform_notif_topic topic of
       None \<Rightarrow> ((slots, seen), [])
     | Some (inst, k, field) \<Rightarrow> (case nt_value N payload of
           None \<Rightarrow> ((slots, True), [])
         | Some json \<Rightarrow>
             (let s = apply_field (nt_texts N) field json (touched_slot inst k slots)
              in ((AList.update k s slots, True),
                if \<not> app then [] else case slot_banner N d s of
                    Some n \<Rightarrow> [DkNotification n] | None \<Rightarrow> [DkClear (banner_id s)]))))"

definition reemit_platform :: "native \<Rightarrow> bool \<Rightarrow> cerbo_devices \<Rightarrow> (nat \<times> slot) list \<Rightarrow> desk_event list" where
  "reemit_platform N app d slots = (if \<not> app then []
     else map DkNotification (List.map_filter (slot_banner N d) (map snd slots)))"

text \<open>The user's dismissal of a slot.\<close>

definition dismiss_slot :: "nat \<Rightarrow> nat \<Rightarrow> (nat \<times> slot) list \<Rightarrow> (nat \<times> slot) list" where
  "dismiss_slot inst k slots = AList.update k ((touched_slot inst k slots)\<lparr>sl_user_dismissed := True,
     sl_acknowledged := Some True, sl_silenced := Some True\<rparr>) slots"

section \<open>Raw alarms\<close>

definition rsplit_once :: "char \<Rightarrow> string \<Rightarrow> (string \<times> string) option" where
  "rsplit_once c s = (if c \<notin> set s then None
     else let t = rev (takeWhile (\<lambda>x. x \<noteq> c) (rev s)) in Some (take (length s - length t - 1) s, t))"

definition part :: "nat \<Rightarrow> string list \<Rightarrow> string option" where
  "part i parts = (if i < length parts then Some (parts ! i) else None)"

definition legacy_service :: "string \<Rightarrow> string \<Rightarrow> string \<times> nat option \<times> string" where
  "legacy_service service_inst alarm = (case rsplit_once CHR ''_'' service_inst of
       Some (svc, i) \<Rightarrow> (case parse_u32 i of Some inst \<Rightarrow> (svc, Some inst, alarm) | None \<Rightarrow> (service_inst, None, alarm))
     | None \<Rightarrow> (service_inst, None, alarm))"

definition alarm_anywhere :: "string list \<Rightarrow> (string \<times> nat option \<times> string) option" where
  "alarm_anywhere parts = (case find (\<lambda>i. parts ! i = ''Alarms'') [0..<length parts] of
       None \<Rightarrow> None
     | Some pos \<Rightarrow>
         (case part (pos + 1) parts of
            None \<Rightarrow> None
          | Some alarm \<Rightarrow>
              if pos = 0 then None
              else (case parse_u32 (parts ! (pos - 1)) of
                  Some inst \<Rightarrow> if pos = 1 then None else Some (parts ! (pos - 2), Some inst, alarm)
                | None \<Rightarrow> Some (parts ! (pos - 1), None, alarm))))"

definition parse_alarm_topic :: "string \<Rightarrow> (string \<times> nat option \<times> string) option" where
  "parse_alarm_topic topic =
     (let parts = slashes topic
      in if length parts < 5 \<or> hd parts \<noteq> ''N'' then None
         else if parts ! 3 = ''Alarms'' then Some (legacy_service (parts ! 2) (parts ! 4))
         else if parts ! 4 = ''Alarms'' then map_option (\<lambda>alarm. (parts ! 2, parse_u32 (parts ! 3), alarm)) (part 5 parts)
         else alarm_anywhere parts)"

text \<open>Words of a camel-case name, by characters.\<close>

fun camel_words :: "native \<Rightarrow> nat list \<Rightarrow> nat list \<Rightarrow> nat list list" where
  "camel_words N current [] = (if current = [] then [] else [current])"
| "camel_words N current (c # cs) =
     (if nt_upper N c \<and> current \<noteq> [] then current # camel_words N [c] cs else camel_words N (current @ [c]) cs)"

definition split_camel :: "native \<Rightarrow> string \<Rightarrow> string list" where
  "split_camel N s = map (\<lambda>w. concat (map utf8_char w)) (camel_words N [] (chars s))"

text \<open>\<^verbatim>\<open>words.drain(1..)\<close> panics on an empty list.\<close>

definition pretty_alarm_name :: "native \<Rightarrow> string \<Rightarrow> string option" where
  "pretty_alarm_name N alarm = (case split_camel N alarm of
       [] \<Rightarrow> None
     | w # ws \<Rightarrow> Some (w @ concat (map (\<lambda>v. '' '' @ nt_lower N v) ws) @ '' alarm''))"

definition alarm_title :: "native \<Rightarrow> string \<Rightarrow> string option" where
  "alarm_title N alarm = map_option (\<lambda>pretty. unwrap_or pretty (strip_suffix '' alarm'' pretty)) (pretty_alarm_name N alarm)"

definition device_display :: "('a \<Rightarrow> string option) \<Rightarrow> 'a devices \<Rightarrow> nat \<Rightarrow> string option" where
  "device_display name es i = Option.bind (map_of es i) (name \<circ> sg_data)"

definition resolve_alarm_device_name :: "cerbo_devices \<Rightarrow> string \<Rightarrow> nat option \<Rightarrow> string option" where
  "resolve_alarm_device_name d service inst = Option.bind inst (\<lambda>i.
     if service = ''battery'' then device_display ba_name (cd_batteries d) i
     else if service = ''solarcharger'' then device_display mc_name (cd_chargers d) i
     else if service = ''pvinverter'' then device_display pi_name (cd_pv_inverters d) i
     else if service = ''acload'' then device_display load_display_name (cd_acloads d) i
     else if service = ''vebus'' then Some (''VE.Bus '' @ decimal i)
     else Some (service @ '' '' @ decimal i))"

definition alarm_device :: "cerbo_devices \<Rightarrow> string \<Rightarrow> nat option \<Rightarrow> string" where
  "alarm_device d service inst = unwrap_or (case inst of Some i \<Rightarrow> service @ '' '' @ decimal i | None \<Rightarrow> service)
     (resolve_alarm_device_name d service inst)"

definition enrich_alarm_body_with_cell_detail :: "native \<Rightarrow> cerbo_devices \<Rightarrow> string \<Rightarrow> nat option \<Rightarrow> string \<Rightarrow> string \<Rightarrow> string" where
  "enrich_alarm_body_with_cell_detail N d service inst title device =
     (if service \<noteq> ''battery'' then device
      else case (voltage_cell_alarm_kind N title, inst) of
          (Some kind, Some i) \<Rightarrow>
            (case Option.bind (map_of (cd_batteries d) i) (\<lambda>e. battery_cell_detail_for_alarm (sg_data e) kind) of
               None \<Rightarrow> device
             | Some detail \<Rightarrow> if trim device = [] then detail else trim device @ middle_dot @ detail)
        | _ \<Rightarrow> device)"

definition alarm_banner :: "native \<Rightarrow> cerbo_devices \<Rightarrow> string \<Rightarrow> nat \<Rightarrow> string \<Rightarrow> nat option \<Rightarrow> string \<Rightarrow> desk_event" where
  "alarm_banner N d topic v service inst title = DkNotification \<lparr>mn_id = ''victron-'' @ topic,
     mn_level = (if v = 2 then ''alarm'' else ''warning''), mn_title = title,
     mn_body = enrich_alarm_body_with_cell_detail N d service inst title (alarm_device d service inst),
     mn_source = ''victron'', mn_ts = []\<rparr>"

definition alarm_value :: "native \<Rightarrow> string \<Rightarrow> nat" where
  "alarm_value N payload = unwrap_or 0 (Option.bind (envelope N payload) as_u64) mod 256"

definition alarm_message :: "native \<Rightarrow> bool \<Rightarrow> cerbo_devices \<Rightarrow> bool \<Rightarrow> string \<Rightarrow> string \<Rightarrow> (string \<times> nat) list
    \<Rightarrow> ((string \<times> nat) list \<times> desk_event list) option" where
  "alarm_message N app d seen topic payload alarms =
     (if seen then Some (alarms, [])
      else
        let v = alarm_value N payload; alarms' = AList.update topic v alarms
        in if unwrap_or 0 (map_of alarms topic) = v then Some (alarms', [])
           else case parse_alarm_topic topic of
               None \<Rightarrow> Some (alarms', [])
             | Some (service, inst, alarm) \<Rightarrow>
                 if \<not> app then Some (alarms', [])
                 else if v = 1 \<or> v = 2
                 then map_option (\<lambda>title. (alarms', [alarm_banner N d topic v service inst title])) (alarm_title N alarm)
                 else Some (alarms', [DkClear (''victron-'' @ topic)]))"

definition reemit_alarm :: "native \<Rightarrow> cerbo_devices \<Rightarrow> string \<times> nat \<Rightarrow> desk_event list option" where
  "reemit_alarm N d = (\<lambda>(topic, v).
     case parse_alarm_topic topic of
       None \<Rightarrow> Some []
     | Some (service, inst, alarm) \<Rightarrow>
         if service \<noteq> ''battery'' then Some []
         else map_option (\<lambda>title. if voltage_cell_alarm_kind N title = None then []
             else [alarm_banner N d topic v service inst title]) (alarm_title N alarm))"

fun reemit_each :: "native \<Rightarrow> cerbo_devices \<Rightarrow> (string \<times> nat) list \<Rightarrow> desk_event list option" where
  "reemit_each N d [] = Some []"
| "reemit_each N d (a # as) = Option.bind (reemit_alarm N d a) (\<lambda>es. map_option ((@) es) (reemit_each N d as))"

definition reemit_alarms :: "native \<Rightarrow> bool \<Rightarrow> cerbo_devices \<Rightarrow> bool \<Rightarrow> (string \<times> nat) list \<Rightarrow> desk_event list option" where
  "reemit_alarms N app d seen alarms = (if seen \<or> \<not> app then Some []
     else reemit_each N d (filter (\<lambda>(_, v). v = 1 \<or> v = 2) alarms))"

end
