(* ===== verification/CerboClient.thy ===== *)
theory CerboClient
  imports Alarms
begin

text \<open>
  The MQTT client of \<^verbatim>\<open>src-tauri/src/mqtt.rs\<close>: \<^verbatim>\<open>handle_message\<close>, which dispatches each message of the
  broker, the flush of coalesced state events, and the commands. A message is one step; its result is
  \<open>None\<close> if the code panics. What the broker delivers and the outcome of each publish are inputs.
\<close>

section \<open>State\<close>

record desk =
  dk_state :: inverter_state
  dk_alerts :: alerts
  dk_alarms :: "(string \<times> nat) list"
  dk_platform :: "(nat \<times> slot) list"
  dk_platform_seen :: bool
  dk_cerbo :: cerbo_devices
  dk_cache :: ev_cache
  dk_emitter :: emitter
  dk_timers :: "nat list" \<comment> \<open>when the spawned flushes are due\<close>

definition new_desk :: desk where
  "new_desk = \<lparr>dk_state = default_state, dk_alerts = no_alerts, dk_alarms = [], dk_platform = [], dk_platform_seen = False,
     dk_cerbo = no_devices, dk_cache = new_ev_cache, dk_emitter = new_emitter True, dk_timers = []\<rparr>"

record config =
  cf_water :: "(nat option \<times> nat option \<times> nat option) option" \<comment> \<open>tank, pump, valve\<close>
  cf_ev :: "(nat option \<times> nat option) option"
  cf_app :: bool \<comment> \<open>an application handle is set\<close>

text \<open>\<^verbatim>\<open>serde_json::from_str\<close> at the types of the daemon's messages.\<close>

record decoders =
  in_native :: native
  in_raw :: "string \<Rightarrow> raw_state option"
  in_override :: "string \<Rightarrow> override_status option"
  in_notification :: "string \<Rightarrow> notification option"

definition send_state :: "config \<Rightarrow> moment \<Rightarrow> bool \<Rightarrow> desk \<Rightarrow> desk \<times> desk_event list" where
  "send_state cf mt force dk = (case emit_state (cf_app cf) mt (dk_state dk) force (dk_emitter dk) of
     (er, es, delay) \<Rightarrow> (dk\<lparr>dk_emitter := er,
       dk_timers := dk_timers dk @ (case delay of None \<Rightarrow> [] | Some t \<Rightarrow> [mt_now mt + t])\<rparr>, es))"

section \<open>Messages of the daemon\<close>

definition process_state_update :: "config \<Rightarrow> moment \<Rightarrow> raw_state \<Rightarrow> desk \<Rightarrow> desk \<times> desk_event list" where
  "process_state_update cf mt raw dk =
     (let st = merged_state mt (dk_cerbo dk) raw (dk_state dk);
          (al, out) = (if mt_hidden mt then (dk_alerts dk, []) else raise_alerts mt st (dk_alerts dk));
          st = st\<lparr>iv_water_ev := restore_into (dk_cache dk) (iv_water_ev st)\<rparr>;
          (dk, es) = send_state cf mt False (dk\<lparr>dk_alerts := al, dk_state := st\<rparr>)
      in (dk, (if cf_app cf then alert_events mt out else []) @ es))"

definition state_message :: "decoders \<Rightarrow> config \<Rightarrow> moment \<Rightarrow> string \<Rightarrow> bool \<Rightarrow> desk \<Rightarrow> desk \<times> desk_event list" where
  "state_message D cf mt payload retained dk = (case in_raw D payload of
       None \<Rightarrow> (dk, [])
     | Some raw \<Rightarrow> process_state_update cf mt (resolve_short_battery_keys (raw\<lparr>rw_ess_mode_retained := retained\<rparr>)) dk)"

definition override_message :: "decoders \<Rightarrow> config \<Rightarrow> string \<Rightarrow> desk \<Rightarrow> desk \<times> desk_event list" where
  "override_message D cf payload dk = (case in_override D payload of
       None \<Rightarrow> (dk, [])
     | Some status \<Rightarrow> (dk\<lparr>dk_state := (dk_state dk)\<lparr>iv_controller := (iv_controller (dk_state dk))
           \<lparr>ct_setpoint_override := Some status\<rparr>\<rparr>\<rparr>, if cf_app cf then [DkOverride status] else []))"

definition notification_message :: "decoders \<Rightarrow> config \<Rightarrow> string \<Rightarrow> desk_event list" where
  "notification_message D cf payload = (case in_notification D payload of
       None \<Rightarrow> []
     | Some n \<Rightarrow> if cf_app cf then [DkNotification n, DkNative (mn_title n) (mn_body n)] else [])"

section \<open>Messages of devices\<close>

definition refresh :: "config \<Rightarrow> moment \<Rightarrow> desk \<Rightarrow> desk \<times> desk_event list" where
  "refresh cf mt dk = send_state cf mt False (dk\<lparr>dk_state := apply_cerbo_to_state (dk_cerbo dk) (dk_state dk)\<rparr>)"

definition is_battery_cell_path :: "string \<Rightarrow> bool" where
  "is_battery_cell_path path \<longleftrightarrow> path \<in> {''System/MaxCellVoltage'', ''System/MinCellVoltage'',
     ''System/MaxVoltageCellId'', ''System/MinVoltageCellId''}"

definition device_message :: "native \<Rightarrow> config \<Rightarrow> moment \<Rightarrow> string \<Rightarrow> nat \<Rightarrow> string \<Rightarrow> string \<Rightarrow> desk
    \<Rightarrow> (desk \<times> desk_event list) option" where
  "device_message N cf mt kind inst path payload dk =
     (case apply_device_message N (mt_now mt) kind inst path payload (sweep_stale (mt_now mt) (dk_cerbo dk)) of
        (d, applied) \<Rightarrow>
          (let dk = dk\<lparr>dk_cerbo := d\<rparr>
           in if \<not> applied then Some (dk, [])
              else case refresh cf mt dk of (dk, es) \<Rightarrow>
                if kind = ''battery'' \<and> is_battery_cell_path path
                then map_option (\<lambda>as. (dk, es @ reemit_platform N (cf_app cf) d (dk_platform dk) @ as))
                  (reemit_alarms N (cf_app cf) d (dk_platform_seen dk) (dk_alarms dk))
                else Some (dk, es)))"

definition active_valve :: "nat option \<Rightarrow> nat option \<Rightarrow> named_device devices \<Rightarrow> nat option" where
  "active_valve preferred active_pump pumps =
     (let other = find (\<lambda>i. Some i \<noteq> active_pump) (map fst pumps)
      in case preferred of
          Some v \<Rightarrow> if pumps = [] \<or> v \<in> fst ` set pumps then Some v else other
        | None \<Rightarrow> other)"

definition water_value :: "config \<Rightarrow> cerbo_devices \<Rightarrow> string \<Rightarrow> nat \<Rightarrow> string \<Rightarrow> f64 \<Rightarrow> water_ev \<Rightarrow> water_ev" where
  "water_value cf d kind inst path v w =
     (case unwrap_or (None, None, None) (cf_water cf) of (pref_tank, pref_pump, pref_valve) \<Rightarrow>
        (let tank = resolve_active_instance pref_tank (cd_tanks d);
             pump = resolve_active_instance pref_pump (cd_pumps d);
             valve = active_valve pref_valve pump (cd_pumps d);
             on = f64_le (Finite (1 / 2)) v
         in if kind = ''tank'' \<and> path = ''Level'' \<and> Some inst = tank then w\<lparr>we_water_level := Some v\<rparr>
            else if kind = ''pump'' \<and> path = ''State'' \<and> Some inst = pump then w\<lparr>we_pump_switch := Some on\<rparr>
            else if kind = ''pump'' \<and> path = ''State'' \<and> Some inst = valve then w\<lparr>we_water_valve := Some on\<rparr>
            else if kind = ''pump'' \<and> path = ''Mode'' \<and> Some inst = pump then w\<lparr>we_water_pump_mode := Some (to_unsigned 255 v)\<rparr>
            else if kind = ''pump'' \<and> path = ''Mode'' \<and> Some inst = valve then w\<lparr>we_water_valve_mode := Some (to_unsigned 255 v)\<rparr>
            else w))"

definition change_water :: "(water_ev \<Rightarrow> water_ev) \<Rightarrow> inverter_state \<Rightarrow> inverter_state" where
  "change_water f st = st\<lparr>iv_water_ev := f (iv_water_ev st)\<rparr>"

definition water_message :: "native \<Rightarrow> config \<Rightarrow> moment \<Rightarrow> string \<Rightarrow> nat \<Rightarrow> string \<Rightarrow> string \<Rightarrow> desk \<Rightarrow> desk \<times> desk_event list" where
  "water_message N cf mt kind inst path payload dk =
     (let d = apply_named_discovery N (mt_now mt) kind inst path payload (sweep_stale (mt_now mt) (dk_cerbo dk));
          dk = dk\<lparr>dk_cerbo := d\<rparr>;
          dk = (if path \<in> {''Level'', ''State'', ''Mode''}
            then case parse_cerbo_value N payload of None \<Rightarrow> dk
              | Some v \<Rightarrow> dk\<lparr>dk_state := change_water (water_value cf d kind inst path v) (dk_state dk)\<rparr>
            else dk)
      in refresh cf mt dk)"

definition ev_value :: "config \<Rightarrow> moment \<Rightarrow> string \<Rightarrow> nat \<Rightarrow> string \<Rightarrow> f64 \<Rightarrow> desk \<Rightarrow> desk \<times> bool" where
  "ev_value cf mt kind inst path v dk =
     (let effective = (resolve_active_instance (Option.bind (cf_ev cf) fst) (cd_evs (dk_cerbo dk)),
            resolve_active_instance (Option.bind (cf_ev cf) snd) (cd_evchargers (dk_cerbo dk)))
      in case apply_ev_message (mt_now mt) kind inst path v (Some effective) (iv_water_ev (dk_state dk)) (dk_cache dk) of
          (w, c, field) \<Rightarrow> (dk\<lparr>dk_state := change_water (\<lambda>_. w) (dk_state dk), dk_cache := c\<rparr>, field \<noteq> None))"

definition ev_message :: "native \<Rightarrow> config \<Rightarrow> moment \<Rightarrow> string \<Rightarrow> nat \<Rightarrow> string \<Rightarrow> string \<Rightarrow> desk \<Rightarrow> desk \<times> desk_event list" where
  "ev_message N cf mt kind inst path payload dk =
     (let d = apply_named_discovery N (mt_now mt) kind inst path payload (sweep_stale (mt_now mt) (dk_cerbo dk));
          dk = dk\<lparr>dk_cerbo := d\<rparr>;
          (dk, applied) = (if path \<in> {''Soc'', ''Ac/Power''}
            then case parse_cerbo_value N payload of None \<Rightarrow> (dk, False) | Some v \<Rightarrow> ev_value cf mt kind inst path v dk
            else (dk, False));
          dk = dk\<lparr>dk_state := apply_cerbo_to_state d (dk_state dk)\<rparr>
      in if applied \<or> unwrap_or [] (we_discovered (iv_water_ev (dk_state dk))) \<noteq> [] then send_state cf mt False dk
         else (dk, []))"

definition acload_message :: "native \<Rightarrow> config \<Rightarrow> moment \<Rightarrow> nat \<Rightarrow> string \<Rightarrow> string \<Rightarrow> desk \<Rightarrow> desk \<times> desk_event list" where
  "acload_message N cf mt inst path payload dk =
     (case apply_acload_message N (mt_now mt) inst path payload (sweep_stale (mt_now mt) (dk_cerbo dk)) of
        (d, applied) \<Rightarrow> (let dk = dk\<lparr>dk_cerbo := d\<rparr> in if applied then refresh cf mt dk else (dk, [])))"

section \<open>Dispatch\<close>

definition handle_platform :: "native \<Rightarrow> config \<Rightarrow> string \<Rightarrow> string \<Rightarrow> desk \<Rightarrow> desk \<times> desk_event list" where
  "handle_platform N cf topic payload dk =
     (case platform_message N (cf_app cf) (dk_cerbo dk) topic payload (dk_platform dk, dk_platform_seen dk) of
        ((slots, seen), es) \<Rightarrow> (dk\<lparr>dk_platform := slots, dk_platform_seen := seen\<rparr>, es))"

definition handle_alarm :: "native \<Rightarrow> config \<Rightarrow> string \<Rightarrow> string \<Rightarrow> desk \<Rightarrow> (desk \<times> desk_event list) option" where
  "handle_alarm N cf topic payload dk = map_option (\<lambda>(alarms, es). (dk\<lparr>dk_alarms := alarms\<rparr>, es))
     (alarm_message N (cf_app cf) (dk_cerbo dk) (dk_platform_seen dk) topic payload (dk_alarms dk))"

definition device_topic :: "native \<Rightarrow> config \<Rightarrow> moment \<Rightarrow> string \<Rightarrow> string \<Rightarrow> desk \<Rightarrow> (desk \<times> desk_event list) option" where
  "device_topic N cf mt topic payload dk = (case parse_device_topic topic of
       Some (kind, inst, path) \<Rightarrow> device_message N cf mt kind inst path payload dk
     | None \<Rightarrow> (case parse_water_topic topic of
         Some (kind, inst, path) \<Rightarrow> Some (water_message N cf mt kind inst path payload dk)
       | None \<Rightarrow> (case parse_ev_topic topic of
           Some (kind, inst, path) \<Rightarrow> Some (ev_message N cf mt kind inst path payload dk)
         | None \<Rightarrow> (case parse_acload_topic topic of
             Some (inst, path) \<Rightarrow> Some (acload_message N cf mt inst path payload dk)
           | None \<Rightarrow> Some (dk, [])))))"

definition handle_message :: "decoders \<Rightarrow> config \<Rightarrow> moment \<Rightarrow> string \<Rightarrow> string \<Rightarrow> bool \<Rightarrow> desk \<Rightarrow> (desk \<times> desk_event list) option" where
  "handle_message D cf mt topic payload retained dk =
     (if topic = ''inverter/state'' then Some (state_message D cf mt payload retained dk)
      else if topic = ''inverter/setpoint_override'' then Some (override_message D cf payload dk)
      else if topic = ''inverter/notifications'' then Some (dk, notification_message D cf payload)
      else if strip_prefix ''N/'' topic = None then Some (dk, [])
      else if contains_str ''/platform/'' topic \<and> contains_str ''/Notifications/'' topic
      then Some (handle_platform (in_native D) cf topic payload dk)
      else if contains_str ''/Alarms/'' topic then handle_alarm (in_native D) cf topic payload dk
      else device_topic (in_native D) cf mt topic payload dk)"

text \<open>A flush that is due, and the end of the client.\<close>

definition flush :: "moment \<Rightarrow> desk \<Rightarrow> desk \<times> desk_event list" where
  "flush mt dk = (case flush_state mt (dk_emitter dk) of (er, es) \<Rightarrow> (dk\<lparr>dk_emitter := er, dk_timers := tl (dk_timers dk)\<rparr>, es))"

definition stop_client :: "desk \<Rightarrow> desk" where "stop_client dk = dk\<lparr>dk_emitter := emitter_stop (dk_emitter dk)\<rparr>"

section \<open>Commands\<close>

datatype qos = AtMostOnce | AtLeastOnce

text \<open>The portal, whether a client is connected, and the outcome of each publish.\<close>

record connection =
  cn_portal :: "string option"
  cn_client :: bool
  cn_send :: "string \<times> qos \<times> string \<Rightarrow> unit res"

definition publish :: "connection \<Rightarrow> string \<Rightarrow> qos \<Rightarrow> string \<Rightarrow> string \<Rightarrow> (string \<times> qos \<times> string) list \<times> unit res" where
  "publish cn topic q payload context =
     ([(topic, q, payload)], map_err (\<lambda>e. context @ e) (cn_send cn (topic, q, payload)))"

definition em_dash :: string where "em_dash = [CHR 0x20, CHR 0xE2, CHR 0x80, CHR 0x94, CHR 0x20]"

definition flag_state :: "desk \<Rightarrow> string \<Rightarrow> bool option" where
  "flag_state dk key = Option.bind (ct_booleans (iv_controller (dk_state dk))) (\<lambda>flags. flags key)"

definition acknowledge_victron_notification :: "config \<Rightarrow> connection \<Rightarrow> nat \<Rightarrow> nat \<Rightarrow> desk
    \<Rightarrow> desk \<times> desk_event list \<times> (string \<times> qos \<times> string) list \<times> unit res" where
  "acknowledge_victron_notification cf cn inst k dk =
     (let dk = dk\<lparr>dk_platform := dismiss_slot inst k (dk_platform dk)\<rparr>;
          es = (if cf_app cf then [DkClear (banner inst k)] else [])
      in case non_empty (cn_portal cn) of
          None \<Rightarrow> (dk, es, [], Err (''Cerbo portal ID not configured'' @ em_dash @ ''cannot acknowledge on Venus''))
        | Some portal \<Rightarrow>
            if \<not> cn_client cn then (dk, es, [], Err (''MQTT client not connected'' @ em_dash @ ''cannot acknowledge on Venus''))
            else
              let base = ''W/'' @ portal @ ''/platform/'' @ decimal inst @ ''/Notifications/'';
                  one = [CHR ''{'', CHR 0x22] @ ''value'' @ [CHR 0x22] @ '':1}'';
                  fields = map (\<lambda>f. (base @ decimal k @ ''/'' @ f, AtLeastOnce, one)) [''Silenced'', ''Acknowledged'']
              in (case publish cn (base @ ''AcknowledgeAll'') AtLeastOnce one ''Cerbo AcknowledgeAll publish failed: '' of
                    (final, r) \<Rightarrow> (dk, es, fields @ final, r)))"

definition resolve_water_mode_instance :: "config \<Rightarrow> string \<Rightarrow> nat res" where
  "resolve_water_mode_instance cf which =
     (if which \<noteq> ''pump'' \<and> which \<noteq> ''valve'' then Err (''unknown water device '' @ [CHR 0x27] @ which @ [CHR 0x27])
      else case unwrap_or (None, None, None) (cf_water cf) of
          (_, p, v) \<Rightarrow> Ok (if which = ''valve'' then unwrap_or 2 v else unwrap_or 1 p))"

definition water_mode_write_topic :: "string \<Rightarrow> nat \<Rightarrow> string" where
  "water_mode_write_topic portal i = ''W/'' @ portal @ ''/pump/'' @ decimal i @ ''/Mode''"

definition set_water_mode :: "native \<Rightarrow> config \<Rightarrow> connection \<Rightarrow> string \<Rightarrow> nat \<Rightarrow> (string \<times> qos \<times> string) list \<times> unit res" where
  "set_water_mode N cf cn which m =
     (if 2 < m then ([], Err (''invalid mode '' @ decimal m))
      else case resolve_water_mode_instance cf which of
          Err e \<Rightarrow> ([], Err e)
        | Ok i \<Rightarrow> (case non_empty (cn_portal cn) of
              None \<Rightarrow> ([], Err (''Cerbo portal ID not configured'' @ em_dash @ ''cannot set water mode''))
            | Some portal \<Rightarrow>
                if \<not> cn_client cn then ([], Err (''MQTT client not connected'' @ em_dash @ ''cannot set water mode''))
                else publish cn (water_mode_write_topic portal i) AtLeastOnce
                  (tx_json (nt_texts N) (JObject [(''value'', JNumber (NInt (int m)))])) ''Cerbo water Mode publish failed: ''))"

definition request_setpoint_override :: "native \<Rightarrow> connection \<Rightarrow> int option \<Rightarrow> string \<Rightarrow> desk
    \<Rightarrow> (string \<times> qos \<times> string) list \<times> unit res" where
  "request_setpoint_override N cn v request_id dk =
     (if ct_setpoint_override (iv_controller (dk_state dk)) = None
      then ([], Err ''Waiting for inverter-control override support on Cerbo'')
      else if \<not> cn_client cn then ([], Err ''Cerbo MQTT is not connected'')
      else publish cn ''inverter/cmd/setpoint_override'' AtMostOnce
        (tx_json (nt_texts N) (JObject [(''request_id'', JString request_id),
           (''value'', case v of None \<Rightarrow> JNull | Some n \<Rightarrow> JNumber (NInt n))])) ''Could not send setpoint override: '')"

text \<open>The age of the mode's observation must lie in \<^verbatim>\<open>0.0..=30.0\<close> seconds.\<close>

definition ess_fresh :: "int \<Rightarrow> controller \<Rightarrow> bool" where
  "ess_fresh millis ct \<longleftrightarrow> Option.bind (ct_ess_mode ct) em_selection_supported = Some True
     \<and> (case ct_ess_mode_observed_at ct of None \<Rightarrow> False
        | Some t \<Rightarrow> (let age = f64_sub (clock_seconds millis) t in f64_le (Finite 0) age \<and> f64_le age (Finite 30)))"

definition publish_command :: "native \<Rightarrow> connection \<Rightarrow> int \<Rightarrow> string \<Rightarrow> json \<Rightarrow> desk \<Rightarrow> (string \<times> qos \<times> string) list \<times> unit res" where
  "publish_command N cn millis action payload dk =
     (case (if action = ''set_ess_mode'' then rbind (validate_ess_selection payload) (\<lambda>_.
              if ess_fresh millis (iv_controller (dk_state dk)) then Ok ()
              else Err ''Update inverter-control or wait for fresh ESS telemetry'') else Ok ()) of
        Err e \<Rightarrow> ([], Err e)
      | Ok _ \<Rightarrow>
          (let payload = prepare_command action payload (flag_state dk)
           in if \<not> cn_client cn then ([], Err ''MQTT client not connected'')
              else publish cn (''inverter/cmd/'' @ action) (if action = ''set_ess_mode'' then AtMostOnce else AtLeastOnce)
                (if is_null payload then [] else tx_json (nt_texts N) payload) []))"

end
