(* ===== verification/DaemonIsolation.thy ===== *)
theory DaemonIsolation
  imports CerboClient
begin

text \<open>
  Who owns a tile of the dashboard: the readings the daemon's message can never change, and those it can
  change only while no discovered device provides them.
\<close>

section \<open>The overlay by field\<close>

definition bank_shunt :: "cerbo_devices \<Rightarrow> battery option" where
  "bank_shunt d = find_shunt (map hide_time_to_go (data_of (cd_batteries d)))"

lemma is_shunt_hidden [simp]: "ba_name (hide_time_to_go b) = ba_name b"
  by (simp add: hide_time_to_go_def)

lemma bank_shunt_None: "bank_shunt d = None \<longleftrightarrow> \<not> has_shunt d"
  by (auto simp: bank_shunt_def find_shunt_def has_shunt_def find_None_iff list_ex_iff)

lemma overlay_bank_fields:
  "iv_battery_soc (overlay_batteries d st) = (case bank_shunt d of None \<Rightarrow> iv_battery_soc st
     | Some b \<Rightarrow> or_else (map_option voltage_soc (ba_voltage b)) (iv_battery_soc st))"
  "iv_battery_voltage (overlay_batteries d st) = (case bank_shunt d of None \<Rightarrow> iv_battery_voltage st
     | Some b \<Rightarrow> or_else (ba_voltage b) (iv_battery_voltage st))"
  "iv_battery_current (overlay_batteries d st) = (case bank_shunt d of None \<Rightarrow> iv_battery_current st
     | Some b \<Rightarrow> Some (unwrap_or (Finite 0) (ba_current b)))"
  "iv_battery_power (overlay_batteries d st) = (case bank_shunt d of None \<Rightarrow> iv_battery_power st
     | Some b \<Rightarrow> Some (unwrap_or (Finite 0) (ba_power b)))"
  "iv_batteries (overlay_batteries d st) = (if cd_batteries d = [] then iv_batteries st
     else Some (listed_batteries (cd_batteries d) (map hide_time_to_go (data_of (cd_batteries d)))))"
  by (auto simp: overlay_batteries_def overlay_bank_def bank_shunt_def data_of_def find_shunt_def Let_def split: option.splits)

lemma apply_cerbo_fields:
  "iv_battery_soc (apply_cerbo_to_state d st) = iv_battery_soc (overlay_batteries d st)"
  "iv_battery_voltage (apply_cerbo_to_state d st) = iv_battery_voltage (overlay_batteries d st)"
  "iv_battery_current (apply_cerbo_to_state d st) = iv_battery_current (overlay_batteries d st)"
  "iv_battery_power (apply_cerbo_to_state d st) = iv_battery_power (overlay_batteries d st)"
  "iv_batteries (apply_cerbo_to_state d st) = iv_batteries (overlay_batteries d st)"
  "iv_mppt_individual (apply_cerbo_to_state d st) = iv_mppt_individual st"
  "iv_pv_inverter_individual (apply_cerbo_to_state d st) = iv_pv_inverter_individual st"
  "iv_controller (apply_cerbo_to_state d st) = iv_controller st"
  "iv_gateway_snapshot (apply_cerbo_to_state d st) = iv_gateway_snapshot st"
  "iv_cached_snapshot (apply_cerbo_to_state d st) = iv_cached_snapshot st"
  by (simp_all add: apply_cerbo_to_state_def Let_def)

lemma apply_cerbo_solar:
  "iv_mppt_total (apply_cerbo_to_state d st) = (if owns_chargers d then Some (charger_total d) else iv_mppt_total st)"
  "iv_mppt_chargers (apply_cerbo_to_state d st) =
     (if owns_chargers d then Some (listed_chargers (cd_chargers d)) else iv_mppt_chargers st)"
  "iv_pv_inverters (apply_cerbo_to_state d st) =
     (if owns_pv d then Some (listed_pv (cd_pv_inverters d)) else iv_pv_inverters st)"
  by (simp_all add: apply_cerbo_to_state_def overlay_chargers_def overlay_pv_def owns_chargers_def owns_pv_def Let_def)

lemma apply_cerbo_solar_total:
  "owns_chargers d \<Longrightarrow> owns_pv d \<Longrightarrow> iv_solar_total (apply_cerbo_to_state d st) = Some (f64_add (charger_total d) (pv_sum d))"
  by (simp add: apply_cerbo_to_state_def overlay_solar_def owns_solar_def Let_def)

lemma apply_cerbo_loads:
  "iv_loads (apply_cerbo_to_state d st) = (if cd_acloads d = [] then iv_loads st else Some (keyed al_power (cd_acloads d)))"
  "iv_load_names (apply_cerbo_to_state d st) = (if cd_acloads d = [] then iv_load_names st
     else Some (unwrap_or Map.empty (iv_load_names st) ++ keyed load_display_name (cd_acloads d)))"
  by (simp_all add: apply_cerbo_to_state_def overlay_loads_def Let_def)

lemma apply_cerbo_water:
  "iv_water_ev (apply_cerbo_to_state d st) = (if discovered_devices d = [] then iv_water_ev st
     else (iv_water_ev st)\<lparr>we_discovered := Some (discovered_devices d)\<rparr>)"
  by (simp add: apply_cerbo_to_state_def overlay_discovered_def Let_def)

lemma apply_cerbo_mode:
  "iv_setpoint (apply_cerbo_to_state d st) = (case cd_vebus d of [] \<Rightarrow> iv_setpoint st
     | (_, e) # _ \<Rightarrow> or_else (vb_setpoint (sg_data e)) (iv_setpoint st))"
  "iv_inverter_state (apply_cerbo_to_state d st) = (case cd_vebus d of [] \<Rightarrow> iv_inverter_state st
     | (_, e) # _ \<Rightarrow> or_else (vb_inverter_state (sg_data e)) (iv_inverter_state st))"
proof -
  have t: "iv_setpoint (vebus_total v s) = iv_setpoint s" "iv_inverter_state (vebus_total v s) = iv_inverter_state s" for v s
    by (simp_all add: vebus_total_def split: option.split)
  show "iv_setpoint (apply_cerbo_to_state d st) = (case cd_vebus d of [] \<Rightarrow> iv_setpoint st
     | (_, e) # _ \<Rightarrow> or_else (vb_setpoint (sg_data e)) (iv_setpoint st))"
    by (simp add: apply_cerbo_to_state_def overlay_vebus_def vebus_mode_def vebus_l1_def vebus_l2_def t Let_def
        split: list.split)
  show "iv_inverter_state (apply_cerbo_to_state d st) = (case cd_vebus d of [] \<Rightarrow> iv_inverter_state st
     | (_, e) # _ \<Rightarrow> or_else (vb_inverter_state (sg_data e)) (iv_inverter_state st))"
    by (simp add: apply_cerbo_to_state_def overlay_vebus_def vebus_mode_def vebus_l1_def vebus_l2_def t Let_def
        split: list.split)
qed

section \<open>The merge by field\<close>

lemma merge_unless_simps [simp]: "merge_unless True x y = y" "merge_unless False x y = or_else x y"
  by (simp_all add: merge_unless_def)

lemma merge_live_frame [simp]:
  "grid_view (merge_live d raw st) = grid_view st" "iv_battery_soc (merge_live d raw st) = iv_battery_soc st"
  "iv_water_ev (merge_live d raw st) = iv_water_ev st" "iv_load_names (merge_live d raw st) = iv_load_names st"
  "iv_gateway_snapshot (merge_live d raw st) = iv_gateway_snapshot st"
  "iv_cached_snapshot (merge_live d raw st) = iv_cached_snapshot st"
  by (simp_all add: merge_live_def grid_view_def Let_def)

lemma merge_live_owned [simp]:
  "has_shunt d \<Longrightarrow> iv_battery_power (merge_live d raw st) = iv_battery_power st"
  "has_shunt d \<Longrightarrow> iv_battery_voltage (merge_live d raw st) = iv_battery_voltage st"
  "has_shunt d \<Longrightarrow> iv_battery_current (merge_live d raw st) = iv_battery_current st"
  "owns_vebus_mode d \<Longrightarrow> iv_setpoint (merge_live d raw st) = iv_setpoint st"
  "owns_vebus_mode d \<Longrightarrow> iv_inverter_state (merge_live d raw st) = iv_inverter_state st"
  "owns_chargers d \<Longrightarrow> iv_mppt_individual (merge_live d raw st) = iv_mppt_individual st"
  "owns_chargers d \<Longrightarrow> iv_mppt_chargers (merge_live d raw st) = iv_mppt_chargers st"
  "owns_chargers d \<Longrightarrow> iv_mppt_total (merge_live d raw st) = iv_mppt_total st"
  "owns_pv d \<Longrightarrow> iv_pv_inverters (merge_live d raw st) = iv_pv_inverters st"
  "owns_pv d \<Longrightarrow> iv_pv_inverter_individual (merge_live d raw st) = iv_pv_inverter_individual st"
  "owns_batteries d \<Longrightarrow> iv_batteries (merge_live d raw st) = iv_batteries st"
  "cd_acloads d \<noteq> [] \<Longrightarrow> iv_loads (merge_live d raw st) = iv_loads st"
  by (simp_all add: merge_live_def Let_def)

lemma send_state_state [simp]:
  "dk_state (fst (send_state cf mt force dk)) = dk_state dk" "dk_cache (fst (send_state cf mt force dk)) = dk_cache dk"
  "dk_cerbo (fst (send_state cf mt force dk)) = dk_cerbo dk" "dk_platform (fst (send_state cf mt force dk)) = dk_platform dk"
  by (simp_all add: send_state_def split: prod.split)

lemma process_state:
  "dk_state (fst (process_state_update cf mt raw dk)) = (merged_state mt (dk_cerbo dk) raw (dk_state dk))
     \<lparr>iv_water_ev := restore_into (dk_cache dk) (iv_water_ev (merged_state mt (dk_cerbo dk) raw (dk_state dk)))\<rparr>"
  by (simp add: process_state_update_def Let_def case_prod_beta)

lemma grid_view_controller [simp]: "grid_view (st\<lparr>iv_controller := c\<rparr>) = grid_view st" "grid_view (st\<lparr>iv_water_ev := w\<rparr>) = grid_view st"
  by (simp_all add: grid_view_def)

definition merged_base :: "moment \<Rightarrow> cerbo_devices \<Rightarrow> raw_state \<Rightarrow> inverter_state \<Rightarrow> inverter_state" where
  "merged_base mt d raw st = (merge_live d raw st)
     \<lparr>iv_controller := merge_controller (mt_millis mt) raw (iv_controller (merge_live d raw st))\<rparr>"

lemma merged_state_base: "merged_state mt d raw st = apply_cerbo_to_state d (merged_base mt d raw st)"
  by (simp add: merged_state_def merged_base_def Let_def)

lemma merged_base_frame:
  "grid_view (merged_base mt d raw st) = grid_view st" "iv_battery_soc (merged_base mt d raw st) = iv_battery_soc st"
  "iv_water_ev (merged_base mt d raw st) = iv_water_ev st" "iv_load_names (merged_base mt d raw st) = iv_load_names st"
  "iv_gateway_snapshot (merged_base mt d raw st) = iv_gateway_snapshot st"
  "has_shunt d \<Longrightarrow> iv_battery_power (merged_base mt d raw st) = iv_battery_power st"
  "has_shunt d \<Longrightarrow> iv_battery_voltage (merged_base mt d raw st) = iv_battery_voltage st"
  "has_shunt d \<Longrightarrow> iv_battery_current (merged_base mt d raw st) = iv_battery_current st"
  "owns_vebus_mode d \<Longrightarrow> iv_setpoint (merged_base mt d raw st) = iv_setpoint st"
  "owns_vebus_mode d \<Longrightarrow> iv_inverter_state (merged_base mt d raw st) = iv_inverter_state st"
  "owns_chargers d \<Longrightarrow> iv_mppt_individual (merged_base mt d raw st) = iv_mppt_individual st"
  "owns_pv d \<Longrightarrow> iv_pv_inverter_individual (merged_base mt d raw st) = iv_pv_inverter_individual st"
  "owns_batteries d \<Longrightarrow> iv_batteries (merged_base mt d raw st) = iv_batteries st"
  "cd_acloads d \<noteq> [] \<Longrightarrow> iv_loads (merged_base mt d raw st) = iv_loads st"
  by (simp_all add: merged_base_def)

lemma merged_grid:
  "grid_view (merged_state mt d raw st) = grid_view (overlay_grid_total (overlay_vebus d (overlay_system d st)))"
  unfolding merged_state_base apply_cerbo_grid by (intro grid_view_cong merged_base_frame)

lemmas apply_cerbo_all = apply_cerbo_fields apply_cerbo_solar apply_cerbo_loads apply_cerbo_water apply_cerbo_mode overlay_bank_fields

text \<open>The conjuncts of ownership.\<close>

lemma merged_unowned:
  "iv_battery_soc (merged_state mt d raw st) = iv_battery_soc (merged_state mt d raw' st)"
  "iv_water_ev (merged_state mt d raw st) = iv_water_ev (merged_state mt d raw' st)"
  "iv_load_names (merged_state mt d raw st) = iv_load_names (merged_state mt d raw' st)"
  "iv_gateway_snapshot (merged_state mt d raw st) = iv_gateway_snapshot (merged_state mt d raw' st)"
  by (simp_all add: merged_state_base apply_cerbo_all merged_base_frame split: option.split)

lemma merged_bank:
  assumes "has_shunt d"
  shows "iv_battery_power (merged_state mt d raw st) = iv_battery_power (merged_state mt d raw' st)"
    "iv_battery_voltage (merged_state mt d raw st) = iv_battery_voltage (merged_state mt d raw' st)"
    "iv_battery_current (merged_state mt d raw st) = iv_battery_current (merged_state mt d raw' st)"
  by (simp_all add: merged_state_base apply_cerbo_all merged_base_frame assms split: option.split list.split)

lemma merged_mode:
  assumes "owns_vebus_mode d"
  shows "iv_setpoint (merged_state mt d raw st) = iv_setpoint (merged_state mt d raw' st)"
    "iv_inverter_state (merged_state mt d raw st) = iv_inverter_state (merged_state mt d raw' st)"
  by (simp_all add: merged_state_base apply_cerbo_all merged_base_frame assms split: option.split list.split)

lemma merged_devices:
  "owns_chargers d \<Longrightarrow> iv_mppt_total (merged_state mt d raw st) = iv_mppt_total (merged_state mt d raw' st)"
  "owns_chargers d \<Longrightarrow> iv_mppt_chargers (merged_state mt d raw st) = iv_mppt_chargers (merged_state mt d raw' st)"
  "owns_chargers d \<Longrightarrow> iv_mppt_individual (merged_state mt d raw st) = iv_mppt_individual (merged_state mt d raw' st)"
  "owns_pv d \<Longrightarrow> iv_pv_inverters (merged_state mt d raw st) = iv_pv_inverters (merged_state mt d raw' st)"
  "owns_pv d \<Longrightarrow> iv_pv_inverter_individual (merged_state mt d raw st) = iv_pv_inverter_individual (merged_state mt d raw' st)"
  "owns_chargers d \<Longrightarrow> owns_pv d \<Longrightarrow> iv_solar_total (merged_state mt d raw st) = iv_solar_total (merged_state mt d raw' st)"
  "owns_batteries d \<Longrightarrow> iv_batteries (merged_state mt d raw st) = iv_batteries (merged_state mt d raw' st)"
  "cd_acloads d \<noteq> [] \<Longrightarrow> iv_loads (merged_state mt d raw st) = iv_loads (merged_state mt d raw' st)"
  by (simp_all add: merged_state_base apply_cerbo_all apply_cerbo_solar_total merged_base_frame split: option.split)

text \<open>What the devices say, and what stays where a device says nothing.\<close>

definition bank_tiles :: "battery \<Rightarrow> inverter_state \<Rightarrow> inverter_state \<Rightarrow> bool" where
  "bank_tiles shunt old a \<longleftrightarrow> iv_battery_power a = Some (unwrap_or (Finite 0) (ba_power shunt))
     \<and> iv_battery_current a = Some (unwrap_or (Finite 0) (ba_current shunt))
     \<and> iv_battery_voltage a = or_else (ba_voltage shunt) (iv_battery_voltage old)
     \<and> iv_battery_soc a = or_else (map_option voltage_soc (ba_voltage shunt)) (iv_battery_soc old)"

definition mode_tiles :: "vebus \<Rightarrow> inverter_state \<Rightarrow> inverter_state \<Rightarrow> bool" where
  "mode_tiles v old a \<longleftrightarrow> iv_setpoint a = or_else (vb_setpoint v) (iv_setpoint old)
     \<and> iv_inverter_state a = or_else (vb_inverter_state v) (iv_inverter_state old)"

text \<open>A phase the meter has spoken of shows what it said, an invalid reading included.\<close>

definition meter_tiles :: "system_totals \<Rightarrow> inverter_state \<Rightarrow> bool" where
  "meter_tiles s a \<longleftrightarrow> (sy_g1_seen s \<longrightarrow> iv_g1 a = sy_g1 s) \<and> (sy_g2_seen s \<longrightarrow> iv_g2 a = sy_g2 s)
     \<and> (sy_t1 s \<noteq> None \<longrightarrow> iv_t1 a = sy_t1 s) \<and> (sy_t2 s \<noteq> None \<longrightarrow> iv_t2 a = sy_t2 s)"

lemma vebus_keeps_phase:
  "iv_g1 st \<noteq> None \<or> iv_grid_l1_available st = Some False \<Longrightarrow> iv_g1 (overlay_vebus d st) = iv_g1 st"
  "iv_g2 st \<noteq> None \<or> iv_grid_l2_available st = Some False \<Longrightarrow> iv_g2 (overlay_vebus d st) = iv_g2 st"
  "iv_t1 (overlay_vebus d st) = iv_t1 st" "iv_t2 (overlay_vebus d st) = iv_t2 st"
  by (auto simp: overlay_vebus_def vebus_mode_def vebus_total_def vebus_l1_def vebus_l2_def Let_def split: list.split option.split)

lemma system_phases:
  assumes "cd_system d = (i, e) # es"
  shows "meter_tiles (sg_data e) (overlay_system d st)"
    "sy_g1_seen (sg_data e) \<Longrightarrow> iv_g1 (overlay_system d st) \<noteq> None \<or> iv_grid_l1_available (overlay_system d st) = Some False"
    "sy_g2_seen (sg_data e) \<Longrightarrow> iv_g2 (overlay_system d st) \<noteq> None \<or> iv_grid_l2_available (overlay_system d st) = Some False"
  using assms by (auto simp: meter_tiles_def overlay_system_def overlay_consumption_def overlay_grid_def or_else_def Let_def)

lemma merged_meter:
  assumes "cd_system d = (i, e) # es"
  shows "meter_tiles (sg_data e) (merged_state mt d raw st)"
proof -
  note sys = system_phases [OF assms, of st]
  have "meter_tiles (sg_data e) (overlay_grid_total (overlay_vebus d (overlay_system d st)))"
    using sys(1) vebus_keeps_phase(1) [OF sys(2)] vebus_keeps_phase(2) [OF sys(3)]
    by (simp add: meter_tiles_def vebus_keeps_phase(3,4))
  with merged_grid [of mt d raw st] show ?thesis by (simp add: meter_tiles_def grid_view_def)
qed

lemma merged_device_tiles:
  "bank_shunt d = Some shunt \<Longrightarrow> bank_tiles shunt st (merged_state mt d raw st)"
  "owns_vebus_mode d \<Longrightarrow> cd_vebus d = (i, e) # es \<Longrightarrow> mode_tiles (sg_data e) st (merged_state mt d raw st)"
  "owns_chargers d \<Longrightarrow> iv_mppt_total (merged_state mt d raw st) = Some (charger_total d)"
  "owns_chargers d \<Longrightarrow> iv_mppt_chargers (merged_state mt d raw st) = Some (listed_chargers (cd_chargers d))"
  "owns_pv d \<Longrightarrow> iv_pv_inverters (merged_state mt d raw st) = Some (listed_pv (cd_pv_inverters d))"
  "owns_chargers d \<Longrightarrow> owns_pv d \<Longrightarrow> iv_solar_total (merged_state mt d raw st) = Some (f64_add (charger_total d) (pv_sum d))"
  "owns_batteries d \<Longrightarrow> iv_batteries (merged_state mt d raw st) =
     Some (listed_batteries (cd_batteries d) (map hide_time_to_go (data_of (cd_batteries d))))"
  "cd_acloads d \<noteq> [] \<Longrightarrow> iv_loads (merged_state mt d raw st) = Some (keyed al_power (cd_acloads d))"
  using bank_shunt_None [of d]
  by (simp_all add: merged_state_base apply_cerbo_all apply_cerbo_solar_total merged_base_frame bank_tiles_def mode_tiles_def
      owns_batteries_def)


text \<open>A charger of 300 W, whatever the payload says.\<close>

definition sample_moment :: moment where
  "sample_moment = \<lparr>mt_now = 0, mt_millis = 0, mt_text = [], mt_hidden = False, mt_loads = []\<rparr>"

definition one_charger :: desk where
  "one_charger = new_desk\<lparr>dk_cerbo := no_devices\<lparr>cd_chargers :=
     [(1, \<lparr>sg_data = default_charger\<lparr>mc_power := Some (Finite 300)\<rparr>, sg_seen = 0\<rparr>)]\<rparr>\<rparr>"


end
