(* ===== verification/DeskRuns.thy ===== *)
theory DeskRuns
  imports DaemonIsolation
begin

text \<open>
  Runs of the MQTT client: any sequence of messages, flushes and acknowledgements on one connection. What the
  vehicle tile shows, which devices are remembered, and when a message makes the code panic.
\<close>

section \<open>Runs\<close>

datatype desk_input =
    Message string string bool \<comment> \<open>topic, payload, retained\<close>
  | FlushDue
  | Acknowledge connection nat nat

fun desk_step :: "decoders \<Rightarrow> config \<Rightarrow> moment \<Rightarrow> desk_input \<Rightarrow> desk \<Rightarrow> (desk \<times> desk_event list) option" where
  "desk_step D cf mt (Message topic payload retained) dk = handle_message D cf mt topic payload retained dk"
| "desk_step D cf mt FlushDue dk = Some (if dk_timers dk = [] then (dk, []) else flush mt dk)"
| "desk_step D cf mt (Acknowledge cn inst k) dk =
     Some (case acknowledge_victron_notification cf cn inst k dk of (dk, es, _) \<Rightarrow> (dk, es))"

fun desk_run :: "decoders \<Rightarrow> config \<Rightarrow> (moment \<times> desk_input) list \<Rightarrow> desk \<Rightarrow> (desk \<times> desk_event list) option" where
  "desk_run D cf [] dk = Some (dk, [])"
| "desk_run D cf ((mt, i) # is) dk = Option.bind (desk_step D cf mt i dk)
     (\<lambda>(dk, es). map_option (\<lambda>(dk, fs). (dk, es @ fs)) (desk_run D cf is dk))"

section \<open>The vehicle tile\<close>

fun shown_ev :: "ev_field \<Rightarrow> water_ev \<Rightarrow> f64 option" where
  "shown_ev CarSoc w = we_car_soc w"
| "shown_ev CarChargingPower w = we_car_charging_power w"
| "shown_ev EvChargingPower w = we_ev_charging_power w"

lemma shown_show [simp]: "shown_ev f (show_ev g v w) = (if f = g then v else shown_ev f w)"
  by (cases f; cases g) simp_all

lemma cached_slot [simp]: "cached f (cache_slot g s c) = (if f = g then s else cached f c)"
  by (cases f; cases g) simp_all

lemma cached_presence [simp]: "cached f (set_presence kind c) = cached f c"
  by (cases f) (simp_all add: set_presence_def)

lemma shown_present [simp]:
  "shown_ev f (w\<lparr>we_ev_present := a\<rparr>) = shown_ev f w" "shown_ev f (w\<lparr>we_evcharger_present := a\<rparr>) = shown_ev f w"
  "shown_ev f (w\<lparr>we_discovered := x\<rparr>) = shown_ev f w"
  by (cases f; simp)+

lemma shown_restore [simp]:
  "shown_ev f (restore_into c w) = (case cached f c of None \<Rightarrow> shown_ev f w | Some (v, t) \<Rightarrow> Some v)"
  by (cases f) (auto simp: restore_into_def restore_field_def Let_def split: option.splits)

lemma shown_overlay [simp]: "shown_ev f (iv_water_ev (apply_cerbo_to_state d st)) = shown_ev f (iv_water_ev st)"
  by (simp add: apply_cerbo_water)

lemma shown_water [simp]: "shown_ev f (water_value cf d kind inst path v w) = shown_ev f w"
  by (cases f) (simp_all add: water_value_def Let_def split: prod.split)

definition in_cache :: "desk \<Rightarrow> bool" where
  "in_cache dk \<longleftrightarrow> (\<forall>f. shown_ev f (iv_water_ev (dk_state dk)) = map_option fst (cached f (dk_cache dk)))"

text \<open>How one step may change the cache.\<close>

definition cache_step :: "nat \<Rightarrow> ev_cache \<Rightarrow> ev_cache \<Rightarrow> bool" where
  "cache_step now c c' \<longleftrightarrow> (\<forall>f. cached f c' = cached f c \<or> (\<exists>v. cached f c' = Some (v, now)
     \<and> (\<forall>u t. cached f c = Some (u, t) \<longrightarrow> t + EV_CACHE_TTL \<le> now \<and> (f = CarSoc \<longrightarrow> \<not> f64_less v (Finite 0)))))"

lemma cache_step_refl [simp]: "cache_step now c c"
  by (simp add: cache_step_def)

lemma cache_update_step: "cache_update now f v c = (c', b) \<Longrightarrow> cache_step now c c'
  \<and> (\<forall>g. g \<noteq> f \<longrightarrow> cached g c' = cached g c) \<and> (if b then cached f c' = Some (v, now) else c' = c)"
  by (auto simp: cache_update_def cache_step_def EV_CACHE_TTL_def seconds_def
      split: if_split_asm option.split_asm prod.split_asm)

lemma ev_message_cache:
  assumes "apply_ev_message now kind inst path v instances w c = (w', c', r)"
    and "\<forall>f. shown_ev f w = map_option fst (cached f c)"
  shows "(\<forall>f. shown_ev f w' = map_option fst (cached f c')) \<and> cache_step now c c'"
proof (cases "(kind = ''ev'' \<and> Option.bind instances fst = Some inst) \<or> (kind = ''evcharger'' \<and> Option.bind instances snd = Some inst)")
  case False
  then show ?thesis using assms by (simp add: apply_ev_message_def Let_def)
next
  case m: True
  show ?thesis
  proof (cases "ev_field_of kind path")
    case None
    then show ?thesis using assms m by (auto simp: apply_ev_message_def Let_def cache_step_def)
  next
    case (Some f)
    obtain d b where u: "cache_update now f v (set_presence kind c) = (d, b)" by fastforce
    have step: "cache_step now c d" "\<forall>g. g \<noteq> f \<longrightarrow> cached g d = cached g c"
      "if b then cached f d = Some (v, now) else d = set_presence kind c"
      using cache_update_step [OF u] by (simp_all add: cache_step_def)
    have r: "(w', c', r) = (if b then (show_ev f (Some v) w, d, Some f)
      else case cached f d of Some (x, t) \<Rightarrow> (show_ev f (Some x) w, d, Some f) | None \<Rightarrow> (w, d, None))"
      using assms(1) m Some u by (cases b) (simp_all add: apply_ev_message_def Let_def)
    show ?thesis using r step assms(2) by (auto split: if_split_asm option.split_asm)
  qed
qed

text \<open>Every handler keeps the tile equal to the cache; only a vehicle message changes the cache.\<close>

lemma send_state_fields: "send_state cf mt force dk = (dk', es) \<Longrightarrow>
  dk_state dk' = dk_state dk \<and> dk_cache dk' = dk_cache dk \<and> dk_cerbo dk' = dk_cerbo dk"
  by (auto simp: send_state_def split: prod.split_asm)

lemma refresh_fields: "refresh cf mt dk = (dk', es) \<Longrightarrow>
  dk_state dk' = apply_cerbo_to_state (dk_cerbo dk) (dk_state dk) \<and> dk_cache dk' = dk_cache dk \<and> dk_cerbo dk' = dk_cerbo dk"
  unfolding refresh_def by (drule send_state_fields) simp

definition keeps_tile :: "nat \<Rightarrow> desk \<Rightarrow> desk \<Rightarrow> bool" where
  "keeps_tile now dk dk' \<longleftrightarrow> (in_cache dk \<longrightarrow> in_cache dk' \<and> cache_step now (dk_cache dk) (dk_cache dk'))"

lemma keeps_same: "(\<And>f. shown_ev f (iv_water_ev (dk_state dk')) = shown_ev f (iv_water_ev (dk_state dk)))
  \<Longrightarrow> dk_cache dk' = dk_cache dk \<Longrightarrow> keeps_tile now dk dk'"
  by (simp add: keeps_tile_def in_cache_def)

lemma process_tile: "process_state_update cf mt raw dk = (dk', es) \<Longrightarrow> keeps_tile now dk dk'"
proof -
  assume p: "process_state_update cf mt raw dk = (dk', es)"
  have w: "iv_water_ev (merged_base mt d raw st) = iv_water_ev st" for d st by (rule merged_base_frame)
  have c: "dk_cache dk' = dk_cache dk"
    using p by (auto simp: process_state_update_def Let_def case_prod_beta)
  have "shown_ev f (iv_water_ev (dk_state dk')) = (case cached f (dk_cache dk) of
      None \<Rightarrow> shown_ev f (iv_water_ev (dk_state dk)) | Some (v, t) \<Rightarrow> Some v)" for f
    using process_state [of cf mt raw dk] p by (simp add: merged_state_base w split: option.split)
  then show ?thesis using c by (simp add: keeps_tile_def in_cache_def split: option.split)
qed

lemma ev_value_fields:
  assumes "ev_value cf mt kind inst path v dk = (dk', b)"
  shows "\<exists>j w c r. apply_ev_message (mt_now mt) kind inst path v j (iv_water_ev (dk_state dk)) (dk_cache dk) = (w, c, r)
    \<and> iv_water_ev (dk_state dk') = w \<and> dk_cache dk' = c"
  using assms unfolding ev_value_def Let_def
  by (clarsimp simp: change_water_def split: prod.split_asm) blast

lemma ev_message_tile:
  assumes "ev_message N cf mt kind inst path payload dk = (dk', es)"
  shows "keeps_tile (mt_now mt) dk dk'"
proof -
  let ?d = "apply_named_discovery N (mt_now mt) kind inst path payload (sweep_stale (mt_now mt) (dk_cerbo dk))"
  let ?dk = "dk\<lparr>dk_cerbo := ?d\<rparr>"
  obtain dk1 b where one: "(if path \<in> {''Soc'', ''Ac/Power''}
      then case parse_cerbo_value N payload of None \<Rightarrow> (?dk, False) | Some v \<Rightarrow> ev_value cf mt kind inst path v ?dk
      else (?dk, False)) = (dk1, b)" by fastforce
  have k1: "keeps_tile (mt_now mt) dk dk1"
  proof (cases "\<exists>v. ev_value cf mt kind inst path v ?dk = (dk1, b)")
    case True
    then obtain v where v: "ev_value cf mt kind inst path v ?dk = (dk1, b)" by blast
    from ev_value_fields [OF v] obtain j w c r
      where a: "apply_ev_message (mt_now mt) kind inst path v j (iv_water_ev (dk_state dk)) (dk_cache dk) = (w, c, r)"
        and "iv_water_ev (dk_state dk1) = w" "dk_cache dk1 = c" by auto
    then show ?thesis using ev_message_cache [OF a] by (simp add: keeps_tile_def in_cache_def)
  next
    case False
    then have "dk1 = ?dk" using one by (auto split: if_split_asm option.split_asm)
    then show ?thesis by (auto intro: keeps_same)
  qed
  have "dk_state dk' = apply_cerbo_to_state ?d (dk_state dk1) \<and> dk_cache dk' = dk_cache dk1"
    using assms one send_state_fields
    by (fastforce simp: ev_message_def Let_def split: if_split_asm prod.split_asm)
  then show ?thesis using k1 by (simp add: keeps_tile_def in_cache_def)
qed

lemma water_message_tile: "water_message N cf mt kind inst path payload dk = (dk', es) \<Longrightarrow> keeps_tile now dk dk'"
  unfolding water_message_def Let_def
  by (drule refresh_fields) (rule keeps_same, auto simp: change_water_def split: option.split)

lemma acload_message_tile: "acload_message N cf mt inst path payload dk = (dk', es) \<Longrightarrow> keeps_tile now dk dk'"
  unfolding acload_message_def Let_def
  by (auto intro!: keeps_same dest!: refresh_fields split: prod.split_asm if_split_asm)

lemma device_message_tile: "device_message N cf mt kind inst path payload dk = Some (dk', es) \<Longrightarrow> keeps_tile now dk dk'"
  unfolding device_message_def Let_def
  by (auto intro!: keeps_same dest!: refresh_fields split: prod.split_asm if_split_asm)

lemma handle_message_tile:
  assumes "handle_message D cf mt topic payload retained dk = Some (dk', es)"
  shows "keeps_tile (mt_now mt) dk dk'"
proof -
  consider (state) "state_message D cf mt payload retained dk = (dk', es)"
    | (other) "override_message D cf payload dk = (dk', es)" | (same) "dk' = dk"
    | (platform) "handle_platform (in_native D) cf topic payload dk = (dk', es)"
    | (alarm) "handle_alarm (in_native D) cf topic payload dk = Some (dk', es)"
    | (device) "device_topic (in_native D) cf mt topic payload dk = Some (dk', es)"
    using assms by (auto simp: handle_message_def split: if_split_asm)
  then show ?thesis
  proof cases
    case state
    then show ?thesis by (auto simp: state_message_def intro: keeps_same dest: process_tile split: option.split_asm)
  next
    case other
    then show ?thesis by (auto simp: override_message_def intro!: keeps_same split: option.split_asm)
  next
    case platform
    then show ?thesis by (auto simp: handle_platform_def intro!: keeps_same split: prod.split_asm)
  next
    case alarm
    then show ?thesis by (auto simp: handle_alarm_def intro!: keeps_same)
  next
    case device
    then show ?thesis
      by (auto simp: device_topic_def intro: keeps_same device_message_tile water_message_tile ev_message_tile
          acload_message_tile split: option.split_asm)
  qed (auto intro: keeps_same)
qed

lemma desk_step_tile:
  assumes "desk_step D cf mt i dk = Some (dk', es)"
  shows "keeps_tile (mt_now mt) dk dk'"
proof (cases i)
  case (Message topic payload retained)
  then show ?thesis using assms handle_message_tile by simp
next
  case FlushDue
  then show ?thesis using assms
    by (auto simp: flush_def intro!: keeps_same split: if_split_asm prod.split_asm)
next
  case (Acknowledge cn inst k)
  then show ?thesis using assms
    by (auto simp: acknowledge_victron_notification_def Let_def publish_def intro!: keeps_same
        split: prod.split_asm option.split_asm if_split_asm)
qed

lemma desk_run_tile: "desk_run D cf is dk = Some (dk', es) \<Longrightarrow> in_cache dk \<Longrightarrow> in_cache dk'"
proof (induction "is" arbitrary: dk es)
  case (Cons x xs)
  obtain mt i where x: "x = (mt, i)" by fastforce
  obtain dk1 fs gs where "desk_step D cf mt i dk = Some (dk1, fs)" "desk_run D cf xs dk1 = Some (dk', gs)"
    using Cons.prems(1) x by (auto simp: bind_eq_Some_conv)
  moreover have "in_cache dk1" using desk_step_tile [OF calculation(1)] Cons.prems(2) by (simp add: keeps_tile_def)
  ultimately show ?case using Cons.IH by blast
qed simp

lemma in_cache_new [simp]: "in_cache new_desk"
  unfolding in_cache_def
proof
  fix f
  show "shown_ev f (iv_water_ev (dk_state new_desk)) = map_option fst (cached f (dk_cache new_desk))"
    by (cases f) (simp_all add: new_desk_def default_state_def default_water_ev_def new_ev_cache_def)
qed

text \<open>
  C13. The vehicle tile never blinks: in every reachable client the state of charge and the two powers shown are
  exactly the cached samples; once shown, no message takes them away; and a sample replaces an earlier one of
  the same field only after the eight seconds of the throttle, and a negative charge never does.
\<close>

theorem ev_tile_steady:
  assumes "desk_run D cf is new_desk = Some (dk, es)" and "desk_step D cf mt i dk = Some (dk', fs)"
  shows "shown_ev f (iv_water_ev (dk_state dk')) = map_option fst (cached f (dk_cache dk'))
    \<and> (shown_ev f (iv_water_ev (dk_state dk)) \<noteq> None \<longrightarrow> shown_ev f (iv_water_ev (dk_state dk')) \<noteq> None)
    \<and> (cached f (dk_cache dk') \<noteq> cached f (dk_cache dk) \<longrightarrow>
        (\<exists>v. cached f (dk_cache dk') = Some (v, mt_now mt) \<and> (\<forall>u t. cached f (dk_cache dk) = Some (u, t) \<longrightarrow>
           t + seconds 8 \<le> mt_now mt \<and> (f = CarSoc \<longrightarrow> \<not> f64_less v (Finite 0)))))"
proof -
  have c: "in_cache dk" using desk_run_tile [OF assms(1)] by simp
  then have c': "in_cache dk'" "cache_step (mt_now mt) (dk_cache dk) (dk_cache dk')"
    using desk_step_tile [OF assms(2)] by (simp_all add: keeps_tile_def)
  show ?thesis using c c' by (auto simp: in_cache_def cache_step_def EV_CACHE_TTL_def) (metis option.distinct(1))
qed

text \<open>A client that sees one charge of 50 on vehicle 22.\<close>

definition sample_native :: native where
  "sample_native = \<lparr>nt_texts = \<lparr>tx_json = (\<lambda>_. []), tx_rfc3339 = (\<lambda>_. None)\<rparr>,
     nt_value = (\<lambda>s. Some (JObject [(''value'', JNumber (if s = [] then NInt 1 else NFloat (Finite 50)))])),
     nt_lower = id, nt_upper = (\<lambda>c. 65 \<le> c \<and> c \<le> 90)\<rparr>"

definition sample_decoders :: decoders where
  "sample_decoders = \<lparr>in_native = sample_native, in_raw = (\<lambda>_. None), in_override = (\<lambda>_. None), in_notification = (\<lambda>_. None)\<rparr>"

definition sample_config :: config where
  "sample_config = \<lparr>cf_water = None, cf_ev = None, cf_app = True\<rparr>"

lemma sample_charge: "map_option (\<lambda>(dk, _). shown_ev CarSoc (iv_water_ev (dk_state dk)))
    (desk_step sample_decoders sample_config sample_moment (Message ''N/p/ev/22/Soc'' ''50'' False) new_desk)
  = Some (Some (Finite 50))"
  by code_simp

theorem ev_tile_steady_witness:
  "\<exists>dk fs. desk_step sample_decoders sample_config sample_moment (Message ''N/p/ev/22/Soc'' ''50'' False) new_desk = Some (dk, fs)
     \<and> map_option fst (cached CarSoc (dk_cache dk)) = Some (Finite 50)"
proof -
  obtain dk fs where step: "desk_step sample_decoders sample_config sample_moment (Message ''N/p/ev/22/Soc'' ''50'' False) new_desk
      = Some (dk, fs)" and soc: "shown_ev CarSoc (iv_water_ev (dk_state dk)) = Some (Finite 50)"
    using sample_charge by auto
  have "desk_run sample_decoders sample_config [] new_desk = Some (new_desk, [])" by simp
  from ev_tile_steady [OF this step, of CarSoc] soc step show ?thesis by auto
qed

section \<open>Remembered devices\<close>

text \<open>The instances of a kind and when each was last heard of.\<close>

definition seen_of :: "'a devices \<Rightarrow> (nat \<times> nat) list" where
  "seen_of es = map (\<lambda>(i, e). (i, sg_seen e)) es"

definition sightings :: "string \<Rightarrow> cerbo_devices \<Rightarrow> (nat \<times> nat) list" where
  "sightings kind d =
     (if kind = ''battery'' then seen_of (cd_batteries d) else if kind = ''solarcharger'' then seen_of (cd_chargers d)
      else if kind = ''pvinverter'' then seen_of (cd_pv_inverters d) else if kind = ''vebus'' then seen_of (cd_vebus d)
      else if kind = ''system'' then seen_of (cd_system d) else if kind = ''acload'' then seen_of (cd_acloads d)
      else if kind = ''tank'' then seen_of (cd_tanks d) else if kind = ''pump'' then seen_of (cd_pumps d)
      else if kind = ''ev'' then seen_of (cd_evs d) else if kind = ''evcharger'' then seen_of (cd_evchargers d) else [])"

fun touch_seen :: "nat \<Rightarrow> nat \<Rightarrow> (nat \<times> nat) list \<Rightarrow> (nat \<times> nat) list" where
  "touch_seen now i [] = [(i, now)]"
| "touch_seen now i ((j, t) # xs) =
     (if i = j then (j, now) # xs else if i < j then (i, now) # (j, t) # xs else (j, t) # touch_seen now i xs)"

definition fresh_seen :: "nat \<Rightarrow> (nat \<times> nat) list \<Rightarrow> (nat \<times> nat) list" where
  "fresh_seen now xs = filter (\<lambda>(_, t). now - t < DEVICE_TTL) xs"

lemma seen_of_sight: "seen_of (sight d now i f es) = touch_seen now i (seen_of es)"
  by (induction es) (auto simp: seen_of_def)

lemma seen_of_retain: "seen_of (retain_fresh now es) = fresh_seen now (seen_of es)"
  by (induction es) (auto simp: seen_of_def retain_fresh_def fresh_seen_def)

lemma sightings_sweep: "sightings k (sweep_stale now d) = fresh_seen now (sightings k d)"
  by (simp add: sightings_def sweep_stale_def seen_of_retain fresh_seen_def)

lemma device_sightings:
  assumes "kind \<in> {''battery'', ''solarcharger'', ''pvinverter'', ''vebus'', ''system''}"
  shows "sightings k (fst (apply_device_message N now kind inst path payload d)) =
    (if k = kind then touch_seen now inst (sightings k d) else sightings k d)"
  using assms by (auto simp: apply_device_message_def sightings_def Let_def seen_of_sight)

lemma named_sightings:
  assumes "kind \<in> {''tank'', ''pump'', ''ev'', ''evcharger''}"
  shows "sightings k (apply_named_discovery N now kind inst path payload d) =
    (if k = kind then touch_seen now inst (sightings k d) else sightings k d)"
  using assms by (auto simp: apply_named_discovery_def sightings_def Let_def seen_of_sight)

lemma acload_sightings: "sightings k (fst (apply_acload_message N now inst path payload d)) =
    (if k = ''acload'' then touch_seen now inst (sightings k d) else sightings k d)"
  by (simp add: apply_acload_message_def sightings_def seen_of_sight)

text \<open>The device a topic speaks of.\<close>

definition topic_device :: "string \<Rightarrow> (string \<times> nat) option" where
  "topic_device topic = (case parse_device_topic topic of Some (kind, inst, _) \<Rightarrow> Some (kind, inst)
     | None \<Rightarrow> (case parse_water_topic topic of Some (kind, inst, _) \<Rightarrow> Some (kind, inst)
       | None \<Rightarrow> (case parse_ev_topic topic of Some (kind, inst, _) \<Rightarrow> Some (kind, inst)
         | None \<Rightarrow> map_option (\<lambda>(inst, _). (''acload'', inst)) (parse_acload_topic topic))))"

lemma device_topic_kind: "parse_device_topic topic = Some (kind, inst, path) \<Longrightarrow>
  kind \<in> {''battery'', ''solarcharger'', ''pvinverter'', ''vebus'', ''system''}"
  by (auto simp: parse_device_topic_def split: option.split_asm prod.split_asm if_split_asm)

lemma water_topic_kind: "parse_water_topic topic = Some (kind, inst, path) \<Longrightarrow> kind \<in> {''tank'', ''pump''}"
  by (auto simp: parse_water_topic_def split: option.split_asm list.split_asm if_split_asm)

lemma ev_topic_kind: "parse_ev_topic topic = Some (kind, inst, path) \<Longrightarrow> kind \<in> {''ev'', ''evcharger''}"
  by (auto simp: parse_ev_topic_def split: option.split_asm list.split_asm if_split_asm)

lemma device_message_cerbo: "device_message N cf mt kind inst path payload dk = Some (dk', es) \<Longrightarrow>
  dk_cerbo dk' = fst (apply_device_message N (mt_now mt) kind inst path payload (sweep_stale (mt_now mt) (dk_cerbo dk)))"
  unfolding device_message_def Let_def
  by (auto dest!: refresh_fields split: prod.split_asm if_split_asm)

lemma acload_message_cerbo: "acload_message N cf mt inst path payload dk = (dk', es) \<Longrightarrow>
  dk_cerbo dk' = fst (apply_acload_message N (mt_now mt) inst path payload (sweep_stale (mt_now mt) (dk_cerbo dk)))"
  unfolding acload_message_def Let_def
  by (auto dest!: refresh_fields split: prod.split_asm if_split_asm)

lemma water_message_cerbo: "water_message N cf mt kind inst path payload dk = (dk', es) \<Longrightarrow>
  dk_cerbo dk' = apply_named_discovery N (mt_now mt) kind inst path payload (sweep_stale (mt_now mt) (dk_cerbo dk))"
  unfolding water_message_def Let_def by (drule refresh_fields) (auto split: option.split)

lemma ev_value_cerbo: "ev_value cf mt kind inst path v dk = (dk', b) \<Longrightarrow> dk_cerbo dk' = dk_cerbo dk"
  unfolding ev_value_def Let_def by (auto split: prod.split_asm)

lemma ev_message_cerbo:
  assumes "ev_message N cf mt kind inst path payload dk = (dk', es)"
  shows "dk_cerbo dk' = apply_named_discovery N (mt_now mt) kind inst path payload (sweep_stale (mt_now mt) (dk_cerbo dk))"
proof -
  let ?d = "apply_named_discovery N (mt_now mt) kind inst path payload (sweep_stale (mt_now mt) (dk_cerbo dk))"
  let ?dk = "dk\<lparr>dk_cerbo := ?d\<rparr>"
  obtain dk1 b where one: "(if path \<in> {''Soc'', ''Ac/Power''}
      then case parse_cerbo_value N payload of None \<Rightarrow> (?dk, False) | Some v \<Rightarrow> ev_value cf mt kind inst path v ?dk
      else (?dk, False)) = (dk1, b)" by fastforce
  have "dk_cerbo dk1 = ?d" using one by (auto dest: ev_value_cerbo split: if_split_asm option.split_asm)
  then show ?thesis
    using assms one send_state_fields
    by (fastforce simp: ev_message_def Let_def split: if_split_asm prod.split_asm)
qed

lemma device_topic_sightings:
  assumes "device_topic N cf mt topic payload dk = Some (dk', es)" "topic_device topic = Some (kind, inst)"
  shows "sightings k (dk_cerbo dk') = (if k = kind then touch_seen (mt_now mt) inst else id)
    (fresh_seen (mt_now mt) (sightings k (dk_cerbo dk)))"
proof -
  consider path where "parse_device_topic topic = Some (kind, inst, path)"
      "device_message N cf mt kind inst path payload dk = Some (dk', es)"
    | path where "parse_water_topic topic = Some (kind, inst, path)" "water_message N cf mt kind inst path payload dk = (dk', es)"
    | path where "parse_ev_topic topic = Some (kind, inst, path)" "ev_message N cf mt kind inst path payload dk = (dk', es)"
    | path where "kind = ''acload''" "acload_message N cf mt inst path payload dk = (dk', es)"
    using assms by (auto simp: device_topic_def topic_device_def split: option.split_asm)
  then show ?thesis
  proof cases
    case 1
    then show ?thesis using device_topic_kind [OF 1(1)] device_message_cerbo [OF 1(2)]
      by (simp add: device_sightings sightings_sweep del: insert_iff)
  next
    case 2
    then show ?thesis using water_topic_kind [OF 2(1)] water_message_cerbo [OF 2(2)]
      by (auto simp: named_sightings sightings_sweep)
  next
    case 3
    then show ?thesis using ev_topic_kind [OF 3(1)] ev_message_cerbo [OF 3(2)]
      by (auto simp: named_sightings sightings_sweep)
  next
    case 4
    then show ?thesis using acload_message_cerbo [OF 4(2)] by (simp add: acload_sightings sightings_sweep)
  qed
qed

lemma touch_seen_set: "sorted_wrt (<) (map fst xs) \<Longrightarrow> set (touch_seen now i xs) = insert (i, now) {p \<in> set xs. fst p \<noteq> i}"
  by (induction now i xs rule: touch_seen.induct) auto

lemma touch_seen_sorted: "sorted_wrt (<) (map fst xs) \<Longrightarrow> sorted_wrt (<) (map fst (touch_seen now i xs))"
proof (induction now i xs rule: touch_seen.induct)
  case (2 now i j t xs)
  have "fst ` set (touch_seen now i xs) = insert i (fst ` set xs)"
    using 2(2) by (subst touch_seen_set) (auto simp: image_iff)
  then show ?case using 2 by (auto simp flip: set_map)
qed simp

text \<open>The remembered devices of a kind with their data.\<close>

datatype reading = Bank battery | Charger mppt_charger | Pv pv_inverter | Inverter vebus | Meter system_totals
  | AcLoad ac_load | Named named_device

definition heard_of :: "('a \<Rightarrow> reading) \<Rightarrow> 'a devices \<Rightarrow> (nat \<times> reading \<times> nat) list" where
  "heard_of c es = map (\<lambda>(i, e). (i, c (sg_data e), sg_seen e)) es"

definition heard :: "string \<Rightarrow> cerbo_devices \<Rightarrow> (nat \<times> reading \<times> nat) list" where
  "heard kind d =
     (if kind = ''battery'' then heard_of Bank (cd_batteries d) else if kind = ''solarcharger'' then heard_of Charger (cd_chargers d)
      else if kind = ''pvinverter'' then heard_of Pv (cd_pv_inverters d) else if kind = ''vebus'' then heard_of Inverter (cd_vebus d)
      else if kind = ''system'' then heard_of Meter (cd_system d) else if kind = ''acload'' then heard_of AcLoad (cd_acloads d)
      else if kind = ''tank'' then heard_of Named (cd_tanks d) else if kind = ''pump'' then heard_of Named (cd_pumps d)
      else if kind = ''ev'' then heard_of Named (cd_evs d) else if kind = ''evcharger'' then heard_of Named (cd_evchargers d)
      else [])"

definition fresh_heard :: "nat \<Rightarrow> (nat \<times> reading \<times> nat) list \<Rightarrow> (nat \<times> reading \<times> nat) list" where
  "fresh_heard now = filter (\<lambda>(_, _, t). now - t < DEVICE_TTL)"

lemma heard_fst: "map fst (heard k d) = map fst (sightings k d)"
  by (simp add: heard_def sightings_def heard_of_def seen_of_def case_prod_beta)

text \<open>Of a map only the instance spoken of is renewed: its entry carries some data and the moment, every other entry stays.\<close>

definition renewed :: "nat \<Rightarrow> nat \<Rightarrow> (nat \<times> reading \<times> nat) list \<Rightarrow> (nat \<times> reading \<times> nat) list \<Rightarrow> bool" where
  "renewed now i xs ys \<longleftrightarrow> (\<exists>x. set ys = insert (i, x, now) {p \<in> set xs. fst p \<noteq> i})"

lemma renewed_sight:
  assumes "sorted_wrt (<) (map fst (heard_of c es))"
  shows "renewed now i (heard_of c es) (heard_of c (sight d now i f es))"
  using assms
proof (induction es)
  case (Cons e es)
  obtain j s where e: "e = (j, s)" by fastforce
  obtain x where ih: "set (heard_of c (sight d now i f es)) = insert (i, x, now) {p \<in> set (heard_of c es). fst p \<noteq> i}"
    using Cons unfolding renewed_def heard_of_def by auto
  have later: "\<forall>p \<in> set (heard_of c es). j < fst p" using Cons.prems e by (auto simp: heard_of_def)
  consider (here) "i = j" | (before) "i < j" | (after) "j < i" by linarith
  then show ?case
  proof cases
    case here
    then have "set (heard_of c (sight d now i f (e # es))) =
        insert (i, c (f (sg_data s)), now) {p \<in> set (heard_of c (e # es)). fst p \<noteq> i}"
      using e later by (fastforce simp: heard_of_def)
    then show ?thesis unfolding renewed_def by blast
  next
    case before
    then have "set (heard_of c (sight d now i f (e # es))) =
        insert (i, c (f d), now) {p \<in> set (heard_of c (e # es)). fst p \<noteq> i}"
      using e later by (fastforce simp: heard_of_def)
    then show ?thesis unfolding renewed_def by blast
  next
    case after
    then have "set (heard_of c (sight d now i f (e # es))) = insert (i, x, now) {p \<in> set (heard_of c (e # es)). fst p \<noteq> i}"
      using e ih by (auto simp: heard_of_def)
    then show ?thesis unfolding renewed_def by blast
  qed
qed (auto simp: renewed_def heard_of_def)

lemma heard_of_retain: "heard_of c (retain_fresh now es) = fresh_heard now (heard_of c es)"
  by (induction es) (auto simp: heard_of_def retain_fresh_def fresh_heard_def)

lemma heard_sweep: "heard k (sweep_stale now d) = fresh_heard now (heard k d)"
  by (simp add: heard_def sweep_stale_def heard_of_retain) (simp add: fresh_heard_def)

definition renews :: "nat \<Rightarrow> string \<Rightarrow> nat \<Rightarrow> cerbo_devices \<Rightarrow> cerbo_devices \<Rightarrow> bool" where
  "renews now kind inst d d' \<longleftrightarrow> (\<forall>k. if k = kind then renewed now inst (heard k d) (heard k d') else heard k d' = heard k d)"

lemma heard_kinds:
  "heard ''battery'' d = heard_of Bank (cd_batteries d)"
  "heard ''solarcharger'' d = heard_of Charger (cd_chargers d)"
  "heard ''pvinverter'' d = heard_of Pv (cd_pv_inverters d)"
  "heard ''vebus'' d = heard_of Inverter (cd_vebus d)"
  "heard ''system'' d = heard_of Meter (cd_system d)"
  "heard ''acload'' d = heard_of AcLoad (cd_acloads d)"
  "heard ''tank'' d = heard_of Named (cd_tanks d)"
  "heard ''pump'' d = heard_of Named (cd_pumps d)"
  "heard ''ev'' d = heard_of Named (cd_evs d)"
  "heard ''evcharger'' d = heard_of Named (cd_evchargers d)"
  by (simp_all add: heard_def)

lemma heard_others:
  "k \<noteq> ''battery'' \<Longrightarrow> heard k (d\<lparr>cd_batteries := xa\<rparr>) = heard k d"
  "k \<noteq> ''solarcharger'' \<Longrightarrow> heard k (d\<lparr>cd_chargers := xb\<rparr>) = heard k d"
  "k \<noteq> ''pvinverter'' \<Longrightarrow> heard k (d\<lparr>cd_pv_inverters := xc\<rparr>) = heard k d"
  "k \<noteq> ''vebus'' \<Longrightarrow> heard k (d\<lparr>cd_vebus := xd\<rparr>) = heard k d"
  "k \<noteq> ''system'' \<Longrightarrow> heard k (d\<lparr>cd_system := xe\<rparr>) = heard k d"
  "k \<noteq> ''acload'' \<Longrightarrow> heard k (d\<lparr>cd_acloads := xf\<rparr>) = heard k d"
  "k \<noteq> ''tank'' \<Longrightarrow> heard k (d\<lparr>cd_tanks := xg\<rparr>) = heard k d"
  "k \<noteq> ''pump'' \<Longrightarrow> heard k (d\<lparr>cd_pumps := xh\<rparr>) = heard k d"
  "k \<noteq> ''ev'' \<Longrightarrow> heard k (d\<lparr>cd_evs := xi\<rparr>) = heard k d"
  "k \<noteq> ''evcharger'' \<Longrightarrow> heard k (d\<lparr>cd_evchargers := xj\<rparr>) = heard k d"
  by (simp_all add: heard_def)

lemma device_renews:
  assumes "kind \<in> {''battery'', ''solarcharger'', ''pvinverter'', ''vebus'', ''system''}"
    and "sorted_wrt (<) (map fst (heard kind d))"
  shows "renews now kind inst d (fst (apply_device_message N now kind inst path payload d))"
  using assms by (elim insertE emptyE)
    (simp_all add: renews_def apply_device_message_def heard_kinds heard_others renewed_sight Let_def)

lemma named_renews:
  assumes "kind \<in> {''tank'', ''pump'', ''ev'', ''evcharger''}" and "sorted_wrt (<) (map fst (heard kind d))"
  shows "renews now kind inst d (apply_named_discovery N now kind inst path payload d)"
  using assms by (elim insertE emptyE)
    (simp_all add: renews_def apply_named_discovery_def heard_kinds heard_others renewed_sight Let_def)

lemma acload_renews:
  assumes "sorted_wrt (<) (map fst (heard ''acload'' d))"
  shows "renews now ''acload'' inst d (fst (apply_acload_message N now inst path payload d))"
  using assms by (simp add: renews_def apply_acload_message_def heard_kinds heard_others renewed_sight)

lemma device_topic_renews:
  assumes "device_topic N cf mt topic payload dk = Some (dk', es)" "topic_device topic = Some (kind, inst)"
    and "sorted_wrt (<) (map fst (heard kind (dk_cerbo dk)))"
  shows "renews (mt_now mt) kind inst (sweep_stale (mt_now mt) (dk_cerbo dk)) (dk_cerbo dk')"
proof -
  have sorted: "sorted_wrt (<) (map fst (heard kind (sweep_stale (mt_now mt) (dk_cerbo dk))))"
    using assms(3) by (simp add: heard_sweep fresh_heard_def sorted_wrt_map sorted_wrt_filter)
  consider path where "parse_device_topic topic = Some (kind, inst, path)"
      "device_message N cf mt kind inst path payload dk = Some (dk', es)"
    | path where "parse_water_topic topic = Some (kind, inst, path)" "water_message N cf mt kind inst path payload dk = (dk', es)"
    | path where "parse_ev_topic topic = Some (kind, inst, path)" "ev_message N cf mt kind inst path payload dk = (dk', es)"
    | path where "kind = ''acload''" "acload_message N cf mt inst path payload dk = (dk', es)"
    using assms(1,2) by (auto simp: device_topic_def topic_device_def split: option.split_asm)
  then show ?thesis
  proof cases
    case 1
    then show ?thesis using device_renews [OF device_topic_kind [OF 1(1)] sorted] device_message_cerbo [OF 1(2)] by simp
  next
    case 2
    then have "kind \<in> {''tank'', ''pump'', ''ev'', ''evcharger''}" using water_topic_kind [OF 2(1)] by auto
    then show ?thesis using named_renews [OF _ sorted] water_message_cerbo [OF 2(2)] by simp
  next
    case 3
    then have "kind \<in> {''tank'', ''pump'', ''ev'', ''evcharger''}" using ev_topic_kind [OF 3(1)] by auto
    then show ?thesis using named_renews [OF _ sorted] ev_message_cerbo [OF 3(2)] by simp
  next
    case 4
    then show ?thesis using acload_renews sorted acload_message_cerbo [OF 4(2)] by simp
  qed
qed

text \<open>
  C12. The client remembers exactly the devices that still speak. If every map is in ascending order without
  repetition, as in every reachable client, then after a message about a device every map holds,
  with the data they had and the moment they were last heard of, the other devices of that moment within the last two
  minutes, and none whose silence has lasted longer; the device that spoke is held once, with the present
  moment; and each map stays in ascending order without repetition.
\<close>

theorem devices_fresh:
  assumes "device_topic N cf mt topic payload dk = Some (dk', es)" "topic_device topic = Some (kind, inst)"
    and "\<forall>k. sorted_wrt (<) (map fst (heard k (dk_cerbo dk)))"
  shows "(\<exists>x. set (heard k (dk_cerbo dk')) =
        {(i, y, t) \<in> set (heard k (dk_cerbo dk)). mt_now mt - t < seconds 120 \<and> \<not> (k = kind \<and> i = inst)}
      \<union> (if k = kind then {(inst, x, mt_now mt)} else {}))
    \<and> (\<forall>(i, y, t) \<in> set (heard k (dk_cerbo dk')). mt_now mt - t < seconds 120)
    \<and> sorted_wrt (<) (map fst (heard k (dk_cerbo dk')))"
proof -
  let ?old = "fresh_heard (mt_now mt) (heard k (dk_cerbo dk))"
  have old: "set ?old = {(i, y, t) \<in> set (heard k (dk_cerbo dk)). mt_now mt - t < seconds 120}"
    by (auto simp: fresh_heard_def DEVICE_TTL_def)
  have "renews (mt_now mt) kind inst (sweep_stale (mt_now mt) (dk_cerbo dk)) (dk_cerbo dk')"
    using device_topic_renews [OF assms(1,2)] assms(3) by blast
  then have new: "if k = kind then renewed (mt_now mt) inst ?old (heard k (dk_cerbo dk')) else heard k (dk_cerbo dk') = ?old"
    by (simp add: renews_def heard_sweep split: if_split_asm)
  then obtain x where set: "set (heard k (dk_cerbo dk')) =
      {(i, y, t) \<in> set (heard k (dk_cerbo dk)). mt_now mt - t < seconds 120 \<and> \<not> (k = kind \<and> i = inst)}
    \<union> (if k = kind then {(inst, x, mt_now mt)} else {})"
    unfolding renewed_def old [symmetric] using old by (cases "k = kind") force+
  have "sorted_wrt (<) (map fst (fresh_seen (mt_now mt) (sightings k (dk_cerbo dk))))"
    using assms(3) unfolding heard_fst fresh_seen_def by (simp add: sorted_wrt_map sorted_wrt_filter)
  then have "sorted_wrt (<) (map fst (heard k (dk_cerbo dk')))"
    unfolding heard_fst device_topic_sightings [OF assms(1,2)] by (cases "k = kind") (simp_all add: touch_seen_sorted)
  moreover have "mt_now mt - t < seconds 120" if "(i, y, t) \<in> set (heard k (dk_cerbo dk'))" for i y t
    using that unfolding set by (auto simp: seconds_def split: if_split_asm)
  ultimately show ?thesis using set by blast
qed

lemma sample_topic: "parse_device_topic ''N/p/tank/3/Level'' = None"
  "parse_water_topic ''N/p/tank/3/Level'' = Some (''tank'', 3, ''Level'')"
  by code_simp+

theorem devices_fresh_witness:
  "\<exists>dk es. device_topic sample_native sample_config sample_moment ''N/p/tank/3/Level'' ''50'' new_desk = Some (dk, es)
     \<and> fst ` set (heard ''tank'' (dk_cerbo dk)) = {3} \<and> heard ''pump'' (dk_cerbo dk) = []"
proof -
  obtain dk es where step: "device_topic sample_native sample_config sample_moment ''N/p/tank/3/Level'' ''50'' new_desk = Some (dk, es)"
    by (cases "water_message sample_native sample_config sample_moment ''tank'' 3 ''Level'' ''50'' new_desk")
      (simp add: device_topic_def sample_topic)
  have none: "heard k (dk_cerbo new_desk) = []" for k
    by (simp add: heard_def new_desk_def no_devices_def heard_of_def)
  have t: "topic_device ''N/p/tank/3/Level'' = Some (''tank'', 3)"
    by (simp add: topic_device_def sample_topic)
  have "fst ` set (heard ''tank'' (dk_cerbo dk)) = {3}" "set (heard ''pump'' (dk_cerbo dk)) = {}"
    using devices_fresh [OF step t, of "''tank''"] devices_fresh [OF step t, of "''pump''"] by (auto simp: none)
  then show ?thesis using step by auto
qed

end
