(* ===== verification/DeskSafety.thy ===== *)
theory DeskSafety
  imports DeskRuns
begin

text \<open>
  What every reachable MQTT client satisfies: the machine integers of its state keep their types and its
  ordered maps their order.
\<close>

section \<open>Types of the state\<close>

lemma parse_u32_bound: "parse_u32 s = Some n \<Longrightarrow> n \<le> u32_max"
  by (auto simp: parse_u32_def parse_unsigned_def Let_def split: if_split_asm)

lemma path_bounds:
  shows "parse_device_topic topic = Some (kind, inst, path) \<Longrightarrow> inst \<le> u32_max"
    and "parse_water_topic topic = Some (kind, inst, path) \<Longrightarrow> inst \<le> u32_max"
    and "parse_ev_topic topic = Some (kind, inst, path) \<Longrightarrow> inst \<le> u32_max"
    and "parse_acload_topic topic = Some (inst, path) \<Longrightarrow> inst \<le> u32_max"
  subgoal by (auto simp: parse_device_topic_def dest!: parse_u32_bound split: option.split_asm list.split_asm if_split_asm)
  subgoal by (auto simp: parse_water_topic_def dest!: parse_u32_bound split: option.split_asm list.split_asm if_split_asm)
  subgoal by (auto simp: parse_ev_topic_def dest!: parse_u32_bound split: option.split_asm list.split_asm if_split_asm)
  subgoal by (auto simp: parse_acload_topic_def dest!: parse_u32_bound split: option.split_asm list.split_asm if_split_asm)
  done

lemma topic_device_bound: "topic_device topic = Some (kind, inst) \<Longrightarrow> inst \<le> u32_max"
  unfolding topic_device_def
  by (auto dest: path_bounds split: option.split_asm prod.split_asm)

definition maps_typed :: "cerbo_devices \<Rightarrow> bool" where
  "maps_typed d \<longleftrightarrow> (\<forall>k. sorted_wrt (<) (map fst (sightings k d)) \<and> (\<forall>p \<in> set (sightings k d). fst p \<le> u32_max))"

definition alarms_typed :: "(string \<times> nat) list \<Rightarrow> bool" where
  "alarms_typed as \<longleftrightarrow> distinct (map fst as) \<and> (\<forall>p \<in> set as. snd p < 256)"

definition slots_typed :: "(nat \<times> slot) list \<Rightarrow> bool" where
  "slots_typed ss \<longleftrightarrow> distinct (map fst ss) \<and> (\<forall>p \<in> set ss. sl_slot (snd p) = fst p)"

definition modes_typed :: "water_ev \<Rightarrow> bool" where
  "modes_typed w \<longleftrightarrow> (\<forall>m. we_water_pump_mode w = Some m \<or> we_water_valve_mode w = Some m \<longrightarrow> m \<le> 255)"

definition desk_typed :: "desk \<Rightarrow> bool" where
  "desk_typed dk \<longleftrightarrow> maps_typed (dk_cerbo dk) \<and> alarms_typed (dk_alarms dk) \<and> slots_typed (dk_platform dk)
     \<and> modes_typed (iv_water_ev (dk_state dk))"

lemma update_typed: "distinct (map fst xs) \<Longrightarrow> distinct (map fst (AList.update k v xs))
    \<and> (\<forall>p \<in> set (AList.update k v xs). p = (k, v) \<or> p \<in> set xs)"
proof
  show "distinct (map fst xs) \<Longrightarrow> distinct (map fst (AList.update k v xs))" by (rule AList.distinct_update)
  show "\<forall>p \<in> set (AList.update k v xs). p = (k, v) \<or> p \<in> set xs" by (induction xs) auto
qed

lemma alarms_typed_update: "alarms_typed as \<Longrightarrow> v < 256 \<Longrightarrow> alarms_typed (AList.update topic v as)"
  using update_typed [of as topic v] by (auto simp: alarms_typed_def)

lemma slots_typed_update: "slots_typed ss \<Longrightarrow> sl_slot s = k \<Longrightarrow> slots_typed (AList.update k s ss)"
  using update_typed [of ss k s] by (auto simp: slots_typed_def)

lemma apply_field_slot [simp]: "sl_slot (apply_field T field v s) = sl_slot s"
  by (simp add: apply_field_def Let_def)

lemma touched_slot_slot [simp]: "sl_slot (touched_slot inst k ss) = k"
  by (simp add: touched_slot_def)

lemma maps_typed_touch:
  assumes "maps_typed d" "inst \<le> u32_max"
    and "\<And>k. sightings k d' = (if k = kind then touch_seen now inst else id) (fresh_seen now (sightings k d))"
  shows "maps_typed d'"
  unfolding maps_typed_def
proof
  fix k
  let ?old = "fresh_seen now (sightings k d)"
  have s: "sorted_wrt (<) (map fst ?old)" "\<forall>p \<in> set ?old. fst p \<le> u32_max"
    using assms(1) by (auto simp: maps_typed_def fresh_seen_def sorted_wrt_map sorted_wrt_filter Ball_def)
  show "sorted_wrt (<) (map fst (sightings k d')) \<and> (\<forall>p \<in> set (sightings k d'). fst p \<le> u32_max)"
    using s assms(2,3) by (auto simp: touch_seen_set touch_seen_sorted)
qed

lemma modes_overlay [simp]: "modes_typed (iv_water_ev (apply_cerbo_to_state d st)) = modes_typed (iv_water_ev st)"
  by (simp add: apply_cerbo_water modes_typed_def)

lemma modes_restore [simp]: "modes_typed (restore_into c w) = modes_typed w"
proof -
  have "we_water_pump_mode (restore_field c f w) = we_water_pump_mode w \<and> we_water_valve_mode (restore_field c f w) = we_water_valve_mode w" for f w
    by (cases f) (simp_all add: restore_field_def split: option.split)
  then show ?thesis by (simp add: restore_into_def modes_typed_def Let_def)
qed

lemma modes_water: "modes_typed w \<Longrightarrow> modes_typed (water_value cf d kind inst path v w)"
proof -
  have "to_unsigned 255 v \<le> 255" by (cases v) auto
  then show "modes_typed w \<Longrightarrow> modes_typed (water_value cf d kind inst path v w)"
    by (simp add: water_value_def modes_typed_def Let_def split: prod.split)
qed

lemma show_ev_modes [simp]: "modes_typed (show_ev f v w) = modes_typed w"
  by (cases f) (simp_all add: modes_typed_def)

lemma ev_modes: "apply_ev_message now kind inst path v j w c = (w', c', r) \<Longrightarrow> modes_typed w' = modes_typed w"
  by (auto simp: apply_ev_message_def Let_def split: if_split_asm option.split_asm prod.split_asm bool.split_asm)

text \<open>Frames of the handlers: the tables of alarms and slots.\<close>

lemma send_state_tables: "send_state cf mt force dk = (dk', es) \<Longrightarrow> dk_alarms dk' = dk_alarms dk \<and> dk_platform dk' = dk_platform dk"
  by (auto simp: send_state_def split: prod.split_asm)

lemma refresh_tables: "refresh cf mt dk = (dk', es) \<Longrightarrow> dk_alarms dk' = dk_alarms dk \<and> dk_platform dk' = dk_platform dk"
  unfolding refresh_def by (drule send_state_tables) simp

lemma refresh_all: "refresh cf mt dk = (dk', es) \<Longrightarrow> dk_alarms dk' = dk_alarms dk \<and> dk_platform dk' = dk_platform dk
    \<and> dk_state dk' = apply_cerbo_to_state (dk_cerbo dk) (dk_state dk)"
  using refresh_tables refresh_fields by blast

lemma ev_value_tables: "ev_value cf mt kind inst path v dk = (dk', b) \<Longrightarrow>
  dk_alarms dk' = dk_alarms dk \<and> dk_platform dk' = dk_platform dk \<and> modes_typed (iv_water_ev (dk_state dk')) = modes_typed (iv_water_ev (dk_state dk))"
  unfolding ev_value_def Let_def by (auto simp: change_water_def dest: ev_modes split: prod.split_asm)

lemma ev_message_tables:
  assumes "ev_message N cf mt kind inst path payload dk = (dk', es)"
  shows "dk_alarms dk' = dk_alarms dk \<and> dk_platform dk' = dk_platform dk
    \<and> modes_typed (iv_water_ev (dk_state dk')) = modes_typed (iv_water_ev (dk_state dk))"
proof -
  let ?d = "apply_named_discovery N (mt_now mt) kind inst path payload (sweep_stale (mt_now mt) (dk_cerbo dk))"
  let ?dk = "dk\<lparr>dk_cerbo := ?d\<rparr>"
  obtain dk1 b where one: "(if path \<in> {''Soc'', ''Ac/Power''}
      then case parse_cerbo_value N payload of None \<Rightarrow> (?dk, False) | Some v \<Rightarrow> ev_value cf mt kind inst path v ?dk
      else (?dk, False)) = (dk1, b)" by fastforce
  have k: "dk_alarms dk1 = dk_alarms dk \<and> dk_platform dk1 = dk_platform dk
      \<and> modes_typed (iv_water_ev (dk_state dk1)) = modes_typed (iv_water_ev (dk_state dk))"
    using one by (auto dest: ev_value_tables split: if_split_asm option.split_asm)
  let ?dk2 = "dk1\<lparr>dk_state := apply_cerbo_to_state ?d (dk_state dk1)\<rparr>"
  have "(dk', es) = (?dk2, []) \<or> send_state cf mt False ?dk2 = (dk', es)"
    using assms one by (auto simp: ev_message_def Let_def split: if_split_asm prod.split_asm)
  then show ?thesis
  proof
    assume "send_state cf mt False ?dk2 = (dk', es)"
    from send_state_tables [OF this] send_state_fields [OF this] show ?thesis using k by simp
  qed (use k in simp)
qed

lemma device_topic_tables:
  assumes "device_topic N cf mt topic payload dk = Some (dk', es)"
  shows "dk_alarms dk' = dk_alarms dk \<and> dk_platform dk' = dk_platform dk
    \<and> (modes_typed (iv_water_ev (dk_state dk)) \<longrightarrow> modes_typed (iv_water_ev (dk_state dk')))"
proof -
  have device: ?thesis if "device_message N cf mt kind inst path payload dk = Some (dk', es)" for kind inst path
    using that unfolding device_message_def Let_def
    by (auto dest!: refresh_all split: prod.split_asm if_split_asm)
  have acload: ?thesis if "acload_message N cf mt inst path payload dk = (dk', es)" for inst path
    using that unfolding acload_message_def Let_def
    by (auto dest!: refresh_all split: prod.split_asm if_split_asm)
  have water: ?thesis if "water_message N cf mt kind inst path payload dk = (dk', es)" for kind inst path
    using that unfolding water_message_def Let_def
    by (auto dest!: refresh_all simp: change_water_def modes_water split: option.splits)
  show ?thesis
    using assms device acload water ev_message_tables
    by (auto simp: device_topic_def split: option.split_asm)
qed

lemma device_topic_typed:
  assumes "device_topic N cf mt topic payload dk = Some (dk', es)" "desk_typed dk"
  shows "desk_typed dk'"
proof -
  have "maps_typed (dk_cerbo dk')"
  proof (cases "topic_device topic")
    case None
    then have "dk' = dk" using assms(1) by (auto simp: device_topic_def topic_device_def split: option.split_asm)
    then show ?thesis using assms(2) by (simp add: desk_typed_def)
  next
    case (Some ki)
    obtain kind inst where ki: "ki = (kind, inst)" by fastforce
    show ?thesis
      using maps_typed_touch [OF _ topic_device_bound, of "dk_cerbo dk" topic kind inst "dk_cerbo dk'"]
        device_topic_sightings [OF assms(1)] Some ki assms(2) by (simp add: desk_typed_def)
  qed
  then show ?thesis using device_topic_tables [OF assms(1)] assms(2) by (simp add: desk_typed_def)
qed

lemma state_message_typed:
  assumes "state_message D cf mt payload retained dk = (dk', es)" "desk_typed dk"
  shows "desk_typed dk'"
proof -
  have "desk_typed (fst (process_state_update cf mt raw dk))" for raw
  proof -
    have f: "dk_cerbo (fst (process_state_update cf mt raw dk)) = dk_cerbo dk"
      "dk_alarms (fst (process_state_update cf mt raw dk)) = dk_alarms dk"
      "dk_platform (fst (process_state_update cf mt raw dk)) = dk_platform dk"
      by (simp_all add: process_state_update_def send_state_def Let_def case_prod_beta)
    show ?thesis using assms(2)
      by (simp add: desk_typed_def f process_state merged_state_base merged_base_frame)
  qed
  then show ?thesis using assms by (auto simp: state_message_def split: option.split_asm) (metis fst_conv)
qed

lemma handle_message_typed:
  assumes "handle_message D cf mt topic payload retained dk = Some (dk', es)" "desk_typed dk"
  shows "desk_typed dk'"
proof -
  have alarm: ?thesis if "handle_alarm (in_native D) cf topic payload dk = Some (dk', es)"
    using that assms(2)
    by (auto simp: handle_alarm_def alarm_message_def desk_typed_def Let_def alarm_value_def intro!: alarms_typed_update
        split: if_split_asm option.split_asm prod.split_asm)
  have platform: ?thesis if "handle_platform (in_native D) cf topic payload dk = (dk', es)"
    using that assms(2)
    by (auto simp: handle_platform_def platform_message_def desk_typed_def Let_def intro!: slots_typed_update
        split: option.split_asm prod.split_asm)
  have other: ?thesis if "override_message D cf payload dk = (dk', es)"
    using that assms(2) by (auto simp: override_message_def desk_typed_def split: option.split_asm)
  show ?thesis
    using assms alarm platform other state_message_typed device_topic_typed
    by (auto simp: handle_message_def split: if_split_asm)
qed

lemma desk_step_typed:
  assumes "desk_step D cf mt i dk = Some (dk', es)" "desk_typed dk"
  shows "desk_typed dk'"
proof (cases i)
  case (Message topic payload retained)
  then show ?thesis using assms handle_message_typed by simp
next
  case FlushDue
  then show ?thesis using assms by (auto simp: flush_def desk_typed_def split: if_split_asm prod.split_asm)
next
  case (Acknowledge cn inst k)
  have "dk' = dk\<lparr>dk_platform := dismiss_slot inst k (dk_platform dk)\<rparr>"
    using assms(1) Acknowledge
    by (auto simp: acknowledge_victron_notification_def Let_def publish_def split: option.split_asm if_split_asm prod.split_asm)
  moreover have "slots_typed (dismiss_slot inst k (dk_platform dk))"
    using assms(2) unfolding dismiss_slot_def by (intro slots_typed_update) (simp_all add: desk_typed_def)
  ultimately show ?thesis using assms(2) by (simp add: desk_typed_def)
qed

lemma desk_typed_new [simp]: "desk_typed new_desk"
  by (simp add: desk_typed_def new_desk_def maps_typed_def alarms_typed_def slots_typed_def modes_typed_def sightings_def
      no_devices_def seen_of_def default_state_def default_water_ev_def)

text \<open>
  C14. The state keeps its types: in every reachable client device instances are 32-bit and each map of devices is
  ascending without repetition, alarm values are bytes and their topics distinct, each slot of the platform is
  filed under its own number, and the water modes are bytes.
\<close>

theorem desk_well_typed:
  assumes "desk_run D cf is new_desk = Some (dk, es)"
  shows "desk_typed dk"
proof -
  have "desk_run D cf is dk0 = Some (dk, es) \<Longrightarrow> desk_typed dk0 \<Longrightarrow> desk_typed dk" for dk0
  proof (induction "is" arbitrary: dk0 es)
    case (Cons x xs)
    obtain mt i where x: "x = (mt, i)" by fastforce
    obtain dk1 fs gs where "desk_step D cf mt i dk0 = Some (dk1, fs)" "desk_run D cf xs dk1 = Some (dk, gs)"
      using Cons.prems(1) x by (auto simp: bind_eq_Some_conv)
    then show ?case using Cons.IH desk_step_typed Cons.prems(2) by blast
  qed simp
  then show ?thesis using assms by simp
qed

theorem desk_well_typed_witness:
  "\<exists>dk es. desk_run sample_decoders sample_config [(sample_moment, Acknowledge \<lparr>cn_portal = None, cn_client = False, cn_send = (\<lambda>_. Ok ())\<rparr> 0 4)]
      new_desk = Some (dk, es) \<and> desk_typed dk \<and> map fst (dk_platform dk) = [4]"
proof -
  let ?cn = "\<lparr>cn_portal = None, cn_client = False, cn_send = (\<lambda>_. Ok ())\<rparr>"
  obtain dk es where run: "desk_run sample_decoders sample_config [(sample_moment, Acknowledge ?cn 0 4)] new_desk = Some (dk, es)"
      "map fst (dk_platform dk) = [4]"
    by (simp add: acknowledge_victron_notification_def non_empty_def dismiss_slot_def new_desk_def Let_def
        split: if_splits)
  show ?thesis by (intro exI conjI) (rule run(1), rule desk_well_typed [OF run(1)], rule run(2))
qed

end
