(* ===== verification/EmitterRuns.thy ===== *)
theory EmitterRuns
  imports Daemon "HOL-Library.Sublist"
begin

text \<open>
  The coalescing of state events over a whole session: offers of snapshots and the flush tasks they spawn,
  in any order. Updates are delayed and merged, and none of the newest is lost.
\<close>

section \<open>Runs of the emitter\<close>

datatype emit_op = Offer inverter_state bool | FlushTask

text \<open>An offer may spawn a flush task; a task that has slept its delay takes what is pending.\<close>

fun emit_op_step :: "moment \<Rightarrow> emit_op \<Rightarrow> emitter \<times> nat \<Rightarrow> (emitter \<times> nat) \<times> desk_event list" where
  "emit_op_step mt (Offer s force) (er, tasks) = (case emit_state True mt s force er of
     (er, es, delay) \<Rightarrow> ((er, if delay = None then tasks else Suc tasks), es))"
| "emit_op_step mt FlushTask (er, tasks) = (if tasks = 0 then ((er, tasks), [])
     else case flush_state mt er of (er, es) \<Rightarrow> ((er, tasks - 1), es))"

fun emit_run :: "(moment \<times> emit_op) list \<Rightarrow> emitter \<times> nat \<Rightarrow> (emitter \<times> nat) \<times> desk_event list" where
  "emit_run [] st = (st, [])"
| "emit_run ((mt, x) # xs) st = (case emit_op_step mt x st of (st, es) \<Rightarrow>
     (case emit_run xs st of (st, fs) \<Rightarrow> (st, es @ fs)))"

fun offered :: "(moment \<times> emit_op) list \<Rightarrow> inverter_state list" where
  "offered [] = []"
| "offered ((_, Offer s _) # xs) = s # offered xs"
| "offered ((_, FlushTask) # xs) = offered xs"

text \<open>
  What was offered and sent so far: the events in order among the offers, the newest snapshot sent or pending,
  and a pending one has its only task under way.
\<close>

definition coalesced :: "inverter_state list \<Rightarrow> desk_event list \<Rightarrow> emitter \<times> nat \<Rightarrow> bool" where
  "coalesced offers es st \<longleftrightarrow> (case st of (er, tasks) \<Rightarrow>
     er_active er \<and> tasks = (if er_flush_scheduled er then 1 else 0)
     \<and> (case er_pending er of
          None \<Rightarrow> subseq es (map DkState offers) \<and> (offers \<noteq> [] \<longrightarrow> es \<noteq> [] \<and> last es = DkState (last offers))
        | Some s \<Rightarrow> er_flush_scheduled er \<and> offers \<noteq> [] \<and> last offers = s
            \<and> subseq es (map DkState (butlast offers))))"

lemma subseq_snoc: "subseq xs ys \<Longrightarrow> subseq xs (ys @ [y])"
  by (rule subseq_rev_drop_many)

lemma subseq_both: "subseq xs ys \<Longrightarrow> subseq (xs @ [y]) (ys @ [y])"
  by (simp add: list_emb_append_mono)

lemma subseq_earlier: "subseq es (map DkState (butlast offers)) \<Longrightarrow> subseq es (map DkState offers)"
  by (cases offers rule: rev_cases) (auto intro: subseq_snoc)

lemma coalesced_offer:
  assumes "coalesced offers es (er, tasks)" "\<not> mt_hidden mt"
    and "emit_op_step mt (Offer s force) (er, tasks) = (st, fs)"
  shows "coalesced (offers @ [s]) (es @ fs) st"
proof -
  have sub: "subseq es (map DkState offers)"
    using assms(1) subseq_earlier by (auto simp: coalesced_def split: option.split_asm)
  consider (sent) "st = (er\<lparr>er_last_emit := Some (mt_now mt), er_pending := None\<rparr>, tasks)" "fs = [DkState s]"
    | (waiting) "er_flush_scheduled er" "st = (er\<lparr>er_pending := Some s\<rparr>, tasks)" "fs = []"
    | (spawned) "\<not> er_flush_scheduled er" "st = (er\<lparr>er_pending := Some s, er_flush_scheduled := True\<rparr>, Suc tasks)" "fs = []"
    using assms by (auto simp: coalesced_def emit_state_def queue_state_def Let_def split: bool.split_asm option.split_asm if_split_asm)
  then show ?thesis
    using assms(1) sub by cases (auto simp: coalesced_def subseq_both subseq_snoc split: option.split_asm)
qed

lemma coalesced_flush:
  assumes "coalesced offers es (er, tasks)" "\<not> mt_hidden mt" "emit_op_step mt FlushTask (er, tasks) = (st, fs)"
  shows "coalesced offers (es @ fs) st"
proof (cases "er_pending er")
  case None
  then show ?thesis
    using assms by (auto simp: coalesced_def flush_state_def take_pending_def Let_def split: if_split_asm)
next
  case (Some s)
  then obtain os where os: "offers = os @ [s]" "subseq es (map DkState os)"
    using assms(1) by (cases offers rule: rev_cases) (auto simp: coalesced_def)
  then have "subseq (es @ [DkState s]) (map DkState offers)" by (simp add: subseq_both)
  then show ?thesis
    using assms Some os by (auto simp: coalesced_def flush_state_def take_pending_def Let_def split: if_split_asm)
qed

lemma coalesced_run:
  assumes "coalesced offers es st" "\<And>mt x. (mt, x) \<in> set xs \<Longrightarrow> \<not> mt_hidden mt" "emit_run xs st = (st', fs)"
  shows "coalesced (offers @ offered xs) (es @ fs) st'"
  using assms
proof (induction xs arbitrary: offers es st fs)
  case (Cons p xs)
  obtain mt x where p: "p = (mt, x)" by fastforce
  obtain er tasks where st: "st = (er, tasks)" by fastforce
  obtain st1 fs1 fs2 where run: "emit_op_step mt x st = (st1, fs1)" "emit_run xs st1 = (st', fs2)" "fs = fs1 @ fs2"
    using Cons.prems(3) p by (auto split: prod.split_asm)
  have "\<not> mt_hidden mt" using Cons.prems(2) p by auto
  then have c: "coalesced (offers @ offered [p]) (es @ fs1) st1"
    using Cons.prems(1) run(1) st p coalesced_offer coalesced_flush by (cases x) auto
  have split: "offered (p # xs) = offered [p] @ offered xs" by (cases x) (simp_all add: p)
  have later: "\<not> mt_hidden m" if "(m, y) \<in> set xs" for m y using Cons.prems(2) that by (meson list.set_intros(2))
  show ?case using Cons.IH [OF c later run(2)] by (simp add: split run(3) del: offered.simps)
qed simp

lemma coalesced_new: "coalesced [] [] (new_emitter True, 0)"
  by (simp add: coalesced_def new_emitter_def)

text \<open>
  C17. Coalescing loses nothing that matters: while the window is visible, the state events a session sends are
  offered snapshots in the order of their offers; at most one flush task is ever under way; and the newest
  snapshot has either been sent last or is sent by the task that is under way.
\<close>

theorem newest_state_arrives:
  assumes "emit_run xs (new_emitter True, 0) = ((er, tasks), es)" "\<forall>(mt, x) \<in> set xs. \<not> mt_hidden mt" "offered xs \<noteq> []"
  shows "subseq es (map DkState (offered xs)) \<and> tasks \<le> 1
    \<and> (if tasks = 0 \<or> er_pending er = None then last es = DkState (last (offered xs))
       else \<forall>mt. \<not> mt_hidden mt \<longrightarrow> snd (emit_op_step mt FlushTask (er, tasks)) = [DkState (last (offered xs))])"
proof -
  have c: "coalesced (offered xs) es (er, tasks)"
    using coalesced_run [OF coalesced_new _ assms(1)] assms(2) by auto
  then show ?thesis
    using assms(3) subseq_earlier
    by (auto simp: coalesced_def flush_state_def take_pending_def Let_def split: option.split_asm if_split_asm)
qed

theorem newest_state_arrives_witness:
  "\<exists>er es. emit_run [(\<lparr>mt_now = 0, mt_millis = 0, mt_text = [], mt_hidden = False, mt_loads = []\<rparr>, Offer default_state False)]
     (new_emitter True, 0) = ((er, 0), es) \<and> last es = DkState default_state"
proof -
  let ?xs = "[(\<lparr>mt_now = 0, mt_millis = 0, mt_text = [], mt_hidden = False, mt_loads = []\<rparr>, Offer default_state False)]"
  obtain er es where run: "emit_run ?xs (new_emitter True, 0) = ((er, 0), es)"
    by (simp add: emit_state_def queue_state_def new_emitter_def)
  have "last es = DkState default_state" using newest_state_arrives [OF run] by simp
  then show ?thesis using run by blast
qed

end
