(* ===== verification/Connection.thy ===== *)
theory Connection
  imports DeskSafety EmitterRuns
begin

text \<open>
  The life of the MQTT client's connection, \<^verbatim>\<open>connect\<close> and \<^verbatim>\<open>run_mqtt_loop\<close> of \<^verbatim>\<open>src-tauri/src/mqtt.rs\<close> with
  the \<^verbatim>\<open>Shutdown\<close> of \<^verbatim>\<open>mqtt/lifecycle.rs\<close>: what the event loop delivers is an input, what the client asks of it
  is a list of events. A task that panics ends the connection with an error and keeps what it had stored.
\<close>

section \<open>Where an alarm panics\<close>

lemma chars_Nil [simp]: "chars s = [] \<longleftrightarrow> s = []" by (cases s) simp_all

lemma camel_words_Nil: "camel_words N w cs = [] \<longleftrightarrow> w = [] \<and> cs = []"
  by (induction N w cs rule: camel_words.induct) auto

lemma alarm_title_None: "alarm_title N alarm = None \<longleftrightarrow> alarm = []"
  by (simp add: alarm_title_def pretty_alarm_name_def split_camel_def camel_words_Nil split: list.split)
    (metis camel_words_Nil chars_Nil map_is_Nil_conv list.distinct(1))

lemma reemit_alarm_None: "reemit_alarm N d (topic, v) = None \<longleftrightarrow>
    (\<exists>inst. parse_alarm_topic topic = Some (''battery'', inst, []))"
  by (auto simp: reemit_alarm_def alarm_title_None split: option.split)

lemma reemit_each_None: "reemit_each N d as = None \<longleftrightarrow> (\<exists>a \<in> set as. reemit_alarm N d a = None)"
  by (induction N d as rule: reemit_each.induct) (auto split: bind_split)

section \<open>The connection\<close>

text \<open>What a message leaves behind when its handling panics.\<close>

fun reemit_before :: "native \<Rightarrow> cerbo_devices \<Rightarrow> (string \<times> nat) list \<Rightarrow> desk_event list" where
  "reemit_before N d [] = []"
| "reemit_before N d (a # as) = (case reemit_alarm N d a of None \<Rightarrow> [] | Some es \<Rightarrow> es @ reemit_before N d as)"

definition aborted_message :: "native \<Rightarrow> config \<Rightarrow> moment \<Rightarrow> string \<Rightarrow> string \<Rightarrow> desk \<Rightarrow> desk \<times> desk_event list" where
  "aborted_message N cf mt topic payload dk =
     (if contains_str ''/Alarms/'' topic
      then (dk\<lparr>dk_alarms := AList.update topic (alarm_value N payload) (dk_alarms dk)\<rparr>, [])
      else case parse_device_topic topic of
          None \<Rightarrow> (dk, [])
        | Some (kind, inst, path) \<Rightarrow>
            (let d = fst (apply_device_message N (mt_now mt) kind inst path payload (sweep_stale (mt_now mt) (dk_cerbo dk)));
                 (dk, es) = refresh cf mt (dk\<lparr>dk_cerbo := d\<rparr>)
             in (dk, es @ reemit_platform N (cf_app cf) d (dk_platform dk)
                  @ reemit_before N d (filter (\<lambda>(_, v). v = 1 \<or> v = 2) (dk_alarms dk)))))"

text \<open>
  C23. The banner of a raw alarm panics exactly where its topic ends before a name, as in
  \<^verbatim>\<open>N/p/battery/1/Alarms/\<close>, its value changes to a warning or an alarm and no platform notification has been
  seen. The panic leaves the value stored; and a refresh of the battery cells panics exactly if such an alarm of a
  battery is stored and no platform notification has been seen, so after a panic over a battery's topic the
  next refresh panics again, until the stored value changes or a platform notification is seen. A stored alarm of
  another service makes no refresh panic.
\<close>

theorem alarm_panics:
  "(alarm_message N app d seen topic payload alarms = None \<longleftrightarrow>
     app \<and> \<not> seen \<and> alarm_value N payload \<in> {1, 2} \<and> unwrap_or 0 (map_of alarms topic) \<noteq> alarm_value N payload
       \<and> (\<exists>service inst. parse_alarm_topic topic = Some (service, inst, [])))
   \<and> (reemit_alarms N app d seen alarms = None \<longleftrightarrow>
     app \<and> \<not> seen \<and> (\<exists>(t, v) \<in> set alarms. v \<in> {1, 2} \<and> (\<exists>inst. parse_alarm_topic t = Some (''battery'', inst, []))))
   \<and> (contains_str ''/Alarms/'' topic \<longrightarrow>
       dk_alarms (fst (aborted_message N cf mt topic payload dk)) = AList.update topic (alarm_value N payload) (dk_alarms dk))
   \<and> (contains_str ''/Alarms/'' topic \<and> alarm_message N app d seen topic payload (dk_alarms dk) = None
       \<and> parse_alarm_topic topic = Some (''battery'', inst, []) \<longrightarrow>
       reemit_alarms N app d' seen (dk_alarms (fst (aborted_message N cf mt topic payload dk))) = None)"
proof -
  have message: "alarm_message N app d seen topic payload alarms = None \<longleftrightarrow>
     app \<and> \<not> seen \<and> alarm_value N payload \<in> {1, 2} \<and> unwrap_or 0 (map_of alarms topic) \<noteq> alarm_value N payload
       \<and> (\<exists>service inst. parse_alarm_topic topic = Some (service, inst, []))" for alarms
    by (auto simp: alarm_message_def Let_def alarm_title_None split: option.split)
  have again: "reemit_alarms N app d seen alarms = None \<longleftrightarrow>
     app \<and> \<not> seen \<and> (\<exists>(t, v) \<in> set alarms. v \<in> {1, 2} \<and> (\<exists>inst. parse_alarm_topic t = Some (''battery'', inst, [])))" for alarms d
    by (auto simp: reemit_alarms_def reemit_each_None reemit_alarm_None Bex_def split: prod.splits)
  have stored: "dk_alarms (fst (aborted_message N cf mt topic payload dk)) =
      AList.update topic (alarm_value N payload) (dk_alarms dk)" if "contains_str ''/Alarms/'' topic"
    using that by (simp add: aborted_message_def)
  have "(topic, x) \<in> set (AList.update topic x as)" for x and as :: "(string \<times> nat) list"
    by (induction as) auto
  then show ?thesis unfolding message again using stored by auto
qed

lemma sample_alarm: "alarm_value sample_native [] = 1"
  "parse_alarm_topic ''N/p/battery/1/Alarms/'' = Some (''battery'', Some 1, [])"
  "contains_str ''/Alarms/'' ''N/p/battery/1/Alarms/''"
  by code_simp+

lemma new_desk_alarms: "dk_alarms new_desk = []"
  by (simp add: new_desk_def)

theorem alarm_panics_witness:
  "alarm_message sample_native True no_devices False ''N/p/battery/1/Alarms/'' [] [] = None
   \<and> reemit_alarms sample_native True no_devices False
       (dk_alarms (fst (aborted_message sample_native sample_config sample_moment ''N/p/battery/1/Alarms/'' [] new_desk))) = None"
proof -
  note all = alarm_panics [of sample_native True no_devices False "''N/p/battery/1/Alarms/''" "[]" "[]"
      sample_config sample_moment new_desk "Some 1" no_devices, unfolded new_desk_alarms]
  then have "alarm_message sample_native True no_devices False ''N/p/battery/1/Alarms/'' [] [] = None"
    by (simp add: sample_alarm)
  then show ?thesis using all sample_alarm by blast
qed

text \<open>Seconds before the next attempt.\<close>

definition mqtt_reconnect_delay_secs :: "nat \<Rightarrow> nat" where
  "mqtt_reconnect_delay_secs attempt = min (5 * 2 ^ min attempt 4) 60"

datatype link = Up | Waiting nat | Ended

record session =
  se_desk :: desk
  se_portal :: "string option"
  se_link :: link
  se_attempt :: nat
  se_stopped :: bool
  se_client :: bool \<comment> \<open>a client is in the slot\<close>
  se_active :: "string option" \<comment> \<open>the portal this connection has subscribed to\<close>
  se_ever :: bool \<comment> \<open>this connection was acknowledged\<close>

datatype link_event =
    FromDesk desk_event
  | Status bool
  | Subscribe "string list"
  | Keepalive string

definition new_session :: session where
  "new_session = \<lparr>se_desk = new_desk, se_portal = None, se_link = Ended, se_attempt = 0, se_stopped = False,
     se_client = False, se_active = None, se_ever = False\<rparr>"

definition portal_filters :: "string \<Rightarrow> string list" where
  "portal_filters i = map (\<lambda>tail. ''N/'' @ i @ tail) [''/+/Alarms/#'', ''/+/+/Alarms/#'', ''/platform/+/Notifications/#'',
     ''/tank/+/#'', ''/pump/+/#'', ''/ev/+/#'', ''/evcharger/+/#'', ''/acload/+/#'', ''/battery/+/#'', ''/solarcharger/+/#'',
     ''/pvinverter/+/#'', ''/vebus/+/#'', ''/system/+/#'']"

definition portal_events :: "string \<Rightarrow> link_event list" where
  "portal_events i = [Subscribe (portal_filters i), Keepalive (''R/'' @ i @ ''/keepalive'')]"

text \<open>Devices belong to a connection; the rest of the state outlives it.\<close>

definition open_link :: "session \<Rightarrow> session \<times> link_event list" where
  "open_link se = (if se_stopped se then (se\<lparr>se_link := Ended\<rparr>, [])
     else (se\<lparr>se_link := Up, se_client := True, se_ever := False, se_active := non_empty (se_portal se),
         se_desk := (se_desk se)\<lparr>dk_cerbo := no_devices\<rparr>\<rparr>,
       map (\<lambda>t. Subscribe [t]) [''inverter/state'', ''inverter/setpoint_override'', ''inverter/notifications'', ''inverter/portal'']
         @ (case non_empty (se_portal se) of None \<Rightarrow> [] | Some i \<Rightarrow> portal_events i)))"

definition stop_session :: "session \<Rightarrow> session" where
  "stop_session se = se\<lparr>se_stopped := True, se_client := False, se_desk := stop_client (se_desk se)\<rparr>"

text \<open>\<^verbatim>\<open>connect\<close> replaces shutdown and emitter; flushes under way belong to the old one.\<close>

definition connect :: "session \<Rightarrow> session \<times> link_event list" where
  "connect se = open_link ((stop_session se)\<lparr>se_stopped := False, se_attempt := 0,
     se_desk := (stop_client (se_desk se))\<lparr>dk_emitter := new_emitter True, dk_timers := []\<rparr>\<rparr>)"

definition forget_mode_time :: "desk \<Rightarrow> desk" where
  "forget_mode_time dk = dk\<lparr>dk_state := (dk_state dk)\<lparr>iv_controller := (iv_controller (dk_state dk))
     \<lparr>ct_ess_mode_observed_at := None\<rparr>\<rparr>\<rparr>"

text \<open>The end of \<^verbatim>\<open>run_mqtt_loop\<close> with \<^verbatim>\<open>Ok\<close> of whether it was ever acknowledged, or with an error.\<close>

definition link_over :: "config \<Rightarrow> bool option \<Rightarrow> session \<Rightarrow> session \<times> link_event list" where
  "link_over cf result se = (if se_stopped se then (se\<lparr>se_link := Ended\<rparr>, [])
     else let attempt = (if result = Some True then 0 else se_attempt se)
       in (se\<lparr>se_client := False, se_desk := forget_mode_time (se_desk se), se_link := Waiting (mqtt_reconnect_delay_secs attempt),
             se_attempt := min (attempt + 1) u32_max\<rparr>,
           if cf_app cf then [Status False] else []))"

definition portal_message :: "string \<Rightarrow> session \<Rightarrow> session \<times> link_event list" where
  "portal_message payload se = (let i = trim payload in if i = [] \<or> se_active se = Some i then (se, [])
     else (se\<lparr>se_active := Some i, se_portal := Some i\<rparr>, portal_events i))"

definition incoming :: "decoders \<Rightarrow> config \<Rightarrow> moment \<Rightarrow> string \<Rightarrow> string \<Rightarrow> bool \<Rightarrow> session \<Rightarrow> session \<times> link_event list" where
  "incoming D cf mt topic payload retained se =
     (if topic = ''inverter/portal'' then portal_message payload se
      else case handle_message D cf mt topic payload retained (se_desk se) of
          Some (dk, es) \<Rightarrow> (se\<lparr>se_desk := dk\<rparr>, map FromDesk es)
        | None \<Rightarrow>
            (case aborted_message (in_native D) cf mt topic payload (se_desk se) of (dk, es) \<Rightarrow>
              (case link_over cf None (se\<lparr>se_desk := dk\<rparr>) of (se, fs) \<Rightarrow> (se, map FromDesk es @ fs))))"

text \<open>Events of the loop, the end of a wait, a flush task, \<^verbatim>\<open>emit_current_state\<close>, \<^verbatim>\<open>stop\<close> and \<^verbatim>\<open>connect\<close>.\<close>

datatype link_input = ConnAck | Incoming string string bool | OtherPacket | LinkError | LinkEof | Wake | FlushDue
  | EmitCurrent bool | Stop | Reconnect

fun up_step :: "decoders \<Rightarrow> config \<Rightarrow> moment \<Rightarrow> link_input \<Rightarrow> session \<Rightarrow> session \<times> link_event list" where
  "up_step D cf mt ConnAck se = (se\<lparr>se_ever := True\<rparr>, if cf_app cf then [Status True] else [])"
| "up_step D cf mt (Incoming topic payload retained) se = incoming D cf mt topic payload retained se"
| "up_step D cf mt LinkError se = (case link_over cf None se of (se, es) \<Rightarrow>
     (se, (if cf_app cf then [Status False] else []) @ es))"
| "up_step D cf mt LinkEof se = (case link_over cf (Some (se_ever se)) se of (se, es) \<Rightarrow>
     (se, (if cf_app cf then [Status False] else []) @ es))"
| "up_step D cf mt _ se = (se, [])"

fun session_step :: "decoders \<Rightarrow> config \<Rightarrow> moment \<Rightarrow> link_input \<Rightarrow> session \<Rightarrow> session \<times> link_event list" where
  "session_step D cf mt Stop se = (stop_session se, [])"
| "session_step D cf mt Reconnect se = connect se"
| "session_step D cf mt FlushDue se = (if dk_timers (se_desk se) = [] then (se, [])
     else case flush mt (se_desk se) of (dk, es) \<Rightarrow> (se\<lparr>se_desk := dk\<rparr>, map FromDesk es))"
| "session_step D cf mt (EmitCurrent force) se = (case send_state cf mt force (se_desk se) of
     (dk, es) \<Rightarrow> (se\<lparr>se_desk := dk\<rparr>, map FromDesk es))"
| "session_step D cf mt Wake se = (case se_link se of Waiting _ \<Rightarrow> open_link se | _ \<Rightarrow> (se, []))"
| "session_step D cf mt i se = (if se_link se \<noteq> Up then (se, [])
     else if se_stopped se then link_over cf None se else up_step D cf mt i se)"

fun session_run :: "decoders \<Rightarrow> config \<Rightarrow> (moment \<times> link_input) list \<Rightarrow> session \<Rightarrow> session \<times> link_event list" where
  "session_run D cf [] se = (se, [])"
| "session_run D cf ((mt, i) # is) se = (case session_step D cf mt i se of (se, es) \<Rightarrow>
     (case session_run D cf is se of (se, fs) \<Rightarrow> (se, es @ fs)))"

end
