(* ===== verification/ConnectionRuns.thy ===== *)
theory ConnectionRuns
  imports Connection
begin

text \<open>
  What holds over the life of a session: a mode change needs telemetry of the present connection, a stopped
  session is silent, and how long the client waits before it connects again.
\<close>

section \<open>The controller's part of the state\<close>

abbreviation controller_of :: "desk \<Rightarrow> controller" where "controller_of dk \<equiv> iv_controller (dk_state dk)"
abbreviation mode_time :: "desk \<Rightarrow> f64 option" where "mode_time dk \<equiv> ct_ess_mode_observed_at (controller_of dk)"

lemma change_water_controller [simp]: "iv_controller (change_water f st) = iv_controller st"
  by (simp add: change_water_def)

lemma send_state_controller: "send_state cf mt force dk = (dk', es) \<Longrightarrow> controller_of dk' = controller_of dk"
  using send_state_fields by fastforce

lemma refresh_controller: "refresh cf mt dk = (dk', es) \<Longrightarrow> controller_of dk' = controller_of dk"
  using refresh_fields by (fastforce simp: apply_cerbo_all)

lemma ev_message_controller:
  assumes "ev_message N cf mt kind inst path payload dk = (dk', es)"
  shows "controller_of dk' = controller_of dk"
proof -
  let ?d = "apply_named_discovery N (mt_now mt) kind inst path payload (sweep_stale (mt_now mt) (dk_cerbo dk))"
  let ?dk = "dk\<lparr>dk_cerbo := ?d\<rparr>"
  obtain dk1 b where one: "(if path \<in> {''Soc'', ''Ac/Power''}
      then case parse_cerbo_value N payload of None \<Rightarrow> (?dk, False) | Some v \<Rightarrow> ev_value cf mt kind inst path v ?dk
      else (?dk, False)) = (dk1, b)" by fastforce
  have k: "controller_of dk1 = controller_of dk"
    using one by (auto simp: ev_value_def Let_def split: if_split_asm option.split_asm prod.split_asm)
  let ?dk2 = "dk1\<lparr>dk_state := apply_cerbo_to_state ?d (dk_state dk1)\<rparr>"
  have "(dk', es) = (?dk2, []) \<or> send_state cf mt False ?dk2 = (dk', es)"
    using assms one by (auto simp: ev_message_def Let_def split: if_split_asm prod.split_asm)
  then show ?thesis using k send_state_controller by (auto simp: apply_cerbo_all)
qed

lemma device_topic_controller:
  assumes "device_topic N cf mt topic payload dk = Some (dk', es)"
  shows "controller_of dk' = controller_of dk"
proof -
  have device: ?thesis if "device_message N cf mt kind inst path payload dk = Some (dk', es)" for kind inst path
    using that unfolding device_message_def Let_def
    by (auto dest!: refresh_controller split: prod.split_asm if_split_asm)
  have acload: ?thesis if "acload_message N cf mt inst path payload dk = (dk', es)" for inst path
    using that unfolding acload_message_def Let_def
    by (auto dest!: refresh_controller split: prod.split_asm if_split_asm)
  have water: ?thesis if "water_message N cf mt kind inst path payload dk = (dk', es)" for kind inst path
    using that unfolding water_message_def Let_def
    by (auto dest!: refresh_controller split: option.splits if_split_asm)
  show ?thesis
    using assms device acload water ev_message_controller by (auto simp: device_topic_def split: option.split_asm)
qed

text \<open>Only a live message of the daemon dates the mode.\<close>

lemma merge_ess_retained: "rw_ess_mode_retained raw \<Longrightarrow> ct_ess_mode_observed_at ct = None
    \<Longrightarrow> ct_ess_mode_observed_at (merge_controller millis raw ct) = None"
  by (simp add: merge_controller_def merge_ess_def merge_backup_def Let_def split: option.split)

lemma handle_message_mode_time:
  assumes "handle_message D cf mt topic payload retained dk = Some (dk', es)" "mode_time dk = None"
    and "topic = ''inverter/state'' \<longrightarrow> retained"
  shows "mode_time dk' = None"
proof (cases "topic = ''inverter/state''")
  case True
  then have m: "state_message D cf mt payload True dk = (dk', es)" using assms(1,3) by (simp add: handle_message_def)
  show ?thesis
  proof (cases "in_raw D payload")
    case None
    then show ?thesis using m assms(2) by (simp add: state_message_def)
  next
    case (Some r)
    define raw where "raw = resolve_short_battery_keys (r\<lparr>rw_ess_mode_retained := True\<rparr>)"
    have retained: "rw_ess_mode_retained raw" by (simp add: raw_def resolve_short_battery_keys_def)
    have dk': "dk' = fst (process_state_update cf mt raw dk)" using m Some by (simp add: state_message_def raw_def)
    have "mode_time (fst (process_state_update cf mt raw dk))
        = ct_ess_mode_observed_at (merge_controller (mt_millis mt) raw (iv_controller (merge_live (dk_cerbo dk) raw (dk_state dk))))"
      by (simp add: process_state merged_state_def Let_def apply_cerbo_all)
    moreover have "iv_controller (merge_live (dk_cerbo dk) raw (dk_state dk)) = controller_of dk"
      by (simp add: merge_live_def Let_def)
    ultimately show ?thesis using dk' retained assms(2) by (simp add: merge_ess_retained)
  qed
next
  case False
  have "controller_of dk' = controller_of dk \<or> mode_time dk' = mode_time dk"
    using assms(1) False device_topic_controller
    by (auto simp: handle_message_def override_message_def handle_platform_def handle_alarm_def
        split: if_split_asm option.split_asm prod.split_asm)
  then show ?thesis using assms(2) by auto
qed

section \<open>Mode changes need fresh telemetry\<close>

lemma aborted_controller: "aborted_message N cf mt topic payload dk = (dk', es) \<Longrightarrow> controller_of dk' = controller_of dk"
  by (auto simp: aborted_message_def Let_def dest: refresh_controller split: if_split_asm option.split_asm prod.split_asm)

lemma link_over_time: "link_over cf r se = (se', es) \<Longrightarrow> \<not> se_stopped se \<Longrightarrow> mode_time (se_desk se') = None"
  by (auto simp: link_over_def forget_mode_time_def Let_def)

lemma link_over_keeps: "link_over cf r se = (se', es) \<Longrightarrow> mode_time (se_desk se) = None \<Longrightarrow> mode_time (se_desk se') = None"
  by (auto simp: link_over_def forget_mode_time_def Let_def split: if_split_asm)

lemma open_link_time [simp]: "controller_of (se_desk (fst (open_link se))) = controller_of (se_desk se)"
  by (simp add: open_link_def)

lemma incoming_time:
  assumes "incoming D cf mt topic payload retained se = (se', es)" "mode_time (se_desk se) = None"
    and "topic = ''inverter/state'' \<longrightarrow> retained"
  shows "mode_time (se_desk se') = None"
proof (cases "topic = ''inverter/portal''")
  case True
  then show ?thesis using assms(1,2) by (auto simp: incoming_def portal_message_def Let_def split: if_split_asm)
next
  case False
  show ?thesis
  proof (cases "handle_message D cf mt topic payload retained (se_desk se)")
    case None
    obtain dk fs where ab: "aborted_message (in_native D) cf mt topic payload (se_desk se) = (dk, fs)" by fastforce
    obtain se1 gs where over: "link_over cf None (se\<lparr>se_desk := dk\<rparr>) = (se1, gs)" by fastforce
    have "se' = se1" using assms(1) False None ab over by (simp add: incoming_def)
    then show ?thesis using link_over_keeps [OF over] aborted_controller [OF ab] assms(2) by simp
  next
    case (Some r)
    obtain dk fs where "r = (dk, fs)" by fastforce
    then show ?thesis
      using assms False Some handle_message_mode_time by (auto simp: incoming_def)
  qed
qed

fun live_state :: "link_input \<Rightarrow> bool" where
  "live_state (Incoming topic payload retained) \<longleftrightarrow> topic = ''inverter/state'' \<and> \<not> retained"
| "live_state _ \<longleftrightarrow> False"

lemma up_step_time:
  assumes "up_step D cf mt i se = (se', es)" "mode_time (se_desk se) = None" "\<not> live_state i"
  shows "mode_time (se_desk se') = None"
  using assms by (cases i) (auto dest: link_over_keeps incoming_time split: prod.split_asm)

lemma connect_time [simp]: "controller_of (se_desk (fst (connect se))) = controller_of (se_desk se)"
  by (simp add: connect_def stop_session_def stop_client_def)

lemma session_step_time:
  assumes "session_step D cf mt i se = (se', es)" "mode_time (se_desk se) = None" "\<not> live_state i"
  shows "mode_time (se_desk se') = None"
proof -
  have up: ?thesis if "(if se_link se \<noteq> Up then (se, []) else if se_stopped se then link_over cf None se
      else up_step D cf mt i se) = (se', es)"
    using that assms(2,3) up_step_time link_over_keeps by (auto split: if_split_asm)
  show ?thesis
  proof (cases i)
    case Stop
    then show ?thesis using assms(1,2) by (auto simp: stop_session_def stop_client_def)
  next
    case Reconnect
    then show ?thesis using assms(1,2) connect_time [of se] by simp
  next
    case FlushDue
    then show ?thesis using assms(1,2) by (auto simp: flush_def split: if_split_asm prod.split_asm)
  next
    case (EmitCurrent force)
    then show ?thesis using assms(1,2) send_state_controller by (auto split: prod.split_asm)
  next
    case Wake
    then show ?thesis using assms(1,2) by (auto simp: open_link_def split: link.split_asm if_split_asm)
  qed (use assms(1) up in auto)
qed

lemma session_run_time:
  "session_run D cf is se = (se', es) \<Longrightarrow> mode_time (se_desk se) = None \<Longrightarrow> \<forall>(mt, i) \<in> set is. \<not> live_state i
    \<Longrightarrow> mode_time (se_desk se') = None"
proof (induction "is" arbitrary: se es)
  case (Cons x xs)
  obtain mt i where x: "x = (mt, i)" by fastforce
  obtain se1 es1 es2 where run: "session_step D cf mt i se = (se1, es1)" "session_run D cf xs se1 = (se', es2)"
    using Cons.prems(1) x by (auto split: prod.split_asm)
  show ?case using Cons.IH [OF run(2)] session_step_time [OF run(1)] Cons.prems(2,3) x by auto
qed simp

text \<open>A waiting client has forgotten when it observed the mode.\<close>

definition waits_unaware :: "session \<Rightarrow> bool" where
  "waits_unaware se \<longleftrightarrow> ((\<exists>n. se_link se = Waiting n) \<longrightarrow> mode_time (se_desk se) = None)"

lemma link_over_unaware: "link_over cf r se = (se', es) \<Longrightarrow> waits_unaware se'"
  by (auto simp: link_over_def forget_mode_time_def waits_unaware_def Let_def split: if_split_asm)

lemma up_step_unaware: "up_step D cf mt i se = (se', es) \<Longrightarrow> se_link se = Up \<Longrightarrow> waits_unaware se'"
proof (cases i)
  case (Incoming topic payload retained)
  assume "up_step D cf mt i se = (se', es)" "se_link se = Up"
  then show ?thesis using Incoming
    by (auto simp: incoming_def portal_message_def Let_def waits_unaware_def
        dest: link_over_unaware split: if_split_asm option.split_asm prod.split_asm)
qed (auto simp: waits_unaware_def dest!: link_over_unaware split: prod.split_asm)

lemma session_step_unaware:
  assumes "session_step D cf mt i se = (se', es)" "waits_unaware se"
  shows "waits_unaware se'"
proof -
  have opened: "se_link (fst (open_link s)) \<noteq> Waiting n" for s n by (simp add: open_link_def)
  have up: ?thesis if "(if se_link se \<noteq> Up then (se, []) else if se_stopped se then link_over cf None se
      else up_step D cf mt i se) = (se', es)"
    using that assms(2) up_step_unaware link_over_unaware by (auto split: if_split_asm)
  show ?thesis
  proof (cases i)
    case Stop
    then show ?thesis using assms by (auto simp: waits_unaware_def stop_session_def stop_client_def)
  next
    case Reconnect
    then have "se' = fst (connect se)" using assms(1) by simp
    then show ?thesis using opened by (auto simp: waits_unaware_def connect_def)
  next
    case FlushDue
    then show ?thesis using assms by (auto simp: waits_unaware_def flush_def split: if_split_asm prod.split_asm)
  next
    case (EmitCurrent force)
    then show ?thesis using assms send_state_controller by (fastforce simp: waits_unaware_def split: prod.split_asm)
  next
    case Wake
    then show ?thesis using assms opened [of se] by (auto simp: waits_unaware_def split: link.split_asm)
  qed (use assms(1) up in auto)
qed

lemma session_run_unaware: "session_run D cf is se = (se', es) \<Longrightarrow> waits_unaware se \<Longrightarrow> waits_unaware se'"
proof (induction "is" arbitrary: se es)
  case (Cons x xs)
  obtain mt i where x: "x = (mt, i)" by fastforce
  obtain se1 es1 es2 where run: "session_step D cf mt i se = (se1, es1)" "session_run D cf xs se1 = (se', es2)"
    using Cons.prems(1) x by (auto split: prod.split_asm)
  show ?case using Cons.IH [OF run(2)] session_step_unaware [OF run(1)] Cons.prems(2) by blast
qed simp

text \<open>
  C15. After a lost connection no mode is selected blindly: whatever the client did before, once it has lost the
  broker it publishes no \<^verbatim>\<open>set_ess_mode\<close> until a live message of the daemon arrives; a retained message, a
  device, a reconnection or any other event is not enough.
\<close>

theorem ess_needs_live_telemetry:
  assumes "session_run D cf before new_session = (se1, es1)" "se_link se1 = Waiting n"
    and "session_run D cf since se1 = (se2, es2)" "\<forall>(mt, i) \<in> set since. \<not> live_state i"
  shows "\<exists>e. publish_command N cn millis ''set_ess_mode'' payload (se_desk se2) = ([], Err e)"
proof -
  have "waits_unaware new_session" by (simp add: waits_unaware_def new_session_def)
  then have "mode_time (se_desk se1) = None" using session_run_unaware [OF assms(1)] assms(2) by (auto simp: waits_unaware_def)
  then have "mode_time (se_desk se2) = None" by (rule session_run_time [OF assms(3) _ assms(4)])
  then have "\<not> ess_fresh millis (controller_of (se_desk se2))" by (simp add: ess_fresh_def)
  then show ?thesis by (cases "validate_ess_selection payload") (simp_all add: publish_command_def)
qed

theorem ess_needs_live_telemetry_witness:
  "\<exists>se es e. session_run sample_decoders sample_config [(sample_moment, Reconnect), (sample_moment, ConnAck), (sample_moment, LinkError)]
       new_session = (se, es) \<and> se_link se = Waiting 5
     \<and> publish_command sample_native \<lparr>cn_portal = None, cn_client = True, cn_send = (\<lambda>_. Ok ())\<rparr> 0 ''set_ess_mode'' JNull (se_desk se) = ([], Err e)"
proof -
  let ?xs = "[(sample_moment, Reconnect), (sample_moment, ConnAck), (sample_moment, LinkError)]"
  obtain se es where run: "session_run sample_decoders sample_config ?xs new_session = (se, es)" "se_link se = Waiting 5"
    by (simp add: connect_def open_link_def stop_session_def stop_client_def link_over_def new_session_def Let_def
        mqtt_reconnect_delay_secs_def non_empty_def)
  have none: "session_run sample_decoders sample_config [] se = (se, [])" by simp
  from ess_needs_live_telemetry [OF run none, of sample_native "\<lparr>cn_portal = None, cn_client = True, cn_send = (\<lambda>_. Ok ())\<rparr>" 0 JNull]
  show ?thesis using run by auto
qed

section \<open>A stopped session\<close>

definition silenced :: "session \<Rightarrow> bool" where
  "silenced se \<longleftrightarrow> (se_stopped se \<longrightarrow> \<not> er_active (dk_emitter (se_desk se)))"

lemma session_step_stopped:
  assumes "session_step D cf mt i se = (se', es)" "se_stopped se" "silenced se" "i \<noteq> Reconnect"
  shows "es = [] \<and> se_stopped se' \<and> silenced se'"
proof -
  have off: "\<not> er_active (dk_emitter (se_desk se))" using assms(2,3) by (simp add: silenced_def)
  have up: ?thesis if "(if se_link se \<noteq> Up then (se, []) else if se_stopped se then link_over cf None se
      else up_step D cf mt i se) = (se', es)"
    using that assms(2,3) by (auto simp: link_over_def silenced_def split: if_split_asm)
  show ?thesis
  proof (cases i)
    case Stop
    then show ?thesis using assms(1) by (auto simp: stop_session_def stop_client_def emitter_stop_def silenced_def)
  next
    case Reconnect
    then show ?thesis using assms(4) by simp
  next
    case FlushDue
    then show ?thesis using assms(1,2) off
      by (auto simp: flush_def flush_state_def take_pending_def Let_def silenced_def split: if_split_asm)
  next
    case (EmitCurrent force)
    then show ?thesis using assms(1,2) off
      by (auto simp: send_state_def emit_state_def queue_state_def silenced_def split: if_split_asm)
  next
    case Wake
    then show ?thesis using assms(1,2,3) by (auto simp: open_link_def silenced_def split: link.split_asm)
  qed (use assms(1) up in auto)
qed

lemma session_run_stopped:
  "session_run D cf is se = (se', es) \<Longrightarrow> se_stopped se \<Longrightarrow> silenced se \<Longrightarrow> \<forall>(mt, i) \<in> set is. i \<noteq> Reconnect
    \<Longrightarrow> es = [] \<and> se_stopped se'"
proof (induction "is" arbitrary: se es)
  case (Cons x xs)
  obtain mt i where x: "x = (mt, i)" by fastforce
  obtain se1 es1 es2 where run: "session_step D cf mt i se = (se1, es1)" "session_run D cf xs se1 = (se', es2)" "es = es1 @ es2"
    using Cons.prems(1) x by (auto split: prod.split_asm)
  have step: "es1 = [] \<and> se_stopped se1 \<and> silenced se1"
    using session_step_stopped [OF run(1) Cons.prems(2,3)] Cons.prems(4) x by auto
  then show ?case using Cons.IH [OF run(2)] Cons.prems(4) run(3) by auto
qed simp

text \<open>
  C16. A stopped session is silent: after \<^verbatim>\<open>stop\<close>, and until the owner connects again, nothing reaches the user
  interface or the broker's queue, whatever messages, timers and flush tasks of the old connection still run.
\<close>

theorem stopped_session_silent:
  assumes "session_run D cf after (stop_session se) = (se', es)" "\<forall>(mt, i) \<in> set after. i \<noteq> Reconnect"
  shows "es = [] \<and> \<not> se_client (fst (session_run D cf after (stop_session se)))"
proof -
  have s: "se_stopped (stop_session se)" "silenced (stop_session se)" "\<not> se_client (stop_session se)"
    by (simp_all add: stop_session_def stop_client_def emitter_stop_def silenced_def)
  have client: "session_run D cf xs s0 = (s1, fs) \<Longrightarrow> se_stopped s0 \<Longrightarrow> silenced s0 \<Longrightarrow> \<not> se_client s0
      \<Longrightarrow> \<forall>(mt, i) \<in> set xs. i \<noteq> Reconnect \<Longrightarrow> \<not> se_client s1" for xs s0 s1 fs
  proof (induction xs arbitrary: s0 fs)
    case (Cons x xs)
    obtain mt i where x: "x = (mt, i)" by fastforce
    obtain s2 es1 es2 where run: "session_step D cf mt i s0 = (s2, es1)" "session_run D cf xs s2 = (s1, es2)"
      using Cons.prems(1) x by (auto split: prod.split_asm)
    have step: "se_stopped s2 \<and> silenced s2"
      using session_step_stopped [OF run(1) Cons.prems(2,3)] Cons.prems(5) x by auto
    have "\<not> se_client s2"
      using run(1) Cons.prems(2,4,5) x
      by (cases i) (auto simp: stop_session_def link_over_def open_link_def split: if_split_asm link.split_asm prod.split_asm)
    then show ?case using Cons.IH [OF run(2)] step Cons.prems(5) by auto
  qed simp
  show ?thesis using session_run_stopped [OF assms(1) s(1,2) assms(2)] client [OF assms(1) s assms(2)] assms(1) by simp
qed

theorem stopped_session_silent_witness:
  "snd (session_run sample_decoders sample_config [(sample_moment, Incoming ''N/p/tank/3/Level'' ''50'' False), (sample_moment, EmitCurrent True)]
     (stop_session (fst (connect new_session)))) = []"
proof -
  let ?xs = "[(sample_moment, Incoming ''N/p/tank/3/Level'' ''50'' False), (sample_moment, EmitCurrent True)]"
  obtain se es where run: "session_run sample_decoders sample_config ?xs (stop_session (fst (connect new_session))) = (se, es)"
    by fastforce
  have "es = []" using stopped_session_silent [OF run] by simp
  then show ?thesis using run by simp
qed

section \<open>Waiting to reconnect\<close>

lemma delay_bounds: "5 \<le> mqtt_reconnect_delay_secs n \<and> mqtt_reconnect_delay_secs n \<le> 60"
proof -
  have "1 \<le> (2::nat) ^ min n 4" by simp
  then show ?thesis by (simp add: mqtt_reconnect_delay_secs_def)
qed

text \<open>A connection that was acknowledged and then fails does not reset the delay; only one that ends cleanly does.\<close>

lemma backoff_after_error:
  assumes "se_link se = Up" "\<not> se_stopped se"
    and "session_run D cf [(m1, ConnAck), (m2, LinkError)] se = (se', es)"
  shows "se_link se' = Waiting (mqtt_reconnect_delay_secs (se_attempt se)) \<and> se_attempt se' = min (Suc (se_attempt se)) u32_max"
  using assms by (auto simp: link_over_def Let_def split: prod.split_asm)

lemma backoff_after_eof:
  assumes "se_link se = Up" "\<not> se_stopped se"
    and "session_run D cf [(m1, ConnAck), (m2, LinkEof)] se = (se', es)"
  shows "se_link se' = Waiting 5 \<and> se_attempt se' = 1"
  using assms by (auto simp: link_over_def Let_def mqtt_reconnect_delay_secs_def u32_max_def split: prod.split_asm)

end
