(* ===== verification/SettingsSchema.thy ===== *)
theory SettingsSchema
  imports Messages Floats
begin

text \<open>
  Declarative plugin settings, \<^verbatim>\<open>src-tauri/src/plugins/settings.rs\<close>: the schema a package declares, the JSON
  editor's own schema language, and the validation of a value against a field. \<^verbatim>\<open>serde_json\<close> at the type of the
  schema and on the text of an editor is a parameter. Objects are lists in the order of their map.
\<close>

section \<open>Data\<close>

definition MAX_FIELDS :: nat where "MAX_FIELDS = 32"
definition MAX_STRING :: nat where "MAX_STRING = 24 * 1024"

datatype setting_type = TString | TBoolean | TNumber | TInteger

record json_editor =
  je_kind :: string
  je_schema :: json

record raw_field =
  rf_kind :: setting_type
  rf_title :: "string option"
  rf_description :: "string option"
  rf_secret :: bool
  rf_omit_empty :: bool
  rf_omit_default :: bool
  rf_choices :: "string list option"
  rf_minimum :: "f64 option"
  rf_maximum :: "f64 option"
  rf_min_length :: "nat option"
  rf_max_length :: "nat option"
  rf_default :: "json option"
  rf_editor :: "json_editor option"
  rf_options_source :: "string option"
  rf_options_prefixes :: "string list"
  rf_options_multiple :: bool

record raw_schema =
  rs_kind :: string
  rs_properties :: "(string \<times> raw_field) list"
  rs_required :: "string list"
  rs_additional_properties :: "bool option"
  rs_title :: "string option"
  rs_description :: "string option"

text \<open>Parsing of JSON text, and decoding of a value as \<^verbatim>\<open>RawSchema\<close>.\<close>

record serde =
  sx_text :: "string \<Rightarrow> json option"
  sx_schema :: "json \<Rightarrow> raw_schema option"

record setting_field =
  sf_key :: string
  sf_title :: string
  sf_description :: "string option"
  sf_kind :: setting_type
  sf_required :: bool
  sf_secret :: bool
  sf_choices :: "string list option"
  sf_minimum :: "f64 option"
  sf_maximum :: "f64 option"
  sf_min_length :: "nat option"
  sf_max_length :: "nat option"
  sf_editor :: "json_editor option"
  sf_options_source :: "string option"
  sf_options_prefixes :: "string list"
  sf_options_multiple :: bool
  sf_default :: "json option"
  sf_omit_empty :: bool
  sf_omit_default :: bool

record settings_schema =
  st_fields :: "setting_field list"
  st_video_windows :: bool

section \<open>Values against an editor's schema\<close>

text \<open>\<^verbatim>\<open>schema[key]\<close> is null where there is no such member.\<close>

definition jindex :: "string \<Rightarrow> json \<Rightarrow> json" where "jindex k v = unwrap_or JNull (jget k v)"

definition opt_all :: "('a \<Rightarrow> bool) \<Rightarrow> 'a option \<Rightarrow> bool" where
  "opt_all P x = (case x of None \<Rightarrow> True | Some y \<Rightarrow> P y)"

definition prototype_key :: "string \<Rightarrow> bool" where
  "prototype_key k \<longleftrightarrow> k \<in> {''__proto__'', ''constructor'', ''prototype''}"

definition safe_integer :: "f64 \<Rightarrow> bool" where
  "safe_integer x = (case x of Finite q \<Rightarrow> q = of_int \<lfloor>q\<rfloor> \<and> \<bar>q\<bar> \<le> 9007199254740991 | _ \<Rightarrow> False)"

definition in_range :: "f64 option \<Rightarrow> f64 option \<Rightarrow> f64 \<Rightarrow> bool" where
  "in_range lo hi x \<longleftrightarrow> opt_all (\<lambda>b. f64_le b x) lo \<and> opt_all (\<lambda>b. f64_le x b) hi"

definition object_shape :: "json \<Rightarrow> (string \<times> json) list \<Rightarrow> bool" where
  "object_shape schema fs \<longleftrightarrow> length fs \<le> 128
     \<and> (\<forall>(k, _) \<in> set fs. k \<noteq> [] \<and> length k \<le> 128 \<and> \<not> prototype_key k)
     \<and> opt_all (\<lambda>m. length fs \<le> m) (as_u64 (jindex ''maxProperties'' schema))
     \<and> opt_all (\<lambda>ks. \<forall>k \<in> set ks. (case as_str k of None \<Rightarrow> False | Some s \<Rightarrow> map_of fs s \<noteq> None))
         (as_array (jindex ''required'' schema))"

definition array_shape :: "json \<Rightarrow> json list \<Rightarrow> bool" where
  "array_shape schema xs \<longleftrightarrow> opt_all (\<lambda>m. m \<le> length xs) (as_u64 (jindex ''minItems'' schema))
     \<and> opt_all (\<lambda>m. length xs \<le> m) (as_u64 (jindex ''maxItems'' schema)) \<and> length xs \<le> 128"

definition text_shape :: "json \<Rightarrow> string \<Rightarrow> bool" where
  "text_shape schema s \<longleftrightarrow> length s \<le> MAX_STRING
     \<and> opt_all (\<lambda>m. m \<le> length (chars s)) (as_u64 (jindex ''minLength'' schema))
     \<and> opt_all (\<lambda>m. length (chars s) \<le> m) (as_u64 (jindex ''maxLength'' schema))"

definition number_shape :: "json \<Rightarrow> f64 \<Rightarrow> bool" where
  "number_shape schema x \<longleftrightarrow> is_finite x \<and> (jindex ''type'' schema = JString ''integer'' \<longrightarrow> safe_integer x)
     \<and> in_range (as_f64 (jindex ''minimum'' schema)) (as_f64 (jindex ''maximum'' schema)) x"

definition enum_ok :: "json \<Rightarrow> json \<Rightarrow> bool" where
  "enum_ok v schema \<longleftrightarrow> opt_all (\<lambda>e. v = e) (jget ''const'' schema)
     \<and> opt_all (\<lambda>vs. v \<in> set vs) (Option.bind (jget ''enum'' schema) as_array)"

text \<open>What judges a member: its own schema, that of additional members, or a fixed answer.\<close>

definition member_schema :: "string \<Rightarrow> json \<Rightarrow> json + bool" where
  "member_schema k schema = (case jget k (jindex ''properties'' schema) of
       Some field \<Rightarrow> Inl field
     | None \<Rightarrow> (case jindex ''additionalProperties'' schema of
           JBool b \<Rightarrow> Inr b
         | JObject fs \<Rightarrow> Inl (JObject fs)
         | _ \<Rightarrow> Inr True))"

function json_value_matches :: "json \<Rightarrow> json \<Rightarrow> bool" where
  "json_value_matches v schema \<longleftrightarrow> enum_ok v schema \<and>
     (let kind = as_str (jindex ''type'' schema)
      in if kind = Some ''object'' then (case v of
             JObject fs \<Rightarrow> object_shape schema fs \<and> (\<forall>(k, x) \<in> set fs. case member_schema k schema of
                 Inl s \<Rightarrow> json_value_matches x s | Inr b \<Rightarrow> b)
           | _ \<Rightarrow> False)
         else if kind = Some ''array'' then (case v of
             JArray xs \<Rightarrow> array_shape schema xs \<and> (\<forall>x \<in> set xs. json_value_matches x (jindex ''items'' schema))
           | _ \<Rightarrow> False)
         else if kind = Some ''string'' then (case as_str v of None \<Rightarrow> False | Some s \<Rightarrow> text_shape schema s)
         else if kind = Some ''boolean'' then as_bool v \<noteq> None
         else if kind = Some ''number'' \<or> kind = Some ''integer''
         then (case as_f64 v of None \<Rightarrow> False | Some x \<Rightarrow> number_shape schema x)
         else False)"
  by pat_completeness auto
termination
proof (relation "measure (size \<circ> fst)")
  fix v schema kind fs kx k x s
  assume "v = JObject fs" "kx \<in> set fs" "(k, x) = kx"
  then have "(Some k, x) \<in> set (entries v)" by force
  then show "((x, s), v, schema) \<in> measure (size \<circ> fst)" using entries_smaller by simp
next
  fix v schema kind xs x
  assume "v = JArray xs" "x \<in> set xs"
  then have "(None, x) \<in> set (entries v)" by force
  then show "((x, jindex ''items'' schema), v, schema) \<in> measure (size \<circ> fst)" using entries_smaller by simp
qed simp

declare json_value_matches.simps [simp del]

section \<open>Schemas of an editor\<close>

definition options_byte :: "char \<Rightarrow> bool" where
  "options_byte c \<longleftrightarrow> is_ascii_alphanumeric c \<or> c \<in> set ''_-.:''"

definition valid_options :: "string option \<Rightarrow> string list \<Rightarrow> bool \<Rightarrow> bool" where
  "valid_options source ps multiple = (case source of
       None \<Rightarrow> ps = [] \<and> \<not> multiple
     | Some s \<Rightarrow> s \<noteq> [] \<and> length s \<le> 64 \<and> list_all options_byte s \<and> length ps \<le> 16
         \<and> list_all (\<lambda>p. p \<noteq> [] \<and> length p \<le> 128 \<and> \<not> has_control p) ps)"

definition EDITOR_KEYS :: "string list" where
  "EDITOR_KEYS = [''type'', ''title'', ''description'', ''properties'', ''required'', ''additionalProperties'', ''items'',
     ''minItems'', ''maxItems'', ''maxProperties'', ''minLength'', ''maxLength'', ''minimum'', ''maximum'', ''enum'',
     ''default'', ''const'', ''x-options-source'', ''x-options-prefixes'', ''x-options-multiple'']"

definition schema_kind :: "json \<Rightarrow> string" where
  "schema_kind schema = unwrap_or [] (as_str (jindex ''type'' schema))"

definition present :: "string \<Rightarrow> json \<Rightarrow> bool" where "present k v \<longleftrightarrow> jget k v \<noteq> None"

definition texts_bounded :: "json \<Rightarrow> bool" where
  "texts_bounded schema \<longleftrightarrow> list_all (\<lambda>(k, b). opt_all (\<lambda>v. case as_str v of None \<Rightarrow> False | Some s \<Rightarrow> length s \<le> b)
     (jget k schema)) [(''title'', 128), (''description'', 512)]"

definition counts_bounded :: "json \<Rightarrow> bool" where
  "counts_bounded schema \<longleftrightarrow> list_all (\<lambda>(k, b). opt_all (\<lambda>v. case as_u64 v of None \<Rightarrow> False | Some n \<Rightarrow> n \<le> b)
     (jget k schema)) [(''minItems'', 128), (''maxItems'', 128), (''maxProperties'', 128), (''minLength'', MAX_STRING),
       (''maxLength'', MAX_STRING)]"

definition ranges_ordered :: "json \<Rightarrow> bool" where
  "ranges_ordered schema \<longleftrightarrow> list_all (\<lambda>(lo, hi).
     opt_all (\<lambda>v. as_f64 v \<noteq> None) (jget lo schema) \<and> opt_all (\<lambda>v. as_f64 v \<noteq> None) (jget hi schema)
     \<and> (case (as_f64 (jindex lo schema), as_f64 (jindex hi schema)) of (Some x, Some y) \<Rightarrow> \<not> f64_less y x | _ \<Rightarrow> True))
     [(''minItems'', ''maxItems''), (''minLength'', ''maxLength''), (''minimum'', ''maximum'')]"

fun strings_of :: "json list \<Rightarrow> string list option" where
  "strings_of [] = Some []"
| "strings_of (v # vs) = (case (as_str v, strings_of vs) of (Some s, Some ss) \<Rightarrow> Some (s # ss) | _ \<Rightarrow> None)"

definition schema_prefixes :: "json \<Rightarrow> string list option" where
  "schema_prefixes schema = (case jget ''x-options-prefixes'' schema of None \<Rightarrow> Some []
     | Some v \<Rightarrow> Option.bind (as_array v) strings_of)"

definition schema_multiple :: "json \<Rightarrow> bool option" where
  "schema_multiple schema = (case jget ''x-options-multiple'' schema of None \<Rightarrow> Some False | Some v \<Rightarrow> as_bool v)"

definition options_valid :: "json \<Rightarrow> bool" where
  "options_valid schema \<longleftrightarrow>
     (let source = Option.bind (jget ''x-options-source'' schema) as_str
      in \<not> (present ''x-options-source'' schema \<and> source = None)
         \<and> (case (schema_prefixes schema, schema_multiple schema) of
              (Some ps, Some multiple) \<Rightarrow> valid_options source ps multiple
            | _ \<Rightarrow> False)
         \<and> \<not> (source \<noteq> None \<and> (schema_kind schema \<noteq> ''string'' \<or> present ''enum'' schema)))"

definition scalar_schema :: "json \<Rightarrow> json" where
  "scalar_schema schema = (case as_object schema of None \<Rightarrow> schema
     | Some fs \<Rightarrow> JObject (filter (\<lambda>(k, _). k \<notin> {''enum'', ''default'', ''const''}) fs))"

definition is_scalar :: "json \<Rightarrow> bool" where
  "is_scalar v = (case v of JString _ \<Rightarrow> True | JNumber _ \<Rightarrow> True | JBool _ \<Rightarrow> True | _ \<Rightarrow> False)"

definition enum_valid :: "json \<Rightarrow> bool" where
  "enum_valid schema = (case jget ''enum'' schema of
       None \<Rightarrow> True
     | Some v \<Rightarrow> (case as_array v of
           None \<Rightarrow> False
         | Some vs \<Rightarrow> vs \<noteq> [] \<and> length vs \<le> 128 \<and> distinct vs
             \<and> list_all (\<lambda>x. is_scalar x \<and> json_value_matches x (scalar_schema schema)) vs))"

definition keys_fit_kind :: "json \<Rightarrow> bool" where
  "keys_fit_kind schema \<longleftrightarrow>
     list_all (\<lambda>(k, ks). schema_kind schema = k \<or> list_all (\<lambda>x. \<not> present x schema) ks)
       [(''object'', [''properties'', ''required'', ''additionalProperties'', ''maxProperties'']),
        (''array'', [''items'', ''minItems'', ''maxItems'']), (''string'', [''minLength'', ''maxLength''])]
     \<and> (schema_kind schema \<in> {''number'', ''integer''} \<or> list_all (\<lambda>x. \<not> present x schema) [''minimum'', ''maximum''])"

text \<open>Everything a schema node is checked for by itself.\<close>

definition node_valid :: "json \<Rightarrow> bool" where
  "node_valid schema \<longleftrightarrow> (case as_object schema of None \<Rightarrow> False | Some fs \<Rightarrow>
     list_all (\<lambda>(k, _). k \<in> set EDITOR_KEYS) fs)
     \<and> schema_kind schema \<in> {''object'', ''array'', ''string'', ''boolean'', ''number'', ''integer''}
     \<and> texts_bounded schema \<and> counts_bounded schema \<and> ranges_ordered schema \<and> options_valid schema
     \<and> enum_valid schema \<and> keys_fit_kind schema"

text \<open>The declared properties; \<^verbatim>\<open>None\<close> where the member is no object.\<close>

definition schema_properties :: "json \<Rightarrow> (string \<times> json) list option" where
  "schema_properties schema = (case jget ''properties'' schema of None \<Rightarrow> Some [] | Some v \<Rightarrow> as_object v)"

definition required_valid :: "json \<Rightarrow> (string \<times> json) list \<Rightarrow> bool" where
  "required_valid schema properties = (case jget ''required'' schema of
       None \<Rightarrow> True
     | Some v \<Rightarrow> (case as_array v of None \<Rightarrow> False
         | Some ks \<Rightarrow> length ks \<le> 128 \<and> list_all (\<lambda>k. case as_str k of None \<Rightarrow> False
             | Some s \<Rightarrow> map_of properties s \<noteq> None) ks))"

definition examples_match :: "json \<Rightarrow> bool" where
  "examples_match schema \<longleftrightarrow> list_all (\<lambda>k. opt_all (\<lambda>v. json_value_matches v schema) (jget k schema)) [''default'', ''const'']"

text \<open>The walk over nested schemas returns what is left of the budget, nothing where it refuses.\<close>

function editor_schema :: "json \<Rightarrow> nat \<Rightarrow> nat \<Rightarrow> nat option"
  and editor_members :: "(string \<times> json) list \<Rightarrow> nat \<Rightarrow> nat \<Rightarrow> nat option" where
  "editor_schema schema depth remaining =
     (if 8 < depth \<or> remaining = 0 \<or> \<not> node_valid schema then None
      else
        let left = remaining - 1;
            walked =
              (if schema_kind schema = ''object'' then
                 (case schema_properties schema of
                    None \<Rightarrow> None
                  | Some properties \<Rightarrow>
                      if 128 < length properties \<or> \<not> required_valid schema properties then None
                      else (case editor_members properties (Suc depth) left of
                          None \<Rightarrow> None
                        | Some left \<Rightarrow> (case jget ''additionalProperties'' schema of
                              None \<Rightarrow> Some left
                            | Some v \<Rightarrow> if as_bool v \<noteq> None then Some left else editor_schema v (Suc depth) left)))
               else if schema_kind schema = ''array'' then editor_schema (jindex ''items'' schema) (Suc depth) left
               else Some left)
        in (case walked of None \<Rightarrow> None | Some left \<Rightarrow> if examples_match schema then Some left else None))"
| "editor_members [] depth remaining = Some remaining"
| "editor_members ((k, v) # ms) depth remaining =
     (if k = [] \<or> 64 < length k \<or> prototype_key k then None
      else case editor_schema v depth remaining of
          None \<Rightarrow> None
        | Some left \<Rightarrow> editor_members ms depth left)"
  by pat_completeness auto
termination
  by (relation "measures [\<lambda>x. case x of Inl (_, d, _) \<Rightarrow> 9 - d | Inr (_, d, _) \<Rightarrow> 9 - d,
      \<lambda>x. case x of Inl _ \<Rightarrow> 0 | Inr (ms, _, _) \<Rightarrow> Suc (length ms)]") auto

declare editor_schema.simps [simp del]

definition valid_editor :: "json_editor \<Rightarrow> bool" where
  "valid_editor e \<longleftrightarrow> je_kind e = ''json'' \<and> is_object (je_schema e) \<and> editor_schema (je_schema e) 0 256 \<noteq> None"

section \<open>Fields\<close>

definition text_field_ok :: "serde \<Rightarrow> setting_field \<Rightarrow> string \<Rightarrow> bool" where
  "text_field_ok S f s \<longleftrightarrow> length s \<le> MAX_STRING
     \<and> opt_all (\<lambda>e. (s = [] \<and> \<not> sf_required f) \<or> (case sx_text S s of None \<Rightarrow> False
         | Some v \<Rightarrow> json_value_matches v (je_schema e))) (sf_editor f)
     \<and> opt_all (\<lambda>m. m \<le> length (chars s)) (sf_min_length f) \<and> opt_all (\<lambda>m. length (chars s) \<le> m) (sf_max_length f)
     \<and> opt_all (\<lambda>items. s \<in> set items) (sf_choices f)"

definition field_accepts :: "serde \<Rightarrow> setting_field \<Rightarrow> json \<Rightarrow> bool" where
  "field_accepts S f v = (case sf_kind f of
       TString \<Rightarrow> (case as_str v of None \<Rightarrow> False | Some s \<Rightarrow> text_field_ok S f s)
     | TBoolean \<Rightarrow> as_bool v \<noteq> None
     | k \<Rightarrow> (case as_f64 v of None \<Rightarrow> False
         | Some x \<Rightarrow> is_finite x \<and> (k = TInteger \<longrightarrow> safe_integer x) \<and> in_range (sf_minimum f) (sf_maximum f) x))"

definition validate_field :: "serde \<Rightarrow> setting_field \<Rightarrow> json \<Rightarrow> unit res" where
  "validate_field S f v = reject (\<not> field_accepts S f v) (''Invalid plugin setting: '' @ sf_key f)"

definition bounded_text :: "string option \<Rightarrow> nat \<Rightarrow> bool" where
  "bounded_text t m = opt_all (\<lambda>s. length s \<le> m) t"

definition field_key_ok :: "string \<Rightarrow> bool" where
  "field_key_ok k \<longleftrightarrow> k \<noteq> [] \<and> length k \<le> 64 \<and> is_ascii_alphanumeric (hd k)
     \<and> list_all (\<lambda>c. is_ascii_alphanumeric c \<or> c \<in> set ''_-.'') k \<and> \<not> prototype_key k"

text \<open>The disjuncts that refuse a raw field, in the order of the code.\<close>

definition field_refused :: "string set \<Rightarrow> string \<Rightarrow> raw_field \<Rightarrow> bool" where
  "field_refused required k r \<longleftrightarrow> \<not> field_key_ok k
     \<or> \<not> bounded_text (rf_title r) 128 \<or> \<not> bounded_text (rf_description r) 512
     \<or> (rf_secret r \<and> (rf_kind r \<noteq> TString \<or> rf_default r \<noteq> None \<or> rf_choices r \<noteq> None))
     \<or> (rf_omit_empty r \<and> (k \<in> required \<or> rf_secret r \<or> rf_kind r \<noteq> TString
          \<or> Option.bind (rf_default r) as_str \<noteq> Some []))
     \<or> (rf_omit_default r \<and> (k \<in> required \<or> rf_secret r \<or> rf_default r = None))
     \<or> (rf_editor r \<noteq> None \<and> (rf_kind r \<noteq> TString \<or> rf_choices r \<noteq> None \<or> rf_options_source r \<noteq> None))
     \<or> \<not> opt_all valid_editor (rf_editor r)
     \<or> \<not> valid_options (rf_options_source r) (rf_options_prefixes r) (rf_options_multiple r)
     \<or> (rf_options_source r \<noteq> None \<and> (rf_kind r \<noteq> TString \<or> rf_secret r \<or> rf_choices r \<noteq> None))
     \<or> (rf_kind r \<noteq> TString \<and> (rf_choices r \<noteq> None \<or> rf_min_length r \<noteq> None \<or> rf_max_length r \<noteq> None))
     \<or> (rf_kind r \<notin> {TNumber, TInteger} \<and> (rf_minimum r \<noteq> None \<or> rf_maximum r \<noteq> None))
     \<or> \<not> opt_all (\<lambda>n. n \<le> MAX_STRING) (rf_min_length r) \<or> \<not> opt_all (\<lambda>n. n \<le> MAX_STRING) (rf_max_length r)
     \<or> (case (rf_min_length r, rf_max_length r) of (Some lo, Some hi) \<Rightarrow> hi < lo | _ \<Rightarrow> False)
     \<or> (case (rf_minimum r, rf_maximum r) of (Some lo, Some hi) \<Rightarrow> f64_less hi lo | _ \<Rightarrow> False)
     \<or> \<not> opt_all is_finite (rf_minimum r) \<or> \<not> opt_all is_finite (rf_maximum r)
     \<or> \<not> opt_all (\<lambda>items. items \<noteq> [] \<and> length items \<le> 32 \<and> list_all (\<lambda>i. length i \<le> MAX_STRING) items \<and> distinct items)
         (rf_choices r)"

definition field_of :: "string set \<Rightarrow> string \<Rightarrow> raw_field \<Rightarrow> setting_field" where
  "field_of required k r = \<lparr>sf_key = k, sf_title = unwrap_or k (rf_title r), sf_description = rf_description r,
     sf_kind = rf_kind r, sf_required = k \<in> required, sf_secret = rf_secret r, sf_choices = rf_choices r,
     sf_minimum = rf_minimum r, sf_maximum = rf_maximum r, sf_min_length = rf_min_length r, sf_max_length = rf_max_length r,
     sf_editor = rf_editor r, sf_options_source = rf_options_source r, sf_options_prefixes = rf_options_prefixes r,
     sf_options_multiple = rf_options_multiple r, sf_default = rf_default r, sf_omit_empty = rf_omit_empty r,
     sf_omit_default = rf_omit_default r\<rparr>"

fun compile_fields :: "serde \<Rightarrow> string set \<Rightarrow> (string \<times> raw_field) list \<Rightarrow> setting_field list res" where
  "compile_fields S required [] = Ok []"
| "compile_fields S required ((k, r) # rs) =
     (if field_refused required k r then Err ''Unsupported plugin settings field''
      else let f = field_of required k r
        in rbind (for_each (\<lambda>c. validate_field S f (JString c)) (unwrap_or [] (sf_choices f))) (\<lambda>_.
           rbind (if_some (validate_field S f) (sf_default f)) (\<lambda>_.
           rbind (compile_fields S required rs) (\<lambda>fs. Ok (f # fs)))))"

definition compile :: "serde \<Rightarrow> plugin_manifest \<Rightarrow> settings_schema res" where
  "compile S m =
     (if PluginConfiguration \<notin> set (m_permissions m) then Err ''Plugin does not declare configuration permission''
      else case sx_schema S (m_config_schema m) of
          None \<Rightarrow> Err ''Unsupported plugin settings schema''
        | Some raw \<Rightarrow>
            if rs_kind raw \<noteq> ''object'' \<or> rs_additional_properties raw = Some True
              \<or> MAX_FIELDS < length (rs_properties raw) \<or> MAX_FIELDS < length (rs_required raw)
              \<or> \<not> bounded_text (rs_title raw) 128 \<or> \<not> bounded_text (rs_description raw) 512
            then Err ''Unsupported plugin settings schema''
            else if \<not> distinct (rs_required raw) \<or> \<not> set (rs_required raw) \<subseteq> fst ` set (rs_properties raw)
            then Err ''Invalid required plugin settings fields''
            else rbind (compile_fields S (set (rs_required raw)) (rs_properties raw)) (\<lambda>fs.
              Ok \<lparr>st_fields = fs,
                st_video_windows = list_ex (\<lambda>p. p = PermHttpVideo \<or> p = PermLiveView) (m_permissions m)\<rparr>))"

end
