(* ===== verification/SettingsValues.thy ===== *)
theory SettingsValues
  imports SettingsSchema
begin

text \<open>
  Saved settings under a compiled schema, the second half of \<^verbatim>\<open>src-tauri/src/plugins/settings.rs\<close>: what the editor
  is shown, how an edit is merged, and what a worker is started with. A \<^verbatim>\<open>BTreeMap\<close> is an association list read
  by its keys; maps are compared by what they hold.
\<close>

section \<open>Data\<close>

record settings_data =
  sd_legacy_migration_version :: nat
  sd_revision :: string
  sd_values :: "(string \<times> json) list"
  sd_secrets :: "(string \<times> string) list"
  sd_secret_fields :: "string list" \<comment> \<open>a set\<close>

definition default_data :: settings_data where
  "default_data = \<lparr>sd_legacy_migration_version = 0, sd_revision = ''0'', sd_values = [], sd_secrets = [],
     sd_secret_fields = []\<rparr>"

definition same_map :: "('k \<times> 'v) list \<Rightarrow> ('k \<times> 'v) list \<Rightarrow> bool" where
  "same_map xs ys \<longleftrightarrow> (\<forall>k \<in> set (map fst xs) \<union> set (map fst ys). map_of xs k = map_of ys k)"

lemma same_map_iff: "same_map xs ys \<longleftrightarrow> map_of xs = map_of ys"
proof
  assume h: "same_map xs ys"
  show "map_of xs = map_of ys"
  proof
    fix k
    show "map_of xs k = map_of ys k"
    proof (cases "k \<in> set (map fst xs) \<union> set (map fst ys)")
      case False
      then show ?thesis by (metis UnCI map_of_eq_None_iff set_map)
    qed (use h in \<open>simp add: same_map_def\<close>)
  qed
qed (simp add: same_map_def)

definition has_key :: "'k \<Rightarrow> ('k \<times> 'v) list \<Rightarrow> bool" where "has_key k xs \<longleftrightarrow> map_of xs k \<noteq> None"

definition VIDEO_ALWAYS_ON_TOP :: string where "VIDEO_ALWAYS_ON_TOP = ''_host_video_always_on_top''"

definition video_always_on_top :: "settings_data \<Rightarrow> bool res" where
  "video_always_on_top d =
     (if VIDEO_ALWAYS_ON_TOP \<in> set (sd_secret_fields d) \<or> has_key VIDEO_ALWAYS_ON_TOP (sd_secrets d)
      then Err ''Invalid video window preference classification''
      else case map_of (sd_values d) VIDEO_ALWAYS_ON_TOP of
          None \<Rightarrow> Ok False
        | Some v \<Rightarrow> ok_or ''Invalid video window preference'' (as_bool v))"

definition video_window_field :: setting_field where
  "video_window_field = \<lparr>sf_key = VIDEO_ALWAYS_ON_TOP, sf_title = ''Always on top'',
     sf_description = Some (''Keep this plugin'' @ [CHR 0x27] @ ''s video windows above other windows.''),
     sf_kind = TBoolean, sf_required = False, sf_secret = False, sf_choices = None, sf_minimum = None, sf_maximum = None,
     sf_min_length = None, sf_max_length = None, sf_editor = None, sf_options_source = None, sf_options_prefixes = [],
     sf_options_multiple = False, sf_default = Some (JBool False), sf_omit_empty = False, sf_omit_default = False\<rparr>"

section \<open>Reading\<close>

definition misclassified :: "settings_data \<Rightarrow> setting_field \<Rightarrow> bool" where
  "misclassified d f \<longleftrightarrow> (sf_secret f \<and> has_key (sf_key f) (sd_values d))
     \<or> (\<not> sf_secret f \<and> (sf_key f \<in> set (sd_secret_fields d) \<or> has_key (sf_key f) (sd_secrets d)))"

definition check_classification :: "settings_schema \<Rightarrow> settings_data \<Rightarrow> unit res" where
  "check_classification sch d = reject (list_ex (misclassified d) (st_fields sch))
     ''Plugin settings contain incompatible secret classifications''"

definition effective :: "settings_data \<Rightarrow> setting_field \<Rightarrow> json option" where
  "effective d f = (case map_of (sd_values d) (sf_key f) of Some v \<Rightarrow> Some v | None \<Rightarrow> sf_default f)"

definition public_values :: "settings_schema \<Rightarrow> settings_data \<Rightarrow> (string \<times> json) list" where
  "public_values sch d = List.map_filter (\<lambda>f. if sf_secret f then None else map_option (\<lambda>v. (sf_key f, v)) (effective d f))
     (st_fields sch)"

record settings_view =
  pv_plugin_id :: string
  pv_version :: string
  pv_revision :: string
  pv_fields :: "setting_field list"
  pv_values :: "(string \<times> json) list"
  pv_secret_present :: "(string \<times> bool) list"

definition revision_token :: "string \<Rightarrow> settings_data \<Rightarrow> string" where
  "revision_token digest d = digest @ '':'' @ sd_revision d"

definition view :: "settings_schema \<Rightarrow> plugin_manifest \<Rightarrow> string \<Rightarrow> settings_data \<Rightarrow> settings_view res" where
  "view sch m digest d = rbind (check_classification sch d) (\<lambda>_.
     rbind (if st_video_windows sch
         then rbind (video_always_on_top d) (\<lambda>b. Ok (st_fields sch @ [video_window_field],
           AList.update VIDEO_ALWAYS_ON_TOP (JBool b) (public_values sch d)))
         else Ok (st_fields sch, public_values sch d)) (\<lambda>(fs, vs).
     Ok \<lparr>pv_plugin_id = m_plugin_id m, pv_version = m_version m, pv_revision = revision_token digest d, pv_fields = fs,
       pv_values = vs,
       pv_secret_present = map (\<lambda>f. (sf_key f, has_key (sf_key f) (sd_secrets d))) (filter sf_secret (st_fields sch))\<rparr>))"

section \<open>Validation\<close>

definition stored_value :: "settings_data \<Rightarrow> setting_field \<Rightarrow> json option" where
  "stored_value d f = (if sf_secret f then map_option JString (map_of (sd_secrets d) (sf_key f)) else effective d f)"

definition validate_stored :: "serde \<Rightarrow> settings_data \<Rightarrow> bool \<Rightarrow> setting_field \<Rightarrow> unit res" where
  "validate_stored S d whole f = (case stored_value d f of
       Some v \<Rightarrow> validate_field S f v
     | None \<Rightarrow> reject (sf_required f \<and> whole) (''Required plugin setting is missing: '' @ sf_key f))"

definition validate_fields :: "serde \<Rightarrow> settings_schema \<Rightarrow> settings_data \<Rightarrow> bool \<Rightarrow> unit res" where
  "validate_fields S sch d whole = rbind (check_classification sch d) (\<lambda>_. rbind (video_always_on_top d) (\<lambda>_.
     for_each (validate_stored S d whole) (st_fields sch)))"

definition validate_data :: "serde \<Rightarrow> settings_schema \<Rightarrow> settings_data \<Rightarrow> unit res" where
  "validate_data S sch d = validate_fields S sch d True"

section \<open>Editing\<close>

text \<open>A submitted value, or the default; dropped where the field leaves it out.\<close>

definition kept_value :: "(string \<times> json) list \<Rightarrow> setting_field \<Rightarrow> json option" where
  "kept_value values f = Option.bind (case map_of values (sf_key f) of Some v \<Rightarrow> Some v | None \<Rightarrow> sf_default f) (\<lambda>v.
     if (sf_omit_empty f \<and> as_str v = Some []) \<or> (sf_omit_default f \<and> Some v = sf_default f) then None else Some v)"

definition merge_field :: "(string \<times> json) list \<Rightarrow> (string \<times> string option) list \<Rightarrow> setting_field \<Rightarrow> settings_data \<Rightarrow> settings_data" where
  "merge_field values changes f d =
     (let d = d\<lparr>sd_values := AList.delete (sf_key f) (sd_values d)\<rparr>
      in if sf_secret f then
           let d = d\<lparr>sd_secret_fields := List.insert (sf_key f) (sd_secret_fields d)\<rparr>
           in (case map_of changes (sf_key f) of
               None \<Rightarrow> d
             | Some (Some s) \<Rightarrow> d\<lparr>sd_secrets := AList.update (sf_key f) s (sd_secrets d)\<rparr>
             | Some None \<Rightarrow> d\<lparr>sd_secrets := AList.delete (sf_key f) (sd_secrets d)\<rparr>)
         else (case kept_value values f of
             None \<Rightarrow> d
           | Some v \<Rightarrow> d\<lparr>sd_values := AList.update (sf_key f) v (sd_values d)\<rparr>))"

definition known_key :: "settings_schema \<Rightarrow> bool \<Rightarrow> string \<Rightarrow> bool" where
  "known_key sch secret k \<longleftrightarrow> list_ex (\<lambda>f. sf_key f = k \<and> sf_secret f = secret) (st_fields sch)"

definition unchanged :: "settings_data \<Rightarrow> settings_data \<Rightarrow> bool" where
  "unchanged c d \<longleftrightarrow> same_map (sd_values d) (sd_values c) \<and> same_map (sd_secrets d) (sd_secrets c)
     \<and> set (sd_secret_fields d) = set (sd_secret_fields c)"

text \<open>The fresh revision is a parameter.\<close>

definition merge :: "serde \<Rightarrow> string \<Rightarrow> settings_schema \<Rightarrow> string \<Rightarrow> settings_data \<Rightarrow> string \<Rightarrow> (string \<times> json) list
    \<Rightarrow> (string \<times> string option) list \<Rightarrow> settings_data res" where
  "merge S fresh sch digest current revision values changes = rbind (check_classification sch current) (\<lambda>_.
     if revision \<noteq> revision_token digest current then Err ''Plugin or settings changed; reopen settings before saving''
     else
       let video = map_of values VIDEO_ALWAYS_ON_TOP; values = AList.delete VIDEO_ALWAYS_ON_TOP values
       in if \<not> opt_all (\<lambda>v. st_video_windows sch \<and> as_bool v \<noteq> None) video then Err ''Invalid video window preference''
          else if MAX_FIELDS < length values \<or> MAX_FIELDS < length changes
            \<or> \<not> list_all (\<lambda>(k, _). known_key sch False k) values \<or> \<not> list_all (\<lambda>(k, _). known_key sch True k) changes
          then Err ''Unknown or incorrectly classified plugin setting''
          else
            let d = (case video of None \<Rightarrow> current
                  | Some v \<Rightarrow> current\<lparr>sd_values := AList.update VIDEO_ALWAYS_ON_TOP v (sd_values current)\<rparr>);
                d = fold (merge_field values changes) (st_fields sch) d
            in rbind (validate_data S sch d) (\<lambda>_.
              Ok (if unchanged current d then d else d\<lparr>sd_revision := fresh\<rparr>)))"

section \<open>The worker's configuration\<close>

text \<open>Values a field leaves out stay visible in the editor and do not reach the worker.\<close>

definition left_out :: "(string \<times> json) list \<Rightarrow> setting_field \<Rightarrow> bool" where
  "left_out values f \<longleftrightarrow> (sf_omit_empty f \<and> Option.bind (map_of values (sf_key f)) as_str = Some [])
     \<or> (sf_omit_default f \<and> map_of values (sf_key f) = sf_default f)"

definition worker_values :: "settings_schema \<Rightarrow> settings_data \<Rightarrow> (string \<times> json) list" where
  "worker_values sch d = fold (\<lambda>f values. if left_out values f then AList.delete (sf_key f) values else values)
     (st_fields sch) (public_values sch d)"

definition configuration_impl :: "ext \<Rightarrow> serde \<Rightarrow> settings_schema \<Rightarrow> settings_data \<Rightarrow> bool \<Rightarrow> worker_configuration res" where
  "configuration_impl X S sch d whole = rbind (validate_fields S sch d whole) (\<lambda>_.
     let c = \<lparr>wc_revision = sd_revision d, wc_values = JObject (worker_values sch d),
          wc_secrets = List.map_filter (\<lambda>f. if sf_secret f
            then map_option (\<lambda>s. (sf_key f, s)) (map_of (sd_secrets d) (sf_key f)) else None) (st_fields sch)\<rparr>
     in rbind (validate_configuration X c) (\<lambda>_. Ok c))"

definition seed_configuration :: "ext \<Rightarrow> serde \<Rightarrow> settings_schema \<Rightarrow> settings_data \<Rightarrow> worker_configuration res" where
  "seed_configuration X S sch d = configuration_impl X S sch d False"

definition configuration :: "ext \<Rightarrow> serde \<Rightarrow> settings_schema \<Rightarrow> settings_data \<Rightarrow> worker_configuration res" where
  "configuration X S sch d = configuration_impl X S sch d True"

end
