(* ===== verification/SettingsStore.thy ===== *)
theory SettingsStore
  imports SettingsValues Package
begin

text \<open>
  The encrypted settings records of \<^verbatim>\<open>src-tauri/src/plugins/settings_store.rs\<close>: one directory of private files,
  a write that is prepared in a pending file and committed by a rename, and the bounds on what the directory may
  hold. The cipher, the digest, serde's text and UUIDs are parameters; the file system is its listing, and any
  step of an operation may fail.
\<close>

definition MAX_SETTINGS_PLAINTEXT_BYTES :: nat where "MAX_SETTINGS_PLAINTEXT_BYTES = 32 * 1024"
definition MAX_SETTINGS_FILE_BYTES :: nat where "MAX_SETTINGS_FILE_BYTES = 64 * 1024"
definition MAX_SETTINGS_RECORDS :: nat where "MAX_SETTINGS_RECORDS = 64"
definition MAX_PENDING_FILES :: nat where "MAX_PENDING_FILES = 64"
definition MAX_SETTINGS_DIRECTORY_BYTES :: nat where "MAX_SETTINGS_DIRECTORY_BYTES = 8 * 1024 * 1024"
definition PENDING_PREFIX :: string where "PENDING_PREFIX = ''settings-pending-''"
definition MAGIC :: string where "MAGIC = ''IDSET'' @ [CHR 0x01]"
definition NONCE_BYTES :: nat where "NONCE_BYTES = 12"
definition TAG_BYTES :: nat where "TAG_BYTES = 16"
definition AAD_DOMAIN :: string where "AAD_DOMAIN = ''inverter-desktop/plugin-settings/v1'' @ [CHR 0x00]"

section \<open>Third-party operations and the file system\<close>

record vault =
  va_digest :: "string \<Rightarrow> string"
  va_seal :: "string \<Rightarrow> string \<Rightarrow> string \<Rightarrow> string \<Rightarrow> string option" \<comment> \<open>key, nonce, associated data, plaintext\<close>
  va_open :: "string \<Rightarrow> string \<Rightarrow> string \<Rightarrow> string \<Rightarrow> string option"
  va_encode :: "settings_data \<Rightarrow> string res"
  va_decode :: "string \<Rightarrow> settings_data option"
  va_uuid :: "string \<Rightarrow> string option" \<comment> \<open>the canonical text of a UUID\<close>

datatype node = Plain string | Unsafe string \<comment> \<open>why it is not a private regular file\<close>

record store_fs =
  fs_location_ok :: bool
  fs_root :: "bool res" \<comment> \<open>whether the package root exists, or why it is unsafe\<close>
  fs_directory :: "bool res"
  fs_files :: "(string \<times> node) list"

datatype io = CreateDirectory | OpenPending | WritePending | SyncPending | RenameFile | RemoveFile | SyncDirectory

record settings_record =
  rc_record_id :: string
  rc_revision :: string
  rc_bytes :: nat

record usage =
  us_records :: nat
  us_bytes :: nat
  us_pending :: "string list"
  us_inventory :: "settings_record list"

record prepared =
  pw_destination :: string
  pw_pending :: string
  pw_digest :: string

definition digest_hex :: "vault \<Rightarrow> string \<Rightarrow> string" where "digest_hex V bytes = hex_encode (va_digest V bytes)"

definition is_lowercase_digest :: "string \<Rightarrow> bool" where
  "is_lowercase_digest s \<longleftrightarrow> length s = 64 \<and> list_all (\<lambda>c. is_ascii_digit c \<or> (97 \<le> byte c \<and> byte c \<le> 102)) s"

section \<open>Records\<close>

definition validate_store_data :: "vault \<Rightarrow> settings_data \<Rightarrow> unit res" where
  "validate_store_data V d = checks
     [reject (sd_revision d \<noteq> ''0'' \<and> va_uuid V (sd_revision d) \<noteq> Some (sd_revision d)) ''Invalid plugin settings revision'',
      reject (list_ex (\<lambda>(k, _). k \<notin> set (sd_secret_fields d)) (sd_secrets d)
          \<or> list_ex (\<lambda>(k, _). k \<in> set (sd_secret_fields d)) (sd_values d)) ''Invalid plugin settings secret classification'']"

definition encode_data :: "vault \<Rightarrow> settings_data \<Rightarrow> string res" where
  "encode_data V d = (case va_encode V d of
       Err _ \<Rightarrow> Err ''Cannot encode bounded plugin settings''
     | Ok bytes \<Rightarrow> if MAX_SETTINGS_PLAINTEXT_BYTES < length bytes then Err ''Cannot encode bounded plugin settings'' else Ok bytes)"

definition aad :: "string \<Rightarrow> string" where "aad plugin_id = AAD_DOMAIN @ plugin_id"

definition encrypt :: "vault \<Rightarrow> string \<Rightarrow> string \<Rightarrow> string \<Rightarrow> string \<Rightarrow> string res" where
  "encrypt V plugin_id plaintext key nonce = rbind (ok_or ''Cannot encrypt plugin settings''
       (va_seal V key nonce (aad plugin_id) plaintext)) (\<lambda>ciphertext.
     let encrypted = MAGIC @ nonce @ ciphertext
     in if MAX_SETTINGS_FILE_BYTES < length encrypted then Err ''Encrypted plugin settings exceed their byte limit''
        else Ok encrypted)"

definition decrypt :: "vault \<Rightarrow> string \<Rightarrow> string \<Rightarrow> string \<Rightarrow> settings_data res" where
  "decrypt V plugin_id encrypted key =
     (if length encrypted < length MAGIC + NONCE_BYTES + TAG_BYTES \<or> \<not> prefix MAGIC encrypted
        \<or> MAX_SETTINGS_FILE_BYTES < length encrypted
      then Err ''Invalid encrypted plugin settings''
      else
        let body = drop (length MAGIC) encrypted
        in rbind (ok_or ''Plugin settings authentication failed''
            (va_open V key (take NONCE_BYTES body) (aad plugin_id) (drop NONCE_BYTES body))) (\<lambda>plaintext.
          if MAX_SETTINGS_PLAINTEXT_BYTES < length plaintext then Err ''Decrypted plugin settings exceed their byte limit''
          else rbind (ok_or ''Invalid decrypted plugin settings'' (va_decode V plaintext)) (\<lambda>d.
            rbind (validate_store_data V d) (\<lambda>_. Ok d))))"

text \<open>What the key provider answered, checked.\<close>

definition checked_key :: "string res \<Rightarrow> string res" where
  "checked_key provided = (case provided of
       Err _ \<Rightarrow> Err ''Plugin settings key is unavailable''
     | Ok key \<Rightarrow> if length key \<noteq> 32 then Err ''Invalid plugin settings key'' else Ok key)"

definition record_id :: "vault \<Rightarrow> string \<Rightarrow> string res" where
  "record_id V plugin_id = (case validate_plugin_id plugin_id of
       Err _ \<Rightarrow> Err ''Invalid plugin settings identity'' | Ok _ \<Rightarrow> Ok (digest_hex V plugin_id))"

definition record_name :: "vault \<Rightarrow> string \<Rightarrow> string res" where
  "record_name V plugin_id = rbind (record_id V plugin_id) (\<lambda>i. Ok (i @ ''.enc''))"

section \<open>The directory\<close>

definition directory_exists :: "store_fs \<Rightarrow> bool res" where
  "directory_exists fs = (if \<not> fs_location_ok fs then Err ''Invalid plugin settings location''
     else rbind (fs_root fs) (\<lambda>root. if root then fs_directory fs else Ok False))"

definition file_exists :: "string \<Rightarrow> store_fs \<Rightarrow> bool" where "file_exists name fs \<longleftrightarrow> map_of (fs_files fs) name \<noteq> None"

fun private_bytes :: "node \<Rightarrow> string res" where
  "private_bytes (Unsafe e) = Err e"
| "private_bytes (Plain bytes) = (if MAX_SETTINGS_FILE_BYTES < length bytes
     then Err ''Plugin settings file must be bounded, regular, and unlinked'' else Ok bytes)"

definition read_private_file :: "string \<Rightarrow> store_fs \<Rightarrow> string res" where
  "read_private_file name fs = rbind (ok_or ''Cannot inspect plugin settings file'' (map_of (fs_files fs) name)) private_bytes"

definition no_usage :: usage where
  "no_usage = \<lparr>us_records = 0, us_bytes = 0, us_pending = [], us_inventory = []\<rparr>"

definition count_name :: "vault \<Rightarrow> string \<Rightarrow> usage \<Rightarrow> usage res" where
  "count_name V name u = (case strip_prefix PENDING_PREFIX name of
       Some i \<Rightarrow> (if va_uuid V i \<noteq> Some i then Err ''Invalid plugin settings transaction filename''
         else Ok (u\<lparr>us_pending := us_pending u @ [name]\<rparr>))
     | None \<Rightarrow> (case strip_suffix ''.enc'' name of
           Some i \<Rightarrow> if is_lowercase_digest i then Ok (u\<lparr>us_records := us_records u + 1\<rparr>)
             else Err ''Unexpected file in plugin settings directory''
         | None \<Rightarrow> Err ''Unexpected file in plugin settings directory''))"

definition scan_entry :: "vault \<Rightarrow> string \<Rightarrow> node \<Rightarrow> usage \<Rightarrow> usage res" where
  "scan_entry V name node u = rbind (count_name V name u) (\<lambda>u.
     if MAX_SETTINGS_RECORDS < us_records u \<or> MAX_PENDING_FILES < length (us_pending u)
     then Err ''Plugin settings file limit exceeded''
     else rbind (private_bytes node) (\<lambda>bytes.
       let u = u\<lparr>us_bytes := us_bytes u + length bytes\<rparr>
       in if MAX_SETTINGS_DIRECTORY_BYTES < us_bytes u then Err ''Plugin settings storage limit exceeded''
          else Ok (case strip_suffix ''.enc'' name of
              None \<Rightarrow> u
            | Some i \<Rightarrow> u\<lparr>us_inventory := us_inventory u
                @ [\<lparr>rc_record_id = i, rc_revision = digest_hex V bytes, rc_bytes = length bytes\<rparr>]\<rparr>)))"

fun scan_entries :: "vault \<Rightarrow> (string \<times> node) list \<Rightarrow> usage \<Rightarrow> usage res" where
  "scan_entries V [] u = Ok u"
| "scan_entries V ((name, node) # es) u = rbind (scan_entry V name node u) (scan_entries V es)"

definition scan :: "vault \<Rightarrow> store_fs \<Rightarrow> usage res" where
  "scan V fs = rbind (scan_entries V (fs_files fs) no_usage) (\<lambda>u.
     Ok (u\<lparr>us_inventory := sort_key rc_record_id (us_inventory u)\<rparr>))"

section \<open>Reading\<close>

definition read_settings :: "vault \<Rightarrow> string res \<Rightarrow> string \<Rightarrow> store_fs \<Rightarrow> settings_data res" where
  "read_settings V provided plugin_id fs = rbind (record_name V plugin_id) (\<lambda>name.
     rbind (directory_exists fs) (\<lambda>there.
     if \<not> there then Ok default_data
     else rbind (scan V fs) (\<lambda>_.
       if \<not> file_exists name fs then Ok default_data
       else rbind (read_private_file name fs) (\<lambda>encrypted.
         rbind (checked_key provided) (decrypt V plugin_id encrypted)))))"

definition inventory_of :: "vault \<Rightarrow> store_fs \<Rightarrow> (settings_record list \<times> nat) res" where
  "inventory_of V fs = rbind (directory_exists fs) (\<lambda>there.
     if \<not> there then Ok ([], 0) else rbind (scan V fs) (\<lambda>u. Ok (us_inventory u, us_bytes u)))"

section \<open>Writing\<close>

definition put_file :: "string \<Rightarrow> string \<Rightarrow> store_fs \<Rightarrow> store_fs" where
  "put_file name bytes fs = fs\<lparr>fs_files := AList.update name (Plain bytes) (fs_files fs)\<rparr>"

definition drop_file :: "string \<Rightarrow> store_fs \<Rightarrow> store_fs" where
  "drop_file name fs = fs\<lparr>fs_files := AList.delete name (fs_files fs)\<rparr>"

definition sync_directory :: "(io \<Rightarrow> bool) \<Rightarrow> unit res" where
  "sync_directory fails = reject (fails SyncDirectory) ''Cannot persist plugin settings directory''"

definition ensure_directory :: "(io \<Rightarrow> bool) \<Rightarrow> store_fs \<Rightarrow> store_fs \<times> unit res" where
  "ensure_directory fails fs = (case directory_exists fs of
       Err e \<Rightarrow> (fs, Err e)
     | Ok True \<Rightarrow> (fs, Ok ())
     | Ok False \<Rightarrow> (case fs_root fs of
           Err e \<Rightarrow> (fs, Err e)
         | Ok False \<Rightarrow> (fs, Err ''Plugin package store is unavailable'')
         | Ok True \<Rightarrow>
             if fails CreateDirectory then (fs, Err ''Cannot create private plugin settings directory'')
             else (fs\<lparr>fs_directory := Ok True, fs_files := []\<rparr>, sync_directory fails)))"

text \<open>A prepared write that is dropped removes its pending file, if it still can.\<close>

definition drop_prepared :: "(io \<Rightarrow> bool) \<Rightarrow> string \<Rightarrow> store_fs \<Rightarrow> store_fs" where
  "drop_prepared fails pending fs = (if directory_exists fs = Ok True \<and> \<not> fails RemoveFile then drop_file pending fs else fs)"

text \<open>The nonce, the transaction's UUID and how much an interrupted write left are parameters.\<close>

definition stage :: "(io \<Rightarrow> bool) \<Rightarrow> nat \<Rightarrow> string \<Rightarrow> string \<Rightarrow> prepared \<Rightarrow> store_fs \<Rightarrow> store_fs \<times> prepared res" where
  "stage fails written pending encrypted p fs =
     (if fails OpenPending \<or> file_exists pending fs then (fs, Err ''Cannot create plugin settings transaction'')
      else if fails WritePending
      then (drop_prepared fails pending (put_file pending (take written encrypted) fs), Err ''Cannot write plugin settings transaction'')
      else if fails SyncPending
      then (drop_prepared fails pending (put_file pending encrypted fs), Err ''Cannot persist plugin settings transaction'')
      else (put_file pending encrypted fs, Ok p))"

definition sealed_record :: "vault \<Rightarrow> string res \<Rightarrow> string \<Rightarrow> string \<Rightarrow> settings_data \<Rightarrow> (string \<times> string) res" where
  "sealed_record V provided nonce plugin_id d = rbind (record_name V plugin_id) (\<lambda>name.
     rbind (validate_store_data V d) (\<lambda>_. rbind (encode_data V d) (\<lambda>plaintext. rbind (checked_key provided) (\<lambda>key.
     rbind (encrypt V plugin_id plaintext key nonce) (\<lambda>encrypted. Ok (name, encrypted))))))"

definition prepare_write :: "vault \<Rightarrow> (io \<Rightarrow> bool) \<Rightarrow> string res \<Rightarrow> string \<Rightarrow> string \<Rightarrow> nat \<Rightarrow> string \<Rightarrow> settings_data \<Rightarrow> store_fs
    \<Rightarrow> store_fs \<times> prepared res" where
  "prepare_write V fails provided nonce fresh written plugin_id d fs =
     (case sealed_record V provided nonce plugin_id d of
        Err e \<Rightarrow> (fs, Err e)
      | Ok (name, encrypted) \<Rightarrow> (case ensure_directory fails fs of
          (fs, Err e) \<Rightarrow> (fs, Err e)
        | (fs, Ok _) \<Rightarrow> (case scan V fs of
            Err e \<Rightarrow> (fs, Err e)
          | Ok u \<Rightarrow>
              if MAX_SETTINGS_RECORDS \<le> us_records u \<and> \<not> file_exists name fs
              then (fs, Err ''Retained plugin settings record limit reached'')
              else if MAX_PENDING_FILES \<le> length (us_pending u) \<or> MAX_SETTINGS_DIRECTORY_BYTES < us_bytes u + length encrypted
              then (fs, Err ''Plugin settings storage limit reached'')
              else stage fails written (PENDING_PREFIX @ fresh) encrypted
                \<lparr>pw_destination = name, pw_pending = PENDING_PREFIX @ fresh, pw_digest = va_digest V encrypted\<rparr> fs)))"

text \<open>The steps of a commit up to the rename, and the rename.\<close>

definition commit_check :: "vault \<Rightarrow> prepared \<Rightarrow> store_fs \<Rightarrow> string res" where
  "commit_check V p fs = rbind (directory_exists fs) (\<lambda>there.
     if \<not> there then Err ''Plugin settings directory disappeared before commit''
     else rbind (read_private_file (pw_pending p) fs) (\<lambda>bytes.
       if va_digest V bytes \<noteq> pw_digest p then Err ''Plugin settings transaction changed before commit''
       else if file_exists (pw_destination p) fs
       then rbind (read_private_file (pw_destination p) fs) (\<lambda>_. Ok bytes) else Ok bytes))"

definition commit :: "vault \<Rightarrow> (io \<Rightarrow> bool) \<Rightarrow> prepared \<Rightarrow> store_fs \<Rightarrow> store_fs \<times> unit res" where
  "commit V fails p fs = (case commit_check V p fs of
       Err e \<Rightarrow> (drop_prepared fails (pw_pending p) fs, Err e)
     | Ok bytes \<Rightarrow>
         if fails RenameFile
         then (drop_prepared fails (pw_pending p) fs, Err ''Cannot commit plugin settings transaction'')
         else (put_file (pw_destination p) bytes (drop_file (pw_pending p) fs),
           map_err (\<lambda>_. ''Plugin settings were saved but durability could not be confirmed'') (sync_directory fails)))"

section \<open>Removing\<close>

text \<open>Interrupted transactions are removed at startup.\<close>

definition recover :: "vault \<Rightarrow> (io \<Rightarrow> bool) \<Rightarrow> store_fs \<Rightarrow> store_fs \<times> unit res" where
  "recover V fails fs = (case directory_exists fs of
       Err e \<Rightarrow> (fs, Err e)
     | Ok False \<Rightarrow> (fs, Ok ())
     | Ok True \<Rightarrow> (case scan V fs of
           Err e \<Rightarrow> (fs, Err e)
         | Ok u \<Rightarrow>
             if us_pending u \<noteq> [] \<and> fails RemoveFile then (fs, Err ''Cannot recover plugin settings transaction'')
             else (fold drop_file (us_pending u) fs, sync_directory fails)))"

definition remove_record :: "vault \<Rightarrow> (io \<Rightarrow> bool) \<Rightarrow> string \<Rightarrow> string \<Rightarrow> store_fs \<Rightarrow> store_fs \<times> unit res" where
  "remove_record V fails i revision fs =
     (let stale = ''Retained plugin settings record changed; refresh before deleting''
      in if \<not> is_lowercase_digest i \<or> \<not> is_lowercase_digest revision
         then (fs, Err ''Invalid retained plugin settings record token'')
         else case directory_exists fs of
             Err e \<Rightarrow> (fs, Err e)
           | Ok False \<Rightarrow> (fs, Err stale)
           | Ok True \<Rightarrow>
               let name = i @ ''.enc''
               in if \<not> file_exists name fs then (fs, Err stale)
                  else (case read_private_file name fs of
                      Err e \<Rightarrow> (fs, Err e)
                    | Ok bytes \<Rightarrow>
                        if digest_hex V bytes \<noteq> revision then (fs, Err stale)
                        else if fails RemoveFile then (fs, Err ''Cannot remove retained plugin settings'')
                        else (drop_file name fs, map_err (\<lambda>_. ''Retained plugin settings were removed but durability could not be confirmed'')
                          (sync_directory fails))))"

definition remove_settings :: "vault \<Rightarrow> (io \<Rightarrow> bool) \<Rightarrow> string \<Rightarrow> store_fs \<Rightarrow> store_fs \<times> unit res" where
  "remove_settings V fails plugin_id fs = (case record_name V plugin_id of
       Err e \<Rightarrow> (fs, Err e)
     | Ok name \<Rightarrow> (case directory_exists fs of
           Err e \<Rightarrow> (fs, Err e)
         | Ok there \<Rightarrow>
             if \<not> there \<or> \<not> file_exists name fs then (fs, Ok ())
             else (case read_private_file name fs of
                 Err e \<Rightarrow> (fs, Err e)
               | Ok _ \<Rightarrow>
                   if fails RemoveFile then (fs, Err ''Cannot remove plugin settings'')
                   else (drop_file name fs, sync_directory fails))))"

end
