(* ===== verification/SettingsSafety.thy ===== *)
theory SettingsSafety
  imports SettingsStore Samples
begin

text \<open>
  What compiled schemas and merges guarantee: secrets stay out of the editor's view, an edit changes exactly what
  it names and keeps the classification the store insists on, saving what is shown changes nothing, and a worker
  is started with values its schema accepts.
\<close>

section \<open>Compiled schemas\<close>

text \<open>\<^verbatim>\<open>properties\<close> is a \<^verbatim>\<open>BTreeMap\<close>: its keys are distinct.\<close>

definition schema_maps :: "serde \<Rightarrow> bool" where
  "schema_maps S \<longleftrightarrow> (\<forall>v raw. sx_schema S v = Some raw \<longrightarrow> distinct (map fst (rs_properties raw)))"

definition field_ok :: "serde \<Rightarrow> setting_field \<Rightarrow> bool" where
  "field_ok S f \<longleftrightarrow> field_key_ok (sf_key f) \<and> (sf_secret f \<longrightarrow> sf_default f = None \<and> sf_kind f = TString)
     \<and> (sf_omit_empty f \<longrightarrow> sf_default f = Some (JString []) \<and> \<not> sf_secret f \<and> \<not> sf_required f)
     \<and> (sf_omit_default f \<longrightarrow> sf_default f \<noteq> None \<and> \<not> sf_secret f \<and> \<not> sf_required f)
     \<and> (\<forall>v. sf_default f = Some v \<longrightarrow> field_accepts S f v)"

definition schema_ok :: "serde \<Rightarrow> settings_schema \<Rightarrow> bool" where
  "schema_ok S sch \<longleftrightarrow> distinct (map sf_key (st_fields sch)) \<and> (\<forall>f \<in> set (st_fields sch). field_ok S f)
     \<and> length (st_fields sch) \<le> MAX_FIELDS"

lemma validate_field_Ok [result_simps]: "validate_field S f v = Ok () \<longleftrightarrow> field_accepts S f v"
  by (simp add: validate_field_def result_simps)

lemma compile_fields_keys: "compile_fields S required rs = Ok fs \<Longrightarrow> map sf_key fs = map fst rs"
  by (induction S required rs arbitrary: fs rule: compile_fields.induct)
    (auto simp: result_simps Let_def field_of_def split: if_split_asm)

lemma field_of_ok:
  assumes "\<not> field_refused required k r" "if_some (validate_field S (field_of required k r)) (sf_default (field_of required k r)) = Ok ()"
  shows "field_ok S (field_of required k r)"
proof -
  have "field_key_ok k" "rf_secret r \<longrightarrow> rf_kind r = TString \<and> rf_default r = None"
    "rf_omit_empty r \<longrightarrow> k \<notin> required \<and> \<not> rf_secret r \<and> Option.bind (rf_default r) as_str = Some []"
    "rf_omit_default r \<longrightarrow> k \<notin> required \<and> \<not> rf_secret r \<and> rf_default r \<noteq> None"
    using assms(1) by (simp_all add: field_refused_def)
  moreover have "field_accepts S (field_of required k r) v" if "rf_default r = Some v" for v
    using assms(2) that by (simp add: if_some_def field_of_def result_simps)
  ultimately show ?thesis
    by (simp add: field_ok_def field_of_def bind_eq_Some_conv as_str_Some)
qed

lemma compile_fields_ok: "compile_fields S required rs = Ok fs \<Longrightarrow> \<forall>f \<in> set fs. field_ok S f"
proof (induction S required rs arbitrary: fs rule: compile_fields.induct)
  case (2 S required k r rs)
  then obtain gs where "\<not> field_refused required k r" "compile_fields S required rs = Ok gs"
    "if_some (validate_field S (field_of required k r)) (sf_default (field_of required k r)) = Ok ()"
    "fs = field_of required k r # gs" "\<exists>u. for_each (\<lambda>c. validate_field S (field_of required k r) (JString c))
      (unwrap_or [] (sf_choices (field_of required k r))) = Ok u"
    by (auto simp: result_simps Let_def split: if_split_asm)
  then show ?case using 2(1) field_of_ok by auto
qed simp

lemma compile_ok:
  assumes "schema_maps S" "compile S m = Ok sch"
  shows "schema_ok S sch"
proof -
  obtain raw fs where raw: "sx_schema S (m_config_schema m) = Some raw" "length (rs_properties raw) \<le> MAX_FIELDS"
    and fs: "compile_fields S (set (rs_required raw)) (rs_properties raw) = Ok fs" "st_fields sch = fs"
    using assms(2) by (auto simp: compile_def result_simps split: if_split_asm option.split_asm)
  have keys: "map sf_key fs = map fst (rs_properties raw)" by (rule compile_fields_keys [OF fs(1)])
  then have "distinct (map sf_key fs)" using assms(1) raw(1) by (auto simp: schema_maps_def)
  moreover have "length fs \<le> MAX_FIELDS" using raw(2) by (metis keys length_map)
  ultimately show ?thesis using compile_fields_ok [OF fs(1)] fs(2) by (simp add: schema_ok_def)
qed

lemma field_key_video: "field_key_ok k \<Longrightarrow> k \<noteq> VIDEO_ALWAYS_ON_TOP"
  by (auto simp: field_key_ok_def VIDEO_ALWAYS_ON_TOP_def is_ascii_alphanumeric_def is_ascii_digit_def is_ascii_lowercase_def
      is_ascii_uppercase_def)

lemma schema_video: "schema_ok S sch \<Longrightarrow> f \<in> set (st_fields sch) \<Longrightarrow> sf_key f \<noteq> VIDEO_ALWAYS_ON_TOP"
  using field_key_video by (auto simp: schema_ok_def field_ok_def)

lemma same_field: "schema_ok S sch \<Longrightarrow> f \<in> set (st_fields sch) \<Longrightarrow> g \<in> set (st_fields sch) \<Longrightarrow> sf_key f = sf_key g \<Longrightarrow> f = g"
  by (auto simp: schema_ok_def distinct_map inj_on_def)

section \<open>The view\<close>

lemma public_values_keys: "has_key k (public_values sch d) \<Longrightarrow> \<exists>f \<in> set (st_fields sch). sf_key f = k \<and> \<not> sf_secret f"
  by (force simp: has_key_def public_values_def List.map_filter_def split: if_split_asm dest: map_of_SomeD)

lemma public_values_known: "(k, v) \<in> set (public_values sch d) \<Longrightarrow> \<exists>f \<in> set (st_fields sch). sf_key f = k \<and> \<not> sf_secret f"
  by (rule public_values_keys) (force simp: has_key_def map_of_eq_None_iff)

lemma effective_values: "sd_values d' = sd_values d \<Longrightarrow> effective d' = effective d"
  by (rule ext) (simp add: effective_def)

lemma map_of_rewrite: "map_of (map (\<lambda>(k, s). (k, g k s)) xs) k = map_option (g k) (map_of xs k)"
  by (induction xs) auto

lemma has_key_rewrite [simp]: "has_key k (map (\<lambda>(k, s). (k, g k s)) xs) = has_key k xs"
  by (simp add: has_key_def map_of_rewrite)

text \<open>
  C19. Secrets never reach the editor: the view holds no value under the key of a secret field, and it is the same
  view whatever the stored secrets are, so long as the same ones are present.
\<close>

theorem view_hides_secrets:
  assumes "schema_maps S" "compile S m = Ok sch" "view sch m digest d = Ok v"
  shows "(\<forall>f \<in> set (st_fields sch). sf_secret f \<longrightarrow> \<not> has_key (sf_key f) (pv_values v))
    \<and> view sch m digest (d\<lparr>sd_secrets := map (\<lambda>(k, s). (k, g k s)) (sd_secrets d)\<rparr>) = Ok v"
proof
  have ok: "schema_ok S sch" by (rule compile_ok [OF assms(1,2)])
  have public: "pv_values v = public_values sch d \<or> (\<exists>b. pv_values v = AList.update VIDEO_ALWAYS_ON_TOP (JBool b) (public_values sch d))"
    using assms(3) by (auto simp: view_def result_simps split: if_split_asm)
  show "\<forall>f \<in> set (st_fields sch). sf_secret f \<longrightarrow> \<not> has_key (sf_key f) (pv_values v)"
  proof (intro ballI impI notI)
    fix f assume f: "f \<in> set (st_fields sch)" "sf_secret f" "has_key (sf_key f) (pv_values v)"
    have "has_key (sf_key f) (public_values sch d)"
      using public f(3) schema_video [OF ok f(1)] by (auto simp: has_key_def update_conv')
    then obtain g where "g \<in> set (st_fields sch)" "sf_key g = sf_key f" "\<not> sf_secret g" using public_values_keys by blast
    then show False using same_field [OF ok _ f(1), of g] f(2) by simp
  qed
  have "misclassified (d\<lparr>sd_secrets := map (\<lambda>(k, s). (k, g k s)) (sd_secrets d)\<rparr>) = misclassified d"
    by (rule ext) (simp add: misclassified_def)
  moreover have "video_always_on_top (d\<lparr>sd_secrets := map (\<lambda>(k, s). (k, g k s)) (sd_secrets d)\<rparr>) = video_always_on_top d"
    by (simp add: video_always_on_top_def)
  moreover have "public_values sch (d\<lparr>sd_secrets := map (\<lambda>(k, s). (k, g k s)) (sd_secrets d)\<rparr>) = public_values sch d"
  proof -
    have "effective (d\<lparr>sd_secrets := map (\<lambda>(k, s). (k, g k s)) (sd_secrets d)\<rparr>) = effective d" by (rule effective_values) simp
    then show ?thesis unfolding public_values_def by metis
  qed
  ultimately show "view sch m digest (d\<lparr>sd_secrets := map (\<lambda>(k, s). (k, g k s)) (sd_secrets d)\<rparr>) = Ok v"
    using assms(3) by (simp add: view_def check_classification_def revision_token_def cong: if_cong)
qed

section \<open>Merging\<close>

lemma merge_field_values: "map_of (sd_values (merge_field values changes f d)) k =
    (if k = sf_key f then (if sf_secret f then None else kept_value values f) else map_of (sd_values d) k)"
  by (auto simp: merge_field_def Let_def update_conv' delete_conv' split: option.split)

lemma merge_field_secrets: "map_of (sd_secrets (merge_field values changes f d)) k =
    (if k = sf_key f \<and> sf_secret f then (case map_of changes k of None \<Rightarrow> map_of (sd_secrets d) k | Some c \<Rightarrow> c)
     else map_of (sd_secrets d) k)"
  by (auto simp: merge_field_def Let_def update_conv' delete_conv' split: option.split)

lemma merge_field_rest: "set (sd_secret_fields (merge_field values changes f d)) = set (sd_secret_fields d) \<union> (if sf_secret f then {sf_key f} else {})"
  "sd_revision (merge_field values changes f d) = sd_revision d"
  "sd_legacy_migration_version (merge_field values changes f d) = sd_legacy_migration_version d"
  by (auto simp: merge_field_def Let_def split: option.split)

abbreviation merge_all :: "(string \<times> json) list \<Rightarrow> (string \<times> string option) list \<Rightarrow> setting_field list \<Rightarrow> settings_data \<Rightarrow> settings_data" where
  "merge_all values changes fs d \<equiv> fold (merge_field values changes) fs d"

lemma merge_all_other:
  "k \<notin> sf_key ` set fs \<Longrightarrow> map_of (sd_values (merge_all values changes fs d)) k = map_of (sd_values d) k"
  "k \<notin> sf_key ` set fs \<Longrightarrow> map_of (sd_secrets (merge_all values changes fs d)) k = map_of (sd_secrets d) k"
  by (induction fs arbitrary: d) (auto simp: merge_field_values merge_field_secrets)

lemma merge_all_field:
  assumes "distinct (map sf_key fs)" "f \<in> set fs"
  shows "map_of (sd_values (merge_all values changes fs d)) (sf_key f) = (if sf_secret f then None else kept_value values f)"
    and "map_of (sd_secrets (merge_all values changes fs d)) (sf_key f) =
      (if sf_secret f then (case map_of changes (sf_key f) of None \<Rightarrow> map_of (sd_secrets d) (sf_key f) | Some c \<Rightarrow> c)
       else map_of (sd_secrets d) (sf_key f))"
proof -
  obtain as bs where fs: "fs = as @ f # bs" using assms(2) by (meson split_list)
  then have n: "sf_key f \<notin> sf_key ` set as" "sf_key f \<notin> sf_key ` set bs" using assms(1) by auto
  show "map_of (sd_values (merge_all values changes fs d)) (sf_key f) = (if sf_secret f then None else kept_value values f)"
    using n by (simp add: fs merge_all_other merge_field_values)
  show "map_of (sd_secrets (merge_all values changes fs d)) (sf_key f) =
      (if sf_secret f then (case map_of changes (sf_key f) of None \<Rightarrow> map_of (sd_secrets d) (sf_key f) | Some c \<Rightarrow> c)
       else map_of (sd_secrets d) (sf_key f))"
    using n by (simp add: fs merge_all_other merge_field_secrets split: option.split)
qed

lemma merge_all_rest: "set (sd_secret_fields (merge_all values changes fs d)) = set (sd_secret_fields d) \<union> sf_key ` {f \<in> set fs. sf_secret f}"
  "sd_revision (merge_all values changes fs d) = sd_revision d"
  by (induction fs arbitrary: d) (auto simp: merge_field_rest)

text \<open>What a successful merge is made of.\<close>

definition merge_base :: "(string \<times> json) list \<Rightarrow> settings_data \<Rightarrow> settings_data" where
  "merge_base values c = (case map_of values VIDEO_ALWAYS_ON_TOP of None \<Rightarrow> c
     | Some v \<Rightarrow> c\<lparr>sd_values := AList.update VIDEO_ALWAYS_ON_TOP v (sd_values c)\<rparr>)"

definition merged :: "settings_schema \<Rightarrow> settings_data \<Rightarrow> (string \<times> json) list \<Rightarrow> (string \<times> string option) list \<Rightarrow> settings_data" where
  "merged sch c values changes = merge_all (AList.delete VIDEO_ALWAYS_ON_TOP values) changes (st_fields sch) (merge_base values c)"

lemma merge_Ok:
  "merge S fresh sch digest c revision values changes = Ok d \<longleftrightarrow>
     check_classification sch c = Ok () \<and> revision = revision_token digest c
     \<and> opt_all (\<lambda>v. st_video_windows sch \<and> as_bool v \<noteq> None) (map_of values VIDEO_ALWAYS_ON_TOP)
     \<and> length (AList.delete VIDEO_ALWAYS_ON_TOP values) \<le> MAX_FIELDS \<and> length changes \<le> MAX_FIELDS
     \<and> list_all (\<lambda>(k, _). known_key sch False k) (AList.delete VIDEO_ALWAYS_ON_TOP values)
     \<and> list_all (\<lambda>(k, _). known_key sch True k) changes
     \<and> validate_data S sch (merged sch c values changes) = Ok ()
     \<and> d = (if unchanged c (merged sch c values changes) then merged sch c values changes
            else (merged sch c values changes)\<lparr>sd_revision := fresh\<rparr>)"
  by (auto simp: merge_def merged_def merge_base_def Let_def result_simps split: if_split_asm)

lemma merge_base_values: "k \<noteq> VIDEO_ALWAYS_ON_TOP \<Longrightarrow> map_of (sd_values (merge_base values c)) k = map_of (sd_values c) k"
  by (auto simp: merge_base_def update_conv' split: option.split)

lemma merge_base_rest [simp]: "sd_secrets (merge_base values c) = sd_secrets c" "sd_secret_fields (merge_base values c) = sd_secret_fields c"
  "sd_revision (merge_base values c) = sd_revision c"
  by (simp_all add: merge_base_def split: option.split)

text \<open>The classification the store insists on, over what the maps hold.\<close>

definition classified :: "settings_data \<Rightarrow> bool" where
  "classified d \<longleftrightarrow> (\<forall>k. has_key k (sd_secrets d) \<longrightarrow> k \<in> set (sd_secret_fields d))
     \<and> (\<forall>k. has_key k (sd_values d) \<longrightarrow> k \<notin> set (sd_secret_fields d))"

lemma has_key_iff: "has_key k xs \<longleftrightarrow> k \<in> fst ` set xs"
  by (simp add: has_key_def map_of_eq_None_iff)

lemma validate_store_data_Ok: "validate_store_data V d = Ok () \<longleftrightarrow>
    (sd_revision d = ''0'' \<or> va_uuid V (sd_revision d) = Some (sd_revision d)) \<and> classified d"
  by (auto simp: validate_store_data_def result_simps list_ex_iff classified_def has_key_iff image_iff)

lemma merged_classified:
  assumes ok: "schema_ok S sch" and c: "classified c" "check_classification sch c = Ok ()"
    and video: "video_always_on_top (merged sch c values changes) = Ok b"
  shows "classified (merged sch c values changes)"
proof -
  let ?d = "merged sch c values changes"
  have d: "distinct (map sf_key (st_fields sch))" using ok by (simp add: schema_ok_def)
  have fields: "set (sd_secret_fields ?d) = set (sd_secret_fields c) \<union> sf_key ` {f \<in> set (st_fields sch). sf_secret f}"
    by (simp add: merged_def merge_all_rest)
  have public: "\<not> sf_secret f \<Longrightarrow> f \<in> set (st_fields sch) \<Longrightarrow> sf_key f \<notin> set (sd_secret_fields c)" for f
    using c(2) by (auto simp: check_classification_def result_simps list_ex_iff misclassified_def)
  show ?thesis
    unfolding classified_def
  proof (intro conjI allI impI)
    fix k assume h: "has_key k (sd_secrets ?d)"
    show "k \<in> set (sd_secret_fields ?d)"
    proof (cases "k \<in> sf_key ` set (st_fields sch)")
      case True
      then obtain f where f: "f \<in> set (st_fields sch)" "k = sf_key f" by blast
      show ?thesis
      proof (cases "sf_secret f")
        case False
        then have "has_key k (sd_secrets c)" using h f by (simp add: merged_def has_key_def merge_all_field [OF d])
        then show ?thesis using c(1) fields by (simp add: classified_def)
      qed (use f fields in auto)
    next
      case False
      then have "has_key k (sd_secrets c)" using h by (simp add: merged_def has_key_def merge_all_other)
      then show ?thesis using c(1) fields by (simp add: classified_def)
    qed
  next
    fix k assume h: "has_key k (sd_values ?d)"
    show "k \<notin> set (sd_secret_fields ?d)"
    proof (cases "k \<in> sf_key ` set (st_fields sch)")
      case True
      then obtain f where f: "f \<in> set (st_fields sch)" "k = sf_key f" by blast
      then have "\<not> sf_secret f" using h by (auto simp: merged_def has_key_def merge_all_field [OF d] split: if_split_asm)
      then show ?thesis using public f fields same_field [OF ok] by auto
    next
      case False
      then have base: "has_key k (sd_values (merge_base (values) c))" using h by (simp add: merged_def has_key_def merge_all_other)
      show ?thesis
      proof (cases "k = VIDEO_ALWAYS_ON_TOP")
        case True
        then show ?thesis using video by (auto simp: video_always_on_top_def split: if_split_asm)
      next
        case other: False
        then have "has_key k (sd_values c)" using base by (simp add: has_key_def merge_base_values)
        then show ?thesis using c(1) fields False by (auto simp: classified_def)
      qed
    qed
  qed
qed

lemma validate_data_revision [simp]: "validate_data S sch (d\<lparr>sd_revision := r\<rparr>) = validate_data S sch d"
proof -
  have "misclassified (d\<lparr>sd_revision := r\<rparr>) = misclassified d" by (rule ext) (simp add: misclassified_def)
  moreover have "validate_stored S (d\<lparr>sd_revision := r\<rparr>) True = validate_stored S d True"
    by (rule ext) (simp add: validate_stored_def stored_value_def effective_def)
  ultimately show ?thesis
    by (simp add: validate_data_def validate_fields_def check_classification_def video_always_on_top_def)
qed

text \<open>
  C20. An edit changes what it names and nothing else: a merge that succeeds yields settings the schema and the
  store both accept; settings of no field of this schema are kept for a later version; a secret changes only
  where the edit sets or clears it; and the revision is new exactly when something differs.
\<close>

theorem merge_changes_what_it_names:
  assumes "schema_maps S" "compile S m = Ok sch" "validate_store_data V c = Ok ()" "va_uuid V fresh = Some fresh"
    and "merge S fresh sch digest c revision values changes = Ok d"
  shows "validate_store_data V d = Ok () \<and> validate_data S sch d = Ok ()
    \<and> (\<forall>k. k \<notin> sf_key ` set (st_fields sch) \<longrightarrow> map_of (sd_secrets d) k = map_of (sd_secrets c) k
         \<and> (k \<noteq> VIDEO_ALWAYS_ON_TOP \<longrightarrow> map_of (sd_values d) k = map_of (sd_values c) k))
    \<and> (\<forall>f \<in> set (st_fields sch). sf_secret f \<longrightarrow> map_of (sd_secrets d) (sf_key f) =
         (case map_of changes (sf_key f) of None \<Rightarrow> map_of (sd_secrets c) (sf_key f) | Some c \<Rightarrow> c))
    \<and> sd_revision d = (if unchanged c d then sd_revision c else fresh)"
proof -
  have ok: "schema_ok S sch" by (rule compile_ok [OF assms(1,2)])
  then have dist: "distinct (map sf_key (st_fields sch))" by (simp add: schema_ok_def)
  let ?d = "merged sch c values changes"
  have valid: "validate_data S sch ?d = Ok ()" and cls: "check_classification sch c = Ok ()"
    and d: "d = (if unchanged c ?d then ?d else ?d\<lparr>sd_revision := fresh\<rparr>)"
    using assms(5) by (simp_all add: merge_Ok)
  obtain b where "video_always_on_top ?d = Ok b" using valid by (auto simp: validate_data_def validate_fields_def result_simps)
  then have "classified ?d" using merged_classified [OF ok _ cls] assms(3) by (simp add: validate_store_data_Ok)
  then have store: "validate_store_data V d = Ok ()"
    using assms(3,4) by (simp add: d validate_store_data_Ok classified_def merged_def merge_all_rest)
  have same: "sd_values d = sd_values ?d" "sd_secrets d = sd_secrets ?d" "sd_secret_fields d = sd_secret_fields ?d"
    by (simp_all add: d)
  have other: "map_of (sd_secrets d) k = map_of (sd_secrets c) k
      \<and> (k \<noteq> VIDEO_ALWAYS_ON_TOP \<longrightarrow> map_of (sd_values d) k = map_of (sd_values c) k)" if "k \<notin> sf_key ` set (st_fields sch)" for k
    using that by (simp add: same merged_def merge_all_other merge_base_values)
  have secret: "map_of (sd_secrets d) (sf_key f) =
      (case map_of changes (sf_key f) of None \<Rightarrow> map_of (sd_secrets c) (sf_key f) | Some c \<Rightarrow> c)"
    if "f \<in> set (st_fields sch)" "sf_secret f" for f
    using that by (simp add: same merged_def merge_all_field [OF dist] split: option.split)
  have revision: "sd_revision d = (if unchanged c d then sd_revision c else fresh)"
  proof -
    have "unchanged c d = unchanged c ?d" by (simp only: unchanged_def same)
    moreover have "sd_revision ?d = sd_revision c" by (simp add: merged_def merge_all_rest)
    ultimately show ?thesis using d by (cases "unchanged c ?d") simp_all
  qed
  show ?thesis using store valid other secret revision by (simp add: d)
qed

section \<open>Saving what is shown\<close>

lemma map_filter_cong: "(\<And>x. x \<in> set xs \<Longrightarrow> f x = g x) \<Longrightarrow> List.map_filter f xs = List.map_filter g xs"
  by (induction xs) (simp_all add: List.map_filter_simps split: option.split)

lemma public_value:
  assumes "distinct (map sf_key fs)" "f \<in> set fs" "\<not> sf_secret f"
  shows "map_of (List.map_filter (\<lambda>f. if sf_secret f then None else map_option (\<lambda>v. (sf_key f, v)) (effective d f)) fs) (sf_key f)
    = effective d f"
  using assms
proof (induction fs)
  case (Cons g fs)
  show ?case
  proof (cases "f = g")
    case True
    have "map_of (List.map_filter (\<lambda>f. if sf_secret f then None else map_option (\<lambda>v. (sf_key f, v)) (effective d f)) fs) (sf_key g) = None"
      using Cons.prems(1) by (force simp: map_of_eq_None_iff List.map_filter_def split: if_split_asm)
    then show ?thesis using True Cons.prems(3) by (cases "effective d g") (simp_all add: List.map_filter_simps)
  next
    case False
    then have "sf_key f \<noteq> sf_key g" using Cons.prems(1,2) by (metis distinct.simps(2) image_eqI image_set list.simps(9) set_ConsD)
    then show ?thesis
      using Cons False by (cases "sf_secret g"; cases "effective d g") (simp_all add: List.map_filter_simps)
  qed
qed simp

lemma kept_again:
  assumes "field_ok S f" "\<not> sf_secret f" "map_of values (sf_key f) = effective c f"
  shows "(case kept_value values f of Some v \<Rightarrow> Some v | None \<Rightarrow> sf_default f) = effective c f"
proof (cases "effective c f")
  case None
  then have "sf_default f = None" by (simp add: effective_def split: option.split_asm)
  then show ?thesis using assms(3) None by (simp add: kept_value_def)
next
  case (Some v)
  show ?thesis
    using assms Some by (auto simp: kept_value_def field_ok_def as_str_Some)
qed

lemma misclassified_not: "check_classification sch c = Ok () \<Longrightarrow> f \<in> set (st_fields sch) \<Longrightarrow> \<not> misclassified c f"
  by (auto simp: check_classification_def result_simps list_ex_iff)

text \<open>Submitting what the view shows.\<close>

lemma resaved:
  assumes ok: "schema_ok S sch" and given: "\<And>f. f \<in> set (st_fields sch) \<Longrightarrow> \<not> sf_secret f \<Longrightarrow> map_of values (sf_key f) = effective c f"
    and cls: "check_classification sch c = Ok ()" and f: "f \<in> set (st_fields sch)"
  shows "stored_value (merged sch c values []) f = stored_value c f \<and> \<not> misclassified (merged sch c values []) f
    \<and> has_key (sf_key f) (sd_secrets (merged sch c values [])) = has_key (sf_key f) (sd_secrets c)"
proof -
  have dist: "distinct (map sf_key (st_fields sch))" using ok by (simp add: schema_ok_def)
  have fok: "field_ok S f" using ok f by (simp add: schema_ok_def)
  have deleted: "map_of (AList.delete VIDEO_ALWAYS_ON_TOP values) (sf_key f) = map_of values (sf_key f)"
    using schema_video [OF ok f] by (simp add: delete_conv')
  have secrets: "map_of (sd_secrets (merged sch c values [])) (sf_key f) = map_of (sd_secrets c) (sf_key f)"
    by (simp add: merged_def merge_all_field [OF dist f])
  have stored: "stored_value (merged sch c values []) f = stored_value c f"
  proof (cases "sf_secret f")
    case False
    then have "effective (merged sch c values []) f = (case kept_value (AList.delete VIDEO_ALWAYS_ON_TOP values) f of Some v \<Rightarrow> Some v | None \<Rightarrow> sf_default f)"
      by (simp add: effective_def merged_def merge_all_field [OF dist f])
    also have "\<dots> = effective c f" by (rule kept_again [OF fok False]) (simp add: deleted given [OF f False])
    finally show ?thesis using False by (simp add: stored_value_def)
  qed (simp add: stored_value_def secrets)
  have "sf_key f \<notin> sf_key ` {g \<in> set (st_fields sch). sf_secret g}" if "\<not> sf_secret f"
    using same_field [OF ok _ f] that by fastforce
  then have "\<not> misclassified (merged sch c values []) f"
    using misclassified_not [OF cls f] secrets
    by (auto simp: misclassified_def has_key_def merged_def merge_all_field [OF dist f] merge_all_rest)
  then show ?thesis using stored secrets by (simp add: has_key_def)
qed

lemma resaved_video:
  assumes ok: "schema_ok S sch" and v: "video_always_on_top c = Ok b"
    and given: "map_of values VIDEO_ALWAYS_ON_TOP \<in> {None, Some (JBool b)}"
  shows "video_always_on_top (merged sch c values []) = Ok b"
proof -
  have n: "VIDEO_ALWAYS_ON_TOP \<notin> sf_key ` set (st_fields sch)" using schema_video [OF ok] by force
  have "map_of (sd_values (merged sch c values [])) VIDEO_ALWAYS_ON_TOP
      = (case map_of values VIDEO_ALWAYS_ON_TOP of None \<Rightarrow> map_of (sd_values c) VIDEO_ALWAYS_ON_TOP | Some v \<Rightarrow> Some v)"
    by (simp add: merged_def merge_all_other n merge_base_def update_conv' split: option.split)
  then show ?thesis
    using v given n
    by (auto simp: video_always_on_top_def merged_def merge_all_rest merge_all_other has_key_def ok_or_def split: if_split_asm)
qed

text \<open>
  C21. Saving what is shown changes nothing: if the stored settings are valid and complete under the schema, required
  secrets included, then submitting the values of a view with no change of a secret succeeds, and the worker's values, the secrets and the preference of the video windows are what they were, also for
  values that are left out of the record because they equal their default.
\<close>

theorem resave_keeps_settings:
  assumes "schema_maps S" "compile S m = Ok sch" "validate_data S sch c = Ok ()" "view sch m digest c = Ok v"
  shows "\<exists>d. merge S fresh sch digest c (pv_revision v) (pv_values v) [] = Ok d
    \<and> public_values sch d = public_values sch c \<and> map_of (sd_secrets d) = map_of (sd_secrets c)
    \<and> video_always_on_top d = video_always_on_top c"
proof -
  have ok: "schema_ok S sch" by (rule compile_ok [OF assms(1,2)])
  then have dist: "distinct (map sf_key (st_fields sch))" and bound: "length (st_fields sch) \<le> MAX_FIELDS" by (simp_all add: schema_ok_def)
  obtain b where cls: "check_classification sch c = Ok ()" and video: "video_always_on_top c = Ok b"
    and each: "\<forall>f \<in> set (st_fields sch). validate_stored S c True f = Ok ()"
    using assms(3) by (auto simp: validate_data_def validate_fields_def result_simps)
  have shown: "pv_revision v = revision_token digest c" "pv_values v = (if st_video_windows sch
      then AList.update VIDEO_ALWAYS_ON_TOP (JBool b) (public_values sch c) else public_values sch c)"
    using assms(4) video by (auto simp: view_def result_simps split: if_split_asm)
  let ?vs = "pv_values v" and ?d = "merged sch c (pv_values v) []"
  have none: "map_of (public_values sch c) VIDEO_ALWAYS_ON_TOP = None"
    by (metis has_key_def public_values_keys schema_video [OF ok])
  have given: "map_of ?vs (sf_key f) = effective c f" if "f \<in> set (st_fields sch)" "\<not> sf_secret f" for f
    using public_value [OF dist that, of c] schema_video [OF ok that(1)]
    by (simp add: shown(2) update_conv' flip: public_values_def)
  have same: "stored_value ?d f = stored_value c f \<and> \<not> misclassified ?d f \<and> has_key (sf_key f) (sd_secrets ?d) = has_key (sf_key f) (sd_secrets c)"
    if "f \<in> set (st_fields sch)" for f by (rule resaved [OF ok given cls that])
  have vid: "video_always_on_top ?d = Ok b"
    by (rule resaved_video [OF ok video]) (simp add: shown(2) update_conv' none)
  define r where "r = (if unchanged c ?d then ?d else ?d\<lparr>sd_revision := fresh\<rparr>)"
  have "check_classification sch ?d = Ok ()"
    using same by (simp add: check_classification_def result_simps list_ex_iff)
  moreover have "validate_stored S ?d True f = Ok ()" if "f \<in> set (st_fields sch)" for f
    using each same [OF that] that by (simp add: validate_stored_def)
  ultimately have "validate_data S sch ?d = Ok ()"
    using vid by (simp add: validate_data_def validate_fields_def result_simps)
  moreover have deleted: "AList.delete VIDEO_ALWAYS_ON_TOP ?vs = public_values sch c"
    using none by (simp add: shown(2) delete_update_same delete_notin_dom map_of_eq_None_iff)
  moreover have "length (public_values sch c) \<le> MAX_FIELDS"
    using bound by (simp add: public_values_def List.map_filter_def) (meson le_trans length_filter_le)
  moreover have "list_all (\<lambda>(k, _). known_key sch False k) (public_values sch c)"
    by (auto simp: list_all_iff known_key_def list_ex_iff dest: public_values_known)
  moreover have "opt_all (\<lambda>v. st_video_windows sch \<and> as_bool v \<noteq> None) (map_of ?vs VIDEO_ALWAYS_ON_TOP)"
    by (simp add: shown(2) update_conv' none opt_all_def)
  ultimately have merge: "merge S fresh sch digest c (pv_revision v) ?vs [] = Ok r"
    unfolding merge_Ok r_def shown(1) using cls by (simp only: deleted) simp
  have "sd_values r = sd_values ?d" "sd_secrets r = sd_secrets ?d" "sd_secret_fields r = sd_secret_fields ?d"
    by (simp_all add: r_def)
  then have rec: "effective r = effective ?d" "sd_secrets r = sd_secrets ?d" "video_always_on_top r = video_always_on_top ?d"
    by (simp_all add: effective_values [of r "merged sch c (pv_values v) []"] video_always_on_top_def)
  have "public_values sch r = public_values sch c"
    unfolding public_values_def rec
  proof (rule map_filter_cong)
    fix f assume "f \<in> set (st_fields sch)"
    from same [OF this] show "(if sf_secret f then None else map_option (\<lambda>v. (sf_key f, v)) (effective ?d f))
        = (if sf_secret f then None else map_option (\<lambda>v. (sf_key f, v)) (effective c f))"
      by (cases "sf_secret f") (simp_all add: stored_value_def)
  qed
  moreover have "map_of (sd_secrets r) = map_of (sd_secrets c)"
  proof
    fix k show "map_of (sd_secrets r) k = map_of (sd_secrets c) k"
      unfolding rec
      by (cases "k \<in> sf_key ` set (st_fields sch)") (auto simp: merged_def merge_all_field [OF dist] merge_all_other)
  qed
  ultimately show ?thesis using merge vid video rec(3) by metis
qed

section \<open>What a worker is started with\<close>

lemma delete_subset: "set (AList.delete k ys) \<subseteq> set ys"
  by (simp add: AList.delete_eq)

lemma delete_keys_subset: "set (fold (\<lambda>f values. if left_out values f then AList.delete (sf_key f) values else values) fs xs) \<subseteq> set xs"
proof (induction fs arbitrary: xs)
  case (Cons f fs)
  have "set (if left_out xs f then AList.delete (sf_key f) xs else xs) \<subseteq> set xs" by (simp add: delete_subset)
  with Cons.IH [of "if left_out xs f then AList.delete (sf_key f) xs else xs"] show ?case
    unfolding fold_simps(2) by (rule order_trans)
qed simp

lemma delete_keys_kept:
  assumes "\<And>g. g \<in> set fs \<Longrightarrow> sf_key g = k \<Longrightarrow> \<not> sf_omit_empty g \<and> \<not> sf_omit_default g"
  shows "map_of (fold (\<lambda>f values. if left_out values f then AList.delete (sf_key f) values else values) fs xs) k = map_of xs k"
  using assms by (induction fs arbitrary: xs) (auto simp: left_out_def delete_conv')

text \<open>
  C22. A worker sees only what its schema accepts: every value it is started with belongs to a public field of the
  manifest and satisfies it, every secret to a secret field, and every required field is present in one of the two.
\<close>

theorem worker_configuration_valid:
  assumes "schema_maps S" "compile S m = Ok sch" "configuration X S sch d = Ok c"
  shows "\<exists>vs. wc_values c = JObject vs
    \<and> (\<forall>(k, v) \<in> set vs. \<exists>f \<in> set (st_fields sch). sf_key f = k \<and> \<not> sf_secret f \<and> field_accepts S f v)
    \<and> (\<forall>(k, s) \<in> set (wc_secrets c). \<exists>f \<in> set (st_fields sch). sf_key f = k \<and> sf_secret f \<and> field_accepts S f (JString s))
    \<and> (\<forall>f \<in> set (st_fields sch). sf_required f \<longrightarrow> has_key (sf_key f) (if sf_secret f then map (\<lambda>(k, s). (k, JString s)) (wc_secrets c) else vs))"
proof -
  have ok: "schema_ok S sch" by (rule compile_ok [OF assms(1,2)])
  then have dist: "distinct (map sf_key (st_fields sch))" by (simp add: schema_ok_def)
  have each: "\<And>f. f \<in> set (st_fields sch) \<Longrightarrow> validate_stored S d True f = Ok ()"
    and c: "wc_values c = JObject (worker_values sch d)" "wc_secrets c = List.map_filter (\<lambda>f. if sf_secret f
            then map_option (\<lambda>s. (sf_key f, s)) (map_of (sd_secrets d) (sf_key f)) else None) (st_fields sch)"
    using assms(3) by (auto simp: configuration_def configuration_impl_def validate_fields_def Let_def result_simps)
  have accepted: "field_accepts S f v" if "f \<in> set (st_fields sch)" "stored_value d f = Some v" for f v
    using each [OF that(1)] that(2) by (simp add: validate_stored_def result_simps)
  have public: "\<exists>f \<in> set (st_fields sch). sf_key f = k \<and> \<not> sf_secret f \<and> field_accepts S f v" if "(k, v) \<in> set (worker_values sch d)" for k v
  proof -
    have "(k, v) \<in> set (public_values sch d)" using that delete_keys_subset by (fastforce simp: worker_values_def)
    then obtain f where f: "f \<in> set (st_fields sch)" "sf_key f = k" "\<not> sf_secret f" "effective d f = Some v"
      by (auto simp: public_values_def List.map_filter_def split: if_split_asm)
    then show ?thesis using accepted [of f v] by (auto simp: stored_value_def)
  qed
  have secret: "\<exists>f \<in> set (st_fields sch). sf_key f = k \<and> sf_secret f \<and> field_accepts S f (JString s)" if "(k, s) \<in> set (wc_secrets c)" for k s
    using that accepted unfolding c by (fastforce simp: List.map_filter_def stored_value_def split: if_split_asm)
  have required: "has_key (sf_key f) (if sf_secret f then map (\<lambda>(k, s). (k, JString s)) (wc_secrets c) else worker_values sch d)"
    if f: "f \<in> set (st_fields sch)" "sf_required f" for f
  proof -
    obtain v where v: "stored_value d f = Some v"
      using each [OF f(1)] f(2) by (auto simp: validate_stored_def result_simps split: option.split_asm)
    show ?thesis
    proof (cases "sf_secret f")
      case True
      then obtain s where "map_of (sd_secrets d) (sf_key f) = Some s" using v by (auto simp: stored_value_def)
      then have "(sf_key f, s) \<in> set (wc_secrets c)" using f(1) True unfolding c by (force simp: List.map_filter_def)
      then show ?thesis using True by (force simp: has_key_iff)
    next
      case False
      have "\<not> sf_omit_empty g \<and> \<not> sf_omit_default g" if "g \<in> set (st_fields sch)" "sf_key g = sf_key f" for g
        using same_field [OF ok that(1) f(1) that(2)] ok f by (auto simp: schema_ok_def field_ok_def)
      then have "map_of (worker_values sch d) (sf_key f) = map_of (public_values sch d) (sf_key f)"
        unfolding worker_values_def by (rule delete_keys_kept)
      then show ?thesis using False v public_value [OF dist f(1) False, of d]
        by (simp add: has_key_def stored_value_def flip: public_values_def)
    qed
  qed
  show ?thesis using c(1) public secret required by (intro exI [of _ "worker_values sch d"]) auto
qed

section \<open>At a concrete schema\<close>

definition sample_raw :: "bool \<Rightarrow> json option \<Rightarrow> raw_field" where
  "sample_raw secret d = \<lparr>rf_kind = TString, rf_title = None, rf_description = None, rf_secret = secret, rf_omit_empty = False,
     rf_omit_default = False, rf_choices = None, rf_minimum = None, rf_maximum = None, rf_min_length = None,
     rf_max_length = Some 64, rf_default = d, rf_editor = None, rf_options_source = None, rf_options_prefixes = [],
     rf_options_multiple = False\<rparr>"

definition sample_serde :: serde where
  "sample_serde = \<lparr>sx_text = (\<lambda>_. None), sx_schema = (\<lambda>_. Some \<lparr>rs_kind = ''object'',
     rs_properties = [(''host'', sample_raw False (Some (JString ''cerbo''))), (''token'', sample_raw True None)],
     rs_required = [''host''], rs_additional_properties = Some False, rs_title = None, rs_description = None\<rparr>)\<rparr>"

definition settings_manifest :: plugin_manifest where
  "settings_manifest = sample_manifest\<lparr>m_permissions := [PluginConfiguration, PermHttpVideo]\<rparr>"

definition sample_schema :: settings_schema where
  "sample_schema = \<lparr>st_fields = [field_of {''host''} ''host'' (sample_raw False (Some (JString ''cerbo''))),
     field_of {''host''} ''token'' (sample_raw True None)], st_video_windows = True\<rparr>"

definition sample_data :: settings_data where
  "sample_data = \<lparr>sd_legacy_migration_version = 0, sd_revision = ''0'', sd_values = [(''host'', JString ''gx'')],
     sd_secrets = [(''token'', ''abc'')], sd_secret_fields = [''token'']\<rparr>"

definition sample_vault :: vault where
  "sample_vault = \<lparr>va_digest = (\<lambda>s. take 32 (s @ replicate 32 CHR ''0'')), va_seal = (\<lambda>k n a p. Some (p @ replicate 16 CHR ''t'')),
     va_open = (\<lambda>k n a c. Some (take (length c - 16) c)), va_encode = (\<lambda>d. Ok (sd_revision d)),
     va_decode = (\<lambda>s. Some (sample_data\<lparr>sd_revision := s\<rparr>)), va_uuid = Some\<rparr>"

lemma sample_maps: "schema_maps sample_serde"
  by (simp add: schema_maps_def sample_serde_def)

lemma sample_field_keys: "field_key_ok ''host'' \<and> field_key_ok ''token''"
  by code_simp

lemma sample_compiles: "compile sample_serde settings_manifest = Ok sample_schema"
proof -
  have "\<not> field_refused {''host''} ''host'' (sample_raw False (Some (JString ''cerbo'')))" "\<not> field_refused {''host''} ''token'' (sample_raw True None)"
    by (simp_all add: field_refused_def sample_raw_def sample_field_keys bounded_text_def opt_all_def valid_options_def MAX_STRING_def)
  moreover have "length (chars ''cerbo'') = 5" by code_simp
  then have "validate_field sample_serde (field_of {''host''} ''host'' (sample_raw False (Some (JString ''cerbo'')))) (JString ''cerbo'') = Ok ()"
    by (simp add: validate_field_Ok field_accepts_def field_of_def sample_raw_def text_field_ok_def opt_all_def MAX_STRING_def)
  ultimately show ?thesis
    by (simp add: compile_def settings_manifest_def sample_serde_def MAX_FIELDS_def bounded_text_def opt_all_def Let_def sample_schema_def
        if_some_def field_of_def sample_raw_def for_each_def)
qed

lemma sample_accepts:
  "check_classification sample_schema sample_data = Ok ()" "video_always_on_top sample_data = Ok False"
  "validate_data sample_serde sample_schema sample_data = Ok ()" "validate_store_data sample_vault sample_data = Ok ()"
  by code_simp+

lemma sample_view: "\<exists>v. view sample_schema settings_manifest ''d'' sample_data = Ok v"
proof -
  have "st_video_windows sample_schema" by (simp add: sample_schema_def)
  then show ?thesis by (simp add: view_def sample_accepts)
qed

theorem view_hides_secrets_witness:
  "\<exists>v. view sample_schema settings_manifest ''d'' sample_data = Ok v \<and> \<not> has_key ''token'' (pv_values v)"
proof -
  obtain v where v: "view sample_schema settings_manifest ''d'' sample_data = Ok v" using sample_view by blast
  have "\<not> has_key ''token'' (pv_values v)"
    using view_hides_secrets [OF sample_maps sample_compiles v] by (simp add: sample_schema_def field_of_def sample_raw_def)
  with v show ?thesis by blast
qed

lemma sample_merge: "\<exists>d. merge sample_serde ''r1'' sample_schema ''d'' sample_data (revision_token ''d'' sample_data)
    [(''host'', JString ''gx2'')] [(''token'', None)] = Ok d"
  by (rule exI [of _ "case merge sample_serde ''r1'' sample_schema ''d'' sample_data (revision_token ''d'' sample_data)
    [(''host'', JString ''gx2'')] [(''token'', None)] of Ok d \<Rightarrow> d | Err _ \<Rightarrow> sample_data"]) code_simp

theorem merge_changes_what_it_names_witness:
  "\<exists>d. merge sample_serde ''r1'' sample_schema ''d'' sample_data (revision_token ''d'' sample_data)
       [(''host'', JString ''gx2'')] [(''token'', None)] = Ok d
     \<and> validate_store_data sample_vault d = Ok () \<and> \<not> has_key ''token'' (sd_secrets d)"
proof -
  obtain d where d: "merge sample_serde ''r1'' sample_schema ''d'' sample_data (revision_token ''d'' sample_data)
    [(''host'', JString ''gx2'')] [(''token'', None)] = Ok d" using sample_merge by blast
  have "va_uuid sample_vault ''r1'' = Some ''r1''" by (simp add: sample_vault_def)
  note all = merge_changes_what_it_names [OF sample_maps sample_compiles sample_accepts(4) this d]
  have "field_of {''host''} ''token'' (sample_raw True None) \<in> set (st_fields sample_schema)" by (simp add: sample_schema_def)
  then have "map_of (sd_secrets d) ''token'' = None" using all by (auto simp: field_of_def sample_raw_def)
  then show ?thesis using d all by (auto simp: has_key_def)
qed

theorem resave_keeps_settings_witness:
  "\<exists>v d. view sample_schema settings_manifest ''d'' sample_data = Ok v
     \<and> merge sample_serde ''r1'' sample_schema ''d'' sample_data (pv_revision v) (pv_values v) [] = Ok d
     \<and> map_of (sd_secrets d) = map_of (sd_secrets sample_data)"
proof -
  obtain v where v: "view sample_schema settings_manifest ''d'' sample_data = Ok v" using sample_view by blast
  from resave_keeps_settings [OF sample_maps sample_compiles sample_accepts(3) v, of "''r1''"] v show ?thesis by blast
qed

theorem worker_configuration_valid_witness:
  "\<exists>c. configuration sample_ext sample_serde sample_schema sample_data = Ok c \<and> wc_values c = JObject [(''host'', JString ''gx'')]
     \<and> (\<exists>f. sf_key f = ''host'' \<and> field_accepts sample_serde f (JString ''gx''))"
proof -
  have "configuration sample_ext sample_serde sample_schema sample_data
      = Ok \<lparr>wc_revision = ''0'', wc_values = JObject [(''host'', JString ''gx'')], wc_secrets = [(''token'', ''abc'')]\<rparr>"
    by code_simp
  then obtain c where c: "configuration sample_ext sample_serde sample_schema sample_data = Ok c"
    and vs: "wc_values c = JObject [(''host'', JString ''gx'')]" by simp
  have "\<exists>f. sf_key f = ''host'' \<and> field_accepts sample_serde f (JString ''gx'')"
    using worker_configuration_valid [OF sample_maps sample_compiles c] vs by auto
  then show ?thesis using c vs by blast
qed

end
