(* ===== verification/SettingsCommit.thy ===== *)
theory SettingsCommit
  imports SettingsSafety
begin

text \<open>
  Writes to the settings store are atomic: until the rename every reader sees the old record, after it the new
  one, and no other plugin's record is touched, whichever step of the write fails.
\<close>

section \<open>When a directory scans\<close>

text \<open>
  What the third-party operations promise: a digest of 32 bytes and an AEAD that opens what it sealed. Nothing is
  assumed of the JSON encoder and decoder.
\<close>

definition vault_ok :: "vault \<Rightarrow> bool" where
  "vault_ok V \<longleftrightarrow> (\<forall>s. length (va_digest V s) = 32)
     \<and> (\<forall>k n a p c. va_seal V k n a p = Some c \<longrightarrow> length c = length p + TAG_BYTES \<and> va_open V k n a c = Some p)"

definition is_pending :: "string \<Rightarrow> bool" where "is_pending n \<longleftrightarrow> strip_prefix PENDING_PREFIX n \<noteq> None"

definition name_ok :: "vault \<Rightarrow> string \<Rightarrow> bool" where
  "name_ok V n \<longleftrightarrow> (case strip_prefix PENDING_PREFIX n of Some i \<Rightarrow> va_uuid V i = Some i
     | None \<Rightarrow> (case strip_suffix ''.enc'' n of Some i \<Rightarrow> is_lowercase_digest i | None \<Rightarrow> False))"

fun node_ok :: "node \<Rightarrow> bool" where
  "node_ok (Unsafe _) = False" | "node_ok (Plain b) \<longleftrightarrow> length b \<le> MAX_SETTINGS_FILE_BYTES"

fun node_size :: "node \<Rightarrow> nat" where
  "node_size (Plain b) = length b" | "node_size (Unsafe _) = 0"

definition occurrences :: "(string \<Rightarrow> bool) \<Rightarrow> (string \<times> node) list \<Rightarrow> nat" where
  "occurrences P fs = length (filter (\<lambda>f. P (fst f)) fs)"

definition all_bytes :: "(string \<times> node) list \<Rightarrow> nat" where
  "all_bytes fs = sum_list (map (node_size \<circ> snd) fs)"

definition scans :: "vault \<Rightarrow> nat \<Rightarrow> nat \<Rightarrow> nat \<Rightarrow> (string \<times> node) list \<Rightarrow> bool" where
  "scans V r p b fs \<longleftrightarrow> (\<forall>(n, nd) \<in> set fs. name_ok V n \<and> node_ok nd) \<and> r + occurrences (Not \<circ> is_pending) fs \<le> MAX_SETTINGS_RECORDS
     \<and> p + occurrences is_pending fs \<le> MAX_PENDING_FILES \<and> b + all_bytes fs \<le> MAX_SETTINGS_DIRECTORY_BYTES"

definition counted :: "string \<Rightarrow> usage \<Rightarrow> usage" where
  "counted n u = (if is_pending n then u\<lparr>us_pending := us_pending u @ [n]\<rparr> else u\<lparr>us_records := us_records u + 1\<rparr>)"

lemma counted_simps:
  "us_records (counted n u) = us_records u + (if is_pending n then 0 else 1)"
  "us_pending (counted n u) = us_pending u @ (if is_pending n then [n] else [])"
  "us_bytes (counted n u) = us_bytes u"
  by (simp_all add: counted_def)

lemma count_name_Ok: "count_name V n u = Ok u' \<longleftrightarrow> name_ok V n \<and> u' = counted n u"
  by (auto simp: count_name_def name_ok_def counted_def is_pending_def split: option.split)

lemma private_bytes_Ok: "private_bytes nd = Ok b \<longleftrightarrow> node_ok nd \<and> nd = Plain b"
  by (cases nd) auto

lemma scan_entry_Ok:
  "(\<exists>u'. scan_entry V n nd u = Ok u') \<longleftrightarrow> name_ok V n \<and> node_ok nd
     \<and> us_records (counted n u) \<le> MAX_SETTINGS_RECORDS \<and> length (us_pending (counted n u)) \<le> MAX_PENDING_FILES
     \<and> us_bytes u + node_size nd \<le> MAX_SETTINGS_DIRECTORY_BYTES"
  by (cases nd) (auto simp: scan_entry_def rbind_Ok count_name_Ok private_bytes_Ok counted_simps Let_def not_less split del: if_split split: if_split_asm)

lemma scan_entry_usage:
  assumes "scan_entry V n nd u = Ok u'"
  shows "us_records u' = us_records (counted n u) \<and> us_pending u' = us_pending (counted n u)
    \<and> us_bytes u' = us_bytes u + node_size nd"
proof -
  obtain b where "nd = Plain b" using assms by (auto simp: scan_entry_def rbind_Ok private_bytes_Ok split: if_split_asm)
  then show ?thesis using assms
    by (auto simp: scan_entry_def rbind_Ok count_name_Ok private_bytes_Ok counted_simps(3) Let_def split: if_split_asm option.split_asm)
qed

lemma scan_entries_Ok:
  assumes "us_records u \<le> MAX_SETTINGS_RECORDS" "length (us_pending u) \<le> MAX_PENDING_FILES" "us_bytes u \<le> MAX_SETTINGS_DIRECTORY_BYTES"
  shows "(\<exists>u'. scan_entries V fs u = Ok u') \<longleftrightarrow> scans V (us_records u) (length (us_pending u)) (us_bytes u) fs"
  using assms
proof (induction fs arbitrary: u)
  case Nil
  then show ?case by (simp add: scans_def occurrences_def all_bytes_def)
next
  case (Cons f fs)
  obtain n nd where f: "f = (n, nd)" by fastforce
  show ?case
  proof (cases "scan_entry V n nd u")
    case (Inl e)
    then have "\<nexists>u'. scan_entry V n nd u = Ok u'" by simp
    then have "\<not> scans V (us_records u) (length (us_pending u)) (us_bytes u) (f # fs)"
      unfolding scan_entry_Ok by (auto simp: scans_def f occurrences_def all_bytes_def counted_simps)
    then show ?thesis using Inl f by simp
  next
    case (Inr u')
    then have ok: "\<exists>u'. scan_entry V n nd u = Ok u'" by simp
    note us = scan_entry_usage [OF Inr]
    have "(\<exists>w. scan_entries V fs u' = Ok w) \<longleftrightarrow> scans V (us_records u') (length (us_pending u')) (us_bytes u') fs"
      using ok us unfolding scan_entry_Ok by (intro Cons.IH) auto
    then show ?thesis
      using Inr ok us unfolding scan_entry_Ok by (auto simp: f scans_def occurrences_def all_bytes_def counted_simps)
  qed
qed

lemma scan_entries_usage:
  "scan_entries V fs u = Ok u' \<Longrightarrow> us_records u' = us_records u + occurrences (Not \<circ> is_pending) fs
    \<and> us_pending u' = us_pending u @ filter is_pending (map fst fs) \<and> us_bytes u' = us_bytes u + all_bytes fs"
proof (induction fs arbitrary: u)
  case (Cons f fs)
  obtain n nd where f: "f = (n, nd)" by fastforce
  obtain w where w: "scan_entry V n nd u = Ok w" "scan_entries V fs w = Ok u'" using Cons.prems by (auto simp: f result_simps)
  show ?case using Cons.IH [OF w(2)] scan_entry_usage [OF w(1)] by (simp add: f occurrences_def all_bytes_def counted_simps)
qed (simp add: occurrences_def all_bytes_def)

abbreviation tidy :: "vault \<Rightarrow> (string \<times> node) list \<Rightarrow> bool" where "tidy V fs \<equiv> scans V 0 0 0 fs"

lemma scan_Ok_iff: "(\<exists>u. scan V fs = Ok u) \<longleftrightarrow> tidy V (fs_files fs)"
  using scan_entries_Ok [of no_usage V "fs_files fs"] by (simp add: scan_def result_simps no_usage_def)

lemma scan_usage:
  assumes "scan V fs = Ok u"
  shows "us_records u = occurrences (Not \<circ> is_pending) (fs_files fs) \<and> us_pending u = filter is_pending (map fst (fs_files fs))
    \<and> us_bytes u = all_bytes (fs_files fs) \<and> tidy V (fs_files fs)"
proof -
  obtain w where "scan_entries V (fs_files fs) no_usage = Ok w" "u = w\<lparr>us_inventory := sort_key rc_record_id (us_inventory w)\<rparr>"
    using assms by (auto simp: scan_def result_simps)
  then show ?thesis using scan_entries_usage [of V "fs_files fs" no_usage w] scan_Ok_iff [of V fs] assms by (auto simp: no_usage_def)
qed

section \<open>Changes of one file\<close>

lemma occurrences_update: "occurrences P (AList.update k v fs) = occurrences P fs + (if P k \<and> map_of fs k = None then 1 else 0)"
  by (induction fs) (auto simp: occurrences_def)

lemma occurrences_delete: "occurrences P (AList.delete k fs) \<le> occurrences P fs"
  by (simp add: occurrences_def AList.delete_eq) (induction fs, auto)

lemma all_bytes_update: "all_bytes (AList.update k v fs) \<le> all_bytes fs + node_size v"
  by (induction fs) (auto simp: all_bytes_def)

lemma all_bytes_delete: "map_of fs k = Some nd \<Longrightarrow> all_bytes (AList.delete k fs) + node_size nd \<le> all_bytes fs"
proof (induction fs)
  case (Cons f fs)
  have "all_bytes (AList.delete k fs) \<le> all_bytes fs" by (simp add: all_bytes_def AList.delete_eq) (induction fs, auto)
  then show ?case using Cons by (cases f) (auto simp: all_bytes_def split: if_split_asm)
qed simp

lemma set_update_subset_alist: "set (AList.update k v fs) \<subseteq> insert (k, v) (set fs)"
  by (induction fs) auto

lemma tidy_drop: "tidy V fs \<Longrightarrow> tidy V (AList.delete k fs)"
proof -
  assume t: "tidy V fs"
  have "all_bytes (AList.delete k fs) \<le> all_bytes fs"
    by (cases "map_of fs k") (use all_bytes_delete in \<open>fastforce simp: delete_notin_dom map_of_eq_None_iff\<close>)+
  moreover have "set (AList.delete k fs) \<subseteq> set fs" by (simp add: AList.delete_eq)
  ultimately show ?thesis
    using t occurrences_delete [of "Not \<circ> is_pending" k fs] occurrences_delete [of is_pending k fs] by (auto simp: scans_def)
qed

lemma tidy_put:
  assumes "tidy V fs" "name_ok V n" "node_ok v" "all_bytes fs + node_size v \<le> MAX_SETTINGS_DIRECTORY_BYTES"
    and "is_pending n \<Longrightarrow> map_of fs n = None \<Longrightarrow> occurrences is_pending fs < MAX_PENDING_FILES"
    and "\<not> is_pending n \<Longrightarrow> map_of fs n = None \<Longrightarrow> occurrences (Not \<circ> is_pending) fs < MAX_SETTINGS_RECORDS"
  shows "tidy V (AList.update n v fs)"
proof -
  have "\<forall>(m, nd) \<in> set (AList.update n v fs). name_ok V m \<and> node_ok nd"
    using assms(1-3) set_update_subset_alist [of n v fs] by (fastforce simp: scans_def)
  moreover have "all_bytes (AList.update n v fs) \<le> MAX_SETTINGS_DIRECTORY_BYTES" using all_bytes_update [of n v fs] assms(4) by simp
  ultimately show ?thesis
    using assms(1,5,6) by (auto simp: scans_def occurrences_update)
qed

section \<open>What a reader sees\<close>

definition read_record :: "vault \<Rightarrow> string res \<Rightarrow> string \<Rightarrow> node option \<Rightarrow> settings_data res" where
  "read_record V key q found = (case found of None \<Rightarrow> Ok default_data
     | Some nd \<Rightarrow> rbind (private_bytes nd) (\<lambda>e. rbind (checked_key key) (decrypt V q e)))"

definition readable :: "vault \<Rightarrow> store_fs \<Rightarrow> bool" where
  "readable V fs \<longleftrightarrow> directory_exists fs = Ok True \<and> tidy V (fs_files fs)"

lemma read_readable:
  "readable V fs \<Longrightarrow> read_settings V k q fs = rbind (record_name V q) (\<lambda>n. read_record V k q (map_of (fs_files fs) n))"
proof -
  assume r: "readable V fs"
  then obtain u where "scan V fs = Ok u" using scan_Ok_iff [of V fs] by (auto simp: readable_def)
  then show ?thesis using r
    by (cases "record_name V q") (auto simp: read_settings_def readable_def read_record_def file_exists_def read_private_file_def ok_or_def split: option.split)
qed

lemma directory_same: "fs_location_ok a = fs_location_ok b \<Longrightarrow> fs_root a = fs_root b \<Longrightarrow> fs_directory a = fs_directory b
    \<Longrightarrow> directory_exists a = directory_exists b"
  by (simp add: directory_exists_def cong: if_cong)

lemma directory_files [simp]: "directory_exists (put_file n b fs) = directory_exists fs" "directory_exists (drop_file n fs) = directory_exists fs"
  by (auto simp: put_file_def drop_file_def intro: directory_same)

lemma readable_drop: "readable V fs \<Longrightarrow> readable V (drop_file n fs)"
  by (simp add: readable_def tidy_drop) (simp add: drop_file_def tidy_drop)

lemma ensure_directory_cases:
  assumes "ensure_directory fails fs = (fs0, r)"
  shows "(fs0 = fs \<and> (r = Ok () \<longrightarrow> directory_exists fs = Ok True))
    \<or> (directory_exists fs = Ok False \<and> directory_exists fs0 = Ok True \<and> fs_files fs0 = [])"
  using assms by (auto simp: ensure_directory_def directory_exists_def split: sum.split_asm bool.split_asm if_split_asm)

lemma read_ensured:
  assumes "ensure_directory fails fs = (fs0, r)"
  shows "read_settings V k q fs0 = read_settings V k q fs"
proof -
  have "readable V fs0" if "directory_exists fs0 = Ok True" "fs_files fs0 = []"
    using that by (simp add: readable_def scans_def occurrences_def all_bytes_def)
  then show ?thesis using ensure_directory_cases [OF assms]
    by (auto simp: read_readable read_record_def) (simp add: read_settings_def)
qed

section \<open>Names\<close>

lemma hex_digit_lower: "n < 16 \<Longrightarrow> is_ascii_digit (hex_digit n) \<or> 97 \<le> byte (hex_digit n) \<and> byte (hex_digit n) \<le> 102"
proof -
  have "list_all (\<lambda>n. is_ascii_digit (hex_digit n) \<or> 97 \<le> byte (hex_digit n) \<and> byte (hex_digit n) \<le> 102) [0..<16]" by code_simp
  then show "n < 16 \<Longrightarrow> ?thesis" by (simp add: list_all_iff)
qed

lemma hex_lower: "list_all (\<lambda>c. is_ascii_digit c \<or> (97 \<le> byte c \<and> byte c \<le> 102)) (hex_encode bytes)"
proof (induction bytes)
  case (Cons b bytes)
  have "byte b div 16 < 16" using nat_of_char_less_256 [of b] by (simp add: less_mult_imp_div_less)
  then show ?case using Cons hex_digit_lower [of "byte b div 16"] hex_digit_lower [of "byte b mod 16"] by (simp add: hex_encode_def)
qed (simp add: hex_encode_def)

lemma record_name_Ok: "record_name V q = Ok n \<Longrightarrow> n = digest_hex V q @ ''.enc''"
  by (auto simp: record_name_def record_id_def rbind_Ok split: sum.split_asm)

lemma record_name_pending: "record_name V q = Ok n \<Longrightarrow> \<not> is_pending n"
proof -
  assume "record_name V q = Ok n"
  then have n: "n = digest_hex V q @ ''.enc''" by (rule record_name_Ok)
  have "hd n \<noteq> CHR ''s''"
    using hex_lower [of "va_digest V q"] by (cases "digest_hex V q") (auto simp: n digest_hex_def is_ascii_digit_def)
  then show ?thesis by (auto simp: is_pending_def strip_prefix_def PENDING_PREFIX_def prefix_def)
qed

lemma record_name_ok:
  assumes "vault_ok V" "record_name V q = Ok n"
  shows "name_ok V n"
proof -
  have "is_lowercase_digest (digest_hex V q)"
    using assms(1) hex_lower by (simp add: is_lowercase_digest_def digest_hex_def hex_encode_length vault_ok_def)
  moreover have "strip_suffix ''.enc'' n = Some (digest_hex V q)"
    using record_name_Ok [OF assms(2)] by (simp add: strip_suffix_def suffix_def)
  ultimately show ?thesis using record_name_pending [OF assms(2)] by (simp add: name_ok_def is_pending_def)
qed

lemma pending_name: "is_pending (PENDING_PREFIX @ i)" "name_ok V (PENDING_PREFIX @ i) \<longleftrightarrow> va_uuid V i = Some i"
  by (simp_all add: is_pending_def name_ok_def strip_prefix_def)


section \<open>One transaction\<close>

text \<open>What the decoder makes of an encoded record, checked as every record that is read.\<close>

definition reread :: "vault \<Rightarrow> string \<Rightarrow> settings_data res" where
  "reread V text = rbind (ok_or ''Invalid decrypted plugin settings'' (va_decode V text)) (\<lambda>d.
     rbind (validate_store_data V d) (\<lambda>_. Ok d))"

lemma decrypt_encrypt:
  assumes "vault_ok V" "length nonce = NONCE_BYTES" "encode_data V d = Ok plain"
    and "encrypt V q plain key nonce = Ok e"
  shows "va_encode V d = Ok plain \<and> decrypt V q e key = reread V plain \<and> length e \<le> MAX_SETTINGS_FILE_BYTES"
proof -
  obtain c where c: "va_seal V key nonce (aad q) plain = Some c" "e = MAGIC @ nonce @ c" "length e \<le> MAX_SETTINGS_FILE_BYTES"
    using assms(4) by (auto simp: encrypt_def rbind_Ok ok_or_Ok Let_def split: if_split_asm)
  then have o: "va_open V key nonce (aad q) c = Some plain" "length c = length plain + TAG_BYTES"
    using assms(1) by (auto simp: vault_ok_def)
  have p: "va_encode V d = Ok plain" "length plain \<le> MAX_SETTINGS_PLAINTEXT_BYTES"
    using assms(3) by (auto simp: encode_data_def split: sum.split_asm if_split_asm)
  moreover have "length MAGIC + NONCE_BYTES + TAG_BYTES \<le> length e" using c(2) o(2) assms(2) by simp
  ultimately show ?thesis
    using c(2,3) o(1) assms(2) by (simp add: decrypt_def reread_def Let_def ok_or_def)
qed

lemma put_pending:
  assumes "vault_ok V" "readable V fs" "va_uuid V i = Some i" "length x \<le> MAX_SETTINGS_FILE_BYTES"
    and "occurrences is_pending (fs_files fs) < MAX_PENDING_FILES" "all_bytes (fs_files fs) + length x \<le> MAX_SETTINGS_DIRECTORY_BYTES"
  shows "readable V (put_file (PENDING_PREFIX @ i) x fs)
    \<and> (\<forall>k q. read_settings V k q (put_file (PENDING_PREFIX @ i) x fs) = read_settings V k q fs)"
proof
  have "tidy V (AList.update (PENDING_PREFIX @ i) (Plain x) (fs_files fs))"
    by (rule tidy_put) (use assms in \<open>simp_all add: readable_def pending_name\<close>)
  then show r: "readable V (put_file (PENDING_PREFIX @ i) x fs)"
    using assms(2) by (simp add: readable_def) (simp add: put_file_def)
  have "map_of (fs_files (put_file (PENDING_PREFIX @ i) x fs)) n = map_of (fs_files fs) n" if "\<not> is_pending n" for n
    using that pending_name(1) by (auto simp: put_file_def update_conv')
  then show "\<forall>k q. read_settings V k q (put_file (PENDING_PREFIX @ i) x fs) = read_settings V k q fs"
    unfolding read_readable [OF r] read_readable [OF assms(2)] using record_name_pending
    by (intro allI rbind_cong) auto
qed

lemma drop_pending:
  assumes "readable V fs" "is_pending n"
  shows "read_settings V k q (drop_file n fs) = read_settings V k q fs"
proof -
  have "map_of (fs_files (drop_file n fs)) m = map_of (fs_files fs) m" if "\<not> is_pending m" for m
    using that assms(2) by (auto simp: drop_file_def delete_conv')
  then show ?thesis
    unfolding read_readable [OF readable_drop [OF assms(1)]] read_readable [OF assms(1)] using record_name_pending
    by (intro rbind_cong) auto
qed

lemma drop_prepared_reads:
  assumes "readable V fs" "is_pending n"
  shows "read_settings V k q (drop_prepared fails n fs) = read_settings V k q fs"
  using drop_pending [OF assms] by (simp add: drop_prepared_def)


lemma stage_reads:
  assumes "vault_ok V" "readable V fs" "va_uuid V i = Some i" "length e \<le> MAX_SETTINGS_FILE_BYTES"
    and "occurrences is_pending (fs_files fs) < MAX_PENDING_FILES" "all_bytes (fs_files fs) + length e \<le> MAX_SETTINGS_DIRECTORY_BYTES"
    and "stage fails written (PENDING_PREFIX @ i) e p fs = (fs1, r)"
  shows "read_settings V k q fs1 = read_settings V k q fs
    \<and> (\<forall>p'. r = Ok p' \<longrightarrow> p' = p \<and> fs1 = put_file (PENDING_PREFIX @ i) e fs \<and> map_of (fs_files fs) (PENDING_PREFIX @ i) = None)"
proof -
  have part: "readable V (put_file (PENDING_PREFIX @ i) x fs) \<and> (\<forall>k q. read_settings V k q (put_file (PENDING_PREFIX @ i) x fs) = read_settings V k q fs)"
    if "length x \<le> length e" for x
    by (rule put_pending [OF assms(1,2,3)]) (use that assms(4-6) in simp_all)
  from part [of e] part [of "take written e"] show ?thesis
    using assms(7) pending_name(1) by (auto simp: stage_def drop_prepared_reads file_exists_def split: if_split_asm)
qed

text \<open>What a successful preparation has checked.\<close>

lemma prepare_cases:
  assumes "prepare_write V fails key nonce i written pid d fs = (fs1, r)"
  shows "((fs1 = fs \<or> (\<exists>r. ensure_directory fails fs = (fs1, r))) \<and> (\<exists>e. r = Err e))
    \<or> (\<exists>n e fs0. sealed_record V key nonce pid d = Ok (n, e) \<and> ensure_directory fails fs = (fs0, Ok ())
        \<and> tidy V (fs_files fs0) \<and> occurrences is_pending (fs_files fs0) < MAX_PENDING_FILES
        \<and> all_bytes (fs_files fs0) + length e \<le> MAX_SETTINGS_DIRECTORY_BYTES
        \<and> (map_of (fs_files fs0) n = None \<longrightarrow> occurrences (Not \<circ> is_pending) (fs_files fs0) < MAX_SETTINGS_RECORDS)
        \<and> stage fails written (PENDING_PREFIX @ i) e
            \<lparr>pw_destination = n, pw_pending = PENDING_PREFIX @ i, pw_digest = va_digest V e\<rparr> fs0 = (fs1, r))"
proof (cases "sealed_record V key nonce pid d")
  case (Inl e)
  then show ?thesis using assms by (auto simp: prepare_write_def)
next
  case (Inr ne)
  obtain n e where ne: "sealed_record V key nonce pid d = Ok (n, e)" using Inr by (cases ne) auto
  obtain fs0 r0 where dir: "ensure_directory fails fs = (fs0, r0)" by fastforce
  show ?thesis
  proof (cases "\<exists>u. r0 = Ok () \<and> scan V fs0 = Ok u")
    case False
    then have "fs1 = fs0 \<and> (\<exists>e. r = Err e)"
      using assms ne dir by (auto simp: prepare_write_def split: sum.split_asm)
    then show ?thesis using dir by blast
  next
    case True
    then obtain u where u: "r0 = Ok ()" "scan V fs0 = Ok u" by blast
    note usage = scan_usage [OF u(2)]
    have count: "length (us_pending u) = occurrences is_pending (fs_files fs0)"
      using usage by (simp add: occurrences_def filter_map comp_def)
    show ?thesis
    proof (cases "\<exists>e. r = Err e \<and> fs1 = fs0")
      case False
      let ?p = "\<lparr>pw_destination = n, pw_pending = PENDING_PREFIX @ i, pw_digest = va_digest V e\<rparr>"
      have eq: "(if MAX_SETTINGS_RECORDS \<le> us_records u \<and> \<not> file_exists n fs0 then (fs0, Err ''Retained plugin settings record limit reached'')
          else if MAX_PENDING_FILES \<le> length (us_pending u) \<or> MAX_SETTINGS_DIRECTORY_BYTES < us_bytes u + length e
          then (fs0, Err ''Plugin settings storage limit reached'')
          else stage fails written (PENDING_PREFIX @ i) e ?p fs0) = (fs1, r)"
        using assms by (simp add: prepare_write_def ne dir u)
      then have "\<not> (MAX_SETTINGS_RECORDS \<le> us_records u \<and> \<not> file_exists n fs0)"
        "\<not> (MAX_PENDING_FILES \<le> length (us_pending u) \<or> MAX_SETTINGS_DIRECTORY_BYTES < us_bytes u + length e)"
        using False by (auto split: if_split_asm)
      with eq have "stage fails written (PENDING_PREFIX @ i) e ?p fs0 = (fs1, r)"
        "tidy V (fs_files fs0)" "occurrences is_pending (fs_files fs0) < MAX_PENDING_FILES"
        "all_bytes (fs_files fs0) + length e \<le> MAX_SETTINGS_DIRECTORY_BYTES"
        "map_of (fs_files fs0) n = None \<longrightarrow> occurrences (Not \<circ> is_pending) (fs_files fs0) < MAX_SETTINGS_RECORDS"
        using usage unfolding count [symmetric] by (auto simp: file_exists_def)
      then show ?thesis using ne dir [unfolded u(1)] by (intro disjI2 exI conjI) assumption+
    qed (use dir in blast)
  qed
qed


lemma sealed_opens:
  assumes "vault_ok V" "length nonce = NONCE_BYTES" "sealed_record V key nonce pid d = Ok (n, e)"
  shows "record_name V pid = Ok n \<and> length e \<le> MAX_SETTINGS_FILE_BYTES \<and> validate_store_data V d = Ok ()
    \<and> (\<exists>text. va_encode V d = Ok text \<and> rbind (checked_key key) (decrypt V pid e) = reread V text)"
  using assms decrypt_encrypt [OF assms(1,2)] by (fastforce simp: sealed_record_def rbind_Ok)

text \<open>A prepared write that is committed, while nothing else touches the directory.\<close>

lemma commit_prepared:
  assumes "vault_ok V" "readable V fs" "va_uuid V i = Some i" "map_of (fs_files fs) (PENDING_PREFIX @ i) = None"
    and "record_name V pid = Ok n" "length e \<le> MAX_SETTINGS_FILE_BYTES"
    and "occurrences is_pending (fs_files fs) < MAX_PENDING_FILES" "all_bytes (fs_files fs) + length e \<le> MAX_SETTINGS_DIRECTORY_BYTES"
    and "map_of (fs_files fs) n = None \<longrightarrow> occurrences (Not \<circ> is_pending) (fs_files fs) < MAX_SETTINGS_RECORDS"
    and "commit V fails \<lparr>pw_destination = n, pw_pending = PENDING_PREFIX @ i, pw_digest = va_digest V e\<rparr>
      (put_file (PENDING_PREFIX @ i) e fs) = (fs2, r)"
  shows "(if fails RenameFile then (\<forall>k q. read_settings V k q fs2 = read_settings V k q fs)
      else readable V fs2 \<and> (\<forall>m. \<not> is_pending m \<longrightarrow> map_of (fs_files fs2) m = (if m = n then Some (Plain e) else map_of (fs_files fs) m)))
    \<and> (r = Ok () \<longleftrightarrow> \<not> fails RenameFile \<and> \<not> fails SyncDirectory)"
proof -
  let ?pend = "PENDING_PREFIX @ i" and ?fs1 = "put_file (PENDING_PREFIX @ i) e fs"
  let ?p = "\<lparr>pw_destination = n, pw_pending = ?pend, pw_digest = va_digest V e\<rparr>"
  have one: "readable V ?fs1" "\<And>k q. read_settings V k q ?fs1 = read_settings V k q fs"
    using put_pending [OF assms(1-3,6-8)] by blast+
  have n: "\<not> is_pending n" "name_ok V n" using record_name_pending record_name_ok assms(1,5) by blast+
  have files: "map_of (fs_files ?fs1) m = (if m = ?pend then Some (Plain e) else map_of (fs_files fs) m)" for m
    by (simp add: put_file_def update_conv')
  have "\<exists>b. private_bytes nd = Ok b" if "map_of (fs_files fs) n = Some nd" for nd
    using assms(2) map_of_SomeD [OF that] by (auto simp: readable_def scans_def private_bytes_Ok elim!: node_ok.elims)
  then have check: "commit_check V ?p ?fs1 = Ok e"
    using one(1) n(1) pending_name(1) [of i] assms(6)
    by (auto simp: commit_check_def readable_def rbind_Ok read_private_file_def files file_exists_def ok_or_def)
  show ?thesis
  proof (cases "fails RenameFile")
    case True
    then show ?thesis using assms(10) check drop_prepared_reads [OF one(1) pending_name(1)] one(2) by (auto simp: commit_def)
  next
    case False
    then have fs2: "fs2 = put_file n e (drop_file ?pend ?fs1)"
      and r: "r = map_err (\<lambda>_. ''Plugin settings were saved but durability could not be confirmed'') (sync_directory fails)"
      using assms(10) check by (auto simp: commit_def)
    have gone: "fs_files (drop_file ?pend ?fs1) = fs_files fs"
      using assms(4) by (simp add: drop_file_def put_file_def delete_update_same delete_notin_dom map_of_eq_None_iff)
    have "tidy V (AList.update n (Plain e) (fs_files fs))"
      by (rule tidy_put) (use assms n in \<open>simp_all add: readable_def\<close>)
    then have "readable V fs2" using one(1) by (simp add: readable_def fs2) (simp add: put_file_def gone [unfolded put_file_def])
    moreover have "map_of (fs_files fs2) m = (if m = n then Some (Plain e) else map_of (fs_files fs) m)" for m
      unfolding fs2 by (subst put_file_def) (simp add: gone update_conv')
    moreover have "r = Ok () \<longleftrightarrow> \<not> fails SyncDirectory" by (simp add: r sync_directory_def reject_def map_err_def)
    ultimately show ?thesis using False by simp
  qed
qed


text \<open>
  C18. A write of settings is atomic, whichever of its steps fails. Preparing it changes what no reader sees. If the
  rename of the commit fails, no reader ever sees a difference; otherwise every other plugin's record reads as
  before, and the plugin's own reads as what the decoder makes of the text the valid new settings were encoded to, so as
  the new settings themselves whenever that text decodes to them. Success is reported exactly if the record is
  in place and durable.
\<close>

theorem settings_write_atomic:
  assumes "vault_ok V" "va_uuid V i = Some i" "length nonce = NONCE_BYTES"
    and "prepare_write V fails key nonce i written pid d fs = (fs1, r)"
  shows "(\<forall>k q. read_settings V k q fs1 = read_settings V k q fs)
    \<and> (\<forall>p fs2 r2. r = Ok p \<longrightarrow> commit V fails2 p fs1 = (fs2, r2) \<longrightarrow>
         (\<forall>k q. fails2 RenameFile \<or> record_name V q \<noteq> record_name V pid \<longrightarrow> read_settings V k q fs2 = read_settings V k q fs)
         \<and> (\<not> fails2 RenameFile \<longrightarrow> (\<exists>text. va_encode V d = Ok text \<and> read_settings V key pid fs2 = reread V text
              \<and> (va_decode V text = Some d \<longrightarrow> read_settings V key pid fs2 = Ok d)))
         \<and> (r2 = Ok () \<longleftrightarrow> \<not> fails2 RenameFile \<and> \<not> fails2 SyncDirectory))"
  using prepare_cases [OF assms(4)]
proof
  assume "(fs1 = fs \<or> (\<exists>r. ensure_directory fails fs = (fs1, r))) \<and> (\<exists>e. r = Err e)"
  then show ?thesis using read_ensured by fastforce
next
  let ?p = "\<lambda>n e. \<lparr>pw_destination = n, pw_pending = PENDING_PREFIX @ i, pw_digest = va_digest V e\<rparr>"
  assume "\<exists>n e fs0. sealed_record V key nonce pid d = Ok (n, e) \<and> ensure_directory fails fs = (fs0, Ok ())
        \<and> tidy V (fs_files fs0) \<and> occurrences is_pending (fs_files fs0) < MAX_PENDING_FILES
        \<and> all_bytes (fs_files fs0) + length e \<le> MAX_SETTINGS_DIRECTORY_BYTES
        \<and> (map_of (fs_files fs0) n = None \<longrightarrow> occurrences (Not \<circ> is_pending) (fs_files fs0) < MAX_SETTINGS_RECORDS)
        \<and> stage fails written (PENDING_PREFIX @ i) e (?p n e) fs0 = (fs1, r)"
  then obtain n e fs0 where sealed: "sealed_record V key nonce pid d = Ok (n, e)" and dir: "ensure_directory fails fs = (fs0, Ok ())"
    and room: "tidy V (fs_files fs0)" "occurrences is_pending (fs_files fs0) < MAX_PENDING_FILES"
      "all_bytes (fs_files fs0) + length e \<le> MAX_SETTINGS_DIRECTORY_BYTES"
      "map_of (fs_files fs0) n = None \<longrightarrow> occurrences (Not \<circ> is_pending) (fs_files fs0) < MAX_SETTINGS_RECORDS"
    and staged: "stage fails written (PENDING_PREFIX @ i) e (?p n e) fs0 = (fs1, r)"
    by (elim exE conjE, intro that) assumption+
  obtain plain where opened: "record_name V pid = Ok n" "length e \<le> MAX_SETTINGS_FILE_BYTES" "validate_store_data V d = Ok ()"
    "va_encode V d = Ok plain" "rbind (checked_key key) (decrypt V pid e) = reread V plain"
    using sealed_opens [OF assms(1,3) sealed] by blast
  have ready: "readable V fs0" using ensure_directory_cases [OF dir] room(1) by (auto simp: readable_def)
  note reads = stage_reads [OF assms(1) ready assms(2) _ room(2,3) staged]
  have same: "read_settings V k q fs0 = read_settings V k q fs" for k q by (rule read_ensured [OF dir])
  have "(\<forall>k q. fails2 RenameFile \<or> record_name V q \<noteq> record_name V pid \<longrightarrow> read_settings V k q fs2 = read_settings V k q fs)
         \<and> (\<not> fails2 RenameFile \<longrightarrow> (\<exists>text. va_encode V d = Ok text \<and> read_settings V key pid fs2 = reread V text
              \<and> (va_decode V text = Some d \<longrightarrow> read_settings V key pid fs2 = Ok d)))
         \<and> (r2 = Ok () \<longleftrightarrow> \<not> fails2 RenameFile \<and> \<not> fails2 SyncDirectory)"
    if "r = Ok p" "commit V fails2 p fs1 = (fs2, r2)" for p fs2 r2
  proof -
    have p: "p = ?p n e" "fs1 = put_file (PENDING_PREFIX @ i) e fs0" "map_of (fs_files fs0) (PENDING_PREFIX @ i) = None"
      using reads opened that(1) by blast+
    note after = commit_prepared [OF assms(1) ready assms(2) p(3) _ _ room(2,3,4) that(2) [unfolded p(1,2)]]
    show ?thesis
    proof (cases "fails2 RenameFile")
      case False
      then have fs2: "readable V fs2" "\<And>m. \<not> is_pending m \<Longrightarrow> map_of (fs_files fs2) m = (if m = n then Some (Plain e) else map_of (fs_files fs0) m)"
        using after opened by auto
      have "read_settings V k q fs2 = read_settings V k q fs" if "record_name V q \<noteq> record_name V pid" for k q
        unfolding same [symmetric] read_readable [OF fs2(1)] read_readable [OF ready]
        by (rule rbind_cong) (use that fs2(2) opened record_name_pending in auto)
      moreover have "read_settings V key pid fs2 = reread V plain"
        using read_readable [OF fs2(1)] fs2(2) opened record_name_pending by (auto simp: read_record_def)
      moreover have "va_decode V plain = Some d \<Longrightarrow> reread V plain = Ok d"
        using opened(3) by (simp add: reread_def ok_or_def)
      moreover have "r2 = Ok () \<longleftrightarrow> \<not> fails2 SyncDirectory" using after [OF opened(1,2)] False by simp
      ultimately show ?thesis using False opened(4) by simp
    qed (use after opened same in auto)
  qed
  moreover have "read_settings V k q fs1 = read_settings V k q fs" for k q using reads [OF opened(2)] same by simp
  ultimately show ?thesis by blast
qed


definition sealed_vault :: vault where
  "sealed_vault = sample_vault\<lparr>va_encode := (\<lambda>d. if d = sample_data then Ok ''0'' else Err ''refused'')\<rparr>"

definition empty_store :: store_fs where
  "empty_store = \<lparr>fs_location_ok = True, fs_root = Ok True, fs_directory = Ok False, fs_files = []\<rparr>"

lemma sealed_vault_ok: "vault_ok sealed_vault"
  by (auto simp: vault_ok_def sealed_vault_def sample_vault_def TAG_BYTES_def split: if_split_asm)

lemma sealed_decodes: "va_encode sealed_vault sample_data = Ok text \<Longrightarrow> va_decode sealed_vault text = Some sample_data"
proof -
  have "sample_data\<lparr>sd_revision := ''0''\<rparr> = sample_data" by (simp add: sample_data_def)
  then show "va_encode sealed_vault sample_data = Ok text \<Longrightarrow> ?thesis" by (auto simp: sealed_vault_def sample_vault_def)
qed

lemma sample_prepared:
  "\<exists>fs1 p. prepare_write sealed_vault (\<lambda>_. False) (Ok (replicate 32 CHR ''k'')) (replicate NONCE_BYTES CHR ''n'') ''1'' 0 ''a.b''
     sample_data empty_store = (fs1, Ok p)"
proof -
  have "validate_plugin_id ''a.b'' = Ok ()" by code_simp
  then obtain n where "record_name sealed_vault ''a.b'' = Ok n" by (simp add: record_name_def record_id_def)
  moreover have "validate_store_data sealed_vault sample_data = Ok ()" by code_simp
  ultimately obtain e where sealed: "sealed_record sealed_vault (Ok (replicate 32 CHR ''k'')) (replicate NONCE_BYTES CHR ''n'') ''a.b'' sample_data = Ok (n, e)"
      "length e = length MAGIC + 29"
    by (simp add: sealed_record_def encode_data_def checked_key_def encrypt_def sealed_vault_def sample_vault_def ok_or_def Let_def
        MAX_SETTINGS_PLAINTEXT_BYTES_def MAX_SETTINGS_FILE_BYTES_def NONCE_BYTES_def MAGIC_def)
  then show ?thesis
    by (simp add: prepare_write_def ensure_directory_def directory_exists_def empty_store_def sync_directory_def reject_def scan_def
        no_usage_def MAX_SETTINGS_RECORDS_def MAX_PENDING_FILES_def MAX_SETTINGS_DIRECTORY_BYTES_def MAGIC_def stage_def file_exists_def)
qed

theorem settings_write_atomic_witness:
  "\<exists>fs1 p fs2. prepare_write sealed_vault (\<lambda>_. False) (Ok (replicate 32 CHR ''k'')) (replicate NONCE_BYTES CHR ''n'') ''1'' 0 ''a.b''
       sample_data empty_store = (fs1, Ok p)
     \<and> commit sealed_vault (\<lambda>_. False) p fs1 = (fs2, Ok ())
     \<and> read_settings sealed_vault (Ok (replicate 32 CHR ''k'')) ''a.b'' fs2 = Ok sample_data"
proof -
  obtain fs1 p where p: "prepare_write sealed_vault (\<lambda>_. False) (Ok (replicate 32 CHR ''k'')) (replicate NONCE_BYTES CHR ''n'') ''1'' 0 ''a.b''
     sample_data empty_store = (fs1, Ok p)" using sample_prepared by blast
  obtain fs2 r2 where c: "commit sealed_vault (\<lambda>_. False) p fs1 = (fs2, r2)" by fastforce
  have "va_uuid sealed_vault ''1'' = Some ''1''" by (simp add: sealed_vault_def sample_vault_def)
  note all = settings_write_atomic [OF sealed_vault_ok this _ p, of "\<lambda>_. False"]
  have decodes: "va_encode sealed_vault sample_data = Ok plain \<Longrightarrow> va_decode sealed_vault plain = Some sample_data" for plain
    using sealed_decodes by blast
  have "r2 = Ok () \<and> read_settings sealed_vault (Ok (replicate 32 CHR ''k'')) ''a.b'' fs2 = Ok sample_data"
    using all c decodes by (auto simp: NONCE_BYTES_def)
  then show ?thesis using p c by blast
qed

end
