(* ===== verification/HaJson.thy ===== *)
theory HaJson
  imports Checks Floats
begin

text \<open>
  JSON values of the Home Assistant plugin, \<^verbatim>\<open>desktop-plugins/home-assistant\<close>. The plugin builds \<^verbatim>\<open>serde_json\<close> with
  \<^verbatim>\<open>arbitrary_precision\<close>: a number is the literal it was written as, and is read by parsing that literal. The
  members of an object are in the order the code writes them; they are read by key.
\<close>

datatype hjson =
    HNull
  | HBool bool
  | HNumber string
  | HString string
  | HArray "hjson list"
  | HObject "(string \<times> hjson) list"

fun h_object :: "hjson \<Rightarrow> (string \<times> hjson) list option" where
  "h_object (HObject fs) = Some fs" | "h_object _ = None"

fun h_str :: "hjson \<Rightarrow> string option" where
  "h_str (HString s) = Some s" | "h_str _ = None"

fun h_number :: "hjson \<Rightarrow> string option" where
  "h_number (HNumber s) = Some s" | "h_number _ = None"

definition h_u64 :: "hjson \<Rightarrow> nat option" where "h_u64 v = Option.bind (h_number v) (parse_unsigned u64_max)"

definition h_i64 :: "hjson \<Rightarrow> int option" where "h_i64 v = Option.bind (h_number v) parse_i64"

definition hget :: "string \<Rightarrow> hjson \<Rightarrow> hjson option" where
  "hget k v = Option.bind (h_object v) (\<lambda>fs. map_of fs k)"

text \<open>\<^verbatim>\<open>v[k]\<close>, null where there is no such member.\<close>

definition hindex :: "string \<Rightarrow> hjson \<Rightarrow> hjson" where "hindex k v = unwrap_or HNull (hget k v)"

text \<open>What \<^verbatim>\<open>state[key]\<close> says as text.\<close>

abbreviation text_at :: "string \<Rightarrow> hjson \<Rightarrow> string option" where "text_at k v \<equiv> h_str (hindex k v)"

end
