(* ===== verification/HaNumeric.thy ===== *)
theory HaNumeric
  imports HaJson
begin

text \<open>
  \<^verbatim>\<open>desktop-plugins/home-assistant/src/numeric.rs\<close>: exact decimal observations and the arguments of numeric services.
\<close>

definition MAX_SCALED :: int where "MAX_SCALED = 1000000000000000"
definition MAX_LITERAL_BYTES :: nat where "MAX_LITERAL_BYTES = 128"

record constraints =
  co_min :: int
  co_max :: int
  co_step :: int
  co_decimal_places :: nat
  co_unit :: "string option"

record numeric_observation =
  no_constraints :: constraints
  no_value :: int

record scaled_decimal =
  de_coefficient :: int
  de_places :: nat

definition accepts_scaled :: "constraints \<Rightarrow> int \<Rightarrow> bool" where
  "accepts_scaled c v \<longleftrightarrow> - MAX_SCALED \<le> v \<and> v \<le> MAX_SCALED \<and> co_min c \<le> v \<and> v \<le> co_max c
     \<and> rust_rem (v - co_min c) (co_step c) = 0"

definition checked :: "int \<Rightarrow> int \<Rightarrow> int \<Rightarrow> int option" where
  "checked lo hi x = (if lo \<le> x \<and> x \<le> hi then Some x else None)"

abbreviation checked_i32 :: "int \<Rightarrow> int option" where "checked_i32 \<equiv> checked (- (2 ^ 31)) (2 ^ 31 - 1)"
abbreviation checked_i64 :: "int \<Rightarrow> int option" where "checked_i64 \<equiv> checked i64_min i64_max"

text \<open>\<^verbatim>\<open>Decimal::at\<close>\<close>

definition at_places :: "scaled_decimal \<Rightarrow> nat \<Rightarrow> int option" where
  "at_places d p = (if p < de_places d then None
     else Option.bind (checked_i64 (de_coefficient d * 10 ^ (p - de_places d))) (checked (- MAX_SCALED) MAX_SCALED))"

section \<open>Literals\<close>

definition split_at_if :: "(char \<Rightarrow> bool) \<Rightarrow> string \<Rightarrow> (string \<times> string) option" where
  "split_at_if p s = (case dropWhile (Not \<circ> p) s of [] \<Rightarrow> None | _ # rest \<Rightarrow> Some (takeWhile (Not \<circ> p) s, rest))"

definition parse_i32 :: "string \<Rightarrow> int option" where
  "parse_i32 s = (case split_sign s of (negative, ds) \<Rightarrow>
     if all_digits ds then checked_i32 (if negative then - int (digits_value ds) else int (digits_value ds)) else None)"

definition split_exponent :: "string \<Rightarrow> (string \<times> int) option" where
  "split_exponent s = (case split_at_if (\<lambda>c. c = CHR ''e'' \<or> c = CHR ''E'') s of
       Some (mantissa, e) \<Rightarrow>
         (if \<not> all_digits (snd (split_sign e)) then None else map_option (\<lambda>k. (mantissa, k)) (parse_i32 e))
     | None \<Rightarrow> Some (s, 0))"

definition split_fraction :: "string \<Rightarrow> (string \<times> string) option" where
  "split_fraction s = (case split_at_if (\<lambda>c. c = CHR ''.'') s of
       Some (whole, fraction) \<Rightarrow> (if fraction = [] then None else Some (whole, fraction))
     | None \<Rightarrow> Some (s, []))"

definition plain_whole :: "string \<Rightarrow> string \<Rightarrow> bool" where
  "plain_whole whole fraction \<longleftrightarrow> whole \<noteq> [] \<and> \<not> (1 < length whole \<and> hd whole = CHR ''0'')
     \<and> list_all is_ascii_digit (whole @ fraction)"

definition normalized_decimal :: "bool \<Rightarrow> string \<Rightarrow> string \<Rightarrow> int \<Rightarrow> scaled_decimal option" where
  "normalized_decimal negative whole fraction e =
     (let significant = dropWhile (\<lambda>c. c = CHR ''0'') (whole @ fraction)
      in if significant = [] then Some \<lparr>de_coefficient = 0, de_places = 0\<rparr>
         else
           let normalized = trim_end_matches (CHR ''0'') significant;
               trailing = length significant - length normalized
           in Option.bind (checked_i32 (int (length fraction) - e)) (\<lambda>p.
              Option.bind (checked_i32 (p - int trailing)) (\<lambda>places.
              if 6 < places \<or> 16 < length normalized \<or> places < - 15 then None
              else Option.bind (checked_i64 (int (digits_value normalized) * 10 ^ nat (- places))) (\<lambda>c.
                if MAX_SCALED < c then None
                else Some \<lparr>de_coefficient = (if negative then - c else c), de_places = nat places\<rparr>))))"

definition decimal_of :: "string \<Rightarrow> scaled_decimal option" where
  "decimal_of literal =
     (if literal = [] \<or> MAX_LITERAL_BYTES < length literal then None
      else
        let (negative, unsigned) = (case strip_prefix ''-'' literal of Some v \<Rightarrow> (True, v) | None \<Rightarrow> (False, literal))
        in case split_exponent unsigned of
             None \<Rightarrow> None
           | Some (mantissa, e) \<Rightarrow> (case split_fraction mantissa of
                 None \<Rightarrow> None
               | Some (whole, fraction) \<Rightarrow>
                   if plain_whole whole fraction then normalized_decimal negative whole fraction e else None))"

definition attribute :: "hjson \<Rightarrow> scaled_decimal option" where "attribute v = Option.bind (h_number v) decimal_of"

section \<open>Observations\<close>

text \<open>\<^verbatim>\<open>state::bounded\<close>: leading characters that are no control characters, as many as fit, trimmed.\<close>

fun take_bounded :: "nat \<Rightarrow> nat list \<Rightarrow> string" where
  "take_bounded limit [] = []"
| "take_bounded limit (c # cs) = (if limit < length (utf8_char c) then []
     else utf8_char c @ take_bounded (limit - length (utf8_char c)) cs)"

definition ha_bounded :: "string \<Rightarrow> nat \<Rightarrow> string" where
  "ha_bounded s limit = trim (take_bounded limit (filter (Not \<circ> is_control) (chars s)))"

definition unit_of :: "hjson \<Rightarrow> string option option" where
  "unit_of attrs = (case hget ''unit_of_measurement'' attrs of
       None \<Rightarrow> Some None
     | Some HNull \<Rightarrow> Some None
     | Some (HString u) \<Rightarrow> (let u = ha_bounded u 32 in Some (if u = [] then None else Some u))
     | Some _ \<Rightarrow> None)"

definition observe_number :: "hjson \<Rightarrow> numeric_observation option" where
  "observe_number state = Option.bind (Option.bind (text_at ''state'' state) decimal_of) (\<lambda>v.
     let attrs = hindex ''attributes'' state
     in Option.bind (attribute (hindex ''min'' attrs)) (\<lambda>lo. Option.bind (attribute (hindex ''max'' attrs)) (\<lambda>hi.
        Option.bind (attribute (hindex ''step'' attrs)) (\<lambda>step.
          let places = max (max (de_places lo) (de_places hi)) (de_places step)
          in Option.bind (unit_of attrs) (\<lambda>u. Option.bind (at_places lo places) (\<lambda>lo. Option.bind (at_places hi places) (\<lambda>hi.
             Option.bind (at_places step places) (\<lambda>step.
               let c = \<lparr>co_min = lo, co_max = hi, co_step = step, co_decimal_places = places, co_unit = u\<rparr>
               in if hi < lo \<or> step \<le> 0 then None
                  else Option.bind (at_places v places) (\<lambda>x.
                    if accepts_scaled c x then Some \<lparr>no_constraints = c, no_value = x\<rparr> else None)))))))))"

definition position_constraints :: constraints where
  "position_constraints = \<lparr>co_min = 0, co_max = 100, co_step = 1, co_decimal_places = 0, co_unit = Some ''%''\<rparr>"

definition has_feature :: "nat \<Rightarrow> nat \<Rightarrow> bool" where "has_feature features wanted \<longleftrightarrow> and features wanted \<noteq> 0"

definition cover_position :: "hjson \<Rightarrow> numeric_observation option" where
  "cover_position state =
     (if text_at ''state'' state \<notin> Some ` {''open'', ''closed'', ''opening'', ''closing''} then None
      else Option.bind (h_u64 (hindex ''supported_features'' (hindex ''attributes'' state))) (\<lambda>features.
        if \<not> has_feature features 4 then None
        else Option.bind (h_i64 (hindex ''current_position'' (hindex ''attributes'' state))) (\<lambda>x.
          if accepts_scaled position_constraints x
          then Some \<lparr>no_constraints = position_constraints, no_value = x\<rparr> else None)))"

section \<open>Arguments\<close>

definition numeric_params :: "hjson \<Rightarrow> (string \<times> int) option" where
  "numeric_params v = Option.bind (h_object v) (\<lambda>fs.
     if length fs \<noteq> 2 then None
     else Option.bind (Option.bind (map_of fs ''input_revision'') h_str) (\<lambda>revision.
       Option.bind (Option.bind (map_of fs ''value_scaled'') h_i64) (\<lambda>x.
         if revision = [] \<or> 128 < length revision \<or> checked (- MAX_SCALED) MAX_SCALED x = None then None
         else Some (revision, x))))"

definition service_literal :: "int \<Rightarrow> nat \<Rightarrow> string" where
  "service_literal v p = (if p = 0 then show_int v
     else
       let a = nat \<bar>v\<bar>; fraction = decimal (a mod 10 ^ p)
       in (if v < 0 then ''-'' else []) @ decimal (a div 10 ^ p) @ ''.'' @ replicate (p - length fraction) CHR ''0'' @ fraction)"

definition service_value :: "int \<Rightarrow> nat \<Rightarrow> hjson" where "service_value v p = HNumber (service_literal v p)"

end
