(* ===== verification/HaNumericExact.thy ===== *)
theory HaNumericExact
  imports HaNumeric
begin

text \<open>
  Exactness of the decimals in \<open>HaNumeric\<close>: an accepted literal is the rational number it denotes, and the value
  sent to a service is exactly the one that was authorised.
\<close>

section \<open>Digits\<close>

lemma digits_value_append: "digits_value (a @ b) = digits_value a * 10 ^ length b + digits_value b"
proof (induction b rule: rev_induct)
  case (snoc c b)
  then show ?case by (simp add: digits_value_def algebra_simps flip: append_assoc)
qed (simp add: digits_value_def)

lemma digits_value_zeros: "digits_value (replicate n CHR ''0'') = 0"
proof (induction n)
  case (Suc n)
  then show ?case using digits_value_append [of "''0''" "replicate n CHR ''0''"] by (simp add: digits_value_def)
qed (simp add: digits_value_def)

lemma digits_value_decimal: "digits_value (decimal n) = n"
proof (induction n rule: decimal.induct)
  case (1 n)
  show ?case
  proof (cases "n < 10")
    case True
    then have "of_char (char_of (48 + n) :: char) = 48 + n" by simp
    then show ?thesis using True by (simp add: decimal.simps [of n] digits_value_def)
  next
    case False
    have "of_char (char_of (48 + n mod 10) :: char) = 48 + n mod 10" by simp
    then show ?thesis using False 1 by (simp add: decimal.simps [of n] digits_value_append) (simp add: digits_value_def)
  qed
qed

lemma all_digits_decimal: "all_digits (decimal n)"
proof (induction n rule: decimal.induct)
  case (1 n)
  have "is_ascii_digit (char_of (48 + k))" if "k < 10" for k :: nat using that by (simp add: is_ascii_digit_def)
  then show ?case using 1 by (cases "n < 10") (simp_all add: decimal.simps [of n] all_digits_def)
qed

lemma digits_value_drop_zeros: "digits_value (dropWhile (\<lambda>c. c = CHR ''0'') s) = digits_value s"
proof (induction s)
  case (Cons c s)
  have "digits_value (c # s) = digits_value s" if "c = CHR ''0''"
    using that digits_value_append [of "[c]" s] by (simp add: digits_value_def)
  then show ?case using Cons by simp
qed simp

lemma replicated_tail: "s = a @ b \<Longrightarrow> b = replicate (length b) z \<Longrightarrow> s = a @ replicate (length s - length a) z"
  by simp

lemma trim_zeros: "s = trim_end_matches (CHR ''0'') s @ replicate (length s - length (trim_end_matches (CHR ''0'') s)) CHR ''0''"
proof (rule replicated_tail)
  let ?t = "takeWhile (\<lambda>d. d = CHR ''0'') (rev s)" and ?u = "dropWhile (\<lambda>d. d = CHR ''0'') (rev s)"
  have "s = rev (?t @ ?u)" by (simp only: takeWhile_dropWhile_id rev_rev_ident)
  then show "s = trim_end_matches (CHR ''0'') s @ rev ?t" by (simp only: rev_append trim_end_matches_def)
  have "?t = replicate (length ?t) CHR ''0''" by (rule replicate_eqI) (auto dest: set_takeWhileD)
  from arg_cong [OF this, of rev] show "rev ?t = replicate (length (rev ?t)) CHR ''0''" by (simp only: rev_replicate length_rev length_replicate)
qed

lemma power10_add: "power10 (i + j) = power10 i * power10 j"
proof -
  have "power10 k = 10 powi k" for k by (simp add: power10_def power_int_def inverse_eq_divide power_one_over)
  then show ?thesis by (simp add: power_int_add)
qed

lemma power10_nat: "power10 (int n) = 10 ^ n" "power10 (- int n) = 1 / 10 ^ n"
  by (simp_all add: power10_def)

section \<open>What a literal denotes\<close>

lemma checked_bind: "Option.bind (checked lo hi x) f = Some d \<Longrightarrow> f x = Some d"
  by (auto simp: checked_def split: if_split_asm)

lemma normalized_exact:
  assumes "normalized_decimal negative whole fraction e = Some d"
  shows "of_int (de_coefficient d) / 10 ^ de_places d
      = (if negative then - 1 else 1) * (of_nat (digits_value (whole @ fraction)) * power10 (e - int (length fraction)))
    \<and> \<bar>de_coefficient d\<bar> \<le> MAX_SCALED \<and> de_places d \<le> 6"
proof -
  define sig where "sig = dropWhile (\<lambda>c. c = CHR ''0'') (whole @ fraction)"
  define norm where "norm = trim_end_matches (CHR ''0'') sig"
  have digits: "digits_value sig = digits_value (whole @ fraction)" unfolding sig_def by (rule digits_value_drop_zeros)
  show ?thesis
  proof (cases "sig = []")
    case True
    then have "digits_value (whole @ fraction) = 0" using digits by (simp add: digits_value_def)
    moreover have "d = \<lparr>de_coefficient = 0, de_places = 0\<rparr>"
      using True assms unfolding sig_def normalized_decimal_def Let_def by (simp only: simp_thms if_True option.inject)
    ultimately show ?thesis by (simp add: MAX_SCALED_def)
  next
    case False
    define trailing where "trailing = length sig - length norm"
    define places where "places = int (length fraction) - e - int trailing"
    define c where "c = int (digits_value norm) * 10 ^ nat (- places)"
    have "Option.bind (checked_i32 (int (length fraction) - e)) (\<lambda>p. Option.bind (checked_i32 (p - int trailing)) (\<lambda>places.
        if 6 < places \<or> 16 < length norm \<or> places < - 15 then None
        else Option.bind (checked_i64 (int (digits_value norm) * 10 ^ nat (- places))) (\<lambda>c.
          if MAX_SCALED < c then None
          else Some \<lparr>de_coefficient = (if negative then - c else c), de_places = nat places\<rparr>))) = Some d"
      using assms False unfolding normalized_decimal_def Let_def sig_def norm_def trailing_def by (simp only: if_False)
    then have d: "d = \<lparr>de_coefficient = (if negative then - c else c), de_places = nat places\<rparr>" "places \<le> 6" "c \<le> MAX_SCALED"
      by (auto dest!: checked_bind simp flip: places_def c_def split: if_split_asm)
    have "0 \<le> c" by (simp add: c_def)
    have "digits_value sig = digits_value norm * 10 ^ trailing"
      using arg_cong [OF trim_zeros [of sig], of digits_value] unfolding norm_def trailing_def
      by (simp only: digits_value_append digits_value_zeros length_replicate add_0_right)
    then have "of_nat (digits_value (whole @ fraction)) * power10 (e - int (length fraction))
        = of_nat (digits_value norm) * (power10 (int trailing) * power10 (e - int (length fraction)))"
      using digits by (simp add: power10_nat)
    also have "\<dots> = of_nat (digits_value norm) * power10 (- places)"
      by (simp add: places_def algebra_simps flip: power10_add)
    also have "\<dots> = of_int c / 10 ^ nat places"
      by (cases "0 \<le> places") (auto simp: c_def power10_def)
    finally show ?thesis using d \<open>0 \<le> c\<close> by simp
  qed
qed

lemma digits_then:
  assumes "list_all is_ascii_digit w" "rest = [] \<or> \<not> is_ascii_digit (hd rest)"
  shows "takeWhile is_ascii_digit (w @ rest) = w" "dropWhile is_ascii_digit (w @ rest) = rest"
  using assms by (induction w) (cases rest, auto)+

lemma split_at_if_Some: "split_at_if p s = Some (a, b) \<Longrightarrow> \<exists>c. s = a @ c # b \<and> p c \<and> list_all (Not \<circ> p) a"
proof -
  assume h: "split_at_if p s = Some (a, b)"
  then obtain c where c: "dropWhile (Not \<circ> p) s = c # b" "a = takeWhile (Not \<circ> p) s"
    by (auto simp: split_at_if_def split: list.split_asm)
  then have "p c" using hd_dropWhile [of "Not \<circ> p" s] by simp
  moreover have "s = a @ c # b" using c takeWhile_dropWhile_id [of "Not \<circ> p" s] by simp
  moreover have "list_all (Not \<circ> p) a" using c by (auto simp: list_all_iff dest: set_takeWhileD)
  ultimately show ?thesis by blast
qed

lemma parse_i32_exponent:
  "parse_i32 e = Some k \<Longrightarrow> c = CHR ''e'' \<or> c = CHR ''E'' \<Longrightarrow> parse_exponent (c # e) = Some k"
  by (auto simp: parse_i32_def parse_exponent_def checked_def split: if_split_asm prod.split_asm)

lemma split_denotes:
  assumes "split_exponent s = Some (m, e)" "split_fraction m = Some (w, f)" "plain_whole w f"
  shows "parse_decimal s = Some (of_nat (digits_value (w @ f)) * power10 (e - int (length f)))"
proof -
  obtain ex where s: "s = m @ ex" "parse_exponent ex = Some e" "ex = [] \<or> \<not> is_ascii_digit (hd ex) \<and> hd ex \<noteq> CHR ''.''"
  proof (cases "split_at_if (\<lambda>c. c = CHR ''e'' \<or> c = CHR ''E'') s")
    case None
    then show ?thesis using assms(1) that [of "[]"] by (auto simp: split_exponent_def parse_exponent_def)
  next
    case (Some ab)
    obtain a b where ab: "ab = (a, b)" by fastforce
    then obtain c where c: "s = a @ c # b" "c = CHR ''e'' \<or> c = CHR ''E''" using split_at_if_Some Some by blast
    then have "a = m" "parse_exponent (c # b) = Some e"
      using assms(1) Some ab parse_i32_exponent by (auto simp: split_exponent_def split: if_split_asm)
    then show ?thesis using c by (intro that [of "c # b"]) (auto simp: is_ascii_digit_def)
  qed
  have digits: "list_all is_ascii_digit w" "list_all is_ascii_digit f" "w \<noteq> []" using assms(3) by (auto simp: plain_whole_def)
  show ?thesis
  proof (cases "split_at_if (\<lambda>c. c = CHR ''.'') m")
    case None
    then have "m = w" "f = []" using assms(2) by (auto simp: split_fraction_def)
    moreover have "takeWhile is_ascii_digit s = w" "dropWhile is_ascii_digit s = ex"
      using digits_then [OF digits(1), of ex] s(1,3) \<open>m = w\<close> by auto
    moreover have "\<not> (ex \<noteq> [] \<and> hd ex = CHR ''.'')" using s(3) by auto
    ultimately show ?thesis using s(2) digits(3) \<open>f = []\<close> by (auto simp: parse_decimal_def Let_def)
  next
    case (Some ab)
    obtain a b where ab: "ab = (a, b)" by fastforce
    then have m: "m = w @ CHR ''.'' # f" using split_at_if_Some [of _ m a b] Some assms(2) by (auto simp: split_fraction_def split: if_split_asm)
    have "takeWhile is_ascii_digit s = w" "dropWhile is_ascii_digit s = CHR ''.'' # f @ ex"
      using digits_then [OF digits(1), of "CHR ''.'' # f @ ex"] by (simp_all add: s(1) m is_ascii_digit_def)
    moreover have "takeWhile is_ascii_digit (f @ ex) = f" "dropWhile is_ascii_digit (f @ ex) = ex"
      using digits_then [OF digits(2), of ex] s(3) by auto
    ultimately show ?thesis using digits(3) s(2) by (simp add: parse_decimal_def Let_def)
  qed
qed


text \<open>
  C29. Observed numbers are exact: a literal the plugin accepts, of a state or of its limits, denotes the very
  rational number that is kept, whatever its exponent or trailing zeros; it has at most six decimal places and is
  bounded by the largest scaled value.
\<close>

theorem decimal_exact:
  assumes "decimal_of literal = Some d"
  shows "(case split_sign literal of (negative, body) \<Rightarrow> map_option (\<lambda>x. if negative then - x else x) (parse_decimal body))
      = Some (of_int (de_coefficient d) / 10 ^ de_places d)
    \<and> \<bar>de_coefficient d\<bar> \<le> MAX_SCALED \<and> de_places d \<le> 6"
proof -
  obtain negative unsigned where u: "(case strip_prefix ''-'' literal of Some v \<Rightarrow> (True, v) | None \<Rightarrow> (False, literal)) = (negative, unsigned)"
    by fastforce
  obtain m e w f where parts: "split_exponent unsigned = Some (m, e)" "split_fraction m = Some (w, f)" "plain_whole w f"
    and d: "normalized_decimal negative w f e = Some d" and "literal \<noteq> []"
    using assms by (auto simp: decimal_of_def u split: if_split_asm option.split_asm)
  note read = split_denotes [OF parts]
  have "split_sign literal = (negative, unsigned)"
  proof (cases negative)
    case True
    then show ?thesis using u by (auto simp: strip_prefix_def split_sign_def prefix_def split: if_split_asm)
  next
    case False
    then have l: "unsigned = literal" "hd literal \<noteq> CHR ''-''"
      using u \<open>literal \<noteq> []\<close> by (auto simp: strip_prefix_def prefix_def neq_Nil_conv split: if_split_asm)
    have "hd literal \<noteq> CHR ''+''"
    proof
      assume "hd literal = CHR ''+''"
      then have "takeWhile is_ascii_digit literal = []" "literal \<noteq> []" using \<open>literal \<noteq> []\<close> by (auto simp: neq_Nil_conv is_ascii_digit_def)
      then have "parse_decimal literal = None" using \<open>hd literal = CHR ''+''\<close> by (auto simp: parse_decimal_def Let_def neq_Nil_conv is_ascii_digit_def)
      then show False using read l(1) by simp
    qed
    then show ?thesis using l False \<open>literal \<noteq> []\<close> by (auto simp: split_sign_def neq_Nil_conv)
  qed
  then show ?thesis using read normalized_exact [OF d] by simp
qed

lemma sample_decimals: "decimal_of ''-1.250e1'' = Some \<lparr>de_coefficient = - 125, de_places = 1\<rparr>" "decimal_of ''2e3'' = Some \<lparr>de_coefficient = 2000, de_places = 0\<rparr>"
  by code_simp+

theorem decimal_exact_witness:
  "decimal_of ''-1.250e1'' = Some \<lparr>de_coefficient = - 125, de_places = 1\<rparr>
    \<and> (case split_sign ''-1.250e1'' of (negative, body) \<Rightarrow> map_option (\<lambda>x. if negative then - x else x) (parse_decimal body)) = Some (- 125 / 10)"
  using decimal_exact [OF sample_decimals(1)] sample_decimals(1) by simp

section \<open>What a service is sent\<close>

lemma digits_bound: "digits_value s < 10 ^ length s" if "list_all is_ascii_digit s"
  using that
proof (induction s rule: rev_induct)
  case (snoc c s)
  have "digits_value [c] \<le> 9" using snoc.prems by (auto simp: digits_value_def is_ascii_digit_def)
  moreover have "digits_value s < 10 ^ length s" using snoc by simp
  moreover have "digits_value (s @ [c]) = digits_value s * 10 + digits_value [c]" by (simp add: digits_value_append)
  ultimately show ?case by simp
qed (simp add: digits_value_def)

lemma leading_digit:
  assumes "s \<noteq> []" "hd s \<noteq> CHR ''0''" "list_all is_ascii_digit s"
  shows "10 ^ (length s - 1) \<le> digits_value s"
proof -
  obtain c t where s: "s = c # t" using assms(1) by (cases s) auto
  have "of_char c \<noteq> (48 :: nat)"
  proof
    assume "of_char c = (48 :: nat)"
    then have "char_of (48 :: nat) = c" by (metis char_of_char)
    moreover have "char_of (48 :: nat) = CHR ''0''" by code_simp
    ultimately show False using assms(2) s by simp
  qed
  then have "1 \<le> digits_value [c]" using assms(3) s by (auto simp: digits_value_def is_ascii_digit_def)
  then show ?thesis using digits_value_append [of "[c]" t] s by (simp add: trans_le_add1)
qed

lemma normalized_short:
  assumes "list_all is_ascii_digit (w @ f)" "digits_value (w @ f) \<le> 1000000000000000" "length f \<le> 6"
  shows "\<exists>d. normalized_decimal negative w f 0 = Some d \<and> de_places d \<le> length f"
proof -
  define sig where "sig = dropWhile (\<lambda>c. c = CHR ''0'') (w @ f)"
  define norm where "norm = trim_end_matches (CHR ''0'') sig"
  define trailing where "trailing = length sig - length norm"
  have sig: "digits_value sig = digits_value (w @ f)" unfolding sig_def by (rule digits_value_drop_zeros)
  show ?thesis
  proof (cases "sig = []")
    case True
    then show ?thesis unfolding normalized_decimal_def Let_def sig_def [symmetric] by simp
  next
    case False
    have "list_all is_ascii_digit sig" using assms(1) unfolding sig_def list_all_iff by (meson set_dropWhileD)
    moreover have "hd sig \<noteq> CHR ''0''" using False hd_dropWhile [of "\<lambda>c. c = CHR ''0''" "w @ f"] unfolding sig_def by blast
    ultimately have "10 ^ (length sig - 1) \<le> digits_value sig" using False leading_digit by blast
    then have "(10::nat) ^ (length sig - 1) \<le> 10 ^ 15" using assms(2) sig by simp
    then have len: "length sig \<le> 16" by (subst (asm) power_increasing_iff) simp_all
    have split: "digits_value sig = digits_value norm * 10 ^ trailing"
      using arg_cong [OF trim_zeros [of sig], of digits_value] unfolding norm_def trailing_def
      by (simp only: digits_value_append digits_value_zeros length_replicate add_0_right)
    have "norm \<noteq> []"
    proof
      assume "norm = []"
      then have "digits_value sig = 0" using split by (simp add: digits_value_def)
      then show False using \<open>10 ^ (length sig - 1) \<le> digits_value sig\<close> by simp
    qed
    moreover have "length norm \<le> length sig"
      unfolding norm_def trim_end_matches_def by (metis length_dropWhile_le length_rev)
    ultimately have short: "trailing \<le> 15" "length norm \<le> 16"
      using len unfolding trailing_def by (cases norm; simp)+
    define c where "c = digits_value norm * 10 ^ (trailing - length f)"
    have "c \<le> digits_value norm * 10 ^ trailing" unfolding c_def by (simp add: power_increasing)
    then have c: "c \<le> 1000000000000000" using split sig assms(2) by simp
    have "nat (- (int (length f) - 0 - int trailing)) = trailing - length f" by simp
    then have coef: "int (digits_value norm) * 10 ^ nat (- (int (length f) - 0 - int trailing)) = int c" by (simp add: c_def)
    have "normalized_decimal negative w f 0 = Option.bind (checked_i32 (int (length f) - 0)) (\<lambda>p. Option.bind (checked_i32 (p - int trailing)) (\<lambda>places.
        if 6 < places \<or> 16 < length norm \<or> places < - 15 then None
        else Option.bind (checked_i64 (int (digits_value norm) * 10 ^ nat (- places))) (\<lambda>c.
          if MAX_SCALED < c then None
          else Some \<lparr>de_coefficient = (if negative then - c else c), de_places = nat places\<rparr>)))"
      using False unfolding normalized_decimal_def Let_def sig_def [symmetric] norm_def [symmetric] trailing_def [symmetric] by (simp only: if_False)
    moreover have "checked_i32 (int (length f) - 0) = Some (int (length f) - 0)" using assms(3) by (simp add: checked_def)
    moreover have "checked_i32 (int (length f) - 0 - int trailing) = Some (int (length f) - 0 - int trailing)"
      using assms(3) short by (simp add: checked_def)
    moreover have "checked_i64 (int c) = Some (int c)" using c by (simp add: checked_def i64_min_def i64_max_def)
    moreover have "\<not> (6 < int (length f) - 0 - int trailing \<or> 16 < length norm \<or> int (length f) - 0 - int trailing < - 15)"
      using assms(3) short by simp
    moreover have "\<not> MAX_SCALED < int c" using c by (simp add: MAX_SCALED_def)
    ultimately have "normalized_decimal negative w f 0 = Some \<lparr>de_coefficient = (if negative then - int c else int c),
        de_places = nat (int (length f) - 0 - int trailing)\<rparr>"
      by (simp only: coef bind.bind_lunit if_False)
    then show ?thesis by simp
  qed
qed


lemma decimal_leading: "1 < length (decimal n) \<Longrightarrow> hd (decimal n) \<noteq> CHR ''0''"
proof (induction n rule: decimal.induct)
  case (1 n)
  show ?case
  proof (cases "n < 10")
    case False
    have ne: "decimal (n div 10) \<noteq> []" using all_digits_decimal by (auto simp: all_digits_def)
    show ?thesis
    proof (cases "1 < length (decimal (n div 10))")
      case True
      then show ?thesis using False 1 ne by (simp add: decimal.simps [of n])
    next
      case short: False
      then have "n div 10 < 10" using ne decimal.simps [of "n div 10"] decimal.simps [of "n div 10 div 10"] all_digits_decimal [of "n div 10 div 10"]
        by (auto simp: all_digits_def split: if_split_asm)
      then have "decimal n = char_of (48 + n div 10) # [char_of (48 + n mod 10)]"
        using False decimal.simps [of n] decimal.simps [of "n div 10"] by simp
      moreover have "char_of (48 + n div 10) \<noteq> CHR ''0''"
      proof
        assume "char_of (48 + n div 10) = CHR ''0''"
        then have "of_char (char_of (48 + n div 10) :: char) = (48 :: nat)" by simp
        then show False using \<open>n div 10 < 10\<close> False by simp
      qed
      ultimately show ?thesis by simp
    qed
  qed (use 1 in \<open>simp add: decimal.simps [of n]\<close>)
qed

lemma length_decimal: "n < 10 ^ k \<Longrightarrow> 0 < k \<Longrightarrow> length (decimal n) \<le> k"
proof (induction n arbitrary: k rule: decimal.induct)
  case (1 n)
  show ?case
  proof (cases "n < 10")
    case False
    then obtain j where j: "k = Suc j" "0 < j" using "1.prems" by (cases k; cases "k - 1") auto
    then have "n div 10 < 10 ^ j" using "1.prems" by (simp add: less_mult_imp_div_less mult.commute)
    then show ?thesis using 1(1) False j by (simp add: decimal.simps [of n])
  qed (use "1.prems" in \<open>simp add: decimal.simps [of n]\<close>)
qed

definition service_parts :: "int \<Rightarrow> nat \<Rightarrow> string \<times> string" where
  "service_parts v p = (let a = nat \<bar>v\<bar>; f = decimal (a mod 10 ^ p)
     in (decimal (a div 10 ^ p), if p = 0 then [] else replicate (p - length f) CHR ''0'' @ f))"

lemma service_parts:
  assumes "service_parts v p = (w, f)"
  shows "service_literal v p = (if v < 0 then ''-'' else []) @ w @ (if p = 0 then [] else CHR ''.'' # f)"
    and "plain_whole w f" "digits_value (w @ f) = nat \<bar>v\<bar>" "length f = p"
proof -
  let ?a = "nat \<bar>v\<bar>" and ?f = "decimal (nat \<bar>v\<bar> mod 10 ^ p)"
  have w: "w = decimal (?a div 10 ^ p)" and f: "f = (if p = 0 then [] else replicate (p - length ?f) CHR ''0'' @ ?f)"
    using assms by (auto simp: service_parts_def Let_def)
  show "service_literal v p = (if v < 0 then ''-'' else []) @ w @ (if p = 0 then [] else CHR ''.'' # f)"
    by (simp add: service_literal_def show_int_def Let_def w f)
  show len: "length f = p" using length_decimal [of "?a mod 10 ^ p" p] by (simp add: f)
  have "list_all is_ascii_digit f" using all_digits_decimal by (auto simp: f all_digits_def list_all_iff is_ascii_digit_def)
  then show "plain_whole w f" using all_digits_decimal [of "?a div 10 ^ p"] decimal_leading [of "?a div 10 ^ p"]
    by (auto simp: plain_whole_def all_digits_def w)
  have "digits_value f = ?a mod 10 ^ p" by (simp add: f digits_value_append digits_value_zeros digits_value_decimal) (simp add: digits_value_def)
  then show "digits_value (w @ f) = ?a" by (simp add: digits_value_append len) (simp add: w digits_value_decimal div_mult_mod_eq)
qed


lemma split_at_if_None: "list_all (Not \<circ> p) s \<Longrightarrow> split_at_if p s = None"
proof -
  assume "list_all (Not \<circ> p) s"
  then have "dropWhile (Not \<circ> p) s = []" by (simp add: list_all_iff)
  then show "split_at_if p s = None" by (simp only: split_at_if_def list.case)
qed

lemma split_at_if_first: "list_all (Not \<circ> p) a \<Longrightarrow> p c \<Longrightarrow> split_at_if p (a @ c # b) = Some (a, b)"
  by (induction a) (auto simp: split_at_if_def split: list.split_asm)

lemma decimal_of_parts:
  assumes "plain_whole w f" "length w + length f \<le> 126"
  shows "decimal_of ((if negative then ''-'' else []) @ w @ (if f = [] then [] else CHR ''.'' # f)) = normalized_decimal negative w f 0"
proof -
  let ?u = "w @ (if f = [] then [] else CHR ''.'' # f)"
  have digits: "w \<noteq> []" "list_all is_ascii_digit w" "list_all is_ascii_digit f" using assms(1) by (auto simp: plain_whole_def)
  have w: "hd w \<noteq> CHR ''-''" using digits(1,2) by (cases w) (auto simp: is_ascii_digit_def)
  have "list_all (Not \<circ> (\<lambda>c. c = CHR ''e'' \<or> c = CHR ''E'')) ?u"
    using digits(2,3) by (auto simp: list_all_iff is_ascii_digit_def)
  then have e: "split_exponent ?u = Some (?u, 0)" by (simp add: split_exponent_def split_at_if_None del: append_assoc)
  have point: "list_all (Not \<circ> (\<lambda>c. c = CHR ''.'')) w" using digits(2) by (auto simp: list_all_iff is_ascii_digit_def)
  have f: "split_fraction ?u = Some (w, f)"
    using split_at_if_None [OF point] split_at_if_first [OF point, of "CHR ''.''" f] by (simp add: split_fraction_def)
  have sign: "strip_prefix ''-'' ?u = None" using w digits(1) by (cases w) (auto simp: strip_prefix_def prefix_def)
  have len: "length ?u \<le> 127" "?u \<noteq> []" using assms(2) digits(1) by auto
  show ?thesis
  proof (cases negative)
    case True
    then have "strip_prefix ''-'' (''-'' @ ?u) = Some ?u" by (simp add: strip_prefix_def)
    then show ?thesis using True len e f assms(1) by (simp add: decimal_of_def MAX_LITERAL_BYTES_def del: append_assoc append_Cons)
  next
    case False
    then show ?thesis using len e f assms(1) sign digits(1) by (simp add: decimal_of_def MAX_LITERAL_BYTES_def)
  qed
qed

text \<open>
  C28. A service is sent exactly what was authorised: the literal of a scaled value, read back at the precision of
  its grant, is that value again, for every value within the limits and up to six decimal places.
\<close>

theorem service_reads_back:
  assumes "\<bar>v\<bar> \<le> MAX_SCALED" "p \<le> 6"
  shows "Option.bind (decimal_of (service_literal v p)) (\<lambda>d. at_places d p) = Some v"
proof -
  obtain w f where wf: "service_parts v p = (w, f)" by fastforce
  note parts = service_parts [OF wf]
  have small: "nat \<bar>v\<bar> \<le> 1000000000000000" using assms(1) by (simp add: MAX_SCALED_def)
  have "length w \<le> 16"
    using wf length_decimal [of "nat \<bar>v\<bar> div 10 ^ p" 16] le_trans [OF div_le_dividend small, of "10 ^ p"] by (auto simp: service_parts_def Let_def)
  then have lit: "decimal_of (service_literal v p) = normalized_decimal (v < 0) w f 0"
    using decimal_of_parts [OF parts(2), of "v < 0"] parts(1,4) assms(2) by (cases "p = 0") auto
  have "list_all is_ascii_digit (w @ f)" using parts(2) by (simp add: plain_whole_def)
  then obtain d where d: "normalized_decimal (v < 0) w f 0 = Some d" "de_places d \<le> p"
    using normalized_short [of w f "v < 0"] parts(3,4) small assms(2) by auto
  have "of_int (de_coefficient d) / 10 ^ de_places d = (if v < 0 then - 1 else 1) * (of_nat (nat \<bar>v\<bar>) * power10 (- int p))"
    using normalized_exact [OF d(1)] parts(3,4) by simp
  also have "\<dots> = of_int v / (10 :: rat) ^ p" by (simp add: power10_nat)
  finally have "of_int (de_coefficient d) * (10 :: rat) ^ p = of_int v * 10 ^ de_places d" by (simp add: frac_eq_eq)
  moreover have "(10 :: rat) ^ p = 10 ^ (p - de_places d) * 10 ^ de_places d" using d(2) by (simp flip: power_add)
  ultimately have "of_int (de_coefficient d * 10 ^ (p - de_places d)) = (of_int v :: rat)" by simp
  then have "de_coefficient d * 10 ^ (p - de_places d) = v" by (simp only: of_int_eq_iff)
  moreover have "checked_i64 v = Some v" "checked (- MAX_SCALED) MAX_SCALED v = Some v"
    using assms(1) by (auto simp: checked_def MAX_SCALED_def i64_min_def i64_max_def)
  ultimately show ?thesis using lit d by (simp add: at_places_def)
qed

theorem service_reads_back_witness:
  "Option.bind (decimal_of (service_literal (- 50) 3)) (\<lambda>d. at_places d 3) = Some (- 50) \<and> service_literal (- 50) 3 = ''-0.050''"
proof
  show "Option.bind (decimal_of (service_literal (- 50) 3)) (\<lambda>d. at_places d 3) = Some (- 50)"
    by (rule service_reads_back) (simp_all add: MAX_SCALED_def)
  show "service_literal (- 50) 3 = ''-0.050''" by code_simp
qed

end
