(* ===== verification/HostMedia.thy ===== *)
theory HostMedia
  imports HostProperties
begin

text \<open>
  The media requests of one registration over its whole life: whatever the host does, its queue remembers an
  identifier for ten minutes after the request was admitted. A run of the host is followed together with the
  set of all requests that were ever queued for one entry, under a clock that does not go back between the
  frames of its worker.
\<close>

section \<open>Operations on one entry\<close>

abbreviation seen :: "worker_entry \<Rightarrow> (string \<times> nat) list" where "seen en \<equiv> vs_seen (en_videos en)"
abbreviation pending :: "worker_entry \<Rightarrow> queued_http_video set" where "pending en \<equiv> set (vs_pending (en_videos en))"

text \<open>An operation that admits nothing and forgets nothing.\<close>

definition quiet :: "worker_entry \<Rightarrow> worker_entry \<Rightarrow> bool" where
  "quiet en en' \<longleftrightarrow> seen en' = seen en \<and> pending en' \<subseteq> pending en"

text \<open>An operation of instant \<open>now\<close> that admits at most one request, whose identifier was not remembered.\<close>

definition media_step :: "nat \<Rightarrow> worker_entry \<Rightarrow> worker_entry \<Rightarrow> bool" where
  "media_step now en en' \<longleftrightarrow> set (keep NOTIFICATION_DEDUP_TTL now (seen en)) \<subseteq> set (seen en')
     \<and> (pending en' \<subseteq> pending en \<or> (\<exists>q. pending en' \<subseteq> insert q (pending en) \<and> qv_created q = now
          \<and> qv_id q \<notin> fst ` set (keep NOTIFICATION_DEDUP_TTL now (seen en)) \<and> (qv_id q, now) \<in> set (seen en')))"

lemma quiet_refl [simp]: "quiet en en"
  by (simp add: quiet_def)

lemma quiet_trans: "quiet a b \<Longrightarrow> quiet b c \<Longrightarrow> quiet a c"
  by (auto simp: quiet_def)

lemma quiet_media: "quiet en en' \<Longrightarrow> media_step now en en'"
  by (auto simp: quiet_def media_step_def)

lemma media_quiet: "media_step now a b \<Longrightarrow> quiet b c \<Longrightarrow> media_step now a c"
  unfolding quiet_def media_step_def by (metis subset_trans)

lemma quiet_videos: "en_videos en' = en_videos en \<Longrightarrow> quiet en en'"
  by (simp add: quiet_def)

named_theorems quiets

lemma quiet_revoke [quiets]: "quiet (snd se) (snd (revoke_generation se))"
  by (cases se) (simp add: revoke_generation_def quiet_def Let_def)

lemma quiet_update [quiets]: "quiet (snd se) (snd (update_entry f se))"
  by (cases se) (simp add: update_entry_def quiet_def Let_def)

lemma quiet_flags [quiets]: "quiet (snd se) (snd (set_done se))" "quiet (snd se) (snd (set_reaped b se))"
  by (cases se; simp add: set_done_def set_reaped_def quiet_def)+

lemma quiet_fail [quiets]: "quiet (snd se) (snd (fail_entry code se))"
  unfolding fail_entry_def by (rule quiet_trans [OF quiet_revoke quiet_update])

lemma quiet_close [quiets]: "quiet (snd se) (snd (close_generation out se))"
  unfolding close_generation_def by (rule quiet_trans [OF quiet_revoke quiet_update])

lemma quiet_settle [quiets]: "quiet (snd se) (snd (settle_entry se))"
  unfolding settle_entry_def by (rule quiet_update)

lemma quiet_stop [quiets]: "quiet (snd se) (snd (stop_entry se))"
  using quiet_revoke [of se] by (cases "revoke_generation se") (simp add: stop_entry_def quiet_def)

lemma quiet_revoke_entry [quiets]: "quiet (snd se) (snd (revoke_entry se))"
  using quiet_revoke [of se] by (cases "revoke_generation se") (simp add: revoke_entry_def quiet_def)

lemma quiet_pop [quiets]: "quiet en (pop_notification en)" "quiet en (drain_videos en)"
  by (simp_all add: pop_notification_def drain_videos_def quiet_def)

lemma quiet_notification [quiets]: "quiet (snd se) (snd (fst (queue_notification now n se)))"
  by (cases se) (simp add: queue_notification_def quiet_def Let_def)

lemma quiet_contributions [quiets]: "quiet (snd se) (snd (replace_contributions items views se))"
  by (cases se) (simp add: replace_contributions_def quiet_def split: prod.split)

lemma quiet_spawn [quiets]: "quiet (snd se) (snd (fst (spawn_generation spec restarts identity se)))"
  by (cases se) (simp add: spawn_generation_def quiet_def Let_def split: option.split)

text \<open>Admission itself: the contract of the memory, as \<open>Admission\<close> states it.\<close>

lemma media_admit: "media_step now (snd se) (snd (fst (queue_http_video X now grant i u title admission se)))"
proof -
  obtain sh en where se: "se = (sh, en)" by fastforce
  show ?thesis unfolding se
    by (rule queue_http_video_cases [of X now grant i u title admission sh en])
      (auto simp: media_step_def video_refused_def keep_def)
qed

section \<open>The select loop\<close>

abbreviation same_videos :: "generation_run \<Rightarrow> generation_run \<Rightarrow> bool" where
  "same_videos gr gr' \<equiv> en_videos (gr_entry gr') = en_videos (gr_entry gr)"

lemma run_entry [simp]: "gr_entry (reply_to i r gr) = gr_entry gr" "gr_entry (forget i gr) = gr_entry gr"
  "gr_entry (send_ignored X m gr) = gr_entry gr" "gr_entry (changed gr) = gr_entry gr" "gr_entry (finish_run gr) = gr_entry gr"
  "gr_entry (settle i answer gr) = gr_entry gr" "gr_entry (expire X i gr) = gr_entry gr"
  by (auto simp: reply_to_def forget_def send_ignored_def changed_def finish_run_def settle_def expire_def
      split: sum.split option.split)

lemma expire_pending_entry [simp]: "gr_entry (expire_pending X now gone gr) = gr_entry gr"
proof -
  have "gr_entry (fold (expire X) is gr) = gr_entry gr" for "is" by (induction "is" arbitrary: gr) simp_all
  then show ?thesis by (simp add: expire_pending_def)
qed

lemma control_entry [simp]: "gr_entry (handle_control X now c gr) = gr_entry gr"
  by (cases c) (auto split: option.split)

lemma on_entry_entry: "gr_entry (fst (on_entry f gr)) = snd (fst (f (gr_shared gr, gr_entry gr)))"
  by (simp add: on_entry_def split: prod.split)

lemma admit_frame: "media_step now (gr_entry gr) (gr_entry (fst (on_entry (queue_http_video X now grant i u title admission) gr)))"
  using media_admit [of now "(gr_shared gr, gr_entry gr)"] by (simp add: on_entry_entry)

lemma notify_quiet: "quiet (gr_entry gr) (gr_entry (fst (on_entry (queue_notification now n) gr)))"
  using quiet_notification [of "(gr_shared gr, gr_entry gr)" now n] by (simp add: on_entry_entry)

lemma preview_media: "media_step now (gr_entry gr) (gr_entry (fst (preview_frame X now grant i u title camera gr)))"
  using admit_frame [of now gr X grant i u title] by (simp add: preview_frame_def case_prod_beta)

lemma video_media: "media_step now (gr_entry gr) (gr_entry (fst (http_video_frame X now spec i u title kind c gr)))"
proof -
  have "media_step now (gr_entry gr) (gr_entry (fst (on_entry (queue_notification now n)
      (fst (on_entry (queue_http_video X now grant i u title admission) gr)))))" for n grant admission
    by (rule media_quiet [OF admit_frame notify_quiet])
  then show ?thesis using admit_frame
    by (simp add: http_video_frame_def quiet_media case_prod_beta split: option.split sum.split)
qed

lemma worker_frame_media: "media_step now (gr_entry gr) (gr_entry (fst (worker_frame X now spec m gr)))"
proof (cases m)
  case (HttpVideo i u title kind c)
  then show ?thesis using video_media by simp
next
  case (HttpLive i u title)
  then show ?thesis using preview_media by (simp add: http_live_frame_def quiet_media split: option.split sum.split)
next
  case (MqttLive i title camera u)
  then show ?thesis using preview_media
    by (simp add: mqtt_live_frame_def quiet_media split: option.split sum.split prod.split)
next
  case (LiveView i title v)
  then show ?thesis using preview_media
    by (simp add: live_view_frame_def quiet_media split: option.split sum.split prod.split)
next
  case (Notification i title body v)
  then show ?thesis using notify_quiet
    by (simp add: notification_frame_def quiet_media case_prod_beta split: sum.split)
next
  case (Contributions items views)
  then show ?thesis using quiet_contributions [of "(gr_shared gr, gr_entry gr)" items views]
    by (simp add: on_entry_entry quiet_media)
next
  case (Event name payload)
  then show ?thesis by (auto intro!: quiet_media quiet_videos split: prod.split)
qed (simp_all add: quiet_media)

lemma startup_quiet: "same_videos gr (fst (startup_frame X now spec m gr))"
  by (simp add: startup_frame_def running_def split: sum.split option.split startup_phase.split)

lemma running_media: "media_step now (gr_entry gr) (gr_entry (fst (running_frame X now spec m gr)))"
proof -
  obtain gr' r where f: "worker_frame X now spec m gr = (gr', r)" by fastforce
  show ?thesis using worker_frame_media [of now gr X spec m] by (cases r) (simp_all add: running_frame_def quiet_media f)
qed

lemma frame_media: "media_step now (gr_entry gr) (gr_entry (fst (generation_step X spec (GFrame now f) gr)))"
proof -
  have "media_step now (gr_entry gr) (gr_entry (fst (handle_frame X now spec f gr)))" for gr
    using running_media startup_quiet [THEN quiet_videos, THEN quiet_media]
    by (auto simp: handle_frame_def intro: quiet_media split: option.split sum.split)
  from this [of "gr\<lparr>gr_rate := count_frame now (is_contributions f) (gr_rate gr)\<rparr>"] show ?thesis
    by (simp add: frame_arm_def quiet_media Let_def)
qed

text \<open>Every other arm leaves the media queue alone.\<close>

fun is_frame :: "supervisor_event \<Rightarrow> bool" where
  "is_frame (SEvent (GFrame _ _)) = True" | "is_frame _ = False"

lemma arm_quiet: "\<not> is_frame (SEvent e) \<Longrightarrow> gr_entry (fst (generation_step X spec e gr)) = gr_entry gr"
  by (cases "(X, spec, e, gr)" rule: generation_step.cases) simp_all

section \<open>The supervisor\<close>

lemma end_arm_entry: "snd (snd (end_arm out su)) = gr_entry (fst out)"
  by (simp add: end_arm_def attach_def split: prod.split option.split)

lemma start_run_entry: "gr_entry (fst (start_run X now spec (sh, en))) = en"
  by (simp add: start_run_def Let_def split: sum.split)

lemma resume_entry [simp]: "gr_entry (resume_run gr (sh, en)) = en"
  by (simp add: resume_run_def)

lemma quiet_after_terminate: "quiet (snd se) (snd (snd (after_terminate reaped out su se)))"
  using quiet_trans [OF quiet_flags(2) quiet_trans [OF quiet_fail quiet_flags(1)]] quiet_flags(2)
  by (cases out) (auto simp: after_terminate_def Let_def)

lemma quiet_spawned:
  "quiet en (snd (snd (case spawn_generation spec restarts identity (sh, en) of
       (se, Err code) \<Rightarrow> (su, set_done (fail_entry code se))
     | (se, Ok spawned) \<Rightarrow> if spawned then (su', se) else (su'', se))))"
proof -
  obtain se r where f: "spawn_generation spec restarts identity (sh, en) = (se, r)" by fastforce
  have q: "quiet en (snd se)" using quiet_spawn [of "(sh, en)" spec restarts identity] by (simp add: f)
  then show ?thesis using quiet_trans [OF q quiet_trans [OF quiet_fail quiet_flags(1)]] by (cases r) (simp_all add: f)
qed

lemma supervise_frame:
  assumes "supervise_step X (SEvent (GFrame now f)) su (sh, en) = Some (su', (sh', en'))"
  shows "media_step now en en'"
proof -
  obtain gr where "end_arm (generation_step X (su_spec su) (GFrame now f) (resume_run gr (sh, en))) su = (su', (sh', en'))"
    using assms by (auto simp: supervise_step_def split: phase.split_asm)
  then have "en' = gr_entry (fst (generation_step X (su_spec su) (GFrame now f) (resume_run gr (sh, en))))"
    by (metis end_arm_entry snd_conv)
  then show ?thesis using frame_media [of now "resume_run gr (sh, en)"] by simp
qed

lemma supervise_quiet:
  assumes "supervise_step X ev su (sh, en) = Some out" "\<not> is_frame ev"
  shows "quiet en (snd (snd out))"
proof (cases ev)
  case SGo
  then show ?thesis using assms(1) quiet_close [of "(sh, en)"]
    by (cases "su_phase su") (auto simp: supervise_step_def)
next
  case (SSpawn identity)
  then show ?thesis using assms(1) quiet_spawned [of en]
    by (cases "su_phase su") (auto simp: supervise_step_def)
next
  case (SPipes piped reaped now)
  have "quiet en (snd (set_done (fail_entry code (set_reaped reaped (revoke_generation (sh, en))))))" for code
    using quiet_trans [OF quiet_trans [OF quiet_revoke quiet_flags(2)] quiet_trans [OF quiet_fail quiet_flags(1)], of "(sh, en)"] by simp
  then show ?thesis using SPipes assms(1)
    by (cases "su_phase su") (auto simp: supervise_step_def end_arm_entry start_run_entry)
next
  case (SEvent e)
  then show ?thesis using assms
    by (cases "su_phase su") (auto simp: supervise_step_def end_arm_entry arm_quiet)
next
  case (STerminated reaped)
  then show ?thesis using assms(1) quiet_after_terminate [of "(sh, en)"]
    by (cases "su_phase su") (auto simp: supervise_step_def)
next
  case (SBackoff c)
  then show ?thesis using assms(1) by (cases "su_phase su") (auto simp: supervise_step_def)
next
  case (SDrain cs)
  then show ?thesis using assms(1) quiet_trans [OF quiet_settle quiet_flags(1), of "(sh, en)"]
    by (cases "su_phase su") (auto simp: supervise_step_def)
qed

section \<open>The host\<close>

text \<open>The media requests of entry \<open>r\<close> that are queued, and the identifiers it remembers.\<close>

definition queued :: "nat \<Rightarrow> host \<Rightarrow> queued_http_video set" where
  "queued r h = (case ho_entries h r of None \<Rightarrow> {} | Some en \<Rightarrow> pending en)"

definition remembered :: "nat \<Rightarrow> host \<Rightarrow> (string \<times> nat) list" where
  "remembered r h = (case ho_entries h r of None \<Rightarrow> [] | Some en \<Rightarrow> seen en)"

definition host_quiet :: "nat \<Rightarrow> host \<Rightarrow> host \<Rightarrow> bool" where
  "host_quiet r h h' \<longleftrightarrow> remembered r h' = remembered r h \<and> queued r h' \<subseteq> queued r h"

lemma host_quiet_same [simp]: "ho_entries h' = ho_entries h \<Longrightarrow> host_quiet r h h'"
  by (simp add: host_quiet_def remembered_def queued_def)

lemma host_quiet_trans: "host_quiet r a b \<Longrightarrow> host_quiet r b c \<Longrightarrow> host_quiet r a c"
  by (auto simp: host_quiet_def)

lemma host_quiet_with:
  assumes "\<And>se. quiet (snd se) (snd (f se))"
  shows "host_quiet r h (with_entry s f h)"
proof (cases "ho_entries h s")
  case (Some en)
  have "quiet en (snd (f (ho_shared h, en)))" using assms [of "(ho_shared h, en)"] by simp
  then show ?thesis using Some
    by (auto simp: with_entry_def host_quiet_def remembered_def queued_def quiet_def split: prod.split option.split)
qed (simp add: with_entry_def)

lemma revoke_quiet: "host_quiet r h (fst (revoke_epoch h))"
proof -
  have "host_quiet r h (fold (\<lambda>s. with_entry s revoke_entry) rs h)" for rs h
  proof (induction rs arbitrary: h)
    case (Cons s rs)
    have "host_quiet r h (with_entry s revoke_entry h)" by (rule host_quiet_with [OF quiet_revoke_entry])
    from host_quiet_trans [OF this Cons.IH] show ?case by simp
  qed simp
  from this [of "h\<lparr>ho_shared := sh\<rparr>" rs for sh rs] show ?thesis
    by (simp add: revoke_epoch_def Let_def host_changed_def host_quiet_def remembered_def queued_def)
qed

lemma take_quiet: "host_quiet r h (fst (take_videos now rs h))"
proof (induction rs arbitrary: h)
  case (Cons s rs)
  have "host_quiet r h (with_entry s (\<lambda>(sh, en). (sh, drain_videos en)) h)"
    by (rule host_quiet_with) (simp add: quiet_pop split: prod.split)
  then show ?case using Cons host_quiet_trans by (force split: option.split prod.split)
qed simp

lemma register_quiet:
  assumes "host_ok h"
  shows "host_quiet r h (fst (register X now spec expected h))"
proof -
  have "ho_entries h (ho_next h) = None"
    using assms unfolding host_ok_def entries_ok_def by (metis less_irrefl not_Some_eq)
  then have "host_quiet r h (host_changed (insert_entry spec en h))" if "en_videos en = new_videos now" for en
    using that by (auto simp: host_quiet_def remembered_def queued_def insert_entry_def host_changed_def new_videos_def split: option.split)
  then show ?thesis by (auto simp: register_def Let_def new_entry_def split: sum.split)
qed

lemma calm_quiet: "calm_step X h h' \<Longrightarrow> host_ok h \<Longrightarrow> host_quiet r h h'"
proof (induction rule: calm_step.induct)
  case (dispatch h now s)
  have "host_quiet r h (with_entry s (\<lambda>(sh, en). (sh, pop_notification en)) h)"
    by (rule host_quiet_with) (simp add: quiet_pop split: prod.split)
  then show ?case by (auto simp: dispatch_one_def split: option.split list.split)
next
  case (begin_stop h plugin)
  then show ?case by (auto simp: begin_stop_def intro: host_quiet_with quiet_stop split: sum.split)
qed (auto simp: register_quiet revoke_quiet take_quiet take_http_video_requests_def finish_remove_def host_changed_def resume_def
    resume_in_epoch_def enable_def prepare_action_def enqueue_action_def cancel_on_drop_def send_command_def writer_takes_def
    Let_def split: sum.split option.split)

lemma supervised_entry:
  assumes "host_supervise X s ev h = Some h'"
  obtains en su su' sh' en' where "ho_entries h s = Some en" "supervise_step X ev su (ho_shared h, en) = Some (su', (sh', en'))"
    "ho_entries h' = (ho_entries h)(s \<mapsto> en')"
  using assms by (auto simp: host_supervise_def split: option.split_asm)

lemma host_supervise_quiet:
  assumes "host_supervise X s ev h = Some h'" "s \<noteq> r \<or> \<not> is_frame ev"
  shows "host_quiet r h h'"
proof -
  obtain en su su' sh' en' where e: "ho_entries h s = Some en" "supervise_step X ev su (ho_shared h, en) = Some (su', (sh', en'))"
    "ho_entries h' = (ho_entries h)(s \<mapsto> en')" using supervised_entry [OF assms(1)] by metis
  show ?thesis
  proof (cases "s = r")
    case True
    then have "quiet en en'" using supervise_quiet [OF e(2)] assms(2) by simp
    then show ?thesis using e True by (simp add: host_quiet_def remembered_def queued_def quiet_def)
  qed (use e in \<open>simp add: host_quiet_def remembered_def queued_def\<close>)
qed

section \<open>The life of a registration\<close>

text \<open>
  Reference \<open>r\<close> is followed from before its registration: the host, every request that was ever queued for it
  and the clock, which the frames of its worker move forward.
\<close>

inductive media_run :: "ext \<Rightarrow> nat \<Rightarrow> host \<Rightarrow> queued_http_video set \<Rightarrow> nat \<Rightarrow> bool" for X r where
  begins: "reachable X h \<Longrightarrow> ho_entries h r = None \<Longrightarrow> media_run X r h {} t"
| frame: "media_run X r h Q t \<Longrightarrow> t \<le> now \<Longrightarrow> host_supervise X r (SEvent (GFrame now f)) h = Some h'
    \<Longrightarrow> media_run X r h' (Q \<union> queued r h') now"
| supervise: "media_run X r h Q t \<Longrightarrow> fresh_identity ev h \<Longrightarrow> host_supervise X s ev h = Some h' \<Longrightarrow> s \<noteq> r \<or> \<not> is_frame ev
    \<Longrightarrow> media_run X r h' (Q \<union> queued r h') t"
| calm: "media_run X r h Q t \<Longrightarrow> calm_step X h h' \<Longrightarrow> media_run X r h' (Q \<union> queued r h') t"

definition media_ok :: "nat \<Rightarrow> host \<Rightarrow> queued_http_video set \<Rightarrow> nat \<Rightarrow> bool" where
  "media_ok r h Q t \<longleftrightarrow> queued r h \<subseteq> Q
     \<and> (\<forall>q \<in> Q. qv_created q \<le> t \<and> (t < qv_created q + NOTIFICATION_DEDUP_TTL \<longrightarrow> (qv_id q, qv_created q) \<in> set (remembered r h)))
     \<and> (\<forall>q1 \<in> Q. \<forall>q2 \<in> Q. qv_id q1 = qv_id q2 \<longrightarrow> q1 = q2
          \<or> qv_created q1 + NOTIFICATION_DEDUP_TTL \<le> qv_created q2 \<or> qv_created q2 + NOTIFICATION_DEDUP_TTL \<le> qv_created q1)"

lemma media_ok_quiet:
  assumes "media_ok r h Q t" "host_quiet r h h'"
  shows "media_ok r h' (Q \<union> queued r h') t"
proof -
  have "queued r h' \<subseteq> Q" using assms by (auto simp: media_ok_def host_quiet_def)
  then have "Q \<union> queued r h' = Q" by blast
  then show ?thesis using assms \<open>queued r h' \<subseteq> Q\<close> by (simp add: media_ok_def host_quiet_def)
qed

lemma media_ok_later:
  assumes "media_ok r h Q t" "t \<le> now" "q \<in> Q" "now < qv_created q + NOTIFICATION_DEDUP_TTL"
  shows "(qv_id q, qv_created q) \<in> set (keep NOTIFICATION_DEDUP_TTL now (remembered r h))"
  using assms by (auto simp: media_ok_def)

lemma media_ok_frame:
  assumes ok: "media_ok r h Q t" and now: "t \<le> now" and en: "ho_entries h r = Some en" "ho_entries h' r = Some en'"
    and step: "media_step now en en'"
  shows "media_ok r h' (Q \<union> queued r h') now"
proof -
  have mem: "remembered r h = seen en" "remembered r h' = seen en'" "queued r h = pending en" "queued r h' = pending en'"
    using en by (simp_all add: remembered_def queued_def)
  have old: "queued r h \<subseteq> Q" "\<forall>q \<in> Q. qv_created q \<le> t" using ok by (auto simp: media_ok_def)
  have kept: "(qv_id q, qv_created q) \<in> set (remembered r h')" if "q \<in> Q" "now < qv_created q + NOTIFICATION_DEDUP_TTL" for q
    using media_ok_later [OF ok now that] step mem by (auto simp: media_step_def)
  show ?thesis
  proof (cases "queued r h' \<subseteq> Q")
    case True
    then have "Q \<union> queued r h' = Q" by blast
    then show ?thesis using ok old kept now True unfolding media_ok_def by (auto intro: le_trans)
  next
    case False
    then obtain q where q: "queued r h' \<subseteq> insert q Q" "qv_created q = now" "(qv_id q, now) \<in> set (remembered r h')"
      "qv_id q \<notin> fst ` set (keep NOTIFICATION_DEDUP_TTL now (remembered r h))"
      using step old(1) unfolding mem media_step_def by blast
    have far: "qv_created p + NOTIFICATION_DEDUP_TTL \<le> now" if "p \<in> Q" "qv_id p = qv_id q" for p
    proof (rule ccontr)
      assume "\<not> qv_created p + NOTIFICATION_DEDUP_TTL \<le> now"
      then have "(qv_id p, qv_created p) \<in> set (keep NOTIFICATION_DEDUP_TTL now (remembered r h))"
        using media_ok_later [OF ok now that(1)] by simp
      then have "qv_id p \<in> fst ` set (keep NOTIFICATION_DEDUP_TTL now (remembered r h))"
        by (rule image_eqI [rotated]) simp
      then show False using q(4) that(2) by simp
    qed
    have new: "Q \<union> queued r h' = insert q Q" using q(1) False by blast
    have "\<forall>q1 \<in> insert q Q. \<forall>q2 \<in> insert q Q. qv_id q1 = qv_id q2 \<longrightarrow> q1 = q2
          \<or> qv_created q1 + NOTIFICATION_DEDUP_TTL \<le> qv_created q2 \<or> qv_created q2 + NOTIFICATION_DEDUP_TTL \<le> qv_created q1"
      using ok far q(2) unfolding media_ok_def by (metis insert_iff)
    then show ?thesis using q kept old(2) now unfolding media_ok_def new by (auto intro: le_trans)
  qed
qed

lemma media_run_ok: "media_run X r h Q t \<Longrightarrow> host_ok h \<and> media_ok r h Q t"
proof (induction rule: media_run.induct)
  case (begins h t)
  then show ?case using reachable_ok by (simp add: media_ok_def queued_def)
next
  case (frame h Q t now f h')
  obtain en su su' sh' en' where "ho_entries h r = Some en" "ho_entries h' = (ho_entries h)(r \<mapsto> en')"
    "supervise_step X (SEvent (GFrame now f)) su (ho_shared h, en) = Some (su', (sh', en'))"
    using supervised_entry [OF frame(3)] by metis
  moreover from this have "media_step now en en'" using supervise_frame by blast
  moreover have "fresh_identity (SEvent (GFrame now f)) h" by (simp add: fresh_identity_def)
  then have "host_ok h'" using host_ok_supervise frame(3,4) by blast
  ultimately show ?case using media_ok_frame [of r h Q t now en h' en'] frame by simp
next
  case (supervise h Q t ev s h')
  then show ?case using host_ok_supervise media_ok_quiet host_supervise_quiet by blast
next
  case (calm h Q t h')
  then show ?case using calm_step_ok media_ok_quiet calm_quiet by blast
qed

text \<open>
  C34. Over the whole life of a registration, whatever the application, the workers, revocations and restarts of the
  process do, one media identifier is admitted at most once in ten minutes: of any two different requests that
  were ever queued for the entry under one identifier, one was admitted at least ten minutes after the other.
\<close>

theorem media_requests_spaced:
  assumes "media_run X r h Q t" and "q1 \<in> Q" "q2 \<in> Q" and "qv_id q1 = qv_id q2"
  shows "q1 = q2 \<or> qv_created q1 + seconds 600 \<le> qv_created q2 \<or> qv_created q2 + seconds 600 \<le> qv_created q1"
proof -
  have "\<forall>q1 \<in> Q. \<forall>q2 \<in> Q. qv_id q1 = qv_id q2 \<longrightarrow> q1 = q2
      \<or> qv_created q1 + NOTIFICATION_DEDUP_TTL \<le> qv_created q2 \<or> qv_created q2 + NOTIFICATION_DEDUP_TTL \<le> qv_created q1"
    using media_run_ok [OF assms(1)] unfolding media_ok_def by (elim conjE) assumption
  from this [rule_format, OF assms(2-4)] show ?thesis by (simp add: NOTIFICATION_DEDUP_TTL_def)
qed

section \<open>A restart between two requests\<close>

text \<open>The supervisor of entry 0 over some events, as long as its frames do not go back and identities are new.\<close>

fun follow :: "ext \<Rightarrow> supervisor_event list \<Rightarrow> nat \<times> host \<Rightarrow> (nat \<times> host) option" where
  "follow X [] (t, h) = Some (t, h)"
| "follow X (SEvent (GFrame now f) # es) (t, h) = (if t \<le> now
     then Option.bind (host_supervise X 0 (SEvent (GFrame now f)) h) (\<lambda>h. follow X es (now, h)) else None)"
| "follow X (SSpawn (Some i) # es) (t, h) = (if sh_leases (ho_shared h) i = None
     then Option.bind (host_supervise X 0 (SSpawn (Some i)) h) (\<lambda>h. follow X es (t, h)) else None)"
| "follow X (ev # es) (t, h) = Option.bind (host_supervise X 0 ev h) (\<lambda>h. follow X es (t, h))"

lemma follow_run:
  "follow X es (t, h) = Some (t', h') \<Longrightarrow> media_run X 0 h Q t \<Longrightarrow> queued 0 h \<subseteq> Q
    \<Longrightarrow> \<exists>Q'. Q \<subseteq> Q' \<and> queued 0 h' \<subseteq> Q' \<and> media_run X 0 h' Q' t'"
proof (induction es arbitrary: t h Q)
  case (Cons ev es)
  obtain h1 t1 where one: "host_supervise X 0 ev h = Some h1" "follow X es (t1, h1) = Some (t', h')"
    "(\<exists>now f. ev = SEvent (GFrame now f) \<and> t \<le> now \<and> t1 = now) \<or> (\<not> is_frame ev \<and> fresh_identity ev h \<and> t1 = t)"
    using Cons.prems(1) by (cases "(X, ev # es, (t, h))" rule: follow.cases)
      (auto simp: bind_eq_Some_conv fresh_identity_def split: if_split_asm)
  then have "media_run X 0 h1 (Q \<union> queued 0 h1) t1"
    using media_run.frame [OF Cons.prems(2)] media_run.supervise [OF Cons.prems(2)] by blast
  then show ?case using Cons.IH [OF one(2), of "Q \<union> queued 0 h1"] by blast
qed auto

definition media_spec :: worker_spec where
  "media_spec = \<lparr>sp_plugin_id = ''com.example'', sp_executable = ''/w'', sp_args = [],
     sp_configuration = Some sample_configuration, sp_desktop_notifications = False,
     sp_http_video = Some (sample_video_grant 30), sp_live_view = None\<rparr>"

definition media_host :: host where
  "media_host = fst (register sample_ext 0 media_spec None (new_host 0))"

definition start_up :: "string \<Rightarrow> supervisor_event list" where
  "start_up i = [SGo, SSpawn (Some i), SPipes True True 0, SEvent (GFrame 0 (Some (Ok (Ready 1 HOST_API_VERSION ''com.example'')))),
     SEvent (GFrame 0 (Some (Ok (ConfigurationReady ''r1''))))]"

definition clip_frame :: "nat \<Rightarrow> supervisor_event" where
  "clip_frame now = SEvent (GFrame now (Some (Ok (HttpVideo ''a'' ''https://m.invalid/clip'' ''Door'' Video None))))"

definition restart :: "supervisor_event list" where
  "restart = [SEvent (GExit True), SGo, STerminated True, SGo]"

definition clips :: "host \<Rightarrow> (string \<times> nat) list" where
  "clips h = (case ho_entries h 0 of None \<Rightarrow> [] | Some en \<Rightarrow> map (\<lambda>q. (qv_id q, qv_created q)) (vs_pending (en_videos en)))"

text \<open>The first process is asked for a clip; the application takes it; the process exits and is restarted; asked again after one minute
  the host refuses, after 700 seconds it admits.\<close>

definition after_first :: "(nat \<times> host) option" where
  "after_first = follow sample_ext (start_up ''i'' @ [clip_frame 0]) (0, media_host)"

definition after_second :: "nat \<times> host \<Rightarrow> (nat \<times> host) option" where
  "after_second = (\<lambda>(t, h). follow sample_ext (restart @ start_up ''j'' @ [clip_frame (seconds 60), clip_frame (seconds 700)])
     (t, fst (take_http_video_requests 1 h)))"

lemma sample_first: "map_option (\<lambda>(t, h). (t, clips h)) after_first = Some (0, [(''a'', 0)])"
  by code_simp

lemma sample_second: "map_option (\<lambda>(t, h). (t, clips h)) (Option.bind after_first after_second) = Some (seconds 700, [(''a'', seconds 700)])"
  by code_simp

lemma clips_queued: "(i, t) \<in> set (clips h) \<Longrightarrow> \<exists>q \<in> queued 0 h. qv_id q = i \<and> qv_created q = t"
  by (cases "ho_entries h 0") (auto simp: clips_def queued_def)

lemma media_host_run: "media_run sample_ext 0 media_host {} 0"
proof -
  have "media_run sample_ext 0 (new_host 0) {} 0"
    by (rule media_run.begins [OF reachable.start]) (simp add: new_host_def)
  from media_run.calm [OF this calm_step.register] have "media_run sample_ext 0 media_host ({} \<union> queued 0 media_host) 0"
    unfolding media_host_def .
  moreover have "queued 0 media_host \<subseteq> queued 0 (new_host 0)"
    using register_quiet [OF host_ok_new] unfolding media_host_def host_quiet_def by blast
  ultimately show ?thesis by (simp add: queued_def new_host_def)
qed

theorem media_requests_spaced_witness:
  "\<exists>h Q t. media_run sample_ext 0 h Q t \<and> (\<exists>q1 \<in> Q. \<exists>q2 \<in> Q. qv_id q1 = ''a'' \<and> qv_id q2 = ''a''
     \<and> qv_created q1 = 0 \<and> qv_created q2 = seconds 700 \<and> qv_created q1 + seconds 600 \<le> qv_created q2)"
proof -
  obtain h1 where h1: "follow sample_ext (start_up ''i'' @ [clip_frame 0]) (0, media_host) = Some (0, h1)" "clips h1 = [(''a'', 0)]"
    using sample_first by (auto simp: after_first_def)
  obtain h2 where h2: "follow sample_ext (restart @ start_up ''j'' @ [clip_frame (seconds 60), clip_frame (seconds 700)])
      (0, fst (take_http_video_requests 1 h1)) = Some (seconds 700, h2)" "clips h2 = [(''a'', seconds 700)]"
    using sample_second h1 by (auto simp: after_first_def after_second_def)
  have "queued 0 media_host \<subseteq> {}" using media_run_ok [OF media_host_run] by (simp add: media_ok_def)
  then obtain Q1 where q1: "queued 0 h1 \<subseteq> Q1" "media_run sample_ext 0 h1 Q1 0"
    using follow_run [OF h1(1) media_host_run] by blast
  let ?h = "fst (take_http_video_requests 1 h1)"
  from follow_run [OF h2(1) media_run.calm [OF q1(2) calm_step.take]]
  obtain Q2 where q2: "Q1 \<union> queued 0 ?h \<subseteq> Q2" "queued 0 h2 \<subseteq> Q2" "media_run sample_ext 0 h2 Q2 (seconds 700)" by blast
  obtain a where a: "a \<in> Q2" "qv_id a = ''a''" "qv_created a = 0" using clips_queued [of "''a''" 0 h1] h1(2) q1(1) q2(1) by auto
  obtain b where b: "b \<in> Q2" "qv_id b = ''a''" "qv_created b = seconds 700"
    using clips_queued [of "''a''" "seconds 700" h2] h2(2) q2(2) by auto
  have "qv_id a = qv_id b" using a b by simp
  from media_requests_spaced [OF q2(3) a(1) b(1) this]
  have "qv_created a + seconds 600 \<le> qv_created b" using a b by (auto simp: seconds_def)
  then show ?thesis using q2(3) a b by blast
qed

end
