(* ===== verification/WorkerProtocol.thy ===== *)
theory WorkerProtocol
  imports Framing Json
begin

text \<open>
  The worker's end of the pipe, \<^verbatim>\<open>desktop-plugins/worker-protocol/src/lib.rs\<close>: reading host
  frames, the scan that refuses serde's reserved number key, validation of commands, encoding of
  responses, and the two transport threads. The serialiser is a parameter (\<open>worker_codec\<close>), and so
  are the answers of the bounded channels and of the pipe.
\<close>

definition MAX_FRAME_BYTES :: nat where "MAX_FRAME_BYTES = 64 * 1024"

text \<open>\<^verbatim>\<open>HostFrame<C>\<close>; the instant a frame was decoded at is nanoseconds of the monotonic clock.\<close>

datatype 'c host_frame =
    FHello (protocol_version: "32 word") (host_api_version: string) (plugin_id: string)
  | FConfiguration (configuration: 'c)
  | FAction (request_id: string) (action_id: string) (params: json) (deadline_ms: "64 word") (received_at: nat)
  | FCancel (request_id: string)
  | FShutdown

datatype stop_reason = Running | Shutdown | Eof | Invalid

text \<open>What the worker asks of serde: bytes of a value, the text of a key, a decoded frame.\<close>

record 'c worker_codec =
  value_bytes :: "json \<Rightarrow> string option"
  key_text :: "string \<Rightarrow> string option"
  frame_value :: "string \<Rightarrow> 'c host_frame option"

section \<open>The reserved number key\<close>

text \<open>
  \<open>string_end bs i\<close>: the inner loop, from the byte after an opening quote to the byte after the
  closing one; nothing if the bytes end first.
\<close>

function string_end :: "string \<Rightarrow> nat \<Rightarrow> nat option" where
  "string_end bs i =
     (if i \<ge> length bs then None
      else if bs ! i = CHR 0x5C then string_end bs (i + 2)
      else if bs ! i = CHR 0x22 then Some (i + 1)
      else string_end bs (i + 1))"
  by pat_completeness auto
termination by (relation "measure (\<lambda>(bs, i). length bs - i)") auto

function skip_whitespace :: "string \<Rightarrow> nat \<Rightarrow> nat" where
  "skip_whitespace bs i =
     (if i < length bs \<and> is_ascii_whitespace (bs ! i) then skip_whitespace bs (i + 1) else i)"
  by pat_completeness auto
termination by (relation "measure (\<lambda>(bs, i). length bs - i)") auto

declare string_end.simps [simp del] skip_whitespace.simps [simp del]

lemma string_end_later: "string_end bs i = Some j \<Longrightarrow> i < j \<and> j \<le> length bs"
proof (induction bs i rule: string_end.induct)
  case (1 bs i)
  have "i + 1 \<le> length bs" if "\<not> length bs \<le> i" using that by simp
  with 1 show ?case by (subst (asm) (3) string_end.simps) (fastforce split: if_splits)
qed

lemma skip_whitespace_later: "i \<le> skip_whitespace bs i"
proof (induction bs i rule: skip_whitespace.induct)
  case (1 bs i)
  then show ?case by (subst skip_whitespace.simps) auto
qed

definition reserved_key :: string where
  "reserved_key = ''$serde_json::private::Number''"

function reject_scan :: "'c worker_codec \<Rightarrow> string \<Rightarrow> nat \<Rightarrow> unit res" where
  "reject_scan K bs i =
     (if i \<ge> length bs then Ok ()
      else if bs ! i \<noteq> CHR 0x22 then reject_scan K bs (i + 1)
      else (case string_end bs (i + 1) of
        None \<Rightarrow> Err ''invalid JSON string''
      | Some e \<Rightarrow>
          (let j = skip_whitespace bs e
           in if j < length bs \<and> bs ! j = CHR '':''
              then (case key_text K (take (e - i) (drop i bs)) of
                  None \<Rightarrow> Err ''invalid JSON key''
                | Some key \<Rightarrow> if key = reserved_key then Err ''reserved JSON number key''
                              else reject_scan K bs j)
              else reject_scan K bs j)))"
  by pat_completeness auto
termination
proof (relation "measure (\<lambda>(K, bs, i). length bs - i)", goal_cases)
  case (3 K bs i e j key)
  have "i < e" "e \<le> j" using 3(3,4) string_end_later [of bs "i + 1" e] skip_whitespace_later by auto
  with 3(1) show ?case by (simp add: diff_less_mono2)
next
  case (4 K bs i e j)
  have "i < e" "e \<le> j" using 4(3,4) string_end_later [of bs "i + 1" e] skip_whitespace_later by auto
  with 4(1) show ?case by (simp add: diff_less_mono2)
qed auto

declare reject_scan.simps [simp del]

definition reject_reserved_number_keys :: "'c worker_codec \<Rightarrow> string \<Rightarrow> unit res" where
  "reject_reserved_number_keys K bs = reject_scan K bs 0"

section \<open>Commands\<close>

definition valid_token :: "string \<Rightarrow> bool" where
  "valid_token v \<longleftrightarrow> v \<noteq> [] \<and> length v \<le> 128 \<and> is_ascii_alphanumeric (v ! 0)
     \<and> list_all (\<lambda>b. is_ascii_alphanumeric b \<or> b \<in> set ''_.:-'') v"

text \<open>\<open>bounded_params\<close> returns the counter along with the verdict: \<^verbatim>\<open>nodes: &mut usize\<close>.\<close>

fun bounded_params :: "json \<Rightarrow> nat \<Rightarrow> nat \<Rightarrow> bool \<times> nat"
  and bounded_items :: "json list \<Rightarrow> nat \<Rightarrow> nat \<Rightarrow> bool \<times> nat"
  and bounded_fields :: "(string \<times> json) list \<Rightarrow> nat \<Rightarrow> nat \<Rightarrow> bool \<times> nat" where
  "bounded_params (JArray vs) d n =
     (if 8 < d \<or> 512 < n + 1 then (False, n + 1) else bounded_items vs (d + 1) (n + 1))"
| "bounded_params (JObject fs) d n =
     (if 8 < d \<or> 512 < n + 1 then (False, n + 1) else bounded_fields fs (d + 1) (n + 1))"
| "bounded_params v d n = (\<not> (8 < d \<or> 512 < n + 1), n + 1)"
| "bounded_items [] d n = (True, n)"
| "bounded_items (v # vs) d n =
     (case bounded_params v d n of (ok, m) \<Rightarrow> if ok then bounded_items vs d m else (False, m))"
| "bounded_fields [] d n = (True, n)"
| "bounded_fields ((k, v) # fs) d n =
     (case bounded_params v d n of (ok, m) \<Rightarrow> if ok then bounded_fields fs d m else (False, m))"

fun command_ok :: "'c worker_codec \<Rightarrow> 'c host_frame \<Rightarrow> bool" where
  "command_ok K (FAction rid aid ps dl recv) =
     (valid_token rid \<and> valid_token aid \<and> 1 \<le> dl \<and> dl \<le> 30000 \<and> is_object ps
      \<and> pred_option (\<lambda>b. length b \<le> 4096) (value_bytes K ps) \<and> value_bytes K ps \<noteq> None
      \<and> fst (bounded_params ps 0 0))"
| "command_ok K (FCancel rid) = valid_token rid"
| "command_ok K _ = True"

definition validate_command :: "'c worker_codec \<Rightarrow> 'c host_frame \<Rightarrow> unit res" where
  "validate_command K f = (if command_ok K f then Ok () else Err ''invalid host frame'')"

section \<open>Reading frames\<close>

text \<open>The loop of \<^verbatim>\<open>read_frame\<close>: \<open>Ok None\<close> is a clean end of file.\<close>

definition worker_eof :: "string \<Rightarrow> string option res" where
  "worker_eof frame = (if frame = [] then Ok None else Err ''unterminated host frame'')"

function worker_gather :: "string \<Rightarrow> buffers \<Rightarrow> (string option \<times> buffers) res" where
  "worker_gather frame [] = map_sum id (\<lambda>l. (l, [])) (worker_eof frame)"
| "worker_gather frame (None # bs) = Err ''cannot read host frame''"
| "worker_gather frame (Some chunk # bs) =
     (if chunk = [] then map_sum id (\<lambda>l. (l, Some [] # bs)) (worker_eof frame)
      else
        (let newline_at = position (\<lambda>c. c = newline) chunk;
             len = (case newline_at of None \<Rightarrow> length chunk | Some i \<Rightarrow> i + 1)
         in if MAX_FRAME_BYTES < length frame + len then Err ''host frame too large''
            else if newline_at = None then worker_gather (frame @ take len chunk) (consume len chunk bs)
            else Ok (Some (frame @ take len chunk), consume len chunk bs)))"
  by pat_completeness auto
termination by (relation "measure (\<lambda>(frame, bs). length bs)") (auto simp: consume_def)

declare worker_gather.simps(3) [simp del]

text \<open>\<^verbatim>\<open>frame.pop(); if frame.last() == Some(&b'\r') { frame.pop(); }\<close>\<close>

definition strip_line_end :: "string \<Rightarrow> string" where
  "strip_line_end line =
     (let f = butlast line in if f \<noteq> [] \<and> last f = carriage_return then butlast f else f)"

definition decode_line :: "'c worker_codec \<Rightarrow> string \<Rightarrow> 'c host_frame res" where
  "decode_line K line =
     (let frame = strip_line_end line
      in rbind (reject_reserved_number_keys K frame) (\<lambda>_.
         rbind (ok_or ''invalid host frame'' (frame_value K frame)) (\<lambda>decoded.
         rbind (validate_command K decoded) (\<lambda>_. Ok decoded))))"

definition read_frame :: "'c worker_codec \<Rightarrow> buffers \<Rightarrow> ('c host_frame option \<times> buffers) res" where
  "read_frame K bs =
     rbind (worker_gather [] bs) (\<lambda>(line, rest).
       case line of
         None \<Rightarrow> Ok (None, rest)
       | Some l \<Rightarrow> rbind (decode_line K l) (\<lambda>f. Ok (Some f, rest)))"

section \<open>Writing responses\<close>

definition encode_frame :: "'c worker_codec \<Rightarrow> json \<Rightarrow> string res" where
  "encode_frame K v =
     rbind (ok_or ''cannot encode worker response'' (value_bytes K v)) (\<lambda>bytes.
       if MAX_FRAME_BYTES \<le> length bytes then Err ''worker response too large''
       else Ok (bytes @ [newline]))"

record outbound =
  out_bytes :: string
  expires_at :: "nat option"

datatype try_send = Sent | Full | Closed

text \<open>\<^verbatim>\<open>Output::try_enqueue\<close>, given the answer of the bounded channel; the queue is its contents.\<close>

definition try_enqueue :: "'c worker_codec \<Rightarrow> try_send \<Rightarrow> json \<Rightarrow> nat option \<Rightarrow> outbound list
    \<Rightarrow> bool res \<times> outbound list" where
  "try_enqueue K answer v expiry q =
     (case encode_frame K v of
        Err e \<Rightarrow> (Err e, q)
      | Ok bytes \<Rightarrow>
          (case answer of
             Sent \<Rightarrow> (Ok True, q @ [\<lparr>out_bytes = bytes, expires_at = expiry\<rparr>])
           | Full \<Rightarrow> (Ok False, q)
           | Closed \<Rightarrow> (Err ''host output closed'', q)))"

text \<open>
  \<^verbatim>\<open>write_frames\<close>: each queued frame meets the clock and the pipe's answer. The result is the bytes
  the pipe took in full and what each sender is told; a failed write ends the thread.
\<close>

fun write_frames :: "(outbound \<times> nat \<times> bool) list \<Rightarrow> string \<times> unit res list" where
  "write_frames [] = ([], [])"
| "write_frames ((frame, now, accepted) # rest) =
     (if (case expires_at frame of None \<Rightarrow> False | Some deadline \<Rightarrow> deadline \<le> now)
      then (case write_frames rest of (out, told) \<Rightarrow> (out, Err ''worker response expired'' # told))
      else if accepted
      then (case write_frames rest of (out, told) \<Rightarrow> (out_bytes frame @ out, Ok () # told))
      else ([], [Err ''host output closed'']))"

interpretation wf: frame_reader worker_gather MAX_FRAME_BYTES worker_eof
  "''host frame too large''" "''cannot read host frame''"
  by unfold_locales (auto simp: worker_gather.simps(3) Let_def)

text \<open>
  \<^verbatim>\<open>read_frames\<close>, the input thread: decoded frames go to the worker's bounded queue (\<open>accepts n\<close> is
  the queue's answer to the \<open>n\<close>th one) until end of file, a shutdown, or anything invalid.
\<close>

lemma worker_eof_no_frame: "worker_eof s \<noteq> Ok (Some t)"
  by (simp add: worker_eof_def)

lemma read_frame_shrinks: "read_frame K bs = Ok (Some f, rest) \<Longrightarrow> length (flat rest) < length (flat bs)"
  using wf.gather_shrinks [of "[]" bs _ rest] worker_eof_no_frame
  by (auto simp: read_frame_def result_simps split: option.splits)

function read_frames :: "'c worker_codec \<Rightarrow> (nat \<Rightarrow> bool) \<Rightarrow> nat \<Rightarrow> buffers \<Rightarrow> 'c host_frame list \<times> stop_reason" where
  "read_frames K accepts n bs =
     (case read_frame K bs of
        Err _ \<Rightarrow> ([], Invalid)
      | Ok (None, rest) \<Rightarrow> ([], Eof)
      | Ok (Some f, rest) \<Rightarrow>
          if f = FShutdown then ([], Shutdown)
          else if \<not> accepts n then ([], Invalid)
          else (case read_frames K accepts (n + 1) rest of (fs, stop) \<Rightarrow> (f # fs, stop)))"
  by pat_completeness auto
termination
  by (relation "measure (\<lambda>(K, accepts, n, bs). length (flat bs))") (auto dest: read_frame_shrinks)

declare read_frames.simps [simp del]

section \<open>What the scan refuses\<close>

text \<open>
  The string tokens of a byte sequence and whether a colon follows: the reading the index loops of
  \<^verbatim>\<open>reject_reserved_number_keys\<close> implement.
\<close>

fun take_string :: "string \<Rightarrow> (string \<times> string) option" where
  "take_string [] = None"
| "take_string (c # cs) =
     (if c = CHR 0x5C then
        (case cs of [] \<Rightarrow> None | d # ds \<Rightarrow> map_option (\<lambda>(b, r). (c # d # b, r)) (take_string ds))
      else if c = CHR 0x22 then Some ([c], cs)
      else map_option (\<lambda>(b, r). (c # b, r)) (take_string cs))"

lemma take_string_append: "take_string s = Some (b, r) \<Longrightarrow> s = b @ r \<and> b \<noteq> []"
  by (induction s arbitrary: b r rule: take_string.induct) (fastforce split: if_splits list.splits)+

function json_strings :: "string \<Rightarrow> (string \<times> bool) list option" where
  "json_strings [] = Some []"
| "json_strings (c # cs) =
     (if c \<noteq> CHR 0x22 then json_strings cs
      else (case take_string cs of
        None \<Rightarrow> None
      | Some (b, r) \<Rightarrow>
          (let r' = dropWhile is_ascii_whitespace r
           in map_option (\<lambda>ts. (c # b, r' \<noteq> [] \<and> hd r' = CHR '':'') # ts) (json_strings r'))))"
  by pat_completeness auto
termination
proof (relation "measure length", goal_cases)
  case (3 c cs x b r r')
  then have "length r' \<le> length r" "length r < length (c # cs)"
    using take_string_append [of cs b r] length_dropWhile_le by auto
  then show ?case by simp
qed auto

text \<open>The keys a decoder may see, with the scan's verdict on one of them.\<close>

definition key_allowed :: "'c worker_codec \<Rightarrow> string \<times> bool \<Rightarrow> bool" where
  "key_allowed K t \<longleftrightarrow> (snd t \<longrightarrow> (\<exists>key. key_text K (fst t) = Some key \<and> key \<noteq> reserved_key))"

lemma key_allowed_simps [simp]:
  "key_allowed K (t, False)"
  "key_allowed K (t, True) \<longleftrightarrow> (\<exists>key. key_text K t = Some key \<and> key \<noteq> reserved_key)"
  by (simp_all add: key_allowed_def)

lemma string_end_take:
  "string_end bs i = map_option (\<lambda>(b, r). length bs - length r) (take_string (drop i bs))"
proof (induction bs i rule: string_end.induct)
  case (1 bs i)
  show ?case
  proof (cases "length bs \<le> i")
    case True
    then show ?thesis by (subst string_end.simps) simp
  next
    case False
    then obtain cs where cs: "drop i bs = bs ! i # cs" "cs = drop (Suc i) bs"
      by (metis Cons_nth_drop_Suc not_le)
    have two: "drop (i + 2) bs = (case cs of [] \<Rightarrow> [] | d # ds \<Rightarrow> ds)"
      using cs(2) by (metis (no_types, lifting) add_2_eq_Suc' drop_Suc list.case_eq_if tl_Nil tl_drop)
    show ?thesis using 1 False cs two
      by (subst string_end.simps) (auto split: list.splits simp: option.map_comp comp_def split_def)
  qed
qed

lemma skip_whitespace_drop:
  "drop (skip_whitespace bs i) bs = dropWhile is_ascii_whitespace (drop i bs)"
proof (induction bs i rule: skip_whitespace.induct)
  case (1 bs i)
  show ?case
  proof (cases "i < length bs")
    case True
    then have "drop i bs = bs ! i # drop (Suc i) bs" by (simp add: Cons_nth_drop_Suc)
    then show ?thesis using 1 True by (subst skip_whitespace.simps) auto
  next
    case False
    then show ?thesis by (subst skip_whitespace.simps) simp
  qed
qed

lemma reject_scan_tokens:
  "reject_scan K bs i = Ok () \<longleftrightarrow>
     (\<exists>ts. json_strings (drop i bs) = Some ts \<and> list_all (key_allowed K) ts)"
proof (induction K bs i rule: reject_scan.induct)
  case (1 K bs i)
  show ?case
  proof (cases "length bs \<le> i")
    case True
    then show ?thesis by (subst reject_scan.simps) simp
  next
    case in_range: False
    then have d: "drop i bs = bs ! i # drop (Suc i) bs" by (simp add: Cons_nth_drop_Suc)
    show ?thesis
    proof (cases "bs ! i = CHR 0x22")
      case False
      then show ?thesis using 1(1) in_range d by (subst reject_scan.simps) simp
    next
      case quote: True
      show ?thesis
      proof (cases "take_string (drop (Suc i) bs)")
        case None
        then have "string_end bs (i + 1) = None" by (simp add: string_end_take)
        then show ?thesis using None in_range quote d by (subst reject_scan.simps) simp
      next
        case (Some br)
        obtain b r where br: "br = (b, r)" by (cases br)
        have split: "drop (Suc i) bs = b @ r" "b \<noteq> []" using take_string_append Some br by auto
        define e where "e = length bs - length r"
        have e: "string_end bs (i + 1) = Some e" using Some br by (simp add: string_end_take e_def)
        have le: "length b + length r = length bs - Suc i"
          using split(1) by (metis length_append length_drop)
        then have "e = Suc i + length b" using in_range by (simp add: e_def)
        then have "drop e bs = drop (length b) (drop (Suc i) bs)" by (simp add: add.commute)
        then have "drop e bs = r" using split(1) by simp
        have tok: "take (e - i) (drop i bs) = bs ! i # b"
          using d split(1) \<open>e = Suc i + length b\<close> by simp
        define j where "j = skip_whitespace bs e"
        have j: "drop j bs = dropWhile is_ascii_whitespace r"
          using \<open>drop e bs = r\<close> by (simp add: j_def skip_whitespace_drop)
        have colon: "j < length bs \<and> bs ! j = CHR '':'' \<longleftrightarrow> drop j bs \<noteq> [] \<and> hd (drop j bs) = CHR '':''"
          by (auto simp: hd_drop_conv_nth)
        have js: "json_strings (drop i bs) = map_option
            (\<lambda>ts. (bs ! i # b, drop j bs \<noteq> [] \<and> hd (drop j bs) = CHR '':'') # ts) (json_strings (drop j bs))"
          using Some br quote d j by (simp add: Let_def)
        show ?thesis
        proof (cases "drop j bs \<noteq> [] \<and> hd (drop j bs) = CHR '':''")
          case True
          then show ?thesis
            using 1(2) [OF _ _ e] in_range quote e tok js colon
            by (subst reject_scan.simps) (auto simp: Let_def j_def split: option.splits)
        next
          case False
          then show ?thesis
            using 1(3) [OF _ _ e] in_range quote e tok js colon
            by (subst reject_scan.simps) (auto simp: Let_def j_def split: option.splits)
        qed
      qed
    qed
  qed
qed

section \<open>Bounds of command parameters\<close>

definition params_visit :: "json \<Rightarrow> nat \<Rightarrow> nat \<Rightarrow> nat option" where
  "params_visit v d n = (case bounded_params v d n of (ok, m) \<Rightarrow> if ok then Some m else None)"

lemma bounded_items_visit:
  "visit_entries (\<lambda>_. True) (\<lambda>x m. params_visit x d m) (map (\<lambda>v. (None, v)) vs) n =
     (case bounded_items vs d n of (ok, m) \<Rightarrow> if ok then Some m else None)"
  by (induction vs arbitrary: n) (auto simp: params_visit_def split: prod.splits)

lemma bounded_fields_visit:
  "visit_entries (\<lambda>_. True) (\<lambda>x m. params_visit x d m) (map (\<lambda>(k, v). (Some k, v)) fs) n =
     (case bounded_fields fs d n of (ok, m) \<Rightarrow> if ok then Some m else None)"
  by (induction fs arbitrary: n) (auto simp: params_visit_def split: prod.splits)

interpretation wp: budgeted_visit params_visit 8 512 "\<lambda>_. True"
proof
  fix v d n
  show "params_visit v d n = (if 8 < d \<or> 512 < Suc n then None
     else visit_entries (\<lambda>_. True) (\<lambda>x m. params_visit x (Suc d) m) (entries v) (Suc n))"
    using bounded_items_visit bounded_fields_visit
    by (cases v) (auto simp: params_visit_def [of "JArray _"] params_visit_def [of "JObject _"]
        params_visit_def [of JNull] params_visit_def [of "JBool _"] params_visit_def [of "JNumber _"]
        params_visit_def [of "JString _"])
qed

lemma keys_ok_True [simp]: "keys_ok (\<lambda>_. True) v"
  by (induction v rule: jnodes.induct) (subst keys_ok.simps, simp add: list_all_iff option.pred_True)

interpretation worker_token: byte_class valid_token 128 token_byte
  by unfold_locales (auto simp: valid_token_def token_byte_def list_all_iff)

section \<open>Properties\<close>

text \<open>
  Reading a command does not depend on how the pipe buffers its bytes: two streams with the
  same bytes give the same frame, the same error, and leave the same bytes unread.
\<close>

theorem read_frame_buffering:
  assumes "live bs" "live cs" "flat bs = flat cs"
  shows "map_sum id (map_prod id flat) (read_frame K bs) = map_sum id (map_prod id flat) (read_frame K cs)"
proof -
  have factor: "map_sum id (map_prod id flat) (read_frame K xs) =
      rbind (map_sum id (map_prod id flat) (worker_gather [] xs)) (\<lambda>(line, rest).
        case line of None \<Rightarrow> Ok (None, rest) | Some l \<Rightarrow> rbind (decode_line K l) (\<lambda>f. Ok (Some f, rest)))" for xs
  proof (cases "worker_gather [] xs")
    case (Inr r)
    then show ?thesis
      by (cases r; cases "fst r") (cases "decode_line K (the (fst r))"; simp add: read_frame_def)+
  qed (simp add: read_frame_def)
  show ?thesis using wf.gather_chunking [OF assms] by (simp add: factor)
qed

definition sample_codec :: "unit worker_codec" where
  "sample_codec = \<lparr>value_bytes = (\<lambda>_. Some ''{}''), key_text = (\<lambda>s. Some (butlast (tl s))),
     frame_value = (\<lambda>s. if s = ''x'' then Some (FCancel ''r1'') else None)\<rparr>"

theorem read_frame_buffering_witness:
  "map_sum id (map_prod id flat) (read_frame sample_codec [Some ''x'', Some [newline, CHR ''y'']]) =
   map_sum id (map_prod id flat) (read_frame sample_codec [Some (''x'' @ [newline] @ ''y'')])"
  by (rule read_frame_buffering) simp_all

text \<open>
  The index loops of the reserved-key scan accept exactly the byte sequences whose string
  tokens all close and whose keys (the tokens before a colon) all decode to something other than
  serde's private number key.
\<close>

theorem reserved_key_scan:
  "reject_reserved_number_keys K bs = Ok () \<longleftrightarrow>
     (\<exists>ts. json_strings bs = Some ts \<and> list_all (key_allowed K) ts)"
  by (simp add: reject_reserved_number_keys_def reject_scan_tokens)

lemma bounded_params_bounds: "fst (bounded_params v 0 0) \<longleftrightarrow> jdepth v \<le> 8 \<and> jnodes v \<le> 512"
proof -
  have "fst (bounded_params v 0 0) \<longleftrightarrow> params_visit v 0 0 \<noteq> None"
    by (simp add: params_visit_def split: prod.splits)
  then show ?thesis using wp.visit_ok [of v] by simp
qed

text \<open>
  The early-exit traversal that threads a counter through action parameters accepts exactly the
  values nested at most eight deep with at most 512 nodes.
\<close>

theorem bounded_params_exact: "fst (bounded_params v 0 0) \<longleftrightarrow> jdepth v \<le> 8 \<and> jnodes v \<le> 512"
  by (rule bounded_params_bounds)

text \<open>
  The output thread writes whole frames only, in queue order, and none that its sender was
  not told about: what the pipe took is the concatenation of the frames reported written, and a
  frame whose deadline had passed when it left the queue is never among them.
\<close>

theorem write_frames_whole:
  assumes "write_frames xs = (out, told)"
  shows "out = concat (map (\<lambda>(x, r). out_bytes (fst x)) (filter (\<lambda>(x, r). r = Ok ()) (zip xs told)))
    \<and> (\<forall>((frame, now, accepted), r) \<in> set (zip xs told). r = Ok () \<longrightarrow>
          accepted \<and> (\<forall>deadline. expires_at frame = Some deadline \<longrightarrow> now < deadline))"
  using assms
  by (induction xs arbitrary: out told rule: write_frames.induct)
    (auto split: prod.splits if_splits option.splits)

theorem write_frames_whole_witness:
  "fst (write_frames [(\<lparr>out_bytes = ''a'', expires_at = Some 5\<rparr>, 9, True),
      (\<lparr>out_bytes = ''b'', expires_at = None\<rparr>, 9, True)]) = ''b''"
  using write_frames_whole [of "[(\<lparr>out_bytes = ''a'', expires_at = Some 5\<rparr>, 9, True),
      (\<lparr>out_bytes = ''b'', expires_at = None\<rparr>, 9, True)]" "''b''"
      "[Err ''worker response expired'', Ok ()]"] by simp

end
