(* ===== verification/Spec2Isabelle.thy ===== *)
theory Spec2Isabelle
  imports Package Replies GatewayActions ConnectionRuns SettingsCommit HaNumericExact HostMedia WorkerProtocol
begin

text \<open>
  A verification library for \<^verbatim>\<open>inverter-desktop\<close>, a Tauri desktop application. It has two halves: the
  host of signed plugins, which run as separate worker processes and exchange newline-delimited JSON frames
  with it, and the dashboard, which follows an inverter installation through a remote gateway and sends it
  commands. Paths are relative to \<^verbatim>\<open>src-tauri/src/plugins\<close> in the first list (unless they start with
  \<^verbatim>\<open>desktop-plugins\<close>) and to \<^verbatim>\<open>src-tauri/src\<close> in the second.

  \<^bold>\<open>The plugin host, and the theory that models each part.\<close>
  \<^item> \<open>Prelude\<close>, \<open>Json\<close>, \<open>Framing\<close>, \<open>Samples\<close>: results, bytes and text, JSON values and their bounded
    traversal, newline framing over any buffering, and concrete stand-ins for third-party operations.
  \<^item> \<open>Wire\<close>: the data of \<^verbatim>\<open>protocol.rs\<close>, \<^verbatim>\<open>presentation.rs\<close> and \<^verbatim>\<open>settings_choices.rs\<close> (messages,
    contributions, views, manifests) with their limits, and the record \<open>ext\<close> of operations that belong to
    third-party crates: serde's text encodings, the url and semver parsers, header values.
  \<^item> \<open>Checks\<close>, \<open>Contributions\<close>, \<open>Presentations\<close>, \<open>Messages\<close>, \<open>Manifest\<close>: the validators of
    \<^verbatim>\<open>protocol.rs\<close> and \<^verbatim>\<open>presentation.rs\<close>, in the order the host applies them to a frame or a manifest.
  \<^item> \<open>MediaGrants\<close>: the media and live-view authority \<^verbatim>\<open>protocol.rs\<close> derives from a manifest and a
    configuration; \<open>LiveUrls\<close>: the camera topics and endpoints of
    \<^verbatim>\<open>desktop-plugins/camera-common/src/live_urls.rs\<close>.
  \<^item> \<open>Archive\<close>, \<open>Package\<close>: the byte-level scan of a plugin ZIP and the verification of \<^verbatim>\<open>package.rs\<close>
    and \<^verbatim>\<open>publishers.rs\<close>; signatures, hashes and the ZIP reader are parameters.
  \<^item> \<open>SettingsChoices\<close>: the paged catalog of \<^verbatim>\<open>settings_choices.rs\<close>.
  \<^item> \<open>WorkerProtocol\<close>: the worker's end of the pipe, \<^verbatim>\<open>desktop-plugins/worker-protocol/src/lib.rs\<close>.
  \<^item> \<open>HaJson\<close>, \<open>HaNumeric\<close>, \<open>HaNumericExact\<close>: the numbers of the Home Assistant plugin,
    \<^verbatim>\<open>desktop-plugins/home-assistant/src/numeric.rs\<close>: literals as exact decimals, limits, the value of a service.
  \<^item> \<open>Entries\<close>, \<open>Admission\<close>: generation leases (\<^verbatim>\<open>generation.rs\<close>) and the per-worker operations of
    \<^verbatim>\<open>runtime.rs\<close>: queues, numeric leases, replacement of contributions, revocation.
  \<^item> \<open>Pipes\<close>: the host's end of the pipe (\<^verbatim>\<open>write_frames\<close>, \<^verbatim>\<open>read_frame\<close>, \<^verbatim>\<open>WorkerPipes\<close>).
  \<^item> \<open>Supervision\<close>: one worker process from spawn to exit: \<^verbatim>\<open>spawn_generation\<close>, \<^verbatim>\<open>handle_frame\<close>,
    \<^verbatim>\<open>handle_control\<close>, the select loop of \<^verbatim>\<open>run_generation\<close> as \<open>generation_step\<close>, the restart loop of
    \<^verbatim>\<open>supervise\<close> as \<open>supervise_step\<close> over explicit phases.
  \<^item> \<open>Host\<close>: \<^verbatim>\<open>PluginHost\<close>: registry, authority epochs, registration, actions, delivery, shutdown.
  \<^item> \<open>Invariant\<close>, \<open>Numeric\<close>, \<open>Runs\<close>: what every operation of one entry keeps, the numeric leases across a
    replacement of contributions, the state of a select loop. \<open>HostInvariant\<close>, \<open>HostSteps\<close>,
    \<open>HostAuthority\<close>, \<open>HostReachable\<close>: the invariant of the host, its preservation by each operation, and the
    step relation with its reachable states (\<open>calm_step\<close> has every operation but the supervisor's). \<open>HostProperties\<close>:
    what holds in all of them. \<open>HostMedia\<close>: every media request of one registration, over the whole life of the host.
  \<^item> \<open>Replies\<close>: the loop of \<^verbatim>\<open>run_generation\<close> over its events, and the books that show each action request
    answered exactly once.
  \<^item> \<open>SettingsSchema\<close>, \<open>SettingsValues\<close> (\<^verbatim>\<open>settings.rs\<close>): the schema a package declares with the editor's own schema
    language, and saved settings under it: the view, the merge of an edit, a worker's configuration.
    \<open>SettingsStore\<close> (\<^verbatim>\<open>settings_store.rs\<close>): the directory of encrypted records, its prepared writes and its
    bounds; the listing of the directory is the state, and each kind of file operation may fail.
    \<open>SettingsSafety\<close>: secrets, merges and configurations under any compiled schema; \<open>SettingsCommit\<close>: what readers
    see of a write while its steps fail.

  \<^bold>\<open>The dashboard, and the theory that models each part.\<close>
  \<^item> \<open>Floats\<close>: IEEE double arithmetic, rounding and parsing as executable functions on rationals, with the
    conversions of Rust's \<^verbatim>\<open>as\<close> and of serde's numbers.
  \<^item> \<open>InverterControl\<close> (\<^verbatim>\<open>inverter_control.rs\<close>): flags, mode and tariff envelopes, the canonical toggle.
  \<^item> \<open>Telemetry\<close> (\<^verbatim>\<open>mqtt.rs\<close>): the dashboard state \<^verbatim>\<open>InverterState\<close> and its conversions.
  \<^item> \<open>Gateway\<close> (\<^verbatim>\<open>gateway.rs\<close>): a snapshot and the state it becomes, \<^verbatim>\<open>snapshot_to_state\<close>.
  \<^item> \<open>GatewayNotifications\<close> (\<^verbatim>\<open>gateway/notifications.rs\<close>): the tracker of notification slots.
  \<^item> \<open>GatewayClient\<close> (\<^verbatim>\<open>gateway.rs\<close>): the polling loop; each answer is an event, what the user interface
    is sent is a list of events.
  \<^item> \<open>GatewayActions\<close> (\<^verbatim>\<open>gateway_actions.rs\<close>): the allowlisted commands and the setpoint override with its
    acknowledgement; what each await resolves to, and when, is an input.
  \<^item> \<open>Cerbo\<close> (\<^verbatim>\<open>mqtt.rs\<close>, \<^verbatim>\<open>mqtt/cerbo.rs\<close>): devices discovered on the Cerbo's broker, its topics and
    payloads. \<open>Overlay\<close> (\<^verbatim>\<open>mqtt/cerbo.rs\<close>): what the devices say about the dashboard state,
    \<^verbatim>\<open>apply_cerbo_to_state\<close>, and the throttled cache of the vehicle.
  \<^item> \<open>Daemon\<close> (\<^verbatim>\<open>mqtt.rs\<close>, \<^verbatim>\<open>mqtt/lifecycle.rs\<close>): the merge of a daemon message, local alerts, and the
    coalescing of state events. \<open>Alarms\<close> (\<^verbatim>\<open>mqtt.rs\<close>): banners of notification slots and raw alarms.
  \<^item> \<open>CerboClient\<close> (\<^verbatim>\<open>mqtt.rs\<close>): \<^verbatim>\<open>handle_message\<close> over the state \<open>desk\<close> of the MQTT client, and the commands
    it publishes. A panic of the handler is \<open>None\<close>. \<open>DaemonIsolation\<close>, \<open>DeskRuns\<close>, \<open>DeskSafety\<close>: what
    holds of one message, of each step and of every reachable client.
  \<^item> \<open>EmitterRuns\<close>: the emitter over any interleaving of offers and flush tasks. \<open>Connection\<close> (\<^verbatim>\<open>mqtt.rs\<close>): the
    client's connection, its reconnect delays, subscriptions and shutdown, as \<open>session_step\<close> over what the event
    loop delivers; \<open>ConnectionRuns\<close>: what holds of every run of it.

  \<^bold>\<open>How state corresponds.\<close> A struct is a record, an enum a datatype, a fixed-width integer a word or a
  bounded \<open>int\<close>/\<open>nat\<close> with its limits written out. Text is its UTF-8 bytes as a \<open>string\<close>. A fallible
  function returns \<open>'a res\<close>, with the code's error text. A hash map whose order the code never observes is
  a map or an association list with distinct keys. Reference-counted state (leases, numeric leases) lives in
  a store indexed by identity, so aliasing in the code is equality of references in the model. Instants and
  durations are nanoseconds.

  \<^bold>\<open>What the lemmas show.\<close> Every validator is characterised by the declarative condition it accepts; the
  scan of an archive is shown to tile the file; loops with early exits equal their specifications; the
  locale \<open>budgeted_visit\<close> covers both bounded JSON traversals, \<open>byte_class\<close> the token checks,
  \<open>frame_reader\<close> the framing loops, \<open>remembering\<close> the memories with a time to live; each is interpreted on
  the code's own definitions. The numbered properties are stated over the operations themselves. Hypotheses
  about third-party code are those of its documentation: the serialiser of the wire is one and the same at both ends,
  encryption opens what it sealed under the same key and associated data. Nothing is assumed of the text of
  saved settings, so a committed record reads as what the decoder makes of that text. The check of a media
  URL's path looks behind the first \<^verbatim>\<open>://\<close> of its text: \<open>media_path_canonical\<close> speaks of URLs written with two slashes after
  the scheme, \<open>media_path_unchecked\<close> of those for which that part has no path.

  \<^bold>\<open>Bounds and termination.\<close> No definition uses fuel: loops are structural over the bytes, entries or items
  they consume. The wait for an override runs over the list of its rounds and is \<open>None\<close> when they run out;
  \<open>override_terminates\<close> shows that fifty-one rounds are enough.

  \<^bold>\<open>Concurrency.\<close> What an \<^verbatim>\<open>async\<close> operation does between two awaits, or under the authority guard, is one
  step; steps of different tasks interleave freely. \<^verbatim>\<open>revoke_generation\<close> is one step although the code takes
  the entry's locks one after another, and a handled frame reads the clock once. \<^verbatim>\<open>RevokeOnDrop\<close> repeats a
  revocation the supervisor has made and is not modelled.

  \<^bold>\<open>Not modelled.\<close> Task scheduling and process creation (\<^verbatim>\<open>tokio\<close>, sandboxing) are represented only by the
  events they deliver; \<^verbatim>\<open>Path::is_absolute\<close> is that of the Unix targets. Tauri glue (\<^verbatim>\<open>lib.rs\<close>,
  \<^verbatim>\<open>main.rs\<close>, \<^verbatim>\<open>tray\<close>, \<^verbatim>\<open>bridge.rs\<close>, window management) is I/O, as are TLS, HTTP
  requests, the periodic publish of the keepalive task and the probe before a connection. Installation and
  migration are file-system transactions around the verified package, and the plugins' own programs, apart
  from the parts listed above, run in other processes behind the wire protocol; neither is modelled. A poisoned lock is never met: no step
  of the model panics while it holds one, other than the alarm name of \<open>alarm_panics\<close> in \<open>Connection\<close>, which holds none.
\<close>

section \<open>From the host's writer to the worker's reader\<close>

lemma host_frame_read:
  assumes "live bs" and "flat bs = (p @ [newline]) @ rest" and "length p < MAX_FRAME_BYTES"
    and "newline \<notin> set p" and "carriage_return \<notin> set p" and "frame_value K p = Some f"
  shows "map_sum id (map_prod id flat) (read_frame K bs) = rbind (reject_reserved_number_keys K p) (\<lambda>_.
    if command_ok K f then Ok (Some f, rest) else Err ''invalid host frame'')"
proof -
  have "first_line (flat bs) = Some (p @ [newline], rest)"
    using assms(2,4) first_line_append [of p "newline # rest"] by (simp add: first_line_def)
  then have "map_sum id (map_prod id flat) (worker_gather [] bs) = Ok (Some (p @ [newline]), rest)"
    using wf.gather_flat [of bs "[]"] assms(1,3) by (simp add: wf.frame_of_def)
  then obtain r where r: "worker_gather [] bs = Ok (Some (p @ [newline]), r)" "flat r = rest"
    by (cases "worker_gather [] bs") auto
  have "p = [] \<or> last p \<noteq> carriage_return" using assms(5) last_in_set by metis
  then have "strip_line_end (p @ [newline]) = p" by (auto simp: strip_line_end_def Let_def)
  then have "decode_line K (p @ [newline]) = rbind (reject_reserved_number_keys K p) (\<lambda>_.
      if command_ok K f then Ok f else Err ''invalid host frame'')"
    using assms(6) by (simp add: decode_line_def ok_or_def validate_command_def)
  with r show ?thesis by (cases "reject_reserved_number_keys K p") (simp_all add: read_frame_def)
qed

text \<open>
  C24. What the host writes for an action is what the worker's reader returns, whatever the pipe
  does to its buffering, if no key in the frame is the serialiser's private number key and the deadline is at most
  30 seconds. With such a key, which the host does not look for, the worker refuses the frame at any deadline; and
  so it does with a longer deadline, which the host's own validation admits up to 60 seconds. The hypotheses say
  that both ends use one serialiser: its compact output has no line breaks, this output decodes to the message, and
  the parameters have the same bytes on both sides.
\<close>

theorem action_frame_crosses:
  assumes "encode_host_frame X (Action rid aid ps deadline) = Ok bytes"
    and "enc_host X (Action rid aid ps deadline) = Ok p" and "newline \<notin> set p" and "carriage_return \<notin> set p"
    and "frame_value K p = Some (FAction rid aid ps deadline received)"
    and "value_bytes K ps = ok_option (enc_json X ps)"
    and "live bs" and "flat bs = bytes @ rest"
  shows "if \<exists>ts. json_strings p = Some ts \<and> list_all (key_allowed K) ts
    then map_sum id (map_prod id flat) (read_frame K bs) =
      (if deadline \<le> 30000 then Ok (Some (FAction rid aid ps deadline received), rest)
       else Err ''invalid host frame'')
    else \<exists>e. read_frame K bs = Err e"
proof -
  obtain q where q: "host_body X (Action rid aid ps deadline) = Ok ()" "enc_host X (Action rid aid ps deadline) = Ok q"
    "length q < HOST_MAX_FRAME_BYTES" "bytes = q @ [newline]"
    using assms(1) unfolding encode_host_frame_Ok by blast
  with assms(2) have p: "bytes = p @ [newline]" "length p < MAX_FRAME_BYTES"
    by (simp_all add: HOST_MAX_FRAME_BYTES_def MAX_FRAME_BYTES_def)
  have body: "token rid ''request_id'' = Ok ()" "token aid ''action_id'' = Ok ()" "is_object ps"
    "jdepth ps \<le> 8" "jnodes ps \<le> 512" "1 \<le> deadline"
    "\<exists>b. enc_json X ps = Ok b \<and> length b \<le> 4096"
    using q(1) by (auto simp: validate_action_params_def bounded_json_def bounded_json_depth_Ok result_simps limit_defs)
  have tok: "valid_token rid" "valid_token aid"
    using body(1,2) by (auto simp: token_Ok valid_token_def token_byte_def list_all_iff)
  have "command_ok K (FAction rid aid ps deadline received) \<longleftrightarrow> deadline \<le> 30000"
    using body tok assms(6) bounded_params_bounds [of ps] by (auto simp: ok_option_def)
  with host_frame_read [OF assms(7) _ p(2) assms(3,4,5), of rest] p(1) assms(8)
  have "map_sum id (map_prod id flat) (read_frame K bs) = rbind (reject_reserved_number_keys K p) (\<lambda>_.
      if deadline \<le> 30000 then Ok (Some (FAction rid aid ps deadline received), rest) else Err ''invalid host frame'')"
    by simp
  moreover have "reject_reserved_number_keys K p = Ok () \<longleftrightarrow> (\<exists>ts. json_strings p = Some ts \<and> list_all (key_allowed K) ts)"
    using reject_scan_tokens [of K p 0] by (simp add: reject_reserved_number_keys_def)
  ultimately show ?thesis
    by (cases "reject_reserved_number_keys K p"; cases "read_frame K bs") auto
qed

definition crossing_codec :: "unit worker_codec" where
  "crossing_codec = \<lparr>value_bytes = (\<lambda>_. Some ''{}''), key_text = (\<lambda>s. Some s),
     frame_value = (\<lambda>_. Some (FAction ''7'' ''on'' (JObject []) 5000 0))\<rparr>"

theorem action_frame_crosses_witness:
  "map_sum id (map_prod id flat) (read_frame crossing_codec [Some ''{'', Some (''}'' @ [newline])]) =
     Ok (Some (FAction ''7'' ''on'' (JObject []) 5000 0), [])"
proof -
  have e: "encode_host_frame sample_ext (Action ''7'' ''on'' (JObject []) 5000) = Ok (''{}'' @ [newline])" by code_simp
  have h: "enc_host sample_ext (Action ''7'' ''on'' (JObject []) 5000) = Ok ''{}''" by (simp add: sample_ext_def)
  have f: "frame_value crossing_codec ''{}'' = Some (FAction ''7'' ''on'' (JObject []) 5000 0)"
    by (simp add: crossing_codec_def)
  have "json_strings ''{}'' = Some []" by code_simp
  then have k: "\<exists>ts. json_strings ''{}'' = Some ts \<and> list_all (key_allowed crossing_codec) ts"
    by (intro exI [of _ "[]"]) simp
  have v: "value_bytes crossing_codec (JObject []) = ok_option (enc_json sample_ext (JObject []))"
    by (simp add: crossing_codec_def sample_ext_def ok_option_def)
  from action_frame_crosses [OF e h _ _ f v, of "[Some ''{'', Some (''}'' @ [newline])]" "[]"] k show ?thesis by simp
qed

end
